(* ===== verification/Prelude.thy ===== *)
theory Prelude
  imports Main "HOL-Library.AList" "HOL-Library.Multiset"
begin

text \<open>
  Shared vocabulary of the development: Go errors as values, Go maps as an interface with its
  laws, loops with an early return, 64-bit integers, and the lemma collections the component
  theories feed and use.

  Go strings and byte slices are byte sequences, so both are \<^typ>\<open>string\<close> here (a
  \<^typ>\<open>char\<close> is one octet).
\<close>

type_synonym bytes = string

named_theorems go_simps \<open>unfolding rules for the small helper definitions of the model\<close>
named_theorems go_inv \<open>preservation rules: one per operation, used by the loop invariants\<close>


section \<open>Errors as values\<close>

text \<open>
  \<open>ErrNew\<close> is \<^verbatim>\<open>errors.New\<close> (also an opaque error of foreign code), \<open>ErrMsg\<close> a
  \<^verbatim>\<open>fmt.Errorf\<close> without a wrapped error, \<open>ErrWrap\<close> one with \<^verbatim>\<open>%w\<close>. A \<open>Quo\<close> piece is an
  argument formatted with \<^verbatim>\<open>%q\<close>; it is kept unquoted so that \<^verbatim>\<open>strconv.Quote\<close> stays an
  argument of the rendering.
\<close>

datatype piece = Lit string | Quo string

datatype go_error =
    ErrNew string
  | ErrMsg "piece list"
  | ErrWrap "piece list" go_error "piece list"

type_synonym 'a result = "go_error + 'a"

fun piece_text :: "(string \<Rightarrow> string) \<Rightarrow> piece \<Rightarrow> string" where
  "piece_text quote (Lit s) = s"
| "piece_text quote (Quo s) = quote s"

fun err_text :: "(string \<Rightarrow> string) \<Rightarrow> go_error \<Rightarrow> string" where
  "err_text quote (ErrNew s) = s"
| "err_text quote (ErrMsg ps) = concat (map (piece_text quote) ps)"
| "err_text quote (ErrWrap ps e qs) =
     concat (map (piece_text quote) ps) @ err_text quote e @ concat (map (piece_text quote) qs)"

text \<open>\<^verbatim>\<open>errors.Is\<close>: the error itself or one it wraps.\<close>

fun err_is :: "go_error \<Rightarrow> go_error \<Rightarrow> bool" where
  "err_is (ErrNew s) t = (ErrNew s = t)"
| "err_is (ErrMsg ps) t = (ErrMsg ps = t)"
| "err_is (ErrWrap ps e qs) t = (ErrWrap ps e qs = t \<or> err_is e t)"

abbreviation wrapf :: "string \<Rightarrow> go_error \<Rightarrow> go_error" where
  "wrapf prefix e \<equiv> ErrWrap [Lit prefix] e []"

lemma err_is_refl [simp]: "err_is e e"
  by (cases e) auto


section \<open>Loops with an early return\<close>

text \<open>
  A Go \<^verbatim>\<open>for range\<close> body that may \<^verbatim>\<open>return\<close> an error, as a function from the loop state to an
  optional error and the next state. The first error ends the loop and keeps the state reached.
\<close>

fun foreach :: "('x \<Rightarrow> 's \<Rightarrow> 'e option \<times> 's) \<Rightarrow> 'x list \<Rightarrow> 's \<Rightarrow> 'e option \<times> 's" where
  "foreach body [] s = (None, s)"
| "foreach body (x # xs) s =
     (case body x s of
        (Some e, s') \<Rightarrow> (Some e, s')
      | (None, s') \<Rightarrow> foreach body xs s')"

text \<open>The invariant rule every loop of the model is proved with.\<close>

lemma foreach_inv:
  assumes "I s"
    and "\<And>x s. x \<in> set xs \<Longrightarrow> I s \<Longrightarrow> I (snd (body x s))"
  shows "I (snd (foreach body xs s))"
  using assms
proof (induction xs arbitrary: s)
  case Nil
  then show ?case by simp
next
  case (Cons x xs)
  obtain e s' where b: "body x s = (e, s')" by fastforce
  with Cons.prems have "I s'" by (metis list.set_intros(1) snd_conv)
  with Cons b show ?case by (cases e) auto
qed

text \<open>
  The same rule with the elements already processed: \<open>I done s\<close> is indexed by the prefix of
  the list, and the conclusion for a loop that ran to its end is \<open>I xs\<close>.
\<close>

lemma foreach_inv_prefix:
  assumes "foreach body xs s = (None, s')"
    and "I [] s"
    and "\<And>done x rest s t. xs = done @ x # rest \<Longrightarrow> I done s \<Longrightarrow> body x s = (None, t) \<Longrightarrow>
           I (done @ [x]) t"
  shows "I xs s'"
proof -
  have "I xs s'" if "foreach body ys t = (None, s')" and "I done t" and "xs = done @ ys"
    for ys t "done"
    using that
  proof (induction ys arbitrary: t "done")
    case Nil
    then show ?case by simp
  next
    case (Cons y ys)
    obtain e u where b: "body y t = (e, u)" by fastforce
    with Cons.prems(1) have e: "e = None" and rest: "foreach body ys u = (None, s')"
      by (cases e; simp)+
    from assms(3) [OF Cons.prems(3) Cons.prems(2)] b e have "I (done @ [y]) u" by simp
    with Cons.IH [OF rest] Cons.prems(3) show ?case by simp
  qed
  from this [OF assms(1,2)] show ?thesis by simp
qed

lemma foreach_append:
  "foreach body (xs @ ys) s =
     (case foreach body xs s of
        (Some e, s') \<Rightarrow> (Some e, s')
      | (None, s') \<Rightarrow> foreach body ys s')"
  by (induction xs arbitrary: s) (auto split: prod.splits option.splits)

lemma foreach_cong_inv:
  assumes "I s"
    and "\<And>x s. x \<in> set xs \<Longrightarrow> I s \<Longrightarrow> f x s = g x s \<and> I (snd (g x s))"
  shows "foreach f xs s = foreach g xs s"
  using assms
proof (induction xs arbitrary: s)
  case Nil
  then show ?case by simp
next
  case (Cons x xs)
  then have eq: "f x s = g x s" and I: "I (snd (g x s))" by auto
  obtain e s' where b: "g x s = (e, s')" by fastforce
  with I have "I s'" by simp
  with Cons b eq show ?case by (cases e) auto
qed


section \<open>Go maps\<close>

text \<open>
  What the code relies on of a Go map: reading, writing and deleting a key, and ranging over
  the keys. \<open>keys\<close> is some enumeration; the order Go visits them in is unspecified and is a
  separate argument of the definitions that range (see \<open>go_range\<close>).
\<close>

locale go_map_laws =
  fixes get :: "'m \<Rightarrow> 'k \<Rightarrow> 'v option"
    and put :: "'k \<Rightarrow> 'v \<Rightarrow> 'm \<Rightarrow> 'm"
    and del :: "'k \<Rightarrow> 'm \<Rightarrow> 'm"
    and keys :: "'m \<Rightarrow> 'k list"
    and wf :: "'m \<Rightarrow> bool"
  assumes get_put: "get (put k v m) = (get m)(k \<mapsto> v)"
    and get_del: "get (del k m) = (get m)(k := None)"
    and keys_get: "set (keys m) = dom (get m)"
    and wf_keys: "wf m \<Longrightarrow> distinct (keys m)"
    and wf_put: "wf m \<Longrightarrow> wf (put k v m)"
    and wf_del: "wf m \<Longrightarrow> wf (del k m)"
begin

lemmas map_laws = get_put get_del keys_get wf_keys wf_put wf_del

lemma get_put_same [simp]: "get (put k v m) k = Some v"
  by (simp add: get_put)

lemma get_put_other [simp]: "k' \<noteq> k \<Longrightarrow> get (put k v m) k' = get m k'"
  by (simp add: get_put)

lemma keys_put: "set (keys (put k v m)) = insert k (set (keys m))"
  by (auto simp: keys_get get_put)

lemma keys_del: "set (keys (del k m)) = set (keys m) - {k}"
  by (auto simp: keys_get get_del)

lemma length_keys: "wf m \<Longrightarrow> length (keys m) = card (dom (get m))"
  using wf_keys [of m] keys_get [of m] by (metis distinct_card)

lemma length_keys_put:
  assumes "wf m"
  shows "length (keys (put k v m)) =
    (if get m k = None then Suc (length (keys m)) else length (keys m))"
proof -
  have fin: "finite (dom (get m))" using keys_get [of m] by (metis finite_set)
  have "length (keys (put k v m)) = card (insert k (dom (get m)))"
    using assms wf_put length_keys by (simp add: get_put)
  then show ?thesis
    using fin assms by (auto simp: length_keys card_insert_if domIff)
qed

text \<open>A whole pass of writes: the map afterwards is the old one overridden by the last write of
  each key.\<close>

lemma get_fold_put:
  "get (fold (\<lambda>(k, v). put k v) kvs m) = get m ++ map_of (rev kvs)"
  by (induction kvs arbitrary: m) (auto simp: get_put map_add_def fun_eq_iff split: option.splits)

lemma wf_fold_put: "wf m \<Longrightarrow> wf (fold (\<lambda>(k, v). put k v) kvs m)"
  by (induction kvs arbitrary: m) (auto intro: wf_put)

end

text \<open>The model of a Go map: an association list with distinct keys.\<close>

type_synonym ('k, 'v) go_map = "('k \<times> 'v) list"

definition map_get :: "('k, 'v) go_map \<Rightarrow> 'k \<Rightarrow> 'v option" where
  "map_get m k = map_of m k"

definition map_put :: "'k \<Rightarrow> 'v \<Rightarrow> ('k, 'v) go_map \<Rightarrow> ('k, 'v) go_map" where
  "map_put k v m = AList.update k v m"

definition map_del :: "'k \<Rightarrow> ('k, 'v) go_map \<Rightarrow> ('k, 'v) go_map" where
  "map_del k m = AList.delete k m"

definition map_keys :: "('k, 'v) go_map \<Rightarrow> 'k list" where
  "map_keys m = map fst m"

definition map_wf :: "('k, 'v) go_map \<Rightarrow> bool" where
  "map_wf m = distinct (map_keys m)"

lemma map_get_eq: "map_get m = map_of m"
  by (simp add: map_get_def fun_eq_iff)

interpretation gm: go_map_laws map_get map_put map_del map_keys map_wf
proof unfold_locales
  fix m :: "('a, 'b) go_map" and k :: 'a and v :: 'b
  show "map_get (map_put k v m) = (map_get m)(k \<mapsto> v)"
    by (simp add: map_get_eq map_put_def update_conv')
  show "map_get (map_del k m) = (map_get m)(k := None)"
    by (simp add: map_get_eq map_del_def delete_conv')
  show "set (map_keys m) = dom (map_get m)"
    by (simp add: map_keys_def map_get_eq dom_map_of_conv_image_fst)
  assume wf: "map_wf m"
  then show "distinct (map_keys m)" by (simp add: map_wf_def)
  from wf show "map_wf (map_put k v m)"
    by (simp add: map_wf_def map_keys_def map_put_def distinct_update)
  from wf show "map_wf (map_del k m)"
    by (simp add: map_wf_def map_keys_def map_del_def distinct_delete)
qed

lemma map_get_Nil [simp]: "map_get [] k = None"
  by (simp add: map_get_def)

lemma map_wf_Nil [simp]: "map_wf []"
  by (simp add: map_wf_def map_keys_def)

declare gm.get_put [simp] gm.get_del [simp] gm.wf_put [intro] gm.wf_del [intro]

text \<open>
  \<^verbatim>\<open>for k, v := range m\<close>. \<open>rng n\<close> is the order the \<open>n\<close>-th such loop of a function visits the
  keys in; Go leaves it unspecified, so the theorems assume nothing but that it is a
  permutation (\<open>range_order\<close>).
\<close>

type_synonym range_fn = "nat \<Rightarrow> string list \<Rightarrow> string list"

definition range_order :: "range_fn \<Rightarrow> bool" where
  "range_order rng \<longleftrightarrow> (\<forall>n xs. mset (rng n xs) = mset xs)"

definition go_range :: "range_fn \<Rightarrow> nat \<Rightarrow> (string, 'v) go_map \<Rightarrow> (string \<times> 'v) list" where
  "go_range rng n m = List.map_filter (\<lambda>k. map_option (Pair k) (map_get m k)) (rng n (map_keys m))"

lemma go_range_sound: "(k, v) \<in> set (go_range rng n m) \<Longrightarrow> map_get m k = Some v"
  by (auto simp: go_range_def List.map_filter_def)

lemma range_order_set: "range_order rng \<Longrightarrow> set (rng n xs) = set xs"
  unfolding range_order_def by (metis set_mset_mset)

lemma range_order_distinct: "range_order rng \<Longrightarrow> distinct xs \<Longrightarrow> distinct (rng n xs)"
  unfolding range_order_def by (metis mset_eq_imp_distinct_iff)

lemma go_range_iff:
  assumes "range_order rng"
  shows "(k, v) \<in> set (go_range rng n m) \<longleftrightarrow> map_get m k = Some v"
proof
  assume "map_get m k = Some v"
  moreover from this have "k \<in> set (rng n (map_keys m))"
    using range_order_set [OF assms] gm.keys_get [of m] by blast
  ultimately show "(k, v) \<in> set (go_range rng n m)"
    by (force simp: go_range_def List.map_filter_def)
qed (rule go_range_sound)

text \<open>Ranging over a map visits every entry exactly once.\<close>

lemma go_range_mset:
  assumes "range_order rng" and "map_wf m"
  shows "mset (go_range rng n m) = mset m"
proof -
  let ?f = "\<lambda>k. (k, the (map_get m k))"
  have keys: "set (rng n (map_keys m)) = dom (map_get m)"
    using range_order_set [OF assms(1)] gm.keys_get [of m] by simp
  have "go_range rng n m = map ?f (rng n (map_keys m))"
    unfolding go_range_def List.map_filter_def using keys
    by (auto intro!: map_cong arg_cong2 [where f = map] filter_True simp: comp_def domIff)
  then have "mset (go_range rng n m) = image_mset ?f (mset (map_keys m))"
    using assms(1) by (simp add: range_order_def)
  also have "\<dots> = mset (map ?f (map_keys m))" by simp
  also have "map ?f (map_keys m) = m"
    using assms(2) by (force simp: map_keys_def map_get_def map_wf_def intro: map_idI)
  finally show ?thesis .
qed

lemma map_put_same: "map_get m k = Some v \<Longrightarrow> map_put k v m = m"
  by (induction m) (auto simp: map_put_def map_get_def)

lemma map_get_in: "map_wf m \<Longrightarrow> map_get m k = Some v \<longleftrightarrow> (k, v) \<in> set m"
  by (simp add: map_get_def map_wf_def map_keys_def)


section \<open>64-bit integers\<close>

text \<open>Go's \<^verbatim>\<open>int\<close> and \<^verbatim>\<open>time.Duration\<close>: two's complement on 64 bits, kept as \<^typ>\<open>int\<close> with the
  wrap-around written out.\<close>

definition int64 :: "int \<Rightarrow> int" where
  "int64 x = (x + 2 ^ 63) mod 2 ^ 64 - 2 ^ 63"

definition in_int64 :: "int \<Rightarrow> bool" where
  "in_int64 x \<longleftrightarrow> - (2 ^ 63) \<le> x \<and> x < 2 ^ 63"

lemma int64_in [simp]: "in_int64 (int64 x)"
  by (simp add: int64_def in_int64_def)

lemma int64_id: "in_int64 x \<Longrightarrow> int64 x = x"
  by (simp add: int64_def in_int64_def)

text \<open>Go's integer division truncates towards zero.\<close>

definition go_quot :: "int \<Rightarrow> int \<Rightarrow> int" where
  "go_quot a b = (if (a < 0) = (b < 0) then \<bar>a\<bar> div \<bar>b\<bar> else - (\<bar>a\<bar> div \<bar>b\<bar>))"

definition go_rem :: "int \<Rightarrow> int \<Rightarrow> int" where
  "go_rem a b = a - b * go_quot a b"

lemma go_quot_pos: "0 \<le> a \<Longrightarrow> 0 < b \<Longrightarrow> go_quot a b = a div b"
  by (simp add: go_quot_def)

lemma go_rem_pos: "0 \<le> a \<Longrightarrow> 0 < b \<Longrightarrow> go_rem a b = a mod b"
  by (simp add: go_rem_def go_quot_pos minus_mult_div_eq_mod)

end
