(* ===== verification/Go_Strings.thy ===== *)
theory Go_Strings
  imports Prelude "HOL-Library.Sublist"
begin

text \<open>
  The functions of Go's \<^verbatim>\<open>strings\<close>, \<^verbatim>\<open>strconv\<close> and \<^verbatim>\<open>encoding/hex\<close> packages the program calls,
  on byte strings, with the laws the component theories use. Case mapping beyond ASCII needs the
  Unicode tables and is an argument (\<open>ulow\<close>).
\<close>


section \<open>Prefixes, suffixes, searching\<close>

definition has_prefix :: "string \<Rightarrow> string \<Rightarrow> bool" where
  "has_prefix s p \<longleftrightarrow> take (length p) s = p"

definition has_suffix :: "string \<Rightarrow> string \<Rightarrow> bool" where
  "has_suffix s p \<longleftrightarrow> length p \<le> length s \<and> drop (length s - length p) s = p"

definition trim_prefix :: "string \<Rightarrow> string \<Rightarrow> string" where
  "trim_prefix s p = (if has_prefix s p then drop (length p) s else s)"

lemma has_prefix_prefix: "has_prefix s p \<longleftrightarrow> prefix p s"
  by (metis append_eq_conv_conj append_take_drop_id has_prefix_def prefix_def)

lemma has_prefix_append [simp]: "has_prefix (p @ s) p"
  by (simp add: has_prefix_def)

lemma trim_prefix_append [simp]: "trim_prefix (p @ s) p = s"
  by (simp add: trim_prefix_def)

fun go_contains :: "string \<Rightarrow> string \<Rightarrow> bool" where
  "go_contains [] sub = (sub = [])"
| "go_contains (c # s) sub = (has_prefix (c # s) sub \<or> go_contains s sub)"

lemma go_contains_iff: "go_contains s sub \<longleftrightarrow> (\<exists>a b. s = a @ sub @ b)"
proof (induction s)
  case Nil
  then show ?case by auto
next
  case (Cons c s)
  have "(\<exists>a b. c # s = a @ sub @ b) \<longleftrightarrow>
      prefix sub (c # s) \<or> (\<exists>a b. s = a @ sub @ b)" (is "?L = ?R")
  proof
    assume ?L
    then obtain a b where ab: "c # s = a @ sub @ b" by blast
    show ?R
    proof (cases a)
      case Nil
      with ab show ?thesis by (auto simp: prefix_def)
    next
      case (Cons x a')
      with ab show ?thesis by auto
    qed
  next
    assume ?R
    then show ?L
      by (auto simp: prefix_def) (metis append_Cons append_Nil)+
  qed
  with Cons show ?case by (simp add: has_prefix_prefix)
qed

lemma go_contains_char: "go_contains s [c] \<longleftrightarrow> c \<in> set s"
  by (auto simp: go_contains_iff in_set_conv_decomp)


section \<open>Splitting and joining\<close>

text \<open>\<^verbatim>\<open>strings.Split\<close> with a one-byte separator.\<close>

fun split_char :: "char \<Rightarrow> string \<Rightarrow> string list" where
  "split_char sep [] = [[]]"
| "split_char sep (c # s) =
     (if c = sep then [] # split_char sep s
      else case split_char sep s of
             [] \<Rightarrow> [[c]]
           | p # ps \<Rightarrow> (c # p) # ps)"

text \<open>\<^verbatim>\<open>strings.Join\<close>.\<close>

fun go_join :: "string list \<Rightarrow> string \<Rightarrow> string" where
  "go_join [] sep = []"
| "go_join [x] sep = x"
| "go_join (x # y # ys) sep = x @ sep @ go_join (y # ys) sep"

text \<open>\<^verbatim>\<open>strings.Cut\<close> at a one-byte separator: before, after, found.\<close>

fun cut_char :: "char \<Rightarrow> string \<Rightarrow> string \<times> string \<times> bool" where
  "cut_char sep [] = ([], [], False)"
| "cut_char sep (c # s) =
     (if c = sep then ([], s, True)
      else case cut_char sep s of (b, a, f) \<Rightarrow> (c # b, a, f))"

lemma split_char_nonempty [simp]: "split_char sep s \<noteq> []"
  by (induction s) (auto split: list.splits)

lemma split_char_no_sep: "p \<in> set (split_char sep s) \<Longrightarrow> sep \<notin> set p"
  by (induction s arbitrary: p) (auto split: list.splits if_splits)

lemma join_split_char: "go_join (split_char sep s) [sep] = s"
proof (induction s)
  case Nil
  then show ?case by simp
next
  case (Cons c s)
  then show ?case
    by (cases "split_char sep s"; cases "tl (split_char sep s)") auto
qed

lemma split_char_id: "sep \<notin> set s \<Longrightarrow> split_char sep s = [s]"
  by (induction s) auto

lemma split_char_append: "sep \<notin> set s \<Longrightarrow> split_char sep (s @ sep # t) = s # split_char sep t"
  by (induction s) auto

lemma split_join_char:
  assumes "ps \<noteq> []" and "\<And>p. p \<in> set ps \<Longrightarrow> sep \<notin> set p"
  shows "split_char sep (go_join ps [sep]) = ps"
  using assms
proof (induction ps "[sep]" rule: go_join.induct)
  case 1
  then show ?case by simp
next
  case (2 x)
  then show ?case by (simp add: split_char_id)
next
  case (3 x y ys)
  then show ?case by (simp add: split_char_append)
qed

lemma cut_char_found: "cut_char sep s = (b, a, True) \<Longrightarrow> s = b @ sep # a \<and> sep \<notin> set b"
  by (induction s arbitrary: b) (auto split: if_splits prod.splits)

lemma cut_char_missing: "cut_char sep s = (b, a, False) \<Longrightarrow> b = s \<and> a = [] \<and> sep \<notin> set s"
  by (induction s arbitrary: b) (auto split: if_splits prod.splits)

lemma cut_char_append: "sep \<notin> set b \<Longrightarrow> cut_char sep (b @ sep # a) = (b, a, True)"
  by (induction b) auto


section \<open>Trimming\<close>

text \<open>\<^verbatim>\<open>strings.TrimRight(s, "c")\<close> for a one-byte cutset.\<close>

definition trim_right_char :: "char \<Rightarrow> string \<Rightarrow> string" where
  "trim_right_char c s = rev (dropWhile (\<lambda>x. x = c) (rev s))"

text \<open>
  \<^verbatim>\<open>strings.TrimSpace\<close>: the code points of Unicode's White_Space property, as their UTF-8
  encodings. UTF-8 is self-synchronising, so a leading (trailing) white-space rune is a prefix
  (suffix) test on bytes.
\<close>

definition space_runes :: "string list" where
  "space_runes =
     map (\<lambda>n. [char_of n]) [9, 10, 11, 12, 13, 32 :: nat] @
     [map char_of [194, 133 :: nat], map char_of [194, 160 :: nat],
      map char_of [225, 154, 128 :: nat]] @
     map (\<lambda>n. map char_of [226, 128, n]) [128, 129, 130, 131, 132, 133, 134, 135, 136, 137, 138,
                                          168, 169, 175 :: nat] @
     [map char_of [226, 129, 159 :: nat], map char_of [227, 128, 128 :: nat]]"

definition leading_space :: "string list \<Rightarrow> string \<Rightarrow> string option" where
  "leading_space runes s = List.find (has_prefix s) runes"

function trim_left_runes :: "string list \<Rightarrow> string \<Rightarrow> string" where
  "trim_left_runes runes s =
     (case leading_space runes s of
        None \<Rightarrow> s
      | Some r \<Rightarrow> if r = [] then s else trim_left_runes runes (drop (length r) s))"
  by pat_completeness auto
termination
proof (relation "measure (\<lambda>(runes, s). length s)", goal_cases)
  case 1
  then show ?case by simp
next
  case (2 runes s r)
  then have "has_prefix s r" by (auto simp: leading_space_def find_Some_iff)
  with 2 have "s \<noteq> [] \<and> r \<noteq> []" by (auto simp: has_prefix_def)
  then show ?case by simp
qed

declare trim_left_runes.simps [simp del]

definition go_trim_space :: "string \<Rightarrow> string" where
  "go_trim_space s =
     rev (trim_left_runes (map rev space_runes) (rev (trim_left_runes space_runes s)))"

definition plain_char :: "char \<Rightarrow> bool" where
  "plain_char c \<longleftrightarrow> (let n = (of_char c :: nat) in 33 \<le> n \<and> n < 127)"

lemma trim_left_runes_stop: "leading_space runes s = None \<Longrightarrow> trim_left_runes runes s = s"
  by (simp add: trim_left_runes.simps)

lemma trim_left_runes_suffix: "suffix (trim_left_runes runes s) s"
proof (induction runes s rule: trim_left_runes.induct)
  case (1 runes s)
  show ?case
  proof (cases "leading_space runes s")
    case None
    then show ?thesis by (simp add: trim_left_runes_stop)
  next
    case (Some r)
    then show ?thesis
    proof (cases "r = []")
      case True
      with Some show ?thesis by (simp add: trim_left_runes.simps [of runes s])
    next
      case False
      with 1 Some have "suffix (trim_left_runes runes (drop (length r) s)) (drop (length r) s)"
        by blast
      with Some False show ?thesis
        by (simp add: trim_left_runes.simps [of runes s] suffix_drop suffix_order.trans)
    qed
  qed
qed

definition starts_plain :: "string \<Rightarrow> bool" where
  "starts_plain s \<longleftrightarrow> (case s of [] \<Rightarrow> True | c # _ \<Rightarrow> plain_char c)"

lemma go_trim_space_Nil [simp]: "go_trim_space [] = []"
  by (simp add: go_trim_space_def trim_left_runes.simps leading_space_def space_runes_def
      has_prefix_def)

text \<open>
  Every white-space rune starts and ends with a byte that is no printable ASCII character, so a
  string that starts and ends with printable ASCII is left alone.
\<close>

lemma leading_space_plain:
  assumes "plain_char c" and "\<And>r. r \<in> set runes \<Longrightarrow> r \<noteq> [] \<and> \<not> plain_char (hd r)"
  shows "leading_space runes (c # s) = None"
  using assms by (force simp: leading_space_def find_None_iff has_prefix_def neq_Nil_conv)

lemma space_runes_not_plain: "r \<in> set space_runes \<Longrightarrow> r \<noteq> [] \<and> \<not> plain_char (hd r)"
  by (auto simp: space_runes_def plain_char_def Let_def)

lemma space_runes_rev_not_plain:
  "r \<in> set (map rev space_runes) \<Longrightarrow> r \<noteq> [] \<and> \<not> plain_char (hd r)"
  by (auto simp: space_runes_def plain_char_def Let_def)

lemma trim_left_runes_plain:
  assumes "starts_plain s" and "\<And>r. r \<in> set runes \<Longrightarrow> r \<noteq> [] \<and> \<not> plain_char (hd r)"
  shows "trim_left_runes runes s = s"
proof (cases s)
  case Nil
  have "leading_space runes [] = None"
    using assms(2) by (auto simp: leading_space_def find_None_iff has_prefix_def)
  with Nil show ?thesis by (simp add: trim_left_runes_stop)
next
  case (Cons c t)
  with assms show ?thesis
    by (simp add: trim_left_runes_stop leading_space_plain starts_plain_def)
qed

lemma go_trim_space_plain:
  assumes "starts_plain s" and "starts_plain (rev s)"
  shows "go_trim_space s = s"
proof -
  have "trim_left_runes space_runes s = s"
    using assms(1) space_runes_not_plain by (rule trim_left_runes_plain)
  moreover have "trim_left_runes (map rev space_runes) (rev s) = rev s"
    using assms(2) space_runes_rev_not_plain by (rule trim_left_runes_plain)
  ultimately show ?thesis by (simp add: go_trim_space_def)
qed


section \<open>Letter case\<close>

definition is_ascii :: "char \<Rightarrow> bool" where
  "is_ascii c \<longleftrightarrow> (of_char c :: nat) < 128"

definition lower_char :: "char \<Rightarrow> char" where
  "lower_char c = (let n = (of_char c :: nat) in if 65 \<le> n \<and> n \<le> 90 then char_of (n + 32) else c)"

definition upper_char :: "char \<Rightarrow> char" where
  "upper_char c = (let n = (of_char c :: nat) in if 97 \<le> n \<and> n \<le> 122 then char_of (n - 32) else c)"

text \<open>
  \<^verbatim>\<open>strings.ToLower\<close> and \<^verbatim>\<open>strings.ToUpper\<close>: bytewise on ASCII strings, the argument (the Unicode
  tables) otherwise.
\<close>

definition go_to_lower :: "(string \<Rightarrow> string) \<Rightarrow> string \<Rightarrow> string" where
  "go_to_lower ulow s = (if list_all is_ascii s then map lower_char s else ulow s)"

definition go_to_upper :: "(string \<Rightarrow> string) \<Rightarrow> string \<Rightarrow> string" where
  "go_to_upper uupp s = (if list_all is_ascii s then map upper_char s else uupp s)"

lemma lower_char_idem [simp]: "lower_char (lower_char c) = lower_char c"
  by (auto simp: lower_char_def Let_def)

lemma upper_char_idem [simp]: "upper_char (upper_char c) = upper_char c"
  by (auto simp: upper_char_def Let_def)

lemma lower_char_ascii [simp]: "is_ascii c \<Longrightarrow> is_ascii (lower_char c)"
  by (auto simp: lower_char_def is_ascii_def Let_def)

lemma go_to_lower_idem_ascii:
  "list_all is_ascii s \<Longrightarrow> go_to_lower ulow (go_to_lower ulow s) = go_to_lower ulow s"
  by (simp add: go_to_lower_def list_all_iff comp_def)


section \<open>Numbers\<close>

definition digit_char :: "nat \<Rightarrow> char" where
  "digit_char d = char_of (48 + d)"

definition is_digit :: "char \<Rightarrow> bool" where
  "is_digit c \<longleftrightarrow> (let n = (of_char c :: nat) in 48 \<le> n \<and> n \<le> 57)"

definition digit_val :: "char \<Rightarrow> nat" where
  "digit_val c = of_char c - 48"

lemma is_digit_char [simp]: "d < 10 \<Longrightarrow> is_digit (digit_char d)"
  by (simp add: is_digit_def digit_char_def Let_def)

lemma digit_val_char [simp]: "d < 10 \<Longrightarrow> digit_val (digit_char d) = d"
  by (simp add: digit_val_def digit_char_def)

lemma digit_char_val [simp]: "is_digit c \<Longrightarrow> digit_char (digit_val c) = c"
  by (simp add: digit_val_def digit_char_def is_digit_def Let_def)

lemma digit_val_less [simp]: "is_digit c \<Longrightarrow> digit_val c < 10"
  unfolding digit_val_def is_digit_def Let_def by linarith

fun nat_text :: "nat \<Rightarrow> string" where
  "nat_text n = (if n < 10 then [digit_char n] else nat_text (n div 10) @ [digit_char (n mod 10)])"

declare nat_text.simps [simp del]

text \<open>\<^verbatim>\<open>strconv.Itoa\<close>.\<close>

definition itoa :: "int \<Rightarrow> string" where
  "itoa i = (if i < 0 then ''-'' @ nat_text (nat (- i)) else nat_text (nat i))"

definition digits_val :: "string \<Rightarrow> nat" where
  "digits_val s = foldl (\<lambda>n c. 10 * n + digit_val c) 0 s"

lemma digits_val_snoc [simp]: "digits_val (s @ [c]) = 10 * digits_val s + digit_val c"
  by (simp add: digits_val_def)

lemma digits_val_Nil [simp]: "digits_val [] = 0"
  by (simp add: digits_val_def)

lemma digits_val_nat_text [simp]: "digits_val (nat_text n) = n"
proof (induction n rule: nat_text.induct)
  case (1 n)
  then show ?case
    by (simp add: nat_text.simps [of n] digits_val_def)
qed

lemma nat_text_digits [simp]: "c \<in> set (nat_text n) \<Longrightarrow> is_digit c"
proof (induction n rule: nat_text.induct)
  case (1 n)
  then show ?case
    by (auto simp: nat_text.simps [of n] split: if_splits)
qed

lemma nat_text_nonempty [simp]: "nat_text n \<noteq> []"
  by (simp add: nat_text.simps [of n])

lemma nat_text_inj: "nat_text m = nat_text n \<Longrightarrow> m = n"
  by (metis digits_val_nat_text)

lemma not_digit_in_nat_text: "\<not> is_digit c \<Longrightarrow> c \<notin> set (nat_text n)"
  using nat_text_digits by blast

text \<open>\<^verbatim>\<open>hex.EncodeToString\<close>.\<close>

definition hex_digit :: "nat \<Rightarrow> char" where
  "hex_digit n = ''0123456789abcdef'' ! (n mod 16)"

definition hex_encode :: "bytes \<Rightarrow> string" where
  "hex_encode bs = concat (map (\<lambda>c. [hex_digit (of_char c div 16), hex_digit (of_char c)]) bs)"

lemma length_hex_encode [simp]: "length (hex_encode bs) = 2 * length bs"
  by (induction bs) (auto simp: hex_encode_def)

lemma char_less: "(of_char c :: nat) < 256"
  using nat_of_char_less_256 [of c] by simp

lemma hex_digit_inj: "m < 16 \<Longrightarrow> n < 16 \<Longrightarrow> hex_digit m = hex_digit n \<Longrightarrow> m = n"
proof -
  assume "m < 16" "n < 16" "hex_digit m = hex_digit n"
  moreover have "distinct ''0123456789abcdef''" by simp
  ultimately show "m = n"
    by (simp add: hex_digit_def nth_eq_iff_index_eq)
qed

lemma hex_encode_inj: "hex_encode a = hex_encode b \<Longrightarrow> a = b"
proof (induction a arbitrary: b)
  case Nil
  then show ?case by (cases b) (auto simp: hex_encode_def)
next
  case (Cons x a)
  then obtain y b' where b: "b = y # b'" by (cases b) (auto simp: hex_encode_def)
  with Cons.prems have hi: "hex_digit (of_char x div 16) = hex_digit (of_char y div 16)"
    and lo: "hex_digit (of_char x mod 16) = hex_digit (of_char y mod 16)"
    and rest: "hex_encode a = hex_encode b'"
    by (auto simp: hex_encode_def hex_digit_def)
  have "(of_char x :: nat) div 16 < 16" "(of_char y :: nat) div 16 < 16"
    using char_less [of x] char_less [of y] by linarith+
  with hi have "(of_char x :: nat) div 16 = of_char y div 16" using hex_digit_inj by blast
  moreover have "(of_char x :: nat) mod 16 = of_char y mod 16"
    using lo by (auto intro: hex_digit_inj)
  ultimately have "(of_char x :: nat) = of_char y" by (metis div_mod_decomp)
  then have "x = y" by (simp add: of_char_eq_iff)
  with rest Cons.IH b show ?case by simp
qed

end
