(* ===== verification/Go_URL.thy ===== *)
theory Go_URL
  imports Go_Strings
begin

text \<open>
  What the program uses of Go's \<^verbatim>\<open>net/url\<close> and \<^verbatim>\<open>path\<close> packages: \<^verbatim>\<open>url.Parse\<close> (scheme, host and
  decoded path, with its errors), \<^verbatim>\<open>url.PathUnescape\<close> and \<^verbatim>\<open>path.Clean\<close>.
\<close>


section \<open>Percent decoding\<close>

datatype escape_mode = EncPath | EncPathSegment | EncHost | EncZone | EncUserPassword | EncFragment

definition unhex :: "char \<Rightarrow> nat option" where
  "unhex c = (let n = (of_char c :: nat) in
     if 48 \<le> n \<and> n \<le> 57 then Some (n - 48)
     else if 97 \<le> n \<and> n \<le> 102 then Some (n - 87)
     else if 65 \<le> n \<and> n \<le> 70 then Some (n - 55)
     else None)"

text \<open>The ASCII bytes \<^verbatim>\<open>unescape\<close> refuses unescaped in a host: those that \<^verbatim>\<open>shouldEscape\<close> in host mode.\<close>

definition host_bad_char :: "char \<Rightarrow> bool" where
  "host_bad_char c \<longleftrightarrow> is_ascii c \<and>
     \<not> (is_digit c \<or> (let n = (of_char c :: nat) in (65 \<le> n \<and> n \<le> 90) \<or> (97 \<le> n \<and> n \<le> 122)) \<or>
        c \<in> set ''-_.~!$&()*+,;=:[]<>'' \<or> c = CHR 0x27 \<or> c = CHR 0x22)"

fun unescape :: "escape_mode \<Rightarrow> string \<Rightarrow> string option" where
  "unescape m [] = Some []"
| "unescape m (c # s) =
     (if c = CHR ''%'' then
        (case s of
           a # b # rest \<Rightarrow>
             (case (unhex a, unhex b) of
                (Some x, Some y) \<Rightarrow>
                  if m = EncHost \<and> x < 8 \<and> \<not> (a = CHR ''2'' \<and> b = CHR ''5'') then None
                  else if m = EncZone \<and> \<not> (a = CHR ''2'' \<and> b = CHR ''5'') \<and>
                          16 * x + y \<noteq> 32 \<and>
                          (128 \<le> 16 * x + y \<or> host_bad_char (char_of (16 * x + y))) then None
                  else map_option (Cons (char_of (16 * x + y))) (unescape m rest)
              | _ \<Rightarrow> None)
         | _ \<Rightarrow> None)
      else if (m = EncHost \<or> m = EncZone) \<and> host_bad_char c then None
      else map_option (Cons c) (unescape m s))"

definition path_unescape :: "string \<Rightarrow> string option" where
  "path_unescape s = unescape EncPathSegment s"

lemma unescape_plain: "m \<noteq> EncHost \<Longrightarrow> m \<noteq> EncZone \<Longrightarrow> CHR ''%'' \<notin> set s \<Longrightarrow> unescape m s = Some s"
  by (induction s) auto


section \<open>url.Parse\<close>

record url =
  url_scheme :: string
  url_opaque :: string
  url_host :: string
  url_path :: string

definition is_alpha :: "char \<Rightarrow> bool" where
  "is_alpha c \<longleftrightarrow> (let n = (of_char c :: nat) in (65 \<le> n \<and> n \<le> 90) \<or> (97 \<le> n \<and> n \<le> 122))"

text \<open>
  \<^verbatim>\<open>getScheme\<close>: \<open>None\<close> is the missing-scheme error (a leading colon), otherwise the scheme and
  the rest, with an empty scheme when there is none.
\<close>

fun scheme_loop :: "string \<Rightarrow> string \<Rightarrow> string \<Rightarrow> (string \<times> string) option" where
  "scheme_loop raw acc [] = Some ([], raw)"
| "scheme_loop raw acc (c # s) =
     (if is_alpha c then scheme_loop raw (acc @ [c]) s
      else if is_digit c \<or> c \<in> set ''+-.'' then
        (if acc = [] then Some ([], raw) else scheme_loop raw (acc @ [c]) s)
      else if c = CHR '':'' then (if acc = [] then None else Some (acc, s))
      else Some ([], raw))"

definition get_scheme :: "string \<Rightarrow> (string \<times> string) option" where
  "get_scheme raw = scheme_loop raw [] raw"

definition last_index :: "char \<Rightarrow> string \<Rightarrow> nat option" where
  "last_index c s = (if c \<in> set s then Some (length s - 1 - length (takeWhile (\<lambda>x. x \<noteq> c) (rev s)))
                     else None)"

definition valid_optional_port :: "string \<Rightarrow> bool" where
  "valid_optional_port p \<longleftrightarrow> (case p of [] \<Rightarrow> True | c # ds \<Rightarrow> c = CHR '':'' \<and> list_all is_digit ds)"

definition valid_userinfo :: "string \<Rightarrow> bool" where
  "valid_userinfo s \<longleftrightarrow>
     list_all (\<lambda>c. is_alpha c \<or> is_digit c \<or> c = CHR 0x27 \<or>
                   c \<in> set ''-._:~!$&()*+,;=%@'') s"

definition has_ctl_byte :: "string \<Rightarrow> bool" where
  "has_ctl_byte s \<longleftrightarrow> list_ex (\<lambda>c. (of_char c :: nat) < 32 \<or> c = CHR 0x7F) s"

fun index_of :: "string \<Rightarrow> string \<Rightarrow> nat option" where
  "index_of sub [] = (if sub = [] then Some 0 else None)"
| "index_of sub (c # s) = (if has_prefix (c # s) sub then Some 0 else map_option Suc (index_of sub s))"

definition unescape_zoned :: "string \<Rightarrow> nat \<Rightarrow> string option" where
  "unescape_zoned h i =
     (case index_of ''%25'' (take i h) of
        None \<Rightarrow> unescape EncHost h
      | Some z \<Rightarrow>
          (case (unescape EncHost (take z h), unescape EncZone (drop z (take i h)),
                 unescape EncHost (drop i h)) of
             (Some a, Some b, Some c) \<Rightarrow> Some (a @ b @ c)
           | _ \<Rightarrow> None))"

text \<open>
  \<^verbatim>\<open>parseHost\<close>. A bracketed (IPv6) host needs its closing bracket and a valid port after it; its
  zone identifier, from \<^verbatim>\<open>%25\<close> on, is decoded in zone mode.
\<close>

definition parse_host :: "string \<Rightarrow> string option" where
  "parse_host h =
     (if has_prefix h ''['' then
        (case last_index (CHR '']'') h of
           None \<Rightarrow> None
         | Some i \<Rightarrow> if valid_optional_port (drop (i + 1) h) then unescape_zoned h i else None)
      else case last_index (CHR '':'') h of
             Some i \<Rightarrow> if valid_optional_port (drop i h) then unescape EncHost h else None
           | None \<Rightarrow> unescape EncHost h)"

definition parse_userinfo :: "string \<Rightarrow> unit option" where
  "parse_userinfo ui =
     (if \<not> valid_userinfo ui then None
      else case cut_char (CHR '':'') ui of (user, pass, found) \<Rightarrow>
        (case (unescape EncUserPassword user, unescape EncUserPassword pass) of
           (Some _, Some _) \<Rightarrow> Some ()
         | _ \<Rightarrow> None))"

definition parse_authority :: "string \<Rightarrow> string option" where
  "parse_authority a =
     (case last_index (CHR ''@'') a of
        None \<Rightarrow> parse_host a
      | Some i \<Rightarrow>
          (case (parse_host (drop (i + 1) a), parse_userinfo (take i a)) of
             (Some h, Some _) \<Rightarrow> Some h
           | _ \<Rightarrow> None))"

text \<open>The query is cut off the rest; a single trailing question mark is dropped.\<close>

definition cut_query :: "string \<Rightarrow> string" where
  "cut_query s =
     (if has_suffix s ''?'' \<and> count_list s (CHR ''?'') = 1 then butlast s
      else fst (cut_char (CHR ''?'') s))"

definition url_with_path :: "string \<Rightarrow> string \<Rightarrow> string \<Rightarrow> url option" where
  "url_with_path scheme host rest =
     map_option (\<lambda>p. \<lparr>url_scheme = scheme, url_opaque = [], url_host = host, url_path = p\<rparr>)
       (unescape EncPath rest)"

definition parse_rest :: "string \<Rightarrow> string \<Rightarrow> url option" where
  "parse_rest scheme rest =
     (if \<not> has_prefix rest ''/'' \<and> scheme \<noteq> [] then
        Some \<lparr>url_scheme = scheme, url_opaque = rest, url_host = [], url_path = []\<rparr>
      else if \<not> has_prefix rest ''/'' \<and> CHR '':'' \<in> set (fst (cut_char (CHR ''/'') rest)) then None
      else if (scheme \<noteq> [] \<or> \<not> has_prefix rest ''///'') \<and> has_prefix rest ''//'' then
        (let a = drop 2 rest; auth = takeWhile (\<lambda>c. c \<noteq> CHR ''/'') a in
         case parse_authority auth of
           None \<Rightarrow> None
         | Some h \<Rightarrow> url_with_path scheme h (drop (length auth) a))
      else url_with_path scheme [] rest)"

definition parse_no_fragment :: "string \<Rightarrow> url option" where
  "parse_no_fragment raw =
     (if has_ctl_byte raw then None
      else if raw = ''*'' then
        Some \<lparr>url_scheme = [], url_opaque = [], url_host = [], url_path = ''*''\<rparr>
      else case get_scheme raw of
             None \<Rightarrow> None
           | Some (scheme, rest) \<Rightarrow> parse_rest (map lower_char scheme) (cut_query rest))"

definition url_parse :: "string \<Rightarrow> url option" where
  "url_parse raw =
     (case cut_char (CHR ''#'') raw of (u, frag, found) \<Rightarrow>
        (case parse_no_fragment u of
           None \<Rightarrow> None
         | Some r \<Rightarrow> if unescape EncFragment frag = None then None else Some r))"


section \<open>path.Clean\<close>

definition clean_push :: "bool \<Rightarrow> string list \<Rightarrow> string \<Rightarrow> string list" where
  "clean_push rooted stack el =
     (if el = [] \<or> el = ''.'' then stack
      else if el = ''..'' then
        (if stack \<noteq> [] \<and> last stack \<noteq> ''..'' then butlast stack
         else if rooted then stack
         else stack @ [el])
      else stack @ [el])"

definition path_clean :: "string \<Rightarrow> string" where
  "path_clean p =
     (let rooted = has_prefix p ''/'';
          els = foldl (clean_push rooted) [] (split_char (CHR ''/'') p);
          out = (if rooted then ''/'' else []) @ go_join els ''/''
      in if out = [] then ''.'' else out)"

lemma foldl_clean_push_plain:
  assumes "\<And>e. e \<in> set els \<Longrightarrow> e \<noteq> [] \<and> e \<noteq> ''.'' \<and> e \<noteq> ''..''"
  shows "foldl (clean_push r) st els = st @ els"
  using assms by (induction els arbitrary: st) (auto simp: clean_push_def)

text \<open>A rooted path whose elements are ordinary names is its own cleaned form.\<close>

lemma path_clean_rooted:
  assumes "els \<noteq> []"
    and "\<And>e. e \<in> set els \<Longrightarrow> e \<noteq> [] \<and> e \<noteq> ''.'' \<and> e \<noteq> ''..'' \<and> CHR ''/'' \<notin> set e"
  shows "path_clean (''/'' @ go_join els ''/'') = ''/'' @ go_join els ''/''"
proof -
  have "split_char (CHR ''/'') (CHR ''/'' # go_join els ''/'') = [] # els"
    using assms by (simp add: split_join_char)
  moreover have "foldl (clean_push True) [] ([] # els) = els"
    using foldl_clean_push_plain [of els True "[]"] assms by (simp add: clean_push_def)
  ultimately show ?thesis
    by (simp add: path_clean_def has_prefix_def Let_def)
qed

lemma path_clean_nonempty [simp]: "path_clean p \<noteq> []"
  by (simp add: path_clean_def Let_def)

end
