(* ===== verification/Go_Time.thy ===== *)
theory Go_Time
  imports Go_Strings
begin

text \<open>
  Go's \<^verbatim>\<open>time.Time\<close> as nanoseconds since the zero time (1 January of year 1, UTC), and
  \<^verbatim>\<open>time.Duration\<close> as a 64-bit count of nanoseconds.
\<close>

type_synonym go_time = int
type_synonym go_duration = int

definition time_is_zero :: "go_time \<Rightarrow> bool" where
  "time_is_zero t \<longleftrightarrow> t = 0"

definition time_before :: "go_time \<Rightarrow> go_time \<Rightarrow> bool" where
  "time_before t u \<longleftrightarrow> t < u"

definition time_after :: "go_time \<Rightarrow> go_time \<Rightarrow> bool" where
  "time_after t u \<longleftrightarrow> u < t"

definition time_add :: "go_time \<Rightarrow> go_duration \<Rightarrow> go_time" where
  "time_add t d = t + d"

text \<open>\<^verbatim>\<open>Time.Sub\<close> saturates at the ends of the duration range.\<close>

definition time_sub :: "go_time \<Rightarrow> go_time \<Rightarrow> go_duration" where
  "time_sub t u = max (- (2 ^ 63)) (min (2 ^ 63 - 1) (t - u))"

abbreviation second :: int where "second \<equiv> 1000000000"
abbreviation minute :: int where "minute \<equiv> 60000000000"
abbreviation hour :: int where "hour \<equiv> 3600000000000"

declare time_is_zero_def [go_simps] time_before_def [go_simps] time_after_def [go_simps]
  time_add_def [go_simps]

lemma time_sub_exact: "\<bar>t - u\<bar> < 2 ^ 63 \<Longrightarrow> time_sub t u = t - u"
  by (simp add: time_sub_def)

lemma time_sub_less_iff: "- (2 ^ 63) < d \<Longrightarrow> d < 2 ^ 63 \<Longrightarrow> time_sub t u < d \<longleftrightarrow> t - u < d"
  by (auto simp: time_sub_def max_def min_def)

end
