(* ===== verification/Go_Time_Format.thy ===== *)
theory Go_Time_Format
  imports Go_Time "HOL-Library.List_Lexorder" "HOL-Library.Char_ord"
begin

text \<open>
  The proleptic Gregorian calendar, and \<^verbatim>\<open>time.Parse\<close> and \<^verbatim>\<open>Time.Format\<close> for the layouts the program
  uses. A layout is the list of its chunks; the parser follows Go's \<^verbatim>\<open>parse\<close>, including the
  fraction it accepts after the seconds although the layout has none.
\<close>


section \<open>Civil dates\<close>

definition leap_year :: "int \<Rightarrow> bool" where
  "leap_year y \<longleftrightarrow> y mod 4 = 0 \<and> (y mod 100 \<noteq> 0 \<or> y mod 400 = 0)"

definition days_in :: "int \<Rightarrow> int \<Rightarrow> int" where
  "days_in y m = (if m = 2 then (if leap_year y then 29 else 28)
                  else if m = 4 \<or> m = 6 \<or> m = 9 \<or> m = 11 then 30 else 31)"

definition days_before_year :: "int \<Rightarrow> int" where
  "days_before_year y = 365 * (y - 1) + (y - 1) div 4 - (y - 1) div 100 + (y - 1) div 400"

text \<open>Days of the year before month \<open>m\<close>.\<close>

definition days_before_month :: "int \<Rightarrow> int \<Rightarrow> int" where
  "days_before_month y m =
     (if m = 1 then 0 else if m = 2 then 31
      else (if leap_year y then 1 else 0) +
        (if m = 3 then 59 else if m = 4 then 90 else if m = 5 then 120 else if m = 6 then 151
         else if m = 7 then 181 else if m = 8 then 212 else if m = 9 then 243
         else if m = 10 then 273 else if m = 11 then 304 else 334))"

definition days_of_civil :: "int \<Rightarrow> int \<Rightarrow> int \<Rightarrow> int" where
  "days_of_civil y m d = days_before_year y + days_before_month y m + d - 1"

text \<open>The year and the day of the year (from 0) of a day number.\<close>

definition year_of_day :: "int \<Rightarrow> int" where
  "year_of_day n =
     (let a = n div 146097; r = n mod 146097;
          b = min (r div 36524) 3; r = r - 36524 * b;
          c = r div 1461; r = r mod 1461;
          e = min (r div 365) 3
      in 400 * a + 100 * b + 4 * c + e + 1)"

definition month_of_yday :: "int \<Rightarrow> int \<Rightarrow> int" where
  "month_of_yday y k =
     (let l = (if leap_year y then 1 else 0)
      in if k < 31 then 1 else if k < 59 + l then 2 else if k < 90 + l then 3
         else if k < 120 + l then 4 else if k < 151 + l then 5 else if k < 181 + l then 6
         else if k < 212 + l then 7 else if k < 243 + l then 8 else if k < 273 + l then 9
         else if k < 304 + l then 10 else if k < 334 + l then 11 else 12)"

definition civil_of_days :: "int \<Rightarrow> int \<times> int \<times> int" where
  "civil_of_days n =
     (let y = year_of_day n; k = n - days_before_year y; m = month_of_yday y k
      in (y, m, k - days_before_month y m + 1))"

definition year_days :: "int \<Rightarrow> int" where
  "year_days y = (if leap_year y then 366 else 365)"

lemma div_digits:
  fixes a b c e :: int
  assumes "0 \<le> b" "b \<le> 3" "0 \<le> c" "c \<le> 24" "0 \<le> e" "e \<le> 3"
  shows "(400 * a + 100 * b + 4 * c + e) div 4 = 100 * a + 25 * b + c"
    and "(400 * a + 100 * b + 4 * c + e) div 100 = 4 * a + b"
    and "(400 * a + 100 * b + 4 * c + e) div 400 = a"
proof -
  show "(400 * a + 100 * b + 4 * c + e) div 4 = 100 * a + 25 * b + c"
    using assms by (intro int_div_pos_eq [where r = e]) auto
  show "(400 * a + 100 * b + 4 * c + e) div 100 = 4 * a + b"
    using assms by (intro int_div_pos_eq [where r = "4 * c + e"]) auto
  show "(400 * a + 100 * b + 4 * c + e) div 400 = a"
    using assms by (intro int_div_pos_eq [where r = "100 * b + 4 * c + e"]) auto
qed

lemma days_before_year_digits:
  fixes a b c e :: int
  assumes "0 \<le> b" "b \<le> 3" "0 \<le> c" "c \<le> 24" "0 \<le> e" "e \<le> 3"
  shows "days_before_year (400 * a + 100 * b + 4 * c + e + 1) = 146097 * a + 36524 * b + 1461 * c + 365 * e"
  using div_digits [OF assms, of a] by (simp add: days_before_year_def)

lemma leap_year_digits:
  fixes a b c e :: int
  assumes "0 \<le> b" "b \<le> 3" "0 \<le> c" "c \<le> 24" "0 \<le> e" "e \<le> 3"
  shows "leap_year (400 * a + 100 * b + 4 * c + e + 1) \<longleftrightarrow> e = 3 \<and> (c \<noteq> 24 \<or> b = 3)"
proof -
  let ?y = "400 * a + 100 * b + 4 * c + e + 1"
  have y: "?y = (e + 1) + (100 * a + 25 * b + c) * 4" "?y = (4 * c + e + 1) + (4 * a + b) * 100"
    "?y = (100 * b + 4 * c + e + 1) + a * 400" by simp_all
  have m4: "?y mod 4 = (e + 1) mod 4" and m100: "?y mod 100 = (4 * c + e + 1) mod 100"
    and m400: "?y mod 400 = (100 * b + 4 * c + e + 1) mod 400"
    by (subst y, rule mod_mult_self1)+
  show ?thesis
  proof (cases "e = 3")
    case True
    have "?y mod 100 = (if c = 24 then 0 else 4 * c + 4)"
      unfolding m100 using assms True by (auto simp: mod_pos_pos_trivial)
    moreover have "?y mod 400 = (if c = 24 \<and> b = 3 then 0 else 100 * b + 4 * c + 4)"
      unfolding m400 using assms True by (auto simp: mod_pos_pos_trivial)
    moreover have "?y mod 4 = 0" unfolding m4 using True by simp
    ultimately show ?thesis using True assms unfolding leap_year_def by auto
  next
    case False
    with assms have "?y mod 4 = e + 1" unfolding m4 by (intro mod_pos_pos_trivial) auto
    with False assms show ?thesis unfolding leap_year_def by auto
  qed
qed

text \<open>The digits of a day number in the 400, 100, 4 and 1 year cycles.\<close>

lemma day_digits:
  fixes n :: int
  defines "r1 \<equiv> n mod 146097"
  defines "b \<equiv> min (r1 div 36524) 3"
  defines "r2 \<equiv> r1 - 36524 * b"
  defines "r3 \<equiv> r2 mod 1461"
  defines "e \<equiv> min (r3 div 365) 3"
  shows "0 \<le> b" "b \<le> 3" "0 \<le> r2 div 1461" "r2 div 1461 \<le> 24" "0 \<le> e" "e \<le> 3"
    and "n = 146097 * (n div 146097) + 36524 * b + 1461 * (r2 div 1461) + 365 * e + (r3 - 365 * e)"
    and "0 \<le> r3 - 365 * e" "r3 - 365 * e < (if e = 3 \<and> (r2 div 1461 \<noteq> 24 \<or> b = 3) then 366 else 365)"
proof -
  have r1: "0 \<le> r1" "r1 < 146097" by (simp_all add: r1_def)
  have b: "0 \<le> b" "b \<le> 3" using r1 by (simp_all add: b_def pos_imp_zdiv_nonneg_iff)
  have r2: "0 \<le> r2" "r2 < (if b = 3 then 36525 else 36524)"
    using r1 unfolding r2_def b_def by (auto simp: min_def minus_mult_div_eq_mod)
  have c: "0 \<le> r2 div 1461" "r2 div 1461 \<le> 24" using r2 by (auto split: if_splits)
  have r3: "0 \<le> r3" "r3 < 1461" by (simp_all add: r3_def)
  have e: "0 \<le> e" "e \<le> 3" using r3 by (simp_all add: e_def pos_imp_zdiv_nonneg_iff)
  have k: "0 \<le> r3 - 365 * e" "r3 - 365 * e < (if e = 3 then 366 else 365)"
    using r3 unfolding e_def by (auto simp: min_def minus_mult_div_eq_mod)
  have last: "r3 < 1460" if "r2 div 1461 = 24" "b \<noteq> 3"
    using that r2 mult_div_mod_eq [of 1461 r2] unfolding r3_def by auto
  show "0 \<le> b" "b \<le> 3" "0 \<le> r2 div 1461" "r2 div 1461 \<le> 24" "0 \<le> e" "e \<le> 3" by fact+
  show "0 \<le> r3 - 365 * e" by fact
  show "n = 146097 * (n div 146097) + 36524 * b + 1461 * (r2 div 1461) + 365 * e + (r3 - 365 * e)"
    using mult_div_mod_eq [of 146097 n] mult_div_mod_eq [of 1461 r2] unfolding r2_def r3_def r1_def by linarith
  show "r3 - 365 * e < (if e = 3 \<and> (r2 div 1461 \<noteq> 24 \<or> b = 3) then 366 else 365)"
    using k last by (auto split: if_splits)
qed

lemma year_of_day_bounds:
  "days_before_year (year_of_day n) \<le> n"
  "n < days_before_year (year_of_day n) + year_days (year_of_day n)"
proof -
  note d = day_digits [of n]
  show "days_before_year (year_of_day n) \<le> n"
    "n < days_before_year (year_of_day n) + year_days (year_of_day n)"
    using d(7-9) unfolding year_of_day_def year_days_def Let_def
      days_before_year_digits [OF d(1-6)] leap_year_digits [OF d(1-6)] by linarith+
qed

lemma month_of_yday_bounds:
  assumes "0 \<le> k" and "k < year_days y"
  shows "1 \<le> month_of_yday y k" "month_of_yday y k \<le> 12"
    and "days_before_month y (month_of_yday y k) \<le> k"
    and "k < days_before_month y (month_of_yday y k) + days_in y (month_of_yday y k)"
  using assms
  by (auto simp: month_of_yday_def days_before_month_def days_in_def year_days_def Let_def
      split: if_splits)

text \<open>A day number is the day number of its civil date, and the date is a valid one.\<close>

lemma civil_of_days_valid:
  assumes "civil_of_days n = (y, m, d)"
  shows "days_of_civil y m d = n" "1 \<le> m" "m \<le> 12" "1 \<le> d" "d \<le> days_in y m"
proof -
  let ?k = "n - days_before_year y"
  have y: "y = year_of_day n" and m: "m = month_of_yday y ?k"
    and d: "d = ?k - days_before_month y m + 1"
    using assms by (auto simp: civil_of_days_def Let_def)
  have "0 \<le> ?k" "?k < year_days y" using year_of_day_bounds [of n] by (simp_all add: y)
  note b = month_of_yday_bounds [OF this, folded m]
  show "days_of_civil y m d = n" by (simp add: days_of_civil_def d)
  show "1 \<le> m" "m \<le> 12" "1 \<le> d" "d \<le> days_in y m" using b by (simp_all add: d)
qed


section \<open>Layouts\<close>

datatype chunk = CLit string | CYear | CMonth | CDay | CHour | CMin | CSec | CZone

definition LayoutRFC3339 :: "chunk list" where
  "LayoutRFC3339 = [CYear, CLit ''-'', CMonth, CLit ''-'', CDay, CLit ''T'', CHour, CLit '':'', CMin,
                    CLit '':'', CSec, CZone]"

definition LayoutDate :: "chunk list" where
  "LayoutDate = [CYear, CLit ''-'', CMonth, CLit ''-'', CDay]"

definition LayoutCompact :: "chunk list" where
  "LayoutCompact = [CYear, CMonth, CDay, CLit ''T'', CHour, CMin, CSec]"

definition LayoutCompactUTC :: "chunk list" where
  "LayoutCompactUTC = LayoutCompact @ [CLit ''Z'']"

definition LayoutCompactDate :: "chunk list" where
  "LayoutCompactDate = [CYear, CMonth, CDay]"

record time_fields =
  tf_year :: int
  tf_month :: int
  tf_day :: int
  tf_hour :: int
  tf_min :: int
  tf_sec :: int
  tf_nsec :: int
  tf_offset :: int

text \<open>\<^verbatim>\<open>getnum\<close>, fixed width two or one or two digits.\<close>

definition num2 :: "string \<Rightarrow> (int \<times> string) option" where
  "num2 s = (case s of
     a # b # r \<Rightarrow> if is_digit a \<and> is_digit b then Some (int (10 * digit_val a + digit_val b), r) else None
   | _ \<Rightarrow> None)"

definition num12 :: "string \<Rightarrow> (int \<times> string) option" where
  "num12 s = (case s of
     [] \<Rightarrow> None
   | [a] \<Rightarrow> if is_digit a then Some (int (digit_val a), []) else None
   | a # b # r \<Rightarrow>
       if \<not> is_digit a then None
       else if is_digit b then Some (int (10 * digit_val a + digit_val b), r)
       else Some (int (digit_val a), b # r))"

definition num4 :: "string \<Rightarrow> (int \<times> string) option" where
  "num4 s = (if 4 \<le> length s \<and> list_all is_digit (take 4 s)
             then Some (int (digits_val (take 4 s)), drop 4 s) else None)"

text \<open>A comma or period followed by digits after the seconds: at most nine digits count.\<close>

definition frac_digits :: "string \<Rightarrow> string" where
  "frac_digits s = takeWhile is_digit s"

definition frac_ns :: "string \<Rightarrow> int" where
  "frac_ns ds = (let d = take 9 ds in int (digits_val d) * 10 ^ (9 - length d))"

definition parse_frac :: "string \<Rightarrow> int \<times> string" where
  "parse_frac s = (case s of
     c # d # r \<Rightarrow>
       if (c = CHR ''.'' \<or> c = CHR '','') \<and> is_digit d
       then (frac_ns (frac_digits (d # r)), drop (length (frac_digits (d # r))) (d # r))
       else (0, s)
   | _ \<Rightarrow> (0, s))"

definition parse_zone :: "string \<Rightarrow> (int \<times> string) option" where
  "parse_zone s = (case s of
     [] \<Rightarrow> None
   | c # r \<Rightarrow>
       if c = CHR ''Z'' then Some (0, r)
       else if length s < 6 \<or> s ! 3 \<noteq> CHR '':'' then None
       else
         (case (num2 (take 2 (drop 1 s)), num2 (take 2 (drop 4 s))) of
            (Some (hr, _), Some (mi, _)) \<Rightarrow>
              if hr > 24 \<or> mi > 60 then None
              else if c = CHR ''+'' then Some ((hr * 60 + mi) * 60, drop 6 s)
              else if c = CHR ''-'' then Some (- ((hr * 60 + mi) * 60), drop 6 s)
              else None
          | _ \<Rightarrow> None))"

fun parse_chunk :: "chunk \<Rightarrow> string \<Rightarrow> time_fields \<Rightarrow> (string \<times> time_fields) option" where
  "parse_chunk (CLit l) s t = (if has_prefix s l then Some (drop (length l) s, t) else None)"
| "parse_chunk CYear s t = map_option (\<lambda>(n, r). (r, t\<lparr>tf_year := n\<rparr>)) (num4 s)"
| "parse_chunk CMonth s t = (case num2 s of
     Some (n, r) \<Rightarrow> if 1 \<le> n \<and> n \<le> 12 then Some (r, t\<lparr>tf_month := n\<rparr>) else None | None \<Rightarrow> None)"
| "parse_chunk CDay s t = map_option (\<lambda>(n, r). (r, t\<lparr>tf_day := n\<rparr>)) (num2 s)"
| "parse_chunk CHour s t = (case num12 s of
     Some (n, r) \<Rightarrow> if n < 24 then Some (r, t\<lparr>tf_hour := n\<rparr>) else None | None \<Rightarrow> None)"
| "parse_chunk CMin s t = (case num2 s of
     Some (n, r) \<Rightarrow> if n < 60 then Some (r, t\<lparr>tf_min := n\<rparr>) else None | None \<Rightarrow> None)"
| "parse_chunk CSec s t = (case num2 s of
     Some (n, r) \<Rightarrow>
       if n < 60 then (case parse_frac r of (ns, r') \<Rightarrow> Some (r', t\<lparr>tf_sec := n, tf_nsec := ns\<rparr>)) else None
   | None \<Rightarrow> None)"
| "parse_chunk CZone s t = map_option (\<lambda>(o1, r). (r, t\<lparr>tf_offset := o1\<rparr>)) (parse_zone s)"

fun parse_chunks :: "chunk list \<Rightarrow> string \<Rightarrow> time_fields \<Rightarrow> time_fields option" where
  "parse_chunks [] s t = (if s = [] then Some t else None)"
| "parse_chunks (c # cs) s t =
     (case parse_chunk c s t of Some (r, t') \<Rightarrow> parse_chunks cs r t' | None \<Rightarrow> None)"

definition fields_time :: "time_fields \<Rightarrow> go_time" where
  "fields_time t =
     ((days_of_civil (tf_year t) (tf_month t) (tf_day t) * 86400 + tf_hour t * 3600 + tf_min t * 60
       + tf_sec t - tf_offset t) * 1000000000) + tf_nsec t"

definition zero_fields :: time_fields where
  "zero_fields = \<lparr>tf_year = 0, tf_month = 1, tf_day = 1, tf_hour = 0, tf_min = 0, tf_sec = 0,
                  tf_nsec = 0, tf_offset = 0\<rparr>"

definition go_parse :: "chunk list \<Rightarrow> string \<Rightarrow> go_time option" where
  "go_parse layout s =
     (case parse_chunks layout s zero_fields of
        None \<Rightarrow> None
      | Some t \<Rightarrow> if 1 \<le> tf_day t \<and> tf_day t \<le> days_in (tf_year t) (tf_month t)
                  then Some (fields_time t) else None)"


section \<open>Formatting\<close>

definition pad2 :: "int \<Rightarrow> string" where
  "pad2 n = [digit_char (nat (n div 10 mod 10)), digit_char (nat (n mod 10))]"

definition pad4 :: "int \<Rightarrow> string" where
  "pad4 n = (if 0 \<le> n \<and> n < 10000 then
       [digit_char (nat (n div 1000)), digit_char (nat (n div 100 mod 10)),
        digit_char (nat (n div 10 mod 10)), digit_char (nat (n mod 10))]
     else if n < 0 then ''-'' @ replicate (4 - length (itoa (- n))) (CHR ''0'') @ itoa (- n)
     else itoa n)"

text \<open>The fields an instant shows at an offset (seconds east of UTC).\<close>

definition time_fields_at :: "int \<Rightarrow> go_time \<Rightarrow> time_fields" where
  "time_fields_at off t =
     (let secs = t div 1000000000 + off; days = secs div 86400; r = secs mod 86400;
          (y, m, d) = civil_of_days days
      in \<lparr>tf_year = y, tf_month = m, tf_day = d, tf_hour = r div 3600, tf_min = r mod 3600 div 60,
          tf_sec = r mod 60, tf_nsec = t mod 1000000000, tf_offset = off\<rparr>)"

definition zone_text :: "int \<Rightarrow> string" where
  "zone_text off =
     (if off = 0 then ''Z''
      else let z = go_quot off 60; a = \<bar>z\<bar>
           in (if z < 0 then ''-'' else ''+'') @ pad2 (a div 60) @ '':'' @ pad2 (a mod 60))"

fun format_chunk :: "time_fields \<Rightarrow> chunk \<Rightarrow> string" where
  "format_chunk t (CLit l) = l"
| "format_chunk t CYear = pad4 (tf_year t)"
| "format_chunk t CMonth = pad2 (tf_month t)"
| "format_chunk t CDay = pad2 (tf_day t)"
| "format_chunk t CHour = pad2 (tf_hour t)"
| "format_chunk t CMin = pad2 (tf_min t)"
| "format_chunk t CSec = pad2 (tf_sec t)"
| "format_chunk t CZone = zone_text (tf_offset t)"

text \<open>\<^verbatim>\<open>t.Format(layout)\<close> for a time whose location has the given offset, and in UTC.\<close>

definition go_format_at :: "chunk list \<Rightarrow> int \<Rightarrow> go_time \<Rightarrow> string" where
  "go_format_at layout off t = concat (map (format_chunk (time_fields_at off t)) layout)"

definition go_format :: "chunk list \<Rightarrow> go_time \<Rightarrow> string" where
  "go_format layout t = go_format_at layout 0 t"

end
