(* ===== verification/Go_Time_Order.thy ===== *)
theory Go_Time_Order
  imports Go_Time_Format
begin

text \<open>
  RFC 3339 text in UTC: reading a formatted instant gives it back to the second, and the texts of
  instants of the years 0 to 9999 are ordered like the instants. The store keeps its timestamps as
  such texts and compares them in SQL.
\<close>


section \<open>Fixed-width numbers\<close>

lemma digit_char_less: "a < 10 \<Longrightarrow> b < 10 \<Longrightarrow> digit_char a < digit_char b \<longleftrightarrow> a < b"
  by (simp add: digit_char_def less_char_def)

lemma digit_char_eq: "a < 10 \<Longrightarrow> b < 10 \<Longrightarrow> digit_char a = digit_char b \<longleftrightarrow> a = b"
  by (metis digit_val_char)

lemma lex_append:
  fixes a b x y :: string
  assumes "length a = length b"
  shows "a @ x < b @ y \<longleftrightarrow> a < b \<or> a = b \<and> x < y"
  using assms by (induction a b rule: list_induct2) auto

lemma digits_int: "0 \<le> n \<Longrightarrow> nat (n div 10 mod 10) < 10 \<and> nat (n mod 10) < 10" for n :: int
  by auto

lemma two_nat:
  assumes "0 \<le> n" and "n < (100 :: int)"
  obtains a b where "a < 10" "b < 10" "n = int (10 * a + b)" "pad2 n = [digit_char a, digit_char b]"
proof -
  have "n div 10 mod 10 = n div 10" using assms by (intro mod_pos_pos_trivial) auto
  then have "n = int (10 * nat (n div 10 mod 10) + nat (n mod 10))"
    using assms mult_div_mod_eq [of 10 n] by auto
  with assms show thesis by (intro that) (auto simp: pad2_def)
qed

lemma pad2_less: "0 \<le> m \<Longrightarrow> m < 100 \<Longrightarrow> 0 \<le> n \<Longrightarrow> n < 100 \<Longrightarrow> pad2 m < pad2 n \<longleftrightarrow> m < n"
  and pad2_eq: "0 \<le> m \<Longrightarrow> m < 100 \<Longrightarrow> 0 \<le> n \<Longrightarrow> n < 100 \<Longrightarrow> pad2 m = pad2 n \<longleftrightarrow> m = n"
proof -
  assume "0 \<le> m" "m < 100" "0 \<le> n" "n < 100"
  then obtain a b c d where "a < 10" "b < 10" "c < 10" "d < 10"
    "m = int (10 * a + b)" "n = int (10 * c + d)"
    "pad2 m = [digit_char a, digit_char b]" "pad2 n = [digit_char c, digit_char d]"
    by (metis two_nat)
  then show "pad2 m < pad2 n \<longleftrightarrow> m < n" "pad2 m = pad2 n \<longleftrightarrow> m = n"
    by (auto simp: digit_char_less digit_char_eq)
qed

lemma length_pad2 [simp]: "length (pad2 n) = 2"
  by (simp add: pad2_def)

lemma pad4_pad2: "0 \<le> n \<Longrightarrow> n < 10000 \<Longrightarrow> pad4 n = pad2 (n div 100) @ pad2 (n mod 100)"
proof -
  assume n: "0 \<le> n" "n < 10000"
  define q where "q = n div 100"
  define a where "a = n mod 100 div 10"
  define b where "b = n mod 10"
  have "n mod 100 mod 10 = b" unfolding b_def by (rule mod_mod_cancel) simp
  then have r: "n mod 100 = 10 * a + b" using mult_div_mod_eq [of 10 "n mod 100"] by (simp add: a_def)
  have nq: "n = 100 * q + (10 * a + b)" using mult_div_mod_eq [of 100 n] r by (simp add: q_def)
  have ab: "0 \<le> a" "a < 10" "0 \<le> b" "b < 10"
    by (auto simp: a_def b_def pos_imp_zdiv_nonneg_iff)
  have q: "0 \<le> q" "q < 100" using n by (auto simp: q_def pos_imp_zdiv_nonneg_iff)
  have "n div 10 = 10 * q + a" using nq ab by (intro int_div_pos_eq [where r = b]) auto
  then have f1: "n div 10 mod 10 = a" using ab by simp
  have f2: "n div 1000 = q div 10" using q_def by (simp add: zdiv_zmult2_eq [symmetric])
  have f3: "q div 10 mod 10 = q div 10" using q by (intro mod_pos_pos_trivial) auto
  have f4: "(10 * a + b) div 10 mod 10 = a" "(10 * a + b) mod 10 = b" using ab by simp_all
  have "pad4 n = [digit_char (nat (n div 1000)), digit_char (nat (q mod 10)),
      digit_char (nat (n div 10 mod 10)), digit_char (nat b)]"
    using n by (simp add: pad4_def q_def b_def)
  also have "\<dots> = pad2 q @ pad2 (10 * a + b)" by (simp only: pad2_def f1 f2 f3 f4 append.simps)
  finally show ?thesis by (simp only: q_def r)
qed

lemma pad4_less: "0 \<le> m \<Longrightarrow> m < 10000 \<Longrightarrow> 0 \<le> n \<Longrightarrow> n < 10000 \<Longrightarrow> pad4 m < pad4 n \<longleftrightarrow> m < n"
  and pad4_eq: "0 \<le> m \<Longrightarrow> m < 10000 \<Longrightarrow> 0 \<le> n \<Longrightarrow> n < 10000 \<Longrightarrow> pad4 m = pad4 n \<longleftrightarrow> m = n"
proof -
  assume a: "0 \<le> m" "m < 10000" "0 \<le> n" "n < 10000"
  have d: "0 \<le> m div 100" "m div 100 < 100" "0 \<le> n div 100" "n div 100 < 100"
    "0 \<le> m mod 100" "m mod 100 < 100" "0 \<le> n mod 100" "n mod 100 < 100"
    using a by (simp_all add: pos_imp_zdiv_nonneg_iff)
  note e = mult_div_mod_eq [of 100 m] mult_div_mod_eq [of 100 n]
  have "m div 100 < n div 100 \<or> m div 100 = n div 100 \<and> m mod 100 < n mod 100 \<longleftrightarrow> m < n"
    using d(5-8) e by linarith
  then show "pad4 m < pad4 n \<longleftrightarrow> m < n"
    using a d by (simp add: pad4_pad2 lex_append pad2_less pad2_eq)
  have "m div 100 = n div 100 \<and> m mod 100 = n mod 100 \<longleftrightarrow> m = n" using e by metis
  then show "pad4 m = pad4 n \<longleftrightarrow> m = n"
    using a d by (simp add: pad4_pad2 pad2_eq)
qed

lemma length_pad4: "0 \<le> n \<Longrightarrow> n < 10000 \<Longrightarrow> length (pad4 n) = 4"
  by (simp add: pad4_def)


section \<open>Order of civil dates\<close>

lemma div_step:
  fixes y k :: int
  assumes "0 < k"
  shows "y div k = (y - 1) div k + (if y mod k = 0 then 1 else 0)"
proof -
  define q where "q = (y - 1) div k"
  define r where "r = (y - 1) mod k"
  have y: "y = k * q + (r + 1)" using mult_div_mod_eq [of k "y - 1"] by (simp add: q_def r_def)
  have r: "0 \<le> r" "r < k" using assms by (simp_all add: r_def)
  have "y div k = q + (if y mod k = 0 then 1 else 0)"
  proof (cases "r + 1 = k")
    case True
    with y have "y = (q + 1) * k" by (simp add: algebra_simps)
    then show ?thesis using assms by simp
  next
    case False
    with r have "r + 1 < k" by simp
    with r y have "y div k = q" "y mod k = r + 1"
      by (auto intro: int_div_pos_eq int_mod_pos_eq)
    with r show ?thesis by simp
  qed
  then show ?thesis by (simp add: q_def)
qed

lemma days_before_year_Suc: "days_before_year (y + 1) = days_before_year y + year_days y"
proof -
  have "y mod 400 mod 100 = y mod 100" "y mod 100 mod 4 = y mod 4" by (rule mod_mod_cancel, simp)+
  then have c: "y mod 400 = 0 \<Longrightarrow> y mod 100 = 0" "y mod 100 = 0 \<Longrightarrow> y mod 4 = 0" by auto
  define p4 p100 p400 where "p4 \<longleftrightarrow> y mod 4 = 0" and "p100 \<longleftrightarrow> y mod 100 = 0" and "p400 \<longleftrightarrow> y mod 400 = 0"
  define c4 c100 c400 :: int where "c4 = (if p4 then 1 else 0)" and "c100 = (if p100 then 1 else 0)"
    and "c400 = (if p400 then 1 else 0)"
  have imp: "p400 \<Longrightarrow> p100" "p100 \<Longrightarrow> p4" using c by (simp_all only: p4_def p100_def p400_def)
  have "leap_year y \<longleftrightarrow> p4 \<and> (\<not> p100 \<or> p400)" by (simp only: leap_year_def p4_def p100_def p400_def)
  then have "year_days y = 365 + c4 - c100 + c400"
    using imp by (cases p4; cases p100; cases p400)
      (simp_all add: year_days_def c4_def c100_def c400_def)
  moreover define A B C where "A = (y - 1) div 4" and "B = (y - 1) div 100" and "C = (y - 1) div 400"
  have d: "y div 4 = A + c4" "y div 100 = B + c100" "y div 400 = C + c400"
    unfolding c4_def c100_def c400_def p4_def p100_def p400_def A_def B_def C_def
    by (rule div_step, simp)+
  have "days_before_year (y + 1) = 365 * y + y div 4 - y div 100 + y div 400"
    by (simp add: days_before_year_def)
  then have "days_before_year (y + 1) = 365 * y + (A + c4) - (B + c100) + (C + c400)" by (simp only: d)
  moreover have "days_before_year y = 365 * (y - 1) + A - B + C"
    by (simp only: days_before_year_def A_def B_def C_def)
  ultimately show ?thesis by simp
qed

lemma days_before_year_mono: "y < z \<Longrightarrow> days_before_year y + year_days y \<le> days_before_year z"
proof (induction "nat (z - y)" arbitrary: z)
  case (Suc n)
  show ?case
  proof (cases "z = y + 1")
    case True
    then show ?thesis by (simp add: days_before_year_Suc)
  next
    case False
    with Suc have "days_before_year y + year_days y \<le> days_before_year (z - 1)"
      by (intro Suc.hyps(1)) auto
    moreover have "days_before_year z = days_before_year (z - 1) + year_days (z - 1)"
      using days_before_year_Suc [of "z - 1"] by simp
    moreover have "0 \<le> year_days (z - 1)" by (simp add: year_days_def)
    ultimately show ?thesis by simp
  qed
qed simp

lemma month_cases: "1 \<le> m \<Longrightarrow> m \<le> 12 \<Longrightarrow>
    m = 1 \<or> m = 2 \<or> m = 3 \<or> m = 4 \<or> m = 5 \<or> m = 6 \<or> m = 7 \<or> m = 8 \<or> m = 9 \<or> m = 10 \<or> m = 11 \<or> m = (12 :: int)"
  by presburger

lemma days_before_month_Suc:
  "1 \<le> m \<Longrightarrow> m < 12 \<Longrightarrow> days_before_month y (m + 1) = days_before_month y m + days_in y m"
  using month_cases [of m] by (auto simp: days_before_month_def days_in_def)

lemma days_before_month_mono:
  "1 \<le> m \<Longrightarrow> m < n \<Longrightarrow> n \<le> 12 \<Longrightarrow> days_before_month y m + days_in y m \<le> days_before_month y n"
proof (induction "nat (n - m)" arbitrary: n)
  case (Suc k)
  show ?case
  proof (cases "n = m + 1")
    case True
    with Suc.prems show ?thesis by (simp add: days_before_month_Suc)
  next
    case False
    with Suc have "days_before_month y m + days_in y m \<le> days_before_month y (n - 1)"
      by (intro Suc.hyps(1)) auto
    moreover have "days_before_month y n = days_before_month y (n - 1) + days_in y (n - 1)"
      using days_before_month_Suc [of "n - 1"] Suc.prems by simp
    moreover have "0 \<le> days_in y (n - 1)" by (simp add: days_in_def)
    ultimately show ?thesis by simp
  qed
qed simp

lemma days_of_civil_less:
  assumes "1 \<le> m" "m \<le> 12" "1 \<le> d" "d \<le> days_in y m"
    and "1 \<le> m'" "m' \<le> 12" "1 \<le> d'" "d' \<le> days_in y' m'"
    and "y < y' \<or> y = y' \<and> (m < m' \<or> m = m' \<and> d < d')"
  shows "days_of_civil y m d < days_of_civil y' m' d'"
proof -
  have fits: "days_before_month y m + days_in y m \<le> year_days y"
  proof (cases "m = 12")
    case True
    then show ?thesis by (simp add: days_before_month_def days_in_def year_days_def)
  next
    case False
    with assms(1,2) have "days_before_month y m + days_in y m \<le> days_before_month y 12"
      by (intro days_before_month_mono) auto
    also have "\<dots> \<le> year_days y" by (simp add: days_before_month_def year_days_def)
    finally show ?thesis .
  qed
  have nonneg: "0 \<le> days_before_month y' m'" by (simp add: days_before_month_def)
  consider "y < y'" | "y = y'" "m < m'" | "y = y'" "m = m'" "d < d'" using assms(9) by blast
  then show ?thesis
  proof cases
    case 1
    from days_before_year_mono [OF this] fits nonneg assms(4,7) show ?thesis
      by (simp add: days_of_civil_def)
  next
    case 2
    from days_before_month_mono [OF assms(1) this(2) assms(6), of y] 2 assms(4,7) show ?thesis
      by (simp add: days_of_civil_def)
  next
    case 3
    then show ?thesis by (simp add: days_of_civil_def)
  qed
qed


section \<open>The texts\<close>

text \<open>The seconds an instant falls into, and the bound of four-digit years.\<close>

definition unix_secs :: "go_time \<Rightarrow> int" where
  "unix_secs t = t div 1000000000"

definition plain_year :: "go_time \<Rightarrow> bool" where
  "plain_year t \<longleftrightarrow> 0 \<le> tf_year (time_fields_at 0 t) \<and> tf_year (time_fields_at 0 t) < 10000"

lemma fields_at_bounds:
  fixes t :: go_time
  defines "f \<equiv> time_fields_at 0 t"
  shows "1 \<le> tf_month f" "tf_month f \<le> 12" "1 \<le> tf_day f" "tf_day f \<le> days_in (tf_year f) (tf_month f)"
    "0 \<le> tf_hour f" "tf_hour f < 24" "0 \<le> tf_min f" "tf_min f < 60" "0 \<le> tf_sec f" "tf_sec f < 60"
    "tf_offset f = 0"
    and "unix_secs t = days_of_civil (tf_year f) (tf_month f) (tf_day f) * 86400 +
      tf_hour f * 3600 + tf_min f * 60 + tf_sec f"
proof -
  let ?s = "unix_secs t"
  obtain y m d where c: "civil_of_days (?s div 86400) = (y, m, d)" by (metis prod_cases3)
  note v = civil_of_days_valid [OF c]
  have f: "tf_year f = y" "tf_month f = m" "tf_day f = d" "tf_hour f = ?s mod 86400 div 3600"
    "tf_min f = ?s mod 86400 mod 3600 div 60" "tf_sec f = ?s mod 86400 mod 60" "tf_offset f = 0"
    using c by (simp_all add: f_def time_fields_at_def unix_secs_def Let_def)
  show "1 \<le> tf_month f" "tf_month f \<le> 12" "1 \<le> tf_day f" "tf_day f \<le> days_in (tf_year f) (tf_month f)"
    using v by (simp_all add: f)
  have "?s mod 86400 < 24 * 3600" by simp
  then show "tf_hour f < 24" unfolding f by (simp add: div_less_iff_less_mult)
  have "?s mod 86400 mod 3600 < 60 * 60" by simp
  then show "tf_min f < 60" unfolding f by (simp add: div_less_iff_less_mult)
  show "0 \<le> tf_hour f" "0 \<le> tf_min f" "0 \<le> tf_sec f" "tf_sec f < 60" "tf_offset f = 0"
    unfolding f by (simp_all add: pos_imp_zdiv_nonneg_iff)
  have "?s mod 86400 mod 3600 mod 60 = ?s mod 86400 mod 60" by (rule mod_mod_cancel) simp
  then show "?s = days_of_civil (tf_year f) (tf_month f) (tf_day f) * 86400 +
      tf_hour f * 3600 + tf_min f * 60 + tf_sec f"
    unfolding f v(1)
    using mult_div_mod_eq [of 86400 ?s] mult_div_mod_eq [of 3600 "?s mod 86400"]
      mult_div_mod_eq [of 60 "?s mod 86400 mod 3600"] by linarith
qed

lemma days_in_100: "d \<le> days_in y m \<Longrightarrow> d < 100"
  by (auto simp: days_in_def split: if_splits)

definition stamp :: "go_time \<Rightarrow> string" where
  "stamp t = go_format LayoutRFC3339 t"

lemma stamp_eq:
  "stamp t = (let f = time_fields_at 0 t in
     pad4 (tf_year f) @ ''-'' @ pad2 (tf_month f) @ ''-'' @ pad2 (tf_day f) @ ''T'' @ pad2 (tf_hour f) @
     '':'' @ pad2 (tf_min f) @ '':'' @ pad2 (tf_sec f) @ ''Z'')"
  using fields_at_bounds(11) [of t]
  by (simp add: stamp_def go_format_def go_format_at_def LayoutRFC3339_def zone_text_def Let_def)

lemma num2_pad2: "0 \<le> n \<Longrightarrow> n < 100 \<Longrightarrow> num2 (pad2 n @ r) = Some (n, r)"
  by (rule two_nat [of n]) (auto simp: num2_def)

lemma num12_pad2: "0 \<le> n \<Longrightarrow> n < 100 \<Longrightarrow> num12 (pad2 n @ r) = Some (n, r)"
  by (rule two_nat [of n]) (auto simp: num12_def)

lemma num4_pad4: "0 \<le> n \<Longrightarrow> n < 10000 \<Longrightarrow> num4 (pad4 n @ r) = Some (n, r)"
proof -
  assume n: "0 \<le> n" "n < 10000"
  then have "0 \<le> n div 100" "n div 100 < 100" "0 \<le> n mod 100" "n mod 100 < 100"
    by (simp_all add: pos_imp_zdiv_nonneg_iff)
  then obtain a b c d where d: "a < 10" "b < 10" "c < 10" "d < 10"
    "n div 100 = int (10 * a + b)" "n mod 100 = int (10 * c + d)"
    "pad4 n = [digit_char a, digit_char b, digit_char c, digit_char d]"
    using pad4_pad2 [OF n] by (metis append_Cons append_Nil two_nat)
  moreover have "n = int (1000 * a + 100 * b + 10 * c + d)"
    using mult_div_mod_eq [of 100 n] d(5,6) by simp
  ultimately show ?thesis by (simp add: num4_def digits_val_def)
qed

lemma parse_lit: "parse_chunk (CLit l) (l @ r) t = Some (r, t)"
  by simp

text \<open>a timestamp written to the store reads back as the same instant to the second, for every
  instant of the years 0 to 9999.\<close>

theorem stamp_parse:
  assumes "plain_year t"
  shows "go_parse LayoutRFC3339 (stamp t) = Some (unix_secs t * 1000000000)"
proof -
  let ?f = "time_fields_at 0 t"
  note b = fields_at_bounds [of t]
  have y: "0 \<le> tf_year ?f" "tf_year ?f < 10000" using assms by (auto simp: plain_year_def)
  have "parse_chunks LayoutRFC3339 (stamp t) zero_fields =
      Some (zero_fields\<lparr>tf_year := tf_year ?f, tf_month := tf_month ?f, tf_day := tf_day ?f,
        tf_hour := tf_hour ?f, tf_min := tf_min ?f, tf_sec := tf_sec ?f, tf_nsec := 0, tf_offset := 0\<rparr>)"
    using y b days_in_100 [OF b(4)]
    by (simp add: stamp_eq LayoutRFC3339_def Let_def num4_pad4 num2_pad2 num12_pad2 has_prefix_def
        parse_frac_def parse_zone_def)
  then show ?thesis
    using b by (simp add: go_parse_def fields_time_def zero_fields_def)
qed

text \<open>The order of timestamps as texts, which the SQL comparisons use, is the order of the
  instants, to the second.\<close>

theorem stamp_less_iff:
  assumes "plain_year t" and "plain_year u"
  shows "stamp t < stamp u \<longleftrightarrow> unix_secs t < unix_secs u"
proof -
  have mono: "stamp t < stamp u" if "unix_secs t < unix_secs u" "plain_year t" "plain_year u" for t u
  proof -
    let ?f = "time_fields_at 0 t" and ?g = "time_fields_at 0 u"
    note b = fields_at_bounds [of t] and c = fields_at_bounds [of u]
    let ?D = "days_of_civil (tf_year ?f) (tf_month ?f) (tf_day ?f)"
    let ?E = "days_of_civil (tf_year ?g) (tf_month ?g) (tf_day ?g)"
    have "\<not> ?E < ?D" using that(1) b(5-10,12) c(5-10,12) by linarith
    then have "\<not> (tf_year ?g < tf_year ?f \<or> tf_year ?g = tf_year ?f \<and>
        (tf_month ?g < tf_month ?f \<or> tf_month ?g = tf_month ?f \<and> tf_day ?g < tf_day ?f))"
      using days_of_civil_less [OF c(1-4) b(1-4)] by blast
    moreover have "?D = ?E \<Longrightarrow> tf_hour ?f < tf_hour ?g \<or> tf_hour ?f = tf_hour ?g \<and>
        (tf_min ?f < tf_min ?g \<or> tf_min ?f = tf_min ?g \<and> tf_sec ?f < tf_sec ?g)"
      using that(1) b(5-10,12) c(5-10,12) by linarith
    ultimately have lex: "tf_year ?f < tf_year ?g \<or> tf_year ?f = tf_year ?g \<and>
        (tf_month ?f < tf_month ?g \<or> tf_month ?f = tf_month ?g \<and>
        (tf_day ?f < tf_day ?g \<or> tf_day ?f = tf_day ?g \<and>
        (tf_hour ?f < tf_hour ?g \<or> tf_hour ?f = tf_hour ?g \<and>
        (tf_min ?f < tf_min ?g \<or> tf_min ?f = tf_min ?g \<and> tf_sec ?f < tf_sec ?g))))"
      by (metis linorder_neqE_linordered_idom)
    have y: "0 \<le> tf_year ?f" "tf_year ?f < 10000" "0 \<le> tf_year ?g" "tf_year ?g < 10000"
      using that(2,3) by (auto simp: plain_year_def)
    show ?thesis
      using lex y b(1-10) c(1-10) days_in_100 [OF b(4)] days_in_100 [OF c(4)]
      by (simp add: stamp_eq Let_def lex_append length_pad4 pad4_less pad4_eq pad2_less pad2_eq)
  qed
  have eq: "stamp t = stamp u" if "unix_secs t = unix_secs u"
    using that by (simp add: stamp_eq Let_def time_fields_at_def unix_secs_def case_prod_unfold)
  show ?thesis
    using mono [of t u] mono [of u t] eq assms by (metis less_irrefl less_asym linorder_neqE_linordered_idom)
qed


section \<open>Concrete inputs\<close>

text \<open>1 January 2026 and one second later.\<close>

definition new_year :: go_time where "new_year = 63902822400000000000"

lemma new_year_plain: "plain_year new_year" "plain_year (new_year + second)" "plain_year 0"
  by code_simp+

lemma stamp_parse_witness: "go_parse LayoutRFC3339 (stamp new_year) = Some new_year"
  using stamp_parse [OF new_year_plain(1)] by (simp add: unix_secs_def new_year_def)

lemma stamp_less_iff_witness: "stamp new_year < stamp (new_year + second)"
  using stamp_less_iff [OF new_year_plain(1,2)] by (simp add: unix_secs_def new_year_def)

end
