(* ===== verification/Dav_Types.thy ===== *)
theory Dav_Types
  imports Go_Time Go_URL
begin

text \<open>
  The data of the DAV sync engine (\<^verbatim>\<open>internal/dav/dav.go\<close>): items, the \<^verbatim>\<open>Collection\<close> interface, the
  persisted state, the options and the vanish guard.

  A \<^verbatim>\<open>Collection\<close> is a record of four operations on an arbitrary world \<open>'w\<close>; both sides of a run
  act on the same world, so nothing is assumed about how a server answers, and two sides may be
  the same server. \<open>traced\<close> wraps a collection so that the world also records the calls made:
  the properties about what a run does on the wire are stated over that log (the tests'
  \<^verbatim>\<open>recordColl\<close> counts calls in the same way).
\<close>


section \<open>Items, state, options\<close>

record item_meta =
  im_href :: string
  im_etag :: string

record item =
  it_href :: string
  it_etag :: string
  it_data :: bytes

record item_state =
  is_uid :: string
  src_href :: string
  src_etag :: string
  src_hash :: string
  dst_href :: string
  dst_etag :: string
  dst_hash :: string

definition zero_item_state :: item_state where
  "zero_item_state = \<lparr>is_uid = [], src_href = [], src_etag = [], src_hash = [],
                      dst_href = [], dst_etag = [], dst_hash = []\<rparr>"

type_synonym items = "(string, item_state) go_map"

text \<open>\<^verbatim>\<open>Direction\<close> and \<^verbatim>\<open>Conflict\<close> are string types with named constants; any string can occur.\<close>

definition AToB :: string where "AToB = ''a-to-b''"
definition BToA :: string where "BToA = ''b-to-a''"
definition Bidirectional :: string where "Bidirectional = ''bidirectional''"
definition NewestWins :: string where "NewestWins = ''newest-wins''"
definition SourceWins :: string where "SourceWins = ''source-wins''"

record options =
  opt_direction :: string
  opt_conflict :: string
  opt_uid :: "(bytes \<Rightarrow> string) option"
  opt_modified :: "(bytes \<Rightarrow> go_time) option"
  opt_href_suffix :: string
  opt_window_start :: go_time
  opt_window_end :: go_time

definition suffix_of :: "options \<Rightarrow> string" where
  "suffix_of opts = (if opt_href_suffix opts = [] then ''.ics'' else opt_href_suffix opts)"

definition hasWindow :: "options \<Rightarrow> bool" where
  "hasWindow opts \<longleftrightarrow> \<not> time_is_zero (opt_window_start opts) \<or> \<not> time_is_zero (opt_window_end opts)"

text \<open>
  What a run takes from its surroundings: SHA-256, the start of a calendar body (\<^verbatim>\<open>CalendarStart\<close>,
  which needs the third-party iCalendar parser), and the order Go ranges over maps in.
\<close>

record dav_env =
  env_sha256 :: "bytes \<Rightarrow> bytes"
  env_start :: "bytes \<Rightarrow> go_time"
  env_range :: range_fn

definition EventInWindow :: "(bytes \<Rightarrow> go_time) \<Rightarrow> bytes \<Rightarrow> go_time \<Rightarrow> go_time \<Rightarrow> bool" where
  "EventInWindow calendarStart data start stop =
     (if time_is_zero start \<and> time_is_zero stop then True
      else let t = calendarStart data in
        if time_is_zero t then True
        else if \<not> time_is_zero start \<and> time_before t start then False
        else if \<not> time_is_zero stop \<and> time_after t stop then False
        else True)"

definition inWindow :: "dav_env \<Rightarrow> options \<Rightarrow> bytes \<Rightarrow> bool" where
  "inWindow env opts data =
     (if \<not> hasWindow opts then True
      else EventInWindow (env_start env) data (opt_window_start opts) (opt_window_end opts))"

record sync_result =
  r_created :: nat
  r_updated :: nat
  r_deleted :: nat

definition zero_result :: sync_result where
  "zero_result = \<lparr>r_created = 0, r_updated = 0, r_deleted = 0\<rparr>"


section \<open>Collections\<close>

record 'w collection =
  coll_list :: "'w \<Rightarrow> item_meta list result \<times> 'w"
  coll_get :: "string \<Rightarrow> 'w \<Rightarrow> item result \<times> 'w"
  coll_put :: "item \<Rightarrow> 'w \<Rightarrow> item result \<times> 'w"
  coll_delete :: "string \<Rightarrow> 'w \<Rightarrow> unit result \<times> 'w"

datatype 's dav_op =
    OpList 's
  | OpGet 's string
  | OpPut 's item bool
  | OpDelete 's string bool

definition is_ok :: "'a result \<Rightarrow> bool" where
  "is_ok r = (case r of Inl _ \<Rightarrow> False | Inr _ \<Rightarrow> True)"

definition traced :: "'s \<Rightarrow> 'w collection \<Rightarrow> ('w \<times> 's dav_op list) collection" where
  "traced s c = \<lparr>
     coll_list = (\<lambda>(w, log). case coll_list c w of (r, w') \<Rightarrow> (r, w', log @ [OpList s])),
     coll_get = (\<lambda>h (w, log). case coll_get c h w of (r, w') \<Rightarrow> (r, w', log @ [OpGet s h])),
     coll_put = (\<lambda>it (w, log). case coll_put c it w of (r, w') \<Rightarrow> (r, w', log @ [OpPut s it (is_ok r)])),
     coll_delete = (\<lambda>h (w, log). case coll_delete c h w of (r, w') \<Rightarrow>
                      (r, w', log @ [OpDelete s h (is_ok r)]))\<rparr>"

fun op_writes :: "'s dav_op \<Rightarrow> bool" where
  "op_writes (OpPut _ _ _) = True"
| "op_writes (OpDelete _ _ _) = True"
| "op_writes _ = False"

fun op_side :: "'s dav_op \<Rightarrow> 's" where
  "op_side (OpList s) = s"
| "op_side (OpGet s _) = s"
| "op_side (OpPut s _ _) = s"
| "op_side (OpDelete s _ _) = s"

lemma traced_simps [simp]:
  "coll_list (traced s c) (w, log) =
     (fst (coll_list c w), snd (coll_list c w), log @ [OpList s])"
  "coll_get (traced s c) h (w, log) =
     (fst (coll_get c h w), snd (coll_get c h w), log @ [OpGet s h])"
  "coll_put (traced s c) it (w, log) =
     (fst (coll_put c it w), snd (coll_put c it w), log @ [OpPut s it (is_ok (fst (coll_put c it w)))])"
  "coll_delete (traced s c) h (w, log) =
     (fst (coll_delete c h w), snd (coll_delete c h w),
      log @ [OpDelete s h (is_ok (fst (coll_delete c h w)))])"
  by (simp_all add: traced_def split: prod.splits)


section \<open>The vanish guard\<close>

definition ErrCollectionVanished :: go_error where
  "ErrCollectionVanished = ErrNew
     ''dav: refusing to sync: one side is empty although the previous run saw a full collection there; check the collection URLs, then reset the job's sync state to accept the current contents''"

definition vanishGuardThreshold :: nat where
  "vanishGuardThreshold = 5"

definition guardVanished :: "string \<Rightarrow> nat \<Rightarrow> nat \<Rightarrow> go_error option" where
  "guardVanished side listed known =
     (if listed = 0 \<and> known \<ge> vanishGuardThreshold then
        Some (ErrWrap [] ErrCollectionVanished
          [Lit (''(side '' @ side @ '': 0 listed, '' @ itoa (int known) @ '' known)'')])
      else None)"

lemma guardVanished_is:
  "guardVanished side listed known = Some e \<Longrightarrow> err_is e ErrCollectionVanished"
  by (auto simp: guardVanished_def split: if_splits)

lemma guardVanished_None:
  "guardVanished side listed known = None \<longleftrightarrow> 0 < listed \<or> known < 5"
  by (auto simp: guardVanished_def vanishGuardThreshold_def)

end
