(* ===== verification/Dav_Mirror.thy ===== *)
theory Dav_Mirror
  imports Dav_Types
begin

text \<open>
  \<^verbatim>\<open>internal/dav/mirror.go\<close>: body fingerprints, tolerant href comparison, the inspection of a
  destination copy and the write with read-back. The frame lemmas at the end say what each of
  them can do to a world.
\<close>


section \<open>Fingerprints and hrefs\<close>

definition bodyHash :: "dav_env \<Rightarrow> bytes \<Rightarrow> string" where
  "bodyHash env data = hex_encode (take 16 (env_sha256 env data))"

definition normHref :: "string \<Rightarrow> string" where
  "normHref h =
     (if h = [] then []
      else
        let s = (case url_parse h of
                   Some u \<Rightarrow> if url_path u \<noteq> [] then url_path u
                             else (case path_unescape h of Some dec \<Rightarrow> dec | None \<Rightarrow> h)
                 | None \<Rightarrow> (case path_unescape h of Some dec \<Rightarrow> dec | None \<Rightarrow> h));
            s = path_clean s
        in if length s > 1 then trim_right_char (CHR ''/'') s else s)"

type_synonym href_index = "(string, item_meta) go_map"

definition indexByHref :: "item_meta list \<Rightarrow> href_index" where
  "indexByHref list =
     (let raw = fold (\<lambda>m idx. if im_href m \<noteq> [] then map_put (im_href m) m idx else idx) list []
      in fold (\<lambda>m idx. let n = normHref (im_href m) in
                 if n = [] then idx
                 else if map_get idx n = None then map_put n m idx
                 else idx) list raw)"

definition lookupMeta :: "href_index \<Rightarrow> string \<Rightarrow> item_meta option" where
  "lookupMeta idx href =
     (if href = [] then None
      else case map_get idx href of
             Some m \<Rightarrow> Some m
           | None \<Rightarrow>
               let n = normHref href in
               if n \<noteq> [] then map_get idx n else None)"

text \<open>A body changed under an unchanged fingerprint would need a collision of SHA-256 truncated to
  128 bits.\<close>

lemma bodyHash_eq_iff:
  "bodyHash env a = bodyHash env b \<longleftrightarrow> take 16 (env_sha256 env a) = take 16 (env_sha256 env b)"
  by (auto simp: bodyHash_def dest: hex_encode_inj)

lemma bodyHash_nonempty:
  "env_sha256 env d \<noteq> [] \<Longrightarrow> bodyHash env d \<noteq> []"
proof -
  assume "env_sha256 env d \<noteq> []"
  then have "length (bodyHash env d) > 0" by (simp add: bodyHash_def)
  then show ?thesis by auto
qed


section \<open>Inspecting a destination copy\<close>

datatype dst_status = DstOK | DstMissing | DstDrifted | DstUnknown

type_synonym inspection = "dst_status \<times> string \<times> string \<times> go_error option"

definition inspectDst ::
  "dav_env \<Rightarrow> 'w collection \<Rightarrow> item_state \<Rightarrow> href_index \<Rightarrow> 'w \<Rightarrow> inspection \<times> 'w" where
  "inspectDst env dst st idx w =
     (if dst_href st = [] then ((DstMissing, [], [], None), w)
      else case lookupMeta idx (dst_href st) of
        None \<Rightarrow> ((DstMissing, [], [], None), w)
      | Some meta \<Rightarrow>
          if im_etag meta \<noteq> [] \<and> im_etag meta = dst_etag st \<and> dst_hash st \<noteq> [] then
            ((DstOK, im_etag meta, dst_hash st, None), w)
          else
            (case coll_get dst (im_href meta) w of
               (Inl e, w') \<Rightarrow>
                 ((DstUnknown, [], [],
                   Some (wrapf (''inspect destination '' @ im_href meta @ '': '') e)), w')
             | (Inr it, w') \<Rightarrow>
                 let etag = (if im_etag meta = [] then it_etag it else im_etag meta);
                     hash = bodyHash env (it_data it)
                 in if dst_hash st = [] \<or> hash = dst_hash st
                    then ((DstOK, etag, hash, None), w')
                    else ((DstDrifted, etag, hash, None), w')))"


section \<open>Writing with read-back\<close>

text \<open>The result is the stored href, the recorded ETag and the recorded fingerprint.\<close>

definition putMirror ::
  "dav_env \<Rightarrow> 'w collection \<Rightarrow> string \<Rightarrow> string \<Rightarrow> bytes \<Rightarrow> 'w \<Rightarrow>
     (string \<times> string \<times> string) result \<times> 'w" where
  "putMirror env dst href etag data w =
     (case coll_put dst \<lparr>it_href = href, it_etag = etag, it_data = data\<rparr> w of
        (Inl e, w') \<Rightarrow> (Inl e, w')
      | (Inr stored, w') \<Rightarrow>
          let newHref = (if it_href stored = [] then href else it_href stored)
          in case coll_get dst newHref w' of
               (Inl e, w'') \<Rightarrow> (Inr (newHref, it_etag stored, bodyHash env data), w'')
             | (Inr back, w'') \<Rightarrow>
                 (Inr (newHref,
                       if it_etag back \<noteq> [] then it_etag back else it_etag stored,
                       bodyHash env (it_data back)), w''))"


section \<open>Lemmas\<close>

lemma inspectDst_status_err:
  "inspectDst env dst st idx w = ((status, etag, hash, err), w') \<Longrightarrow>
     err = None \<longleftrightarrow> status \<noteq> DstUnknown"
  by (auto simp: inspectDst_def Let_def split: if_splits option.splits prod.splits sum.splits)

lemma inspectDst_missing_iff:
  "inspectDst env dst st idx w = ((DstMissing, etag, hash, err), w') \<Longrightarrow>
     lookupMeta idx (dst_href st) = None"
  by (auto simp: inspectDst_def lookupMeta_def Let_def
      split: if_splits option.splits prod.splits sum.splits)

lemma inspectDst_missing_world:
  "inspectDst env dst st idx w = ((DstMissing, etag, hash, err), w') \<Longrightarrow>
     etag = [] \<and> hash = [] \<and> err = None \<and> w' = w"
  by (auto simp: inspectDst_def Let_def split: if_splits option.splits prod.splits sum.splits)

text \<open>The exact match wins over the tolerant one.\<close>

definition raw_index :: "item_meta list \<Rightarrow> href_index \<Rightarrow> href_index" where
  "raw_index list idx = fold (\<lambda>m idx. if im_href m \<noteq> [] then map_put (im_href m) m idx else idx) list idx"

definition norm_index :: "item_meta list \<Rightarrow> href_index \<Rightarrow> href_index" where
  "norm_index list idx =
     fold (\<lambda>m idx. let n = normHref (im_href m) in
             if n = [] then idx
             else if map_get idx n = None then map_put n m idx
             else idx) list idx"

lemma indexByHref_eq: "indexByHref list = norm_index list (raw_index list [])"
  by (simp add: indexByHref_def raw_index_def norm_index_def Let_def)

lemma raw_index_notin:
  "\<forall>m\<in>set list. im_href m \<noteq> h \<Longrightarrow> map_get (raw_index list idx) h = map_get idx h"
  by (induction list arbitrary: idx) (auto simp: raw_index_def)

lemma raw_index_get:
  assumes "m \<in> set list" and "im_href m \<noteq> []" and "distinct (map im_href list)"
  shows "map_get (raw_index list idx) (im_href m) = Some m"
  using assms
proof (induction list arbitrary: idx)
  case Nil
  then show ?case by simp
next
  case (Cons x list)
  show ?case
  proof (cases "m \<in> set list")
    case True
    with Cons show ?thesis by (simp add: raw_index_def)
  next
    case False
    with Cons.prems(1) have "m = x" by simp
    moreover from this Cons.prems(3) have "\<forall>m'\<in>set list. im_href m' \<noteq> im_href m"
      by (auto simp: image_iff)
    ultimately show ?thesis
      using Cons.prems(2) raw_index_notin [of list "im_href m" "map_put (im_href x) x idx"]
      by (simp add: raw_index_def)
  qed
qed

lemma raw_index_sound:
  "map_get (raw_index list idx) h = Some m \<Longrightarrow>
     map_get idx h = Some m \<or> (m \<in> set list \<and> im_href m = h)"
proof (induction list arbitrary: idx)
  case Nil
  then show ?case by (simp add: raw_index_def)
next
  case (Cons x list)
  have "raw_index (x # list) idx =
      raw_index list (if im_href x \<noteq> [] then map_put (im_href x) x idx else idx)"
    by (simp add: raw_index_def)
  with Cons.prems Cons.IH show ?case by (fastforce split: if_splits)
qed

lemma norm_index_keep: "map_get idx h = Some m \<Longrightarrow> map_get (norm_index list idx) h = Some m"
proof (induction list arbitrary: idx)
  case Nil
  then show ?case by (simp add: norm_index_def)
next
  case (Cons x list)
  let ?n = "normHref (im_href x)"
  let ?idx' = "if ?n = [] then idx else if map_get idx ?n = None then map_put ?n x idx else idx"
  have "norm_index (x # list) idx = norm_index list ?idx'"
    by (simp add: norm_index_def Let_def)
  moreover have "map_get ?idx' h = Some m" using Cons.prems by auto
  ultimately show ?case using Cons.IH by simp
qed

lemma norm_index_sound:
  "map_get (norm_index list idx) h = Some m \<Longrightarrow>
     map_get idx h = Some m \<or> (m \<in> set list \<and> normHref (im_href m) = h)"
proof (induction list arbitrary: idx)
  case Nil
  then show ?case by (simp add: norm_index_def)
next
  case (Cons x list)
  let ?n = "normHref (im_href x)"
  let ?idx' = "if ?n = [] then idx else if map_get idx ?n = None then map_put ?n x idx else idx"
  have "norm_index (x # list) idx = norm_index list ?idx'"
    by (simp add: norm_index_def Let_def)
  with Cons.prems have "map_get ?idx' h = Some m \<or> (m \<in> set list \<and> normHref (im_href m) = h)"
    using Cons.IH by simp
  then show ?case by (auto split: if_splits)
qed

lemma lookupMeta_listed:
  assumes "m \<in> set list" and "im_href m \<noteq> []" and "distinct (map im_href list)"
  shows "lookupMeta (indexByHref list) (im_href m) = Some m"
  using raw_index_get [OF assms, of "[]"] assms(2)
  by (simp add: lookupMeta_def indexByHref_eq norm_index_keep)

lemma lookupMeta_sound:
  "lookupMeta (indexByHref list) h = Some m \<Longrightarrow>
     m \<in> set list \<and> (im_href m = h \<or> normHref (im_href m) = h \<or>
       im_href m = normHref h \<or> normHref (im_href m) = normHref h)"
  by (auto simp: lookupMeta_def indexByHref_eq Let_def split: if_splits option.splits
      dest!: norm_index_sound raw_index_sound)

end
