(* ===== verification/Dav_Sync.thy ===== *)
theory Dav_Sync
  imports Dav_Mirror
begin

text \<open>
  \<^verbatim>\<open>internal/dav/sync.go\<close>: the one-way mirror. The loop over the source listing and the deletion pass
  are \<open>foreach\<close> loops over the record \<open>oneway\<close>, which holds what the Go function keeps in local
  variables and in the \<^verbatim>\<open>*State\<close> it mutates; an early \<^verbatim>\<open>return res, err\<close> keeps the state reached, as
  the pointer does in the code.
\<close>


section \<open>Destination hrefs\<close>

definition href_safe :: "char \<Rightarrow> bool" where
  "href_safe c \<longleftrightarrow> is_alpha c \<or> is_digit c \<or> c \<in> set ''-_.''"

text \<open>
  \<^verbatim>\<open>strings.Map\<close> works on runes: a whole UTF-8 sequence becomes one dash, an invalid byte
  (\<^verbatim>\<open>RuneError\<close>) becomes one dash as well. \<open>rune_len\<close> is the number of bytes \<^verbatim>\<open>DecodeRune\<close> consumes.
\<close>

definition cont_byte :: "nat \<Rightarrow> nat \<Rightarrow> string \<Rightarrow> bool" where
  "cont_byte lo hi s \<longleftrightarrow> (case s of [] \<Rightarrow> False | c # _ \<Rightarrow> lo \<le> (of_char c :: nat) \<and> (of_char c :: nat) \<le> hi)"

definition rune_len :: "string \<Rightarrow> nat" where
  "rune_len s = (case s of [] \<Rightarrow> 0 | c # r \<Rightarrow>
     (let n = (of_char c :: nat);
          c2 = cont_byte 128 191 (drop 1 r); c3 = cont_byte 128 191 (drop 2 r)
      in if n < 194 \<or> n > 244 then 1
         else if n \<le> 223 then (if cont_byte 128 191 r then 2 else 1)
         else if n \<le> 239 then
           (if cont_byte (if n = 224 then 160 else 128) (if n = 237 then 159 else 191) r \<and> c2
            then 3 else 1)
         else (if cont_byte (if n = 240 then 144 else 128) (if n = 244 then 143 else 191) r \<and> c2 \<and> c3
               then 4 else 1)))"

lemma rune_len_pos: "s \<noteq> [] \<Longrightarrow> 0 < rune_len s"
  by (cases s) (simp_all add: rune_len_def Let_def)

function safe_runes :: "string \<Rightarrow> string" where
  "safe_runes [] = []"
| "safe_runes (c # s) =
     (if href_safe c then c # safe_runes s
      else CHR ''-'' # safe_runes (drop (rune_len (c # s)) (c # s)))"
  by pat_completeness auto
termination
  by (relation "measure length") (auto simp: rune_len_def Let_def)

definition destHref :: "string \<Rightarrow> string \<Rightarrow> string" where
  "destHref uid suff =
     (let safe = safe_runes uid in (if safe = [] then ''item'' else safe) @ suff)"

lemma safe_runes_id: "list_all href_safe s \<Longrightarrow> safe_runes s = s"
  by (induction s) auto

lemma safe_runes_safe: "list_all href_safe (safe_runes s)"
  by (induction s rule: safe_runes.induct) (auto simp: href_safe_def)

lemma safe_runes_eq_Nil: "safe_runes s = [] \<longleftrightarrow> s = []"
  by (cases s) auto

text \<open>Distinct UIDs may share a destination href: the second copy then overwrites the first.\<close>

lemma destHref_clash: "destHref ''a@b'' s = destHref ''a-b'' s"
  by (simp add: destHref_def href_safe_def rune_len_def Let_def is_alpha_def is_digit_def)


section \<open>The loop over the source listing\<close>

record 'w oneway =
  ow_world :: 'w
  ow_items :: items
  ow_res :: sync_result
  ow_seen :: "string set"
  ow_filtered :: "string set"
  ow_unverified :: nat
  ow_unverified_err :: "go_error option"

definition noteUnverified :: "go_error \<Rightarrow> 'w oneway \<Rightarrow> 'w oneway" where
  "noteUnverified e r =
     r\<lparr>ow_unverified := ow_unverified r + 1,
       ow_unverified_err :=
         (case ow_unverified_err r of None \<Rightarrow> Some e | Some e' \<Rightarrow> Some e')\<rparr>"

text \<open>The final \<^verbatim>\<open>switch\<close>: restore a missing copy, rewrite a drifted or outdated one, or only record
  the fingerprints.\<close>

definition mirror_write ::
  "dav_env \<Rightarrow> 'w collection \<Rightarrow> options \<Rightarrow> string \<Rightarrow> item_state \<Rightarrow> bool \<Rightarrow> bytes \<Rightarrow>
     dst_status \<Rightarrow> string \<Rightarrow> string \<Rightarrow> 'w oneway \<Rightarrow> go_error option \<times> 'w oneway" where
  "mirror_write env dst opts uid cur srcChanged data status dstETag dstHash r =
     (if status = DstMissing then
        let href = (if dst_href cur = [] then destHref uid (suffix_of opts) else dst_href cur)
        in case putMirror env dst href [] data (ow_world r) of
             (Inl e, w) \<Rightarrow> (Some (wrapf ''create: '' e), r\<lparr>ow_world := w\<rparr>)
           | (Inr (newHref, newETag, newHash), w) \<Rightarrow>
               (None, r\<lparr>ow_world := w,
                  ow_items := map_put uid
                    (cur\<lparr>dst_href := newHref, dst_etag := newETag, dst_hash := newHash\<rparr>) (ow_items r),
                  ow_res := (ow_res r)\<lparr>r_created := r_created (ow_res r) + 1\<rparr>\<rparr>)
      else if status = DstDrifted \<or> srcChanged then
        (case putMirror env dst (dst_href cur) (dst_etag cur) data (ow_world r) of
           (Inl e, w) \<Rightarrow>
             (Some (wrapf (''update '' @ dst_href cur @ '': '') e), r\<lparr>ow_world := w\<rparr>)
         | (Inr (newHref, newETag, newHash), w) \<Rightarrow>
             (None, r\<lparr>ow_world := w,
                ow_items := map_put uid
                  (cur\<lparr>dst_href := newHref, dst_etag := newETag, dst_hash := newHash\<rparr>) (ow_items r),
                ow_res := (ow_res r)\<lparr>r_updated := r_updated (ow_res r) + 1\<rparr>\<rparr>))
      else
        (None, r\<lparr>ow_items := map_put uid
                   (cur\<lparr>dst_etag := dstETag, dst_hash := dstHash\<rparr>) (ow_items r)\<rparr>))"

text \<open>
  Reading the source body and everything after it. \<open>checkedUID\<close>, \<open>status\<close>, \<open>dstETag\<close> and
  \<open>dstHash\<close> are what the inspection before left in the loop's variables (their zero values if
  there was none).
\<close>

definition body_uid :: "(bytes \<Rightarrow> string) \<Rightarrow> item_meta \<Rightarrow> bytes \<Rightarrow> string" where
  "body_uid uidFn meta data = (if uidFn data = [] then im_href meta else uidFn data)"

definition entry_of :: "items \<Rightarrow> string \<Rightarrow> item_state" where
  "entry_of its uid = (case map_get its uid of Some c \<Rightarrow> c | None \<Rightarrow> zero_item_state)"

definition refreshed :: "dav_env \<Rightarrow> item_meta \<Rightarrow> string \<Rightarrow> bytes \<Rightarrow> item_state \<Rightarrow> item_state" where
  "refreshed env meta uid data old =
     old\<lparr>is_uid := uid, src_href := im_href meta, src_etag := im_etag meta,
         src_hash := bodyHash env data\<rparr>"

definition src_changed :: "dav_env \<Rightarrow> bytes \<Rightarrow> item_state \<Rightarrow> bool" where
  "src_changed env data old \<longleftrightarrow> src_hash old \<noteq> [] \<and> src_hash old \<noteq> bodyHash env data"

definition mirror_fetch ::
  "dav_env \<Rightarrow> 'w collection \<Rightarrow> 'w collection \<Rightarrow> options \<Rightarrow> (bytes \<Rightarrow> string) \<Rightarrow> href_index \<Rightarrow>
     item_meta \<Rightarrow> string \<Rightarrow> dst_status \<Rightarrow> string \<Rightarrow> string \<Rightarrow> 'w oneway \<Rightarrow>
     go_error option \<times> 'w oneway" where
  "mirror_fetch env src dst opts uidFn dstIdx meta checkedUID status dstETag dstHash r =
     (case coll_get src (im_href meta) (ow_world r) of
        (Inl e, w) \<Rightarrow> (Some (wrapf (''get '' @ im_href meta @ '': '') e), r\<lparr>ow_world := w\<rparr>)
      | (Inr it, w) \<Rightarrow>
          let uid = body_uid uidFn meta (it_data it)
          in if \<not> inWindow env opts (it_data it) then
               (None, r\<lparr>ow_world := w, ow_filtered := insert uid (ow_filtered r)\<rparr>)
             else
               let r1 = r\<lparr>ow_world := w, ow_seen := insert uid (ow_seen r)\<rparr>;
                   old = entry_of (ow_items r) uid;
                   srcChanged = src_changed env (it_data it) old;
                   cur = refreshed env meta uid (it_data it) old
               in if checkedUID \<noteq> uid then
                    (case inspectDst env dst cur dstIdx w of
                       ((_, _, _, Some e), w') \<Rightarrow> (None, noteUnverified e (r1\<lparr>ow_world := w'\<rparr>))
                     | ((st, et, ha, None), w') \<Rightarrow>
                         mirror_write env dst opts uid cur srcChanged (it_data it) st et ha
                           (r1\<lparr>ow_world := w'\<rparr>))
                  else
                    mirror_write env dst opts uid cur srcChanged (it_data it) status dstETag dstHash r1)"

definition mirror_step ::
  "dav_env \<Rightarrow> 'w collection \<Rightarrow> 'w collection \<Rightarrow> options \<Rightarrow> (bytes \<Rightarrow> string) \<Rightarrow> items \<Rightarrow> href_index \<Rightarrow>
     item_meta \<Rightarrow> 'w oneway \<Rightarrow> go_error option \<times> 'w oneway" where
  "mirror_step env src dst opts uidFn stateBySrcHref dstIdx meta r =
     (case map_get stateBySrcHref (im_href meta) of
        Some st \<Rightarrow>
          if src_etag st = im_etag meta then
            (let cur = (case map_get (ow_items r) (is_uid st) of Some c \<Rightarrow> c | None \<Rightarrow> st)
             in case inspectDst env dst cur dstIdx (ow_world r) of
                  ((_, _, _, Some e), w) \<Rightarrow>
                    (None, (noteUnverified e (r\<lparr>ow_world := w\<rparr>))
                             \<lparr>ow_seen := insert (is_uid st) (ow_seen r)\<rparr>)
                | ((status, dstETag, dstHash, None), w) \<Rightarrow>
                    if status = DstOK then
                      (None, r\<lparr>ow_world := w,
                         ow_seen := insert (is_uid st) (ow_seen r),
                         ow_items := map_put (is_uid st)
                           (cur\<lparr>dst_etag := dstETag, dst_hash := dstHash\<rparr>) (ow_items r)\<rparr>)
                    else
                      mirror_fetch env src dst opts uidFn dstIdx meta (is_uid st) status dstETag
                        dstHash (r\<lparr>ow_world := w\<rparr>))
          else mirror_fetch env src dst opts uidFn dstIdx meta [] DstOK [] [] r
      | None \<Rightarrow> mirror_fetch env src dst opts uidFn dstIdx meta [] DstOK [] [] r)"


text \<open>
  The outcomes of the two steps, one case per path through the Go loop body. The proofs about the
  loop go through these rules and never unfold the definitions again.
\<close>

lemma mirror_fetch_cases:
  obtains
    (failed) e w where
      "coll_get src (im_href meta) (ow_world r) = (Inl e, w)"
      "mirror_fetch env src dst opts uidFn dstIdx meta ck st0 et0 ha0 r =
         (Some (wrapf (''get '' @ im_href meta @ '': '') e), r\<lparr>ow_world := w\<rparr>)"
  | (outside) it w where
      "coll_get src (im_href meta) (ow_world r) = (Inr it, w)"
      "\<not> inWindow env opts (it_data it)"
      "mirror_fetch env src dst opts uidFn dstIdx meta ck st0 et0 ha0 r =
         (None, r\<lparr>ow_world := w,
            ow_filtered := insert (body_uid uidFn meta (it_data it)) (ow_filtered r)\<rparr>)"
  | (unverified) it w e w' uid st et ha where
      "coll_get src (im_href meta) (ow_world r) = (Inr it, w)"
      "inWindow env opts (it_data it)"
      "uid = body_uid uidFn meta (it_data it)" "ck \<noteq> uid"
      "inspectDst env dst (refreshed env meta uid (it_data it) (entry_of (ow_items r) uid)) dstIdx w
         = ((st, et, ha, Some e), w')"
      "mirror_fetch env src dst opts uidFn dstIdx meta ck st0 et0 ha0 r =
         (None, noteUnverified e
            (r\<lparr>ow_seen := insert uid (ow_seen r), ow_world := w'\<rparr>))"
  | (inspected) it w w' uid st et ha where
      "coll_get src (im_href meta) (ow_world r) = (Inr it, w)"
      "inWindow env opts (it_data it)"
      "uid = body_uid uidFn meta (it_data it)" "ck \<noteq> uid"
      "inspectDst env dst (refreshed env meta uid (it_data it) (entry_of (ow_items r) uid)) dstIdx w
         = ((st, et, ha, None), w')"
      "mirror_fetch env src dst opts uidFn dstIdx meta ck st0 et0 ha0 r =
         mirror_write env dst opts uid (refreshed env meta uid (it_data it) (entry_of (ow_items r) uid))
           (src_changed env (it_data it) (entry_of (ow_items r) uid)) (it_data it) st et ha
           (r\<lparr>ow_seen := insert uid (ow_seen r), ow_world := w'\<rparr>)"
  | (checked) it w where
      "coll_get src (im_href meta) (ow_world r) = (Inr it, w)"
      "inWindow env opts (it_data it)"
      "ck = body_uid uidFn meta (it_data it)"
      "mirror_fetch env src dst opts uidFn dstIdx meta ck st0 et0 ha0 r =
         mirror_write env dst opts ck (refreshed env meta ck (it_data it) (entry_of (ow_items r) ck))
           (src_changed env (it_data it) (entry_of (ow_items r) ck)) (it_data it) st0 et0 ha0
           (r\<lparr>ow_world := w, ow_seen := insert ck (ow_seen r)\<rparr>)"
proof -
  obtain g w where g: "coll_get src (im_href meta) (ow_world r) = (g, w)" by fastforce
  show thesis
  proof (cases g)
    case (Inl e)
    with g show thesis by (intro failed) (simp_all add: mirror_fetch_def)
  next
    case (Inr it)
    let ?uid = "body_uid uidFn meta (it_data it)"
    let ?cur = "refreshed env meta ?uid (it_data it) (entry_of (ow_items r) ?uid)"
    obtain st et ha e w' where i: "inspectDst env dst ?cur dstIdx w = ((st, et, ha, e), w')"
      by (metis prod_cases4 surj_pair)
    consider "\<not> inWindow env opts (it_data it)"
      | "inWindow env opts (it_data it)" "ck \<noteq> ?uid"
      | "inWindow env opts (it_data it)" "ck = ?uid" by blast
    then show thesis
    proof cases
      case 1
      with g Inr show thesis by (intro outside) (simp_all add: mirror_fetch_def Let_def)
    next
      case 2
      show thesis
      proof (cases e)
        case None
        with 2 g Inr i show thesis by (intro inspected) (simp_all add: mirror_fetch_def Let_def)
      next
        case (Some err)
        with 2 g Inr i show thesis by (intro unverified) (simp_all add: mirror_fetch_def Let_def)
      qed
    next
      case 3
      with g Inr show thesis by (intro checked) (simp_all add: mirror_fetch_def Let_def)
    qed
  qed
qed

lemma mirror_step_cases:
  obtains
    (fetch) "\<And>st. map_get bySrc (im_href meta) = Some st \<Longrightarrow> src_etag st \<noteq> im_etag meta"
      "mirror_step env src dst opts uidFn bySrc dstIdx meta r =
         mirror_fetch env src dst opts uidFn dstIdx meta [] DstOK [] [] r"
  | (unverified) st s et ha e w where
      "map_get bySrc (im_href meta) = Some st" "src_etag st = im_etag meta"
      "inspectDst env dst
         (case map_get (ow_items r) (is_uid st) of Some c \<Rightarrow> c | None \<Rightarrow> st) dstIdx (ow_world r)
         = ((s, et, ha, Some e), w)"
      "mirror_step env src dst opts uidFn bySrc dstIdx meta r =
         (None, (noteUnverified e (r\<lparr>ow_world := w\<rparr>))\<lparr>ow_seen := insert (is_uid st) (ow_seen r)\<rparr>)"
  | (in_sync) st et ha w where
      "map_get bySrc (im_href meta) = Some st" "src_etag st = im_etag meta"
      "inspectDst env dst
         (case map_get (ow_items r) (is_uid st) of Some c \<Rightarrow> c | None \<Rightarrow> st) dstIdx (ow_world r)
         = ((DstOK, et, ha, None), w)"
      "mirror_step env src dst opts uidFn bySrc dstIdx meta r =
         (None, r\<lparr>ow_world := w, ow_seen := insert (is_uid st) (ow_seen r),
            ow_items := map_put (is_uid st)
              ((case map_get (ow_items r) (is_uid st) of Some c \<Rightarrow> c | None \<Rightarrow> st)
                 \<lparr>dst_etag := et, dst_hash := ha\<rparr>) (ow_items r)\<rparr>)"
  | (repair) st s et ha w where
      "map_get bySrc (im_href meta) = Some st" "src_etag st = im_etag meta" "s \<noteq> DstOK"
      "inspectDst env dst
         (case map_get (ow_items r) (is_uid st) of Some c \<Rightarrow> c | None \<Rightarrow> st) dstIdx (ow_world r)
         = ((s, et, ha, None), w)"
      "mirror_step env src dst opts uidFn bySrc dstIdx meta r =
         mirror_fetch env src dst opts uidFn dstIdx meta (is_uid st) s et ha (r\<lparr>ow_world := w\<rparr>)"
proof -
  note u = mirror_step_def [of env src dst opts uidFn bySrc dstIdx meta r]
  show thesis
  proof (cases "\<exists>st. map_get bySrc (im_href meta) = Some st \<and> src_etag st = im_etag meta")
    case False
    then show thesis by (intro fetch) (auto simp: u split: option.splits)
  next
    case True
    then obtain st where st: "map_get bySrc (im_href meta) = Some st" "src_etag st = im_etag meta"
      by blast
    let ?cur = "case map_get (ow_items r) (is_uid st) of Some c \<Rightarrow> c | None \<Rightarrow> st"
    obtain s et ha e w where i: "inspectDst env dst ?cur dstIdx (ow_world r) = ((s, et, ha, e), w)"
      by (metis prod_cases4 surj_pair)
    show thesis
    proof (cases e)
      case (Some err)
      with st i show thesis by (intro unverified) (simp_all add: u Let_def)
    next
      case None
      show thesis
      proof (cases "s = DstOK")
        case True
        with None st i show thesis by (intro in_sync) (simp_all add: u Let_def)
      next
        case False
        with None st i show thesis by (intro repair) (simp_all add: u Let_def)
      qed
    qed
  qed
qed

section \<open>The deletion pass\<close>

definition delete_step ::
  "'w collection \<Rightarrow> href_index \<Rightarrow> string \<times> item_state \<Rightarrow> 'w oneway \<Rightarrow> go_error option \<times> 'w oneway" where
  "delete_step dst dstIdx = (\<lambda>(uid, st) r.
     if uid \<in> ow_seen r \<or> uid \<in> ow_filtered r then (None, r)
     else if dst_href st \<noteq> [] \<and> lookupMeta dstIdx (dst_href st) \<noteq> None then
       (case coll_delete dst (dst_href st) (ow_world r) of
          (Inl e, w) \<Rightarrow>
            (Some (wrapf (''delete '' @ dst_href st @ '': '') e), r\<lparr>ow_world := w\<rparr>)
        | (Inr _, w) \<Rightarrow>
            (None, r\<lparr>ow_world := w,
               ow_res := (ow_res r)\<lparr>r_deleted := r_deleted (ow_res r) + 1\<rparr>,
               ow_items := map_del uid (ow_items r)\<rparr>))
     else (None, r\<lparr>ow_items := map_del uid (ow_items r)\<rparr>))"


section \<open>A whole run\<close>

record 'w sync_out =
  so_err :: "go_error option"
  so_res :: sync_result
  so_items :: items
  so_world :: 'w

definition by_src_href :: "dav_env \<Rightarrow> items \<Rightarrow> items" where
  "by_src_href env its =
     fold (\<lambda>(uid, st) m. if src_href st \<noteq> [] then map_put (src_href st) st m else m)
       (go_range (env_range env) 0 its) []"

definition known_dst :: "dav_env \<Rightarrow> items \<Rightarrow> nat" where
  "known_dst env its =
     length (filter (\<lambda>(uid, st). dst_href st \<noteq> []) (go_range (env_range env) 0 its))"

definition finish_oneway :: "go_error option \<times> 'w oneway \<Rightarrow> 'w sync_out" where
  "finish_oneway = (\<lambda>(e, r).
     \<lparr>so_err = (case e of
        Some err \<Rightarrow> Some err
      | None \<Rightarrow> map_option
          (wrapf (itoa (int (ow_unverified r)) @ '' destination item(s) could not be verified: ''))
          (ow_unverified_err r)),
      so_res = ow_res r, so_items = ow_items r, so_world = ow_world r\<rparr>)"

definition start_oneway :: "items \<Rightarrow> 'w \<Rightarrow> 'w oneway" where
  "start_oneway its w =
     \<lparr>ow_world = w, ow_items = its, ow_res = zero_result, ow_seen = {}, ow_filtered = {},
      ow_unverified = 0, ow_unverified_err = None\<rparr>"

definition mirror_pass ::
  "dav_env \<Rightarrow> 'w collection \<Rightarrow> 'w collection \<Rightarrow> options \<Rightarrow> (bytes \<Rightarrow> string) \<Rightarrow> items \<Rightarrow>
     item_meta list \<Rightarrow> href_index \<Rightarrow> 'w \<Rightarrow> go_error option \<times> 'w oneway" where
  "mirror_pass env src dst opts uidFn its srcList dstIdx w =
     (case foreach (mirror_step env src dst opts uidFn (by_src_href env its) dstIdx) srcList
             (start_oneway its w) of
        (Some e, r) \<Rightarrow> (Some e, r)
      | (None, r) \<Rightarrow>
          foreach (delete_step dst dstIdx) (go_range (env_range env) 1 (ow_items r)) r)"

definition syncOneWay ::
  "dav_env \<Rightarrow> 'w collection \<Rightarrow> 'w collection \<Rightarrow> items \<Rightarrow> options \<Rightarrow> (bytes \<Rightarrow> string) \<Rightarrow> 'w \<Rightarrow>
     'w sync_out" where
  "syncOneWay env src dst its opts uidFn w =
     (case coll_list src w of
        (Inl e, w1) \<Rightarrow>
          \<lparr>so_err = Some (wrapf ''list source: '' e), so_res = zero_result, so_items = its, so_world = w1\<rparr>
      | (Inr srcList, w1) \<Rightarrow>
          (case guardVanished ''source'' (length srcList) (length (map_keys its)) of
             Some e \<Rightarrow> \<lparr>so_err = Some e, so_res = zero_result, so_items = its, so_world = w1\<rparr>
           | None \<Rightarrow>
               (case coll_list dst w1 of
                  (Inl e, w2) \<Rightarrow>
                    \<lparr>so_err = Some (wrapf ''list destination: '' e), so_res = zero_result,
                     so_items = its, so_world = w2\<rparr>
                | (Inr dstList, w2) \<Rightarrow>
                    (case guardVanished ''destination'' (length dstList) (known_dst env its) of
                       Some e \<Rightarrow> \<lparr>so_err = Some e, so_res = zero_result, so_items = its, so_world = w2\<rparr>
                     | None \<Rightarrow>
                         finish_oneway
                           (mirror_pass env src dst opts uidFn its srcList (indexByHref dstList) w2)))))"

end
