(* ===== verification/Dav_Frame.thy ===== *)
theory Dav_Frame
  imports Dav_Sync
begin

text \<open>
  What a one-way run can do to the world, for arbitrary collections. The locale \<open>mirror_frame\<close> is
  the contract of the two sides with the run: a predicate on the world that the calls the run is
  allowed to make preserve. Its lemmas carry the predicate through every function of the mirror;
  the interpretations on traced collections give the statements about the calls made.
\<close>

locale mirror_reader =
  fixes src dst :: "'w collection"
    and I :: "'w \<Rightarrow> bool"
  assumes src_list: "I w \<Longrightarrow> I (snd (coll_list src w))"
    and src_get: "I w \<Longrightarrow> I (snd (coll_get src h w))"
    and dst_list: "I w \<Longrightarrow> I (snd (coll_list dst w))"
    and dst_get: "I w \<Longrightarrow> I (snd (coll_get dst h w))"
begin

lemma inspectDst_frame:
  assumes "I w" and "inspectDst env dst st idx w = (x, w')"
  shows "I w'"
proof (cases "lookupMeta idx (dst_href st)")
  case None
  with assms show ?thesis by (auto simp: inspectDst_def split: if_splits)
next
  case (Some m)
  have "I (snd (coll_get dst (im_href m) w))" using assms(1) by (rule dst_get)
  with Some assms show ?thesis
    by (auto simp: inspectDst_def Let_def split: if_splits prod.splits sum.splits)
qed

lemma src_get_frame: "I w \<Longrightarrow> coll_get src h w = (g, w') \<Longrightarrow> I w'"
  using src_get [of w h] by simp

end

text \<open>The calls that write: every \<^verbatim>\<open>Put\<close>, and the \<^verbatim>\<open>Delete\<close> of a \<open>deletable\<close> href.\<close>

locale mirror_frame = mirror_reader src dst I
  for src dst :: "'w collection" and I :: "'w \<Rightarrow> bool" +
  fixes deletable :: "string \<Rightarrow> bool"
  assumes dst_put: "I w \<Longrightarrow> I (snd (coll_put dst it w))"
    and dst_delete: "deletable h \<Longrightarrow> I w \<Longrightarrow> I (snd (coll_delete dst h w))"
begin

lemma putMirror_frame:
  assumes "I w" and "putMirror env dst href etag data w = (x, w')"
  shows "I w'"
proof -
  let ?it = "\<lparr>it_href = href, it_etag = etag, it_data = data\<rparr>"
  obtain r w1 where p: "coll_put dst ?it w = (r, w1)" by fastforce
  from dst_put [OF assms(1), of ?it] p have I1: "I w1" by simp
  show ?thesis
  proof (cases r)
    case (Inl e)
    with assms(2) p I1 show ?thesis by (simp add: putMirror_def)
  next
    case (Inr stored)
    have "I (snd (coll_get dst (if it_href stored = [] then href else it_href stored) w1))"
      using I1 by (rule dst_get)
    with Inr assms(2) p show ?thesis
      by (auto simp: putMirror_def Let_def split: prod.splits sum.splits)
  qed
qed

lemma mirror_write_frame:
  assumes "I (ow_world r)"
  shows "I (ow_world (snd (mirror_write env dst opts uid cur ch data st et ha r)))"
  using assms
  by (auto simp: mirror_write_def Let_def split: prod.splits sum.splits dest: putMirror_frame)

lemma mirror_fetch_frame:
  assumes "I (ow_world r)"
  shows "I (ow_world (snd (mirror_fetch env src dst opts uidFn idx meta ck st et ha r)))"
proof -
  have got: "I w" if "coll_get src (im_href meta) (ow_world r) = (g, w)" for g w
    using src_get [OF assms, of "im_href meta"] that by simp
  show ?thesis
    by (cases rule: mirror_fetch_cases [of src meta r env dst opts uidFn idx ck st et ha])
      (auto simp: noteUnverified_def dest!: got intro!: mirror_write_frame intro: inspectDst_frame)
qed

lemma mirror_step_frame:
  assumes "I (ow_world r)"
  shows "I (ow_world (snd (mirror_step env src dst opts uidFn bySrc idx meta r)))"
  using assms
  by (cases rule: mirror_step_cases [of bySrc meta env src dst opts uidFn idx r])
    (auto simp: noteUnverified_def intro!: mirror_fetch_frame intro: inspectDst_frame)

end

text \<open>
  Entries of UIDs that were neither seen nor filtered are still the recorded ones, so whatever the
  deletion pass removes was recorded before the run.
\<close>

definition untouched :: "items \<Rightarrow> 'w oneway \<Rightarrow> bool" where
  "untouched its r \<longleftrightarrow> (\<forall>uid. uid \<notin> ow_seen r \<longrightarrow> map_get (ow_items r) uid = map_get its uid)"

lemma untouched_start: "untouched its (start_oneway its w)"
  by (simp add: untouched_def start_oneway_def)

lemma mirror_write_untouched:
  "untouched its r \<Longrightarrow> uid \<in> ow_seen r \<Longrightarrow>
     untouched its (snd (mirror_write env dst opts uid cur ch data st et ha r))"
  by (auto simp: mirror_write_def untouched_def Let_def split: prod.splits sum.splits)

lemma untouched_world [simp]: "untouched its (r\<lparr>ow_world := w\<rparr>) = untouched its r"
  by (simp add: untouched_def)

lemma untouched_note [simp]: "untouched its (noteUnverified e r) = untouched its r"
  by (simp add: untouched_def noteUnverified_def)

lemma noteUnverified_fields [simp]:
  "ow_seen (noteUnverified e r) = ow_seen r" "ow_items (noteUnverified e r) = ow_items r"
  "ow_res (noteUnverified e r) = ow_res r" "ow_filtered (noteUnverified e r) = ow_filtered r"
  "ow_world (noteUnverified e r) = ow_world r"
  by (simp_all add: noteUnverified_def)

lemma untouched_filtered [simp]: "untouched its (r\<lparr>ow_filtered := f\<rparr>) = untouched its r"
  by (simp add: untouched_def)

lemma untouched_sync: "untouched its r \<Longrightarrow>
    untouched its (r\<lparr>ow_world := w, ow_seen := insert u (ow_seen r), ow_items := map_put u v (ow_items r)\<rparr>)"
  by (simp add: untouched_def)

lemma untouched_seen: "untouched its r \<Longrightarrow> ow_seen r \<subseteq> S \<Longrightarrow> untouched its (r\<lparr>ow_seen := S\<rparr>)"
  by (auto simp: untouched_def)

lemma mirror_fetch_untouched:
  assumes "untouched its r"
  shows "untouched its (snd (mirror_fetch env src dst opts uidFn idx meta ck st et ha r))"
  using assms
  by (cases rule: mirror_fetch_cases [of src meta r env dst opts uidFn idx ck st et ha])
    (auto intro!: mirror_write_untouched untouched_seen)

lemma mirror_step_untouched:
  assumes "untouched its r"
  shows "untouched its (snd (mirror_step env src dst opts uidFn bySrc idx meta r))"
  using assms
  by (cases rule: mirror_step_cases [of bySrc meta env src dst opts uidFn idx r])
    (auto intro!: mirror_fetch_untouched untouched_sync untouched_seen)


section \<open>The shape of a run\<close>

lemma delete_step_skip: "uid \<in> ow_seen r \<Longrightarrow> delete_step dst idx (uid, st) r = (None, r)"
  by (simp add: delete_step_def)

lemma delete_step_sets [simp]:
  "ow_seen (snd (delete_step dst idx x r)) = ow_seen r"
  "ow_filtered (snd (delete_step dst idx x r)) = ow_filtered r"
  by (auto simp: delete_step_def split: prod.splits sum.splits)

lemma mirror_pass_inv:
  assumes start: "I (start_oneway its w)"
    and step: "\<And>meta r. meta \<in> set srcList \<Longrightarrow> I r \<Longrightarrow>
      I (snd (mirror_step env src dst opts uidFn (by_src_href env its) idx meta r))"
    and del: "\<And>uid st r. map_get its uid = Some st \<Longrightarrow> uid \<notin> ow_seen r \<Longrightarrow> I r \<Longrightarrow>
      I (snd (delete_step dst idx (uid, st) r))"
  shows "I (snd (mirror_pass env src dst opts uidFn its srcList idx w))"
proof -
  let ?step = "mirror_step env src dst opts uidFn (by_src_href env its) idx"
  obtain e r1 where loop: "foreach ?step srcList (start_oneway its w) = (e, r1)" by fastforce
  have "I r1 \<and> untouched its r1"
    using foreach_inv [of "\<lambda>r. I r \<and> untouched its r" "start_oneway its w" srcList ?step]
      start step untouched_start mirror_step_untouched loop by (metis snd_conv)
  then have r1: "I r1" "untouched its r1" by auto
  show ?thesis
  proof (cases e)
    case (Some err)
    with loop r1 show ?thesis by (simp add: mirror_pass_def)
  next
    case None
    let ?todo = "go_range (env_range env) 1 (ow_items r1)"
    have one: "I (snd (delete_step dst idx x r)) \<and>
        ow_seen (snd (delete_step dst idx x r)) = ow_seen r1"
      if x: "x \<in> set ?todo" and r: "I r \<and> ow_seen r = ow_seen r1" for x r
    proof -
      obtain uid st where xs: "x = (uid, st)" by fastforce
      with x have st: "map_get (ow_items r1) uid = Some st" by (simp add: go_range_sound)
      show ?thesis
      proof (cases "uid \<in> ow_seen r1")
        case True
        with r xs show ?thesis by (simp add: delete_step_skip)
      next
        case False
        with r1(2) st have "map_get its uid = Some st" by (simp add: untouched_def)
        with False r xs del show ?thesis by simp
      qed
    qed
    have "I (snd (foreach (delete_step dst idx) ?todo r1))"
      using foreach_inv [of "\<lambda>r. I r \<and> ow_seen r = ow_seen r1" r1 ?todo "delete_step dst idx"]
        r1(1) one by blast
    with loop None show ?thesis by (simp add: mirror_pass_def)
  qed
qed

lemma syncOneWay_cases:
  obtains
    (aborted) e w' where
      "w' = snd (coll_list src w) \<or> w' = snd (coll_list dst (snd (coll_list src w)))"
      "syncOneWay env src dst its opts uidFn w =
         \<lparr>so_err = Some e, so_res = zero_result, so_items = its, so_world = w'\<rparr>"
  | (ran) srcList w1 dstList w2 where
      "coll_list src w = (Inr srcList, w1)"
      "guardVanished ''source'' (length srcList) (length (map_keys its)) = None"
      "coll_list dst w1 = (Inr dstList, w2)"
      "guardVanished ''destination'' (length dstList) (known_dst env its) = None"
      "syncOneWay env src dst its opts uidFn w =
         finish_oneway (mirror_pass env src dst opts uidFn its srcList (indexByHref dstList) w2)"
proof -
  obtain l1 w1 where l1: "coll_list src w = (l1, w1)" by fastforce
  obtain l2 w2 where l2: "coll_list dst w1 = (l2, w2)" by fastforce
  note u = syncOneWay_def [of env src dst its opts uidFn w]
  show thesis
  proof (cases l1)
    case (Inl e)
    with l1 show thesis by (intro aborted) (auto simp: u)
  next
    case l1r: (Inr srcList)
    show thesis
    proof (cases "guardVanished ''source'' (length srcList) (length (map_keys its))")
      case (Some e)
      with l1 l1r show thesis by (intro aborted) (auto simp: u)
    next
      case g1: None
      show thesis
      proof (cases l2)
        case (Inl e)
        with l1 l1r g1 l2 show thesis by (intro aborted) (auto simp: u)
      next
        case l2r: (Inr dstList)
        show thesis
        proof (cases "guardVanished ''destination'' (length dstList) (known_dst env its)")
          case (Some e)
          with l1 l1r g1 l2 l2r show thesis by (intro aborted) (auto simp: u)
        next
          case None
          with l1 l1r g1 l2 l2r show thesis by (intro ran) (auto simp: u)
        qed
      qed
    qed
  qed
qed

lemma finish_oneway_fields [simp]:
  "so_res (finish_oneway (e, r)) = ow_res r"
  "so_items (finish_oneway (e, r)) = ow_items r"
  "so_world (finish_oneway (e, r)) = ow_world r"
  by (simp_all add: finish_oneway_def)

text \<open>The frame of a whole run: a predicate the allowed calls preserve holds at the end.\<close>

definition recorded_dst :: "items \<Rightarrow> string set" where
  "recorded_dst its = {dst_href st | uid st. map_get its uid = Some st \<and> dst_href st \<noteq> []}"

context mirror_frame
begin

lemma delete_step_frame:
  assumes "I (ow_world r)" and "dst_href st \<noteq> [] \<Longrightarrow> lookupMeta idx (dst_href st) \<noteq> None \<Longrightarrow>
    deletable (dst_href st)"
  shows "I (ow_world (snd (delete_step dst idx (uid, st) r)))"
proof (cases "dst_href st \<noteq> [] \<and> lookupMeta idx (dst_href st) \<noteq> None")
  case True
  with assms have "I (snd (coll_delete dst (dst_href st) (ow_world r)))"
    by (intro dst_delete) auto
  with assms(1) show ?thesis
    by (auto simp: delete_step_def split: prod.splits sum.splits)
next
  case False
  with assms(1) show ?thesis by (auto simp: delete_step_def)
qed

lemma syncOneWay_frame:
  assumes "I w"
    and "\<And>uid st ms. map_get its uid = Some st \<Longrightarrow> dst_href st \<noteq> [] \<Longrightarrow>
      fst (coll_list dst (snd (coll_list src w))) = Inr ms \<Longrightarrow>
      lookupMeta (indexByHref ms) (dst_href st) \<noteq> None \<Longrightarrow> deletable (dst_href st)"
  shows "I (so_world (syncOneWay env src dst its opts uidFn w))"
proof (cases rule: syncOneWay_cases [of src w dst env its opts uidFn])
  case (aborted e w')
  with assms(1) show ?thesis by (auto intro: src_list dst_list)
next
  case (ran srcList w1 dstList w2)
  from src_list [OF assms(1)] ran(1) have "I w1" by simp
  from dst_list [OF this] ran(3) have I2: "I w2" by simp
  have "I (ow_world (snd (mirror_pass env src dst opts uidFn its srcList (indexByHref dstList) w2)))"
  proof (rule mirror_pass_inv [where I = "\<lambda>r. I (ow_world r)"])
    show "I (ow_world (start_oneway its w2))" using I2 by (simp add: start_oneway_def)
  next
    fix uid st and r :: "'w oneway"
    assume "map_get its uid = Some st" and "I (ow_world r)"
    with assms(2) [of uid st dstList] ran(1,3)
    show "I (ow_world (snd (delete_step dst (indexByHref dstList) (uid, st) r)))"
      by (intro delete_step_frame) auto
  qed (rule mirror_step_frame)
  moreover obtain e r where "mirror_pass env src dst opts uidFn its srcList (indexByHref dstList) w2 = (e, r)"
    by fastforce
  ultimately show ?thesis using ran(5) by simp
qed

end

end
