(* ===== verification/Dav_Calls.thy ===== *)
theory Dav_Calls
  imports Dav_Frame
begin

text \<open>
  The calls a one-way run makes. Both sides are wrapped by \<open>traced\<close>, the frame contracts of
  \<open>Dav_Frame\<close> are interpreted on the traced collections, and the properties are statements about
  the log, for arbitrary servers: nothing is assumed about what a call answers.
\<close>

datatype side = SrcSide | DstSide

definition oneway_run ::
  "dav_env \<Rightarrow> 'w collection \<Rightarrow> 'w collection \<Rightarrow> items \<Rightarrow> options \<Rightarrow> (bytes \<Rightarrow> string) \<Rightarrow> 'w \<Rightarrow>
     ('w \<times> side dav_op list) sync_out" where
  "oneway_run env src dst its opts uidFn w =
     syncOneWay env (traced SrcSide src) (traced DstSide dst) its opts uidFn (w, [])"

definition oneway_log ::
  "dav_env \<Rightarrow> 'w collection \<Rightarrow> 'w collection \<Rightarrow> items \<Rightarrow> options \<Rightarrow> (bytes \<Rightarrow> string) \<Rightarrow> 'w \<Rightarrow>
     side dav_op list" where
  "oneway_log env src dst its opts uidFn w = snd (so_world (oneway_run env src dst its opts uidFn w))"

fun is_delete :: "'s dav_op \<Rightarrow> bool" where
  "is_delete (OpDelete _ _ _) = True"
| "is_delete _ = False"

fun op_href :: "'s dav_op \<Rightarrow> string" where
  "op_href (OpList _) = []"
| "op_href (OpGet _ h) = h"
| "op_href (OpPut _ it _) = it_href it"
| "op_href (OpDelete _ h _) = h"

fun put_done :: "'s dav_op \<Rightarrow> bool" where
  "put_done (OpPut _ _ ok) = ok"
| "put_done _ = False"

fun delete_done :: "'s dav_op \<Rightarrow> bool" where
  "delete_done (OpDelete _ _ ok) = ok"
| "delete_done _ = False"

definition puts_of :: "'s dav_op list \<Rightarrow> nat" where
  "puts_of log = length (filter put_done log)"

definition deletes_of :: "'s dav_op list \<Rightarrow> nat" where
  "deletes_of log = length (filter delete_done log)"

lemma count_snoc [simp]:
  "puts_of [] = 0" "deletes_of [] = 0"
  "puts_of (log @ l) = puts_of log + puts_of l"
  "puts_of (x # l) = (if put_done x then Suc (puts_of l) else puts_of l)"
  "deletes_of (log @ l) = deletes_of log + deletes_of l"
  "deletes_of (x # l) = (if delete_done x then Suc (deletes_of l) else deletes_of l)"
  by (simp_all add: puts_of_def deletes_of_def)


section \<open>The contracts on traced collections\<close>

text \<open>Nothing is written on the source side, where the two sides can be told apart.\<close>

definition source_reads :: "'s \<Rightarrow> 's \<Rightarrow> 'w \<times> 's dav_op list \<Rightarrow> bool" where
  "source_reads sl dl = (\<lambda>(w, log). sl = dl \<or> filter (\<lambda>x. op_side x = sl \<and> op_writes x) log = [])"

interpretation reads: mirror_frame "traced sl src" "traced dl dst" "source_reads sl dl" "\<lambda>_. True"
  for src dst :: "'w collection" and sl dl :: 's
  by unfold_locales (auto simp: source_reads_def split: if_splits)

lemma syncOneWay_source_reads:
  "source_reads sl dl (so_world (syncOneWay env (traced sl src) (traced dl dst) its opts uidFn (w, [])))"
  by (rule reads.syncOneWay_frame) (simp_all add: source_reads_def)

text \<open>Only hrefs of a given set are deleted.\<close>

definition deletes_in :: "string set \<Rightarrow> 'w \<times> side dav_op list \<Rightarrow> bool" where
  "deletes_in H = (\<lambda>(w, log). \<forall>x\<in>set log. is_delete x \<longrightarrow> op_href x \<in> H)"

interpretation deletes: mirror_frame "traced SrcSide src" "traced DstSide dst" "deletes_in H"
    "\<lambda>h. h \<in> H"
  for src dst :: "'w collection" and H
  by unfold_locales (auto simp: deletes_in_def)

text \<open>Reading does not change the number of successful writes.\<close>

definition counted :: "nat \<Rightarrow> nat \<Rightarrow> 'w \<times> 's dav_op list \<Rightarrow> bool" where
  "counted p d = (\<lambda>(w, log). puts_of log = p \<and> deletes_of log = d)"

interpretation counts: mirror_reader "traced sl src" "traced dl dst" "counted p d"
  for src dst :: "'w collection" and sl dl :: 's and p d
  by unfold_locales (auto simp: counted_def)


section \<open>The counters\<close>

text \<open>The result of a run counts the writes the destination accepted.\<close>

definition tally :: "('w \<times> 's dav_op list) oneway \<Rightarrow> bool" where
  "tally r \<longleftrightarrow> counted (r_created (ow_res r) + r_updated (ow_res r)) (r_deleted (ow_res r)) (ow_world r)"

lemma putMirror_counted:
  assumes "counted p d w" and "putMirror env (traced dl dst) href etag data w = (x, w')"
  shows "counted (if is_ok x then Suc p else p) d w'"
proof -
  obtain w0 log where w: "w = (w0, log)" by fastforce
  with assms show ?thesis
    by (auto simp: putMirror_def counted_def is_ok_def Let_def split: prod.splits sum.splits)
qed

lemma tally_reading:
  "tally r \<Longrightarrow> (\<And>p d. counted p d (ow_world r) \<Longrightarrow> counted p d w) \<Longrightarrow> tally (r\<lparr>ow_world := w\<rparr>)"
  by (simp add: tally_def)

lemma mirror_write_tally:
  assumes "tally r"
  shows "tally (snd (mirror_write env (traced dl dst) opts uid cur ch data st et ha r))"
proof -
  have w: "counted (r_created (ow_res r) + r_updated (ow_res r)) (r_deleted (ow_res r)) (ow_world r)"
    using assms by (simp add: tally_def)
  have "tally (r\<lparr>ow_world := w'\<rparr>)"
    if "putMirror env (traced dl dst) href etag data (ow_world r) = (Inl e, w')" for href etag e w'
    using putMirror_counted [OF w that] by (simp add: tally_def is_ok_def)
  moreover have "counted (Suc (r_created (ow_res r) + r_updated (ow_res r))) (r_deleted (ow_res r)) w'"
    if "putMirror env (traced dl dst) href etag data (ow_world r) = (Inr v, w')" for href etag v w'
    using putMirror_counted [OF w that] by (simp add: is_ok_def)
  ultimately show ?thesis
    using assms by (auto simp: mirror_write_def Let_def tally_def split: prod.splits sum.splits)
qed

lemma tally_fields [simp]:
  "tally (r\<lparr>ow_seen := s\<rparr>) = tally r" "tally (r\<lparr>ow_filtered := s\<rparr>) = tally r"
  "tally (r\<lparr>ow_items := i\<rparr>) = tally r" "tally (noteUnverified e r) = tally r"
  by (simp_all add: tally_def)

lemma tally_seen_world: "tally (r\<lparr>ow_world := w, ow_seen := s\<rparr>) = tally (r\<lparr>ow_world := w\<rparr>)"
  by (simp add: tally_def)

lemma tally_world_more [simp]:
  "tally (r\<lparr>ow_seen := s, ow_world := w\<rparr>) = tally (r\<lparr>ow_world := w\<rparr>)"
  "tally (r\<lparr>ow_world := w, ow_filtered := s\<rparr>) = tally (r\<lparr>ow_world := w\<rparr>)"
  "tally (r\<lparr>ow_world := w, ow_seen := s, ow_items := i\<rparr>) = tally (r\<lparr>ow_world := w\<rparr>)"
  by (simp_all add: tally_def)

lemma tally_inspect:
  assumes "tally (r\<lparr>ow_world := w\<rparr>)" and "inspectDst env (traced dl dst) st idx w = (x, w')"
  shows "tally (r\<lparr>ow_world := w'\<rparr>)"
  using assms counts.inspectDst_frame by (fastforce simp: tally_def)

lemma tally_get:
  assumes "tally r" and "coll_get (traced sl src) h (ow_world r) = (g, w)"
  shows "tally (r\<lparr>ow_world := w\<rparr>)"
  using assms counts.src_get_frame by (fastforce simp: tally_def)

lemma tally_get_inspect:
  assumes "tally r" and "coll_get (traced sl src) h (ow_world r) = (g, w)"
    and "inspectDst env (traced dl dst) st idx w = (x, w')"
  shows "tally (r\<lparr>ow_world := w'\<rparr>)"
  using tally_get [OF assms(1,2)] assms(3) by (rule tally_inspect)

lemma mirror_fetch_tally:
  assumes "tally r"
  shows "tally (snd (mirror_fetch env (traced sl src) (traced dl dst) opts uidFn idx meta
    ck st et ha r))"
  using assms
  by (cases rule: mirror_fetch_cases [of "traced sl src" meta r env "traced dl dst" opts
        uidFn idx ck st et ha])
    (auto intro!: mirror_write_tally simp: tally_seen_world intro: tally_get tally_get_inspect)

lemma mirror_step_tally:
  assumes "tally r"
  shows "tally (snd (mirror_step env (traced sl src) (traced dl dst) opts uidFn bySrc idx
    meta r))"
proof -
  have "tally (r\<lparr>ow_world := w'\<rparr>)"
    if "inspectDst env (traced dl dst) st idx (ow_world r) = (x, w')" for st x w'
    using tally_inspect [where r = r and w = "ow_world r"] assms that by simp
  with assms show ?thesis
    by (cases rule: mirror_step_cases [of bySrc meta env "traced sl src" "traced dl dst"
          opts uidFn idx r]) (auto intro!: mirror_fetch_tally)
qed

lemma delete_step_tally:
  assumes "tally r"
  shows "tally (snd (delete_step (traced dl dst) idx (uid, st) r))"
proof -
  obtain w0 log where w: "ow_world r = (w0, log)" by fastforce
  with assms show ?thesis
    by (auto simp: delete_step_def tally_def counted_def is_ok_def split: prod.splits sum.splits)
qed


definition tally_out :: "('w \<times> 's dav_op list) sync_out \<Rightarrow> bool" where
  "tally_out q \<longleftrightarrow> counted (r_created (so_res q) + r_updated (so_res q)) (r_deleted (so_res q)) (so_world q)"

lemma syncOneWay_tally:
  "tally_out (syncOneWay env (traced sl src) (traced dl dst) its opts uidFn (w, []))"
proof (cases rule: syncOneWay_cases [of "traced sl src" "(w, [])" "traced dl dst" env its
      opts uidFn])
  case (aborted e w')
  then have "counted 0 0 w'" by (auto intro!: counts.src_list counts.dst_list simp: counted_def)
  with aborted show ?thesis by (simp add: tally_out_def zero_result_def)
next
  case (ran srcList w1 dstList w2)
  let ?p = "mirror_pass env (traced sl src) (traced dl dst) opts uidFn its srcList
    (indexByHref dstList) w2"
  have "counted 0 0 w1" using ran(1) by (auto simp: counted_def)
  then have "counted 0 0 w2" using ran(3) counts.dst_list [of 0 0 w1 dl dst] by simp
  then have "tally (start_oneway its w2)" by (simp add: tally_def start_oneway_def zero_result_def)
  then have "tally (snd ?p)"
    by (rule mirror_pass_inv) (auto intro: mirror_step_tally delete_step_tally)
  moreover obtain e r where "?p = (e, r)" by fastforce
  ultimately show ?thesis
    using ran(5) by (simp add: tally_out_def tally_def)
qed


section \<open>Properties\<close>

text \<open>C13: a one-way run deletes nothing it did not put there: every href it asks the destination to
  delete was recorded as a destination href by an earlier run and is found in the listing of this
  run. Items the tool does not know are left alone, and a copy already gone is not deleted again.\<close>

theorem oneway_deletes_known_listed:
  "op_href ` set (filter is_delete (oneway_log env src dst its opts uidFn w)) \<subseteq>
     {h. h \<in> recorded_dst its \<and>
         (case fst (coll_list dst (snd (coll_list src w))) of
            Inl _ \<Rightarrow> False
          | Inr listed \<Rightarrow> lookupMeta (indexByHref listed) h \<noteq> None)}" (is "_ \<subseteq> ?H")
proof -
  have "deletes_in ?H (so_world (oneway_run env src dst its opts uidFn w))"
    unfolding oneway_run_def
  proof (rule deletes.syncOneWay_frame)
    fix uid st ms
    assume "map_get its uid = Some st" "dst_href st \<noteq> []"
      "fst (coll_list (traced DstSide dst) (snd (coll_list (traced SrcSide src) (w, [])))) = Inr ms"
      "lookupMeta (indexByHref ms) (dst_href st) \<noteq> None"
    then show "dst_href st \<in> ?H" by (auto simp: recorded_dst_def)
  qed (simp add: deletes_in_def)
  then show ?thesis by (auto simp: deletes_in_def oneway_log_def split: prod.splits)
qed

section \<open>The vanish guard\<close>

lemma known_dst_eq:
  assumes "range_order (env_range env)" and "map_wf its"
  shows "known_dst env its = length (filter (\<lambda>(uid, st). dst_href st \<noteq> []) its)"
  using go_range_mset [OF assms, of 0] unfolding known_dst_def
  by (metis mset_filter size_mset)

text \<open>C11: a source that lists nothing although at least five items are recorded stops the run before
  anything is written, and even before the destination is listed; the state is kept.\<close>

theorem oneway_vanished_source:
  assumes "fst (coll_list src w) = Inr []" and "5 \<le> length (map_keys its)"
  shows "(\<exists>e. so_err (oneway_run env src dst its opts uidFn w) = Some e \<and>
            err_is e ErrCollectionVanished) \<and>
    so_items (oneway_run env src dst its opts uidFn w) = its \<and>
    so_res (oneway_run env src dst its opts uidFn w) = zero_result \<and>
    oneway_log env src dst its opts uidFn w = [OpList SrcSide]"
proof -
  obtain e where e: "guardVanished ''source'' 0 (length (map_keys its)) = Some e"
    using assms(2) guardVanished_None [of "''source''" 0 "length (map_keys its)"] by fastforce
  with assms(1) guardVanished_is [OF e] show ?thesis
    by (simp add: oneway_log_def oneway_run_def syncOneWay_def)
qed

text \<open>A destination that lists nothing although at least five recorded items have a copy there
  stops the run before anything is written; the state is kept.\<close>

theorem oneway_vanished_destination:
  assumes "fst (coll_list src w) = Inr (m # ms)"
    and "fst (coll_list dst (snd (coll_list src w))) = Inr []"
    and "5 \<le> length (filter (\<lambda>(uid, st). dst_href st \<noteq> []) its)"
    and "range_order (env_range env)" and "map_wf its"
  shows "(\<exists>e. so_err (oneway_run env src dst its opts uidFn w) = Some e \<and>
            err_is e ErrCollectionVanished) \<and>
    so_items (oneway_run env src dst its opts uidFn w) = its \<and>
    so_res (oneway_run env src dst its opts uidFn w) = zero_result \<and>
    oneway_log env src dst its opts uidFn w = [OpList SrcSide, OpList DstSide]"
proof -
  have g: "guardVanished ''source'' (length (m # ms)) (length (map_keys its)) = None"
    by (simp add: guardVanished_None)
  from assms(3) have "5 \<le> known_dst env its" using known_dst_eq [OF assms(4,5)] by simp
  then obtain e where e: "guardVanished ''destination'' 0 (known_dst env its) = Some e"
    using guardVanished_None [of "''destination''" 0 "known_dst env its"] by fastforce
  with assms(1,2) g guardVanished_is [OF e] show ?thesis
    by (simp add: oneway_log_def oneway_run_def syncOneWay_def)
qed


section \<open>A settled state\<close>

text \<open>
  The recorded entries and the source listing match one to one with equal ETags, and every copy is
  listed at the destination under its recorded ETag.
\<close>

definition copy_listed :: "item_meta list \<Rightarrow> item_state \<Rightarrow> bool" where
  "copy_listed listed st \<longleftrightarrow> dst_hash st \<noteq> [] \<and> dst_etag st \<noteq> [] \<and>
     map_option im_etag (lookupMeta (indexByHref listed) (dst_href st)) = Some (dst_etag st)"

definition settled :: "items \<Rightarrow> item_meta list \<Rightarrow> item_meta list \<Rightarrow> bool" where
  "settled its srcList dstList \<longleftrightarrow>
     map_wf its \<and> distinct (map (src_href \<circ> snd) its) \<and>
     list_all (\<lambda>(uid, st). is_uid st = uid \<and> src_href st \<noteq> [] \<and> copy_listed dstList st) its \<and>
     (\<lambda>m. (im_href m, im_etag m)) ` set srcList = (\<lambda>(uid, st). (src_href st, src_etag st)) ` set its"

lemma by_src_href_get:
  assumes "range_order (env_range env)" and "map_wf its" and "distinct (map (src_href \<circ> snd) its)"
    and "(uid, st) \<in> set its" and "src_href st \<noteq> []"
  shows "map_get (by_src_href env its) (src_href st) = Some st"
proof -
  let ?f = "\<lambda>(uid, st) m. if src_href st \<noteq> [] then map_put (src_href st) st m else m"
  have gen: "map_get (fold ?f xs m) (src_href st) =
      (if \<exists>x\<in>set xs. src_href (snd x) = src_href st then Some st else map_get m (src_href st))"
    if "\<forall>x\<in>set xs. src_href (snd x) = src_href st \<longrightarrow> snd x = st" for xs m
    using that assms(5) by (induction xs arbitrary: m) auto
  have same: "set (go_range (env_range env) 0 its) = set its"
    using go_range_mset [OF assms(1,2), of 0] by (metis set_mset_mset)
  have "snd x = st" if "x \<in> set its" "src_href (snd x) = src_href st" for x
    using assms(3,4) that by (auto simp: distinct_map inj_on_def)
  with gen [of "go_range (env_range env) 0 its" "[]"] assms(4) same show ?thesis
    by (force simp: by_src_href_def)
qed

lemma inspectDst_listed:
  assumes "copy_listed listed st"
  shows "inspectDst env dst st (indexByHref listed) w = ((DstOK, dst_etag st, dst_hash st, None), w)"
proof -
  from assms obtain m where m: "lookupMeta (indexByHref listed) (dst_href st) = Some m"
    "im_etag m = dst_etag st" "dst_hash st \<noteq> []" "dst_etag st \<noteq> []"
    by (auto simp: copy_listed_def)
  then have "dst_href st \<noteq> []" by (auto simp: lookupMeta_def)
  with m show ?thesis by (simp add: inspectDst_def)
qed

lemma oneway_noop:
  "ow_items r = its \<Longrightarrow>
     r\<lparr>ow_world := ow_world r, ow_seen := S, ow_items := its\<rparr> = r\<lparr>ow_seen := S\<rparr>"
  by (cases r) simp

lemma settled_step:
  assumes "settled its srcList dstList" and "range_order (env_range env)"
    and "meta \<in> set srcList" and "ow_items r = its"
  obtains uid where "uid \<in> set (map_keys its)"
    and "\<exists>st. (uid, st) \<in> set its \<and> src_href st = im_href meta"
    and "mirror_step env src dst opts uidFn (by_src_href env its) (indexByHref dstList) meta r =
      (None, r\<lparr>ow_seen := insert uid (ow_seen r)\<rparr>)"
proof -
  from assms(1) have wf: "map_wf its" by (simp add: settled_def)
  from assms(1,3) have "(im_href meta, im_etag meta) \<in> (\<lambda>(uid, st). (src_href st, src_etag st)) ` set its"
    unfolding settled_def by blast
  then obtain uid st where st: "(uid, st) \<in> set its" "src_href st = im_href meta"
    "src_etag st = im_etag meta" by auto
  from assms(1) st(1) have p: "is_uid st = uid" "src_href st \<noteq> []" "copy_listed dstList st"
    by (auto simp: settled_def list_all_iff)
  have bysrc: "map_get (by_src_href env its) (im_href meta) = Some st"
    using by_src_href_get [OF assms(2) wf _ st(1) p(2)] assms(1) st(2) by (simp add: settled_def)
  have get: "map_get its uid = Some st" using st(1) wf by (simp add: map_get_in)
  have "mirror_step env src dst opts uidFn (by_src_href env its) (indexByHref dstList) meta r =
      (None, r\<lparr>ow_seen := insert uid (ow_seen r)\<rparr>)"
    using bysrc get st p assms(4)
    by (simp add: mirror_step_def map_put_same inspectDst_listed [OF p(3)] oneway_noop)
  with st show thesis by (intro that) (force simp: map_keys_def)+
qed

lemma settled_loop:
  assumes "settled its srcList dstList" and "range_order (env_range env)"
    and "set ms \<subseteq> set srcList" and "ow_items r = its"
  shows "\<exists>S. foreach (mirror_step env src dst opts uidFn (by_src_href env its) (indexByHref dstList)) ms r
      = (None, r\<lparr>ow_seen := S\<rparr>) \<and> ow_seen r \<subseteq> S \<and>
      (\<forall>m\<in>set ms. \<exists>uid st. (uid, st) \<in> set its \<and> src_href st = im_href m \<and> uid \<in> S)"
  using assms(3,4)
proof (induction ms arbitrary: r)
  case Nil
  then show ?case by (auto intro!: exI [of _ "ow_seen r"])
next
  case (Cons m ms)
  from Cons.prems have m: "m \<in> set srcList" by simp
  obtain uid where u: "\<exists>st. (uid, st) \<in> set its \<and> src_href st = im_href m"
    and step: "mirror_step env src dst opts uidFn (by_src_href env its) (indexByHref dstList) m r =
      (None, r\<lparr>ow_seen := insert uid (ow_seen r)\<rparr>)"
    using settled_step [OF assms(1,2) m Cons.prems(2)] by metis
  from Cons.IH [of "r\<lparr>ow_seen := insert uid (ow_seen r)\<rparr>"] Cons.prems obtain S where
    "foreach (mirror_step env src dst opts uidFn (by_src_href env its) (indexByHref dstList)) ms
        (r\<lparr>ow_seen := insert uid (ow_seen r)\<rparr>) = (None, r\<lparr>ow_seen := S\<rparr>)"
    "insert uid (ow_seen r) \<subseteq> S"
    "\<forall>m\<in>set ms. \<exists>uid st. (uid, st) \<in> set its \<and> src_href st = im_href m \<and> uid \<in> S" by auto
  with step u show ?case by (intro exI [of _ S]) auto
qed

lemma start_oneway_items [simp]: "ow_items (start_oneway its w) = its"
  by (simp add: start_oneway_def)

lemma delete_pass_skip:
  "\<forall>x\<in>set xs. fst x \<in> ow_seen r \<Longrightarrow> foreach (delete_step dst idx) xs r = (None, r)"
  by (induction xs) (auto simp: delete_step_def)

text \<open>A run over two collections that match the recorded state only lists them: no body is read,
  nothing is written, the counters are zero and the state is unchanged.\<close>

theorem oneway_settled_is_quiet:
  assumes "fst (coll_list src w) = Inr srcList"
    and "fst (coll_list dst (snd (coll_list src w))) = Inr dstList"
    and "settled its srcList dstList" and "range_order (env_range env)"
  shows "so_err (oneway_run env src dst its opts uidFn w) = None \<and>
    so_items (oneway_run env src dst its opts uidFn w) = its \<and>
    so_res (oneway_run env src dst its opts uidFn w) = zero_result \<and>
    oneway_log env src dst its opts uidFn w = [OpList SrcSide, OpList DstSide]"
proof -
  let ?w = "(snd (coll_list dst (snd (coll_list src w))), [OpList SrcSide, OpList DstSide])"
  let ?src = "traced SrcSide src" and ?dst = "traced DstSide dst"
  from assms(3) have wf: "map_wf its" and dist: "distinct (map (src_href \<circ> snd) its)"
    and eq: "(\<lambda>m. (im_href m, im_etag m)) ` set srcList =
      (\<lambda>(uid, st). (src_href st, src_etag st)) ` set its" by (auto simp: settled_def)
  have srcne: "srcList \<noteq> [] \<or> its = []" using eq by (cases its; cases srcList) auto
  have dstne: "dstList \<noteq> [] \<or> its = []"
    using assms(3) by (cases its) (auto simp: settled_def copy_listed_def indexByHref_eq
        lookupMeta_def raw_index_def norm_index_def Let_def split: if_splits)
  have kd: "its = [] \<Longrightarrow> known_dst env its = 0"
    using known_dst_eq [OF assms(4) wf] by simp
  have g: "guardVanished ''source'' (length srcList) (length (map_keys its)) = None"
      "guardVanished ''destination'' (length dstList) (known_dst env its) = None"
    using srcne dstne kd by (auto simp: guardVanished_None map_keys_def)
  obtain S where S: "foreach (mirror_step env ?src ?dst opts uidFn (by_src_href env its)
        (indexByHref dstList)) srcList (start_oneway its ?w) = (None, (start_oneway its ?w)\<lparr>ow_seen := S\<rparr>)"
    "\<forall>m\<in>set srcList. \<exists>uid st. (uid, st) \<in> set its \<and> src_href st = im_href m \<and> uid \<in> S"
    using settled_loop [OF assms(3,4) order_refl, where r = "start_oneway its ?w" and src = ?src
        and dst = ?dst and opts = opts and uidFn = uidFn]
    by (metis start_oneway_items)
  have all: "uid \<in> S" if "(uid, st) \<in> set its" for uid st
  proof -
    from that have "(src_href st, src_etag st) \<in> (\<lambda>(uid, st). (src_href st, src_etag st)) ` set its"
      by force
    with eq have "(src_href st, src_etag st) \<in> (\<lambda>m. (im_href m, im_etag m)) ` set srcList" by simp
    then obtain m where m: "m \<in> set srcList" "im_href m = src_href st" by auto
    with S(2) obtain uid' st' where "(uid', st') \<in> set its" "src_href st' = src_href st" "uid' \<in> S"
      by force
    moreover from this that dist have "(uid', st') = (uid, st)"
      by (force simp: distinct_map inj_on_def)
    ultimately show ?thesis by simp
  qed
  have "foreach (delete_step ?dst (indexByHref dstList)) (go_range (env_range env) 1 its)
      ((start_oneway its ?w)\<lparr>ow_seen := S\<rparr>) = (None, (start_oneway its ?w)\<lparr>ow_seen := S\<rparr>)"
    using all wf by (intro delete_pass_skip) (auto dest!: go_range_sound simp: map_get_in)
  with S(1) have "mirror_pass env ?src ?dst opts uidFn its srcList (indexByHref dstList) ?w =
      (None, (start_oneway its ?w)\<lparr>ow_seen := S\<rparr>)"
    by (simp add: mirror_pass_def start_oneway_def)
  with assms(1,2) g show ?thesis
    by (simp add: oneway_log_def oneway_run_def syncOneWay_def finish_oneway_def start_oneway_def)
qed


section \<open>Concrete runs\<close>

text \<open>A destination and a source with a fixed listing, and an environment, for the examples below.\<close>

definition listing_coll :: "item_meta list \<Rightarrow> unit collection" where
  "listing_coll ms = \<lparr>coll_list = (\<lambda>w. (Inr ms, w)), coll_get = (\<lambda>h w. (Inl (ErrNew ''gone''), w)),
     coll_put = (\<lambda>it w. (Inl (ErrNew ''read only''), w)), coll_delete = (\<lambda>h w. (Inr (), w))\<rparr>"

definition plain_env :: dav_env where
  "plain_env = \<lparr>env_sha256 = (\<lambda>b. b), env_start = (\<lambda>_. 0), env_range = (\<lambda>_ ks. ks)\<rparr>"

definition plain_options :: options where
  "plain_options = \<lparr>opt_direction = AToB, opt_conflict = SourceWins, opt_uid = Some (\<lambda>d. d),
     opt_modified = None, opt_href_suffix = [], opt_window_start = 0, opt_window_end = 0\<rparr>"

definition five_items :: items where
  "five_items = map (\<lambda>c. ([c], zero_item_state\<lparr>dst_href := [c]\<rparr>)) ''abcde''"

definition one_item :: items where
  "one_item = [(''u'', \<lparr>is_uid = ''u'', src_href = ''s'', src_etag = ''1'', src_hash = ''x'',
      dst_href = ''d'', dst_etag = ''2'', dst_hash = ''y''\<rparr>)]"

lemma plain_env_range [simp]: "range_order (env_range plain_env)"
  by (simp add: plain_env_def range_order_def)

lemma oneway_vanished_source_witness:
  "r_deleted (so_res (oneway_run plain_env (listing_coll []) (listing_coll []) five_items
     plain_options (\<lambda>d. d) ())) = 0 \<and>
   oneway_log plain_env (listing_coll []) (listing_coll []) five_items plain_options (\<lambda>d. d) ()
     = [OpList SrcSide]"
proof -
  have "fst (coll_list (listing_coll []) ()) = Inr []" by (simp add: listing_coll_def)
  moreover have "5 \<le> length (map_keys five_items)" by (simp add: five_items_def map_keys_def)
  ultimately show ?thesis
    using oneway_vanished_source [of "listing_coll []" "()" five_items plain_env "listing_coll []"
        plain_options "\<lambda>d. d"]
    by (simp add: zero_result_def)
qed

lemma oneway_vanished_destination_witness:
  "oneway_log plain_env (listing_coll [\<lparr>im_href = ''s'', im_etag = ''1''\<rparr>]) (listing_coll [])
     five_items plain_options (\<lambda>d. d) () = [OpList SrcSide, OpList DstSide]"
proof -
  let ?s = "listing_coll [\<lparr>im_href = ''s'', im_etag = ''1''\<rparr>]"
  have "fst (coll_list ?s ()) = Inr (\<lparr>im_href = ''s'', im_etag = ''1''\<rparr> # [])"
    "fst (coll_list (listing_coll []) (snd (coll_list ?s ()))) = Inr []"
    by (simp_all add: listing_coll_def)
  moreover have "5 \<le> length (filter (\<lambda>(uid, st). dst_href st \<noteq> []) five_items)"
    "map_wf five_items"
    by (simp_all add: five_items_def map_wf_def map_keys_def)
  ultimately show ?thesis
    using oneway_vanished_destination [of ?s "()" "\<lparr>im_href = ''s'', im_etag = ''1''\<rparr>" "[]"
        "listing_coll []" five_items plain_env plain_options "\<lambda>d. d"]
    by simp
qed

lemma one_item_settled:
  "settled one_item [\<lparr>im_href = ''s'', im_etag = ''1''\<rparr>] [\<lparr>im_href = ''d'', im_etag = ''2''\<rparr>]"
proof -
  have "lookupMeta (indexByHref [\<lparr>im_href = ''d'', im_etag = ''2''\<rparr>]) ''d'' =
      Some \<lparr>im_href = ''d'', im_etag = ''2''\<rparr>"
    using lookupMeta_listed [of "\<lparr>im_href = ''d'', im_etag = ''2''\<rparr>" "[\<lparr>im_href = ''d'', im_etag = ''2''\<rparr>]"]
    by simp
  then show ?thesis by (simp add: settled_def one_item_def copy_listed_def map_wf_def map_keys_def)
qed

lemma oneway_settled_is_quiet_witness:
  "oneway_log plain_env (listing_coll [\<lparr>im_href = ''s'', im_etag = ''1''\<rparr>])
     (listing_coll [\<lparr>im_href = ''d'', im_etag = ''2''\<rparr>]) one_item plain_options (\<lambda>d. d) ()
     = [OpList SrcSide, OpList DstSide]"
proof -
  let ?s = "[\<lparr>im_href = ''s'', im_etag = ''1''\<rparr>]" and ?d = "[\<lparr>im_href = ''d'', im_etag = ''2''\<rparr>]"
  have "fst (coll_list (listing_coll ?s) ()) = Inr ?s"
    "fst (coll_list (listing_coll ?d) (snd (coll_list (listing_coll ?s) ()))) = Inr ?d"
    by (simp_all add: listing_coll_def)
  then show ?thesis
    using oneway_settled_is_quiet [of "listing_coll ?s" "()" ?s "listing_coll ?d" ?d one_item
        plain_env plain_options "\<lambda>d. d"] one_item_settled
    by simp
qed

end
