(* ===== verification/Dav_Bidi.thy ===== *)
theory Dav_Bidi
  imports Dav_Calls
begin

text \<open>
  \<^verbatim>\<open>internal/dav/sync_bidi.go\<close>, the bidirectional reconciliation, and \<^verbatim>\<open>Sync\<close> of \<^verbatim>\<open>sync.go\<close>, which
  picks the strategy. \<open>Src*\<close> of a state entry is side A, \<open>Dst*\<close> is side B. A nil body slice of the
  code (\<^verbatim>\<open>sideItem.data\<close> not populated) is the empty body here, which is what an empty
  \<^verbatim>\<open>bytes.Buffer\<close> hands out.
\<close>


section \<open>Resolving a side\<close>

record side_item =
  si_href :: string
  si_etag :: string
  si_uid :: string
  si_changed :: bool
  si_data :: bytes

text \<open>\<^verbatim>\<open>hrefState\<close> is the pair of the ETag and the UID.\<close>

type_synonym known_hrefs = "(string, string \<times> string) go_map"
type_synonym side_items = "(string, side_item) go_map"

record 'w resolving =
  rs_world :: 'w
  rs_out :: side_items
  rs_filtered :: "string set"

definition resolve_fetch ::
  "dav_env \<Rightarrow> 'w collection \<Rightarrow> options \<Rightarrow> (bytes \<Rightarrow> string) \<Rightarrow> item_meta \<Rightarrow> 'w resolving \<Rightarrow>
     go_error option \<times> 'w resolving" where
  "resolve_fetch env coll opts uidFn meta r =
     (case coll_get coll (im_href meta) (rs_world r) of
        (Inl e, w) \<Rightarrow> (Some (wrapf (''get '' @ im_href meta @ '': '') e), r\<lparr>rs_world := w\<rparr>)
      | (Inr it, w) \<Rightarrow>
          let uid = body_uid uidFn meta (it_data it)
          in if \<not> inWindow env opts (it_data it) then
               (None, r\<lparr>rs_world := w, rs_filtered := insert uid (rs_filtered r)\<rparr>)
             else
               (None, r\<lparr>rs_world := w, rs_out := map_put uid
                  \<lparr>si_href = im_href meta, si_etag = im_etag meta, si_uid = uid, si_changed = True,
                   si_data = it_data it\<rparr> (rs_out r)\<rparr>))"

definition resolve_step ::
  "dav_env \<Rightarrow> 'w collection \<Rightarrow> known_hrefs \<Rightarrow> options \<Rightarrow> (bytes \<Rightarrow> string) \<Rightarrow> item_meta \<Rightarrow>
     'w resolving \<Rightarrow> go_error option \<times> 'w resolving" where
  "resolve_step env coll known opts uidFn meta r =
     (case map_get known (im_href meta) of
        Some (etag, uid) \<Rightarrow>
          if etag = im_etag meta then
            (None, r\<lparr>rs_out := map_put uid
               \<lparr>si_href = im_href meta, si_etag = im_etag meta, si_uid = uid, si_changed = False,
                si_data = []\<rparr> (rs_out r)\<rparr>)
          else resolve_fetch env coll opts uidFn meta r
      | None \<Rightarrow> resolve_fetch env coll opts uidFn meta r)"

definition resolveSide ::
  "dav_env \<Rightarrow> 'w collection \<Rightarrow> item_meta list \<Rightarrow> known_hrefs \<Rightarrow> options \<Rightarrow> (bytes \<Rightarrow> string) \<Rightarrow>
     string set \<Rightarrow> 'w \<Rightarrow> go_error option \<times> 'w resolving" where
  "resolveSide env coll listed known opts uidFn filtered w =
     foreach (resolve_step env coll known opts uidFn) listed
       \<lparr>rs_world = w, rs_out = [], rs_filtered = filtered\<rparr>"


section \<open>Copying and conflicts\<close>

definition dataOf :: "'w collection \<Rightarrow> side_item \<Rightarrow> 'w \<Rightarrow> bytes result \<times> 'w" where
  "dataOf coll si w =
     (if si_data si \<noteq> [] then (Inr (si_data si), w)
      else case coll_get coll (si_href si) w of
             (Inl e, w') \<Rightarrow> (Inl (wrapf (''get '' @ si_href si @ '': '') e), w')
           | (Inr it, w') \<Rightarrow> (Inr (it_data it), w'))"

definition copyItem ::
  "'w collection \<Rightarrow> 'w collection \<Rightarrow> side_item \<Rightarrow> string \<Rightarrow> 'w \<Rightarrow> item result \<times> 'w" where
  "copyItem source target si toHref w =
     (case dataOf source si w of
        (Inl e, w') \<Rightarrow> (Inl e, w')
      | (Inr data, w') \<Rightarrow>
          (case coll_put target \<lparr>it_href = toHref, it_etag = [], it_data = data\<rparr> w' of
             (Inl e, w'') \<Rightarrow> (Inl (wrapf (''put '' @ toHref @ '': '') e), w'')
           | (Inr stored, w'') \<Rightarrow> (Inr stored, w'')))"

definition winnerIsA ::
  "'w collection \<Rightarrow> 'w collection \<Rightarrow> side_item \<Rightarrow> side_item \<Rightarrow> options \<Rightarrow> 'w \<Rightarrow> bool result \<times> 'w" where
  "winnerIsA a b ai bi opts w =
     (case opt_modified opts of
        None \<Rightarrow> (Inr True, w)
      | Some modified \<Rightarrow>
          if opt_conflict opts = SourceWins then (Inr True, w)
          else
            (case dataOf a ai w of
               (Inl e, w') \<Rightarrow> (Inl e, w')
             | (Inr aData, w') \<Rightarrow>
                 (case dataOf b bi w' of
                    (Inl e, w'') \<Rightarrow> (Inl e, w'')
                  | (Inr bData, w'') \<Rightarrow>
                      (Inr (\<not> time_before (modified aData) (modified bData)), w''))))"


section \<open>The loop over the UIDs\<close>

record 'w bidi =
  bi_world :: 'w
  bi_items :: items
  bi_res :: sync_result

definition sync_entry :: "string \<Rightarrow> string \<Rightarrow> string \<Rightarrow> string \<Rightarrow> string \<Rightarrow> item_state" where
  "sync_entry uid sh se dh de =
     \<lparr>is_uid = uid, src_href = sh, src_etag = se, src_hash = [],
      dst_href = dh, dst_etag = de, dst_hash = []\<rparr>"

definition add_updated :: "sync_result \<Rightarrow> sync_result" where
  "add_updated res = res\<lparr>r_updated := r_updated res + 1\<rparr>"

definition add_created :: "sync_result \<Rightarrow> sync_result" where
  "add_created res = res\<lparr>r_created := r_created res + 1\<rparr>"

definition add_deleted :: "sync_result \<Rightarrow> sync_result" where
  "add_deleted res = res\<lparr>r_deleted := r_deleted res + 1\<rparr>"

text \<open>The two directions of a copy with the entry it records; \<open>cnt\<close> is the counter to raise.\<close>

definition copy_to_b ::
  "'w collection \<Rightarrow> 'w collection \<Rightarrow> string \<Rightarrow> side_item \<Rightarrow> string \<Rightarrow> (sync_result \<Rightarrow> sync_result) \<Rightarrow>
     'w bidi \<Rightarrow> go_error option \<times> 'w bidi" where
  "copy_to_b a b uid ai toHref cnt s =
     (case copyItem a b ai toHref (bi_world s) of
        (Inl e, w) \<Rightarrow> (Some e, s\<lparr>bi_world := w\<rparr>)
      | (Inr stored, w) \<Rightarrow>
          (None, s\<lparr>bi_world := w,
             bi_items := map_put uid
               (sync_entry uid (si_href ai) (si_etag ai) (it_href stored) (it_etag stored)) (bi_items s),
             bi_res := cnt (bi_res s)\<rparr>))"

definition copy_to_a ::
  "'w collection \<Rightarrow> 'w collection \<Rightarrow> string \<Rightarrow> side_item \<Rightarrow> string \<Rightarrow> (sync_result \<Rightarrow> sync_result) \<Rightarrow>
     'w bidi \<Rightarrow> go_error option \<times> 'w bidi" where
  "copy_to_a a b uid bi toHref cnt s =
     (case copyItem b a bi toHref (bi_world s) of
        (Inl e, w) \<Rightarrow> (Some e, s\<lparr>bi_world := w\<rparr>)
      | (Inr stored, w) \<Rightarrow>
          (None, s\<lparr>bi_world := w,
             bi_items := map_put uid
               (sync_entry uid (it_href stored) (it_etag stored) (si_href bi) (si_etag bi)) (bi_items s),
             bi_res := cnt (bi_res s)\<rparr>))"

definition delete_on ::
  "string \<Rightarrow> 'w collection \<Rightarrow> string \<Rightarrow> side_item \<Rightarrow> 'w bidi \<Rightarrow> go_error option \<times> 'w bidi" where
  "delete_on name coll uid si s =
     (case coll_delete coll (si_href si) (bi_world s) of
        (Inl e, w) \<Rightarrow>
          (Some (wrapf (''delete '' @ name @ '' '' @ si_href si @ '': '') e), s\<lparr>bi_world := w\<rparr>)
      | (Inr _, w) \<Rightarrow>
          (None, s\<lparr>bi_world := w, bi_items := map_del uid (bi_items s),
                   bi_res := add_deleted (bi_res s)\<rparr>))"

definition both_step ::
  "'w collection \<Rightarrow> 'w collection \<Rightarrow> options \<Rightarrow> string \<Rightarrow> side_item \<Rightarrow> side_item \<Rightarrow> 'w bidi \<Rightarrow>
     go_error option \<times> 'w bidi" where
  "both_step a b opts uid ai bi s =
     (if \<not> si_changed ai \<and> \<not> si_changed bi then (None, s)
      else if si_changed ai \<and> \<not> si_changed bi then copy_to_b a b uid ai (si_href bi) add_updated s
      else if si_changed bi \<and> \<not> si_changed ai then copy_to_a a b uid bi (si_href ai) add_updated s
      else
        (case winnerIsA a b ai bi opts (bi_world s) of
           (Inl e, w) \<Rightarrow> (Some e, s\<lparr>bi_world := w\<rparr>)
         | (Inr aWins, w) \<Rightarrow>
             if aWins then copy_to_b a b uid ai (si_href bi) add_updated (s\<lparr>bi_world := w\<rparr>)
             else copy_to_a a b uid bi (si_href ai) add_updated (s\<lparr>bi_world := w\<rparr>)))"

definition bidi_step ::
  "'w collection \<Rightarrow> 'w collection \<Rightarrow> options \<Rightarrow> side_items \<Rightarrow> side_items \<Rightarrow> string set \<Rightarrow> string \<Rightarrow>
     'w bidi \<Rightarrow> go_error option \<times> 'w bidi" where
  "bidi_step a b opts aSide bSide filtered uid s =
     (if uid \<in> filtered then (None, s)
      else case (map_get aSide uid, map_get bSide uid) of
        (Some ai, Some bi) \<Rightarrow> both_step a b opts uid ai bi s
      | (Some ai, None) \<Rightarrow>
          (case map_get (bi_items s) uid of
             Some st \<Rightarrow>
               if dst_href st \<noteq> [] \<and> \<not> si_changed ai then delete_on ''A'' a uid ai s
               else copy_to_b a b uid ai (destHref uid (suffix_of opts)) add_created s
           | None \<Rightarrow> copy_to_b a b uid ai (destHref uid (suffix_of opts)) add_created s)
      | (None, Some bi) \<Rightarrow>
          (case map_get (bi_items s) uid of
             Some st \<Rightarrow>
               if src_href st \<noteq> [] \<and> \<not> si_changed bi then delete_on ''B'' b uid bi s
               else copy_to_a a b uid bi (destHref uid (suffix_of opts)) add_created s
           | None \<Rightarrow> copy_to_a a b uid bi (destHref uid (suffix_of opts)) add_created s)
      | (None, None) \<Rightarrow> (None, s\<lparr>bi_items := map_del uid (bi_items s)\<rparr>))"


section \<open>A whole run\<close>

definition known_of ::
  "dav_env \<Rightarrow> (item_state \<Rightarrow> string) \<Rightarrow> (item_state \<Rightarrow> string) \<Rightarrow> items \<Rightarrow> known_hrefs" where
  "known_of env href etag its =
     fold (\<lambda>(uid, st) m. if href st \<noteq> [] then map_put (href st) (etag st, is_uid st) m else m)
       (go_range (env_range env) 0 its) []"

definition uid_set :: "side_items \<Rightarrow> side_items \<Rightarrow> items \<Rightarrow> (string, unit) go_map" where
  "uid_set aSide bSide its =
     fold (\<lambda>u. map_put u ()) (map_keys aSide @ map_keys bSide @ map_keys its) []"

definition bidi_out :: "items \<Rightarrow> go_error \<Rightarrow> 'w \<Rightarrow> 'w sync_out" where
  "bidi_out its e w = \<lparr>so_err = Some e, so_res = zero_result, so_items = its, so_world = w\<rparr>"

definition bidi_reconcile ::
  "dav_env \<Rightarrow> 'w collection \<Rightarrow> 'w collection \<Rightarrow> options \<Rightarrow> items \<Rightarrow> side_items \<Rightarrow> side_items \<Rightarrow>
     string set \<Rightarrow> 'w \<Rightarrow> 'w sync_out" where
  "bidi_reconcile env a b opts its aSide bSide filtered w =
     (case foreach (bidi_step a b opts aSide bSide filtered)
             (map fst (go_range (env_range env) 1 (uid_set aSide bSide its)))
             \<lparr>bi_world = w, bi_items = its, bi_res = zero_result\<rparr> of
        (e, s) \<Rightarrow> \<lparr>so_err = e, so_res = bi_res s, so_items = bi_items s, so_world = bi_world s\<rparr>)"

definition syncBidirectional ::
  "dav_env \<Rightarrow> 'w collection \<Rightarrow> 'w collection \<Rightarrow> items \<Rightarrow> options \<Rightarrow> (bytes \<Rightarrow> string) \<Rightarrow> 'w \<Rightarrow>
     'w sync_out" where
  "syncBidirectional env a b its opts uidFn w =
     (let aKnown = known_of env src_href src_etag its;
          bKnown = known_of env dst_href dst_etag its
      in case coll_list a w of
        (Inl e, w1) \<Rightarrow> bidi_out its (wrapf ''list A: '' e) w1
      | (Inr aList, w1) \<Rightarrow>
       (case coll_list b w1 of
          (Inl e, w2) \<Rightarrow> bidi_out its (wrapf ''list B: '' e) w2
        | (Inr bList, w2) \<Rightarrow>
         (case guardVanished ''A'' (length aList) (length (map_keys aKnown)) of
            Some e \<Rightarrow> bidi_out its e w2
          | None \<Rightarrow>
         (case guardVanished ''B'' (length bList) (length (map_keys bKnown)) of
            Some e \<Rightarrow> bidi_out its e w2
          | None \<Rightarrow>
         (case resolveSide env a aList aKnown opts uidFn {} w2 of
            (Some e, ra) \<Rightarrow> bidi_out its e (rs_world ra)
          | (None, ra) \<Rightarrow>
         (case resolveSide env b bList bKnown opts uidFn (rs_filtered ra) (rs_world ra) of
            (Some e, rb) \<Rightarrow> bidi_out its e (rs_world rb)
          | (None, rb) \<Rightarrow>
              bidi_reconcile env a b opts its (rs_out ra) (rs_out rb) (rs_filtered rb)
                (rs_world rb)))))))"

text \<open>\<^verbatim>\<open>Sync\<close>. A nil \<^verbatim>\<open>Items\<close> map and an empty one are the same map here. An environment-independent
  \<^verbatim>\<open>%q\<close> keeps the direction unquoted in the error value.\<close>

definition Sync ::
  "dav_env \<Rightarrow> 'w collection \<Rightarrow> 'w collection \<Rightarrow> items \<Rightarrow> options \<Rightarrow> 'w \<Rightarrow> 'w sync_out" where
  "Sync env a b its opts w =
     (case opt_uid opts of
        None \<Rightarrow> bidi_out its (ErrMsg [Lit ''dav: Options.UID is required'']) w
      | Some uidFn \<Rightarrow>
          if opt_direction opts = AToB then syncOneWay env a b its opts uidFn w
          else if opt_direction opts = BToA then syncOneWay env b a its opts uidFn w
          else if opt_direction opts = Bidirectional then syncBidirectional env a b its opts uidFn w
          else bidi_out its
                 (ErrMsg [Lit ''dav: unknown direction '', Quo (opt_direction opts)]) w)"

end
