(* ===== verification/Dav_Bidi_Calls.thy ===== *)
theory Dav_Bidi_Calls
  imports Dav_Bidi
begin

text \<open>
  The calls of a bidirectional run, and the properties of \<^verbatim>\<open>Sync\<close> as a whole: which side a direction
  may write to, what the counters mean, and which items a reconciliation may delete.
\<close>


section \<open>Contracts\<close>

text \<open>Both sides may be read and written; deletions only where the two predicates allow them.\<close>

locale bidi_frame = ab: mirror_frame a b I delB + ba: mirror_frame b a I delA
  for a b :: "'w collection" and I :: "'w \<Rightarrow> bool" and delA delB :: "string \<Rightarrow> bool"

context mirror_reader
begin

lemma dataOf_src_frame:
  assumes "I w" and "dataOf src si w = (x, w')"
  shows "I w'"
  using assms src_get_frame by (auto simp: dataOf_def split: if_splits prod.splits sum.splits)

lemma resolve_src_frame:
  assumes "I w" and "resolveSide env src listed known opts uidFn f w = (e, r)"
  shows "I (rs_world r)"
proof -
  have step: "I (rs_world (snd (resolve_step env src known opts uidFn m r)))"
    if "I (rs_world r)" for m r
    using that src_get_frame
    by (auto simp: resolve_step_def resolve_fetch_def Let_def split: option.splits prod.splits sum.splits)
  have "I (rs_world (snd (resolveSide env src listed known opts uidFn f w)))"
    unfolding resolveSide_def
    by (rule foreach_inv [where I = "\<lambda>r. I (rs_world r)"]) (simp_all add: assms(1) step)
  with assms(2) show ?thesis by simp
qed

end

context mirror_frame
begin

lemma copyItem_frame:
  assumes "I w" and "copyItem src dst si h w = (x, w')"
  shows "I w'"
proof -
  obtain g w1 where g: "dataOf src si w = (g, w1)" by fastforce
  then have I1: "I w1" using assms(1) by (rule dataOf_src_frame [rotated])
  have "I w''" if "coll_put dst it w1 = (p, w'')" for it p w''
    using dst_put [OF I1, of it] that by simp
  with assms(2) g I1 show ?thesis
    by (auto simp: copyItem_def split: prod.splits sum.splits)
qed

end

context bidi_frame
begin

lemma copy_frames:
  "I (bi_world s) \<Longrightarrow> I (bi_world (snd (copy_to_b a b uid ai h cnt s)))"
  "I (bi_world s) \<Longrightarrow> I (bi_world (snd (copy_to_a a b uid ai h cnt s)))"
  by (auto simp: copy_to_b_def copy_to_a_def split: prod.splits sum.splits
      dest: ab.copyItem_frame ba.copyItem_frame)

lemma winnerIsA_frame:
  assumes "I w" and "winnerIsA a b ai bi opts w = (x, w')"
  shows "I w'"
  using assms
  by (auto simp: winnerIsA_def split: option.splits if_splits prod.splits sum.splits
      dest: ab.dataOf_src_frame ba.dataOf_src_frame)

lemma both_step_frame:
  "I (bi_world s) \<Longrightarrow> I (bi_world (snd (both_step a b opts uid ai bi s)))"
  by (auto simp: both_step_def split: prod.splits sum.splits dest: winnerIsA_frame
      intro!: copy_frames)

lemma bidi_step_frame:
  assumes "I (bi_world s)"
    and "\<And>ai. map_get aSide uid = Some ai \<Longrightarrow> \<not> si_changed ai \<Longrightarrow> delA (si_href ai)"
    and "\<And>bi. map_get bSide uid = Some bi \<Longrightarrow> \<not> si_changed bi \<Longrightarrow> delB (si_href bi)"
  shows "I (bi_world (snd (bidi_step a b opts aSide bSide filtered uid s)))"
proof -
  have da: "I w" if "delA h" "coll_delete a h (bi_world s) = (x, w)" for h x w
    using ba.dst_delete [OF that(1) assms(1)] that(2) by simp
  have db: "I w" if "delB h" "coll_delete b h (bi_world s) = (x, w)" for h x w
    using ab.dst_delete [OF that(1) assms(1)] that(2) by simp
  show ?thesis
    using assms
    by (auto simp: bidi_step_def delete_on_def split: option.splits prod.splits sum.splits
        intro!: copy_frames both_step_frame dest: da db)
qed

end


section \<open>The shape of a run\<close>

lemma known_of_sound:
  assumes "map_get (known_of env href etag its) h = Some (e, u)"
  shows "h \<noteq> [] \<and> (\<exists>uid st. map_get its uid = Some st \<and> href st = h \<and> etag st = e \<and> is_uid st = u)"
proof -
  let ?f = "\<lambda>(uid, st) m. if href st \<noteq> [] then map_put (href st) (etag st, is_uid st) m else m"
  have "map_get (fold ?f xs m) h = Some (e, u) \<Longrightarrow> map_get m h = Some (e, u) \<or>
      h \<noteq> [] \<and> (\<exists>uid st. (uid, st) \<in> set xs \<and> href st = h \<and> etag st = e \<and> is_uid st = u)" for xs m
  proof (induction xs arbitrary: m)
    case (Cons x xs)
    obtain uid st where x: "x = (uid, st)" by fastforce
    from Cons.IH [of "?f x m"] Cons.prems
    have "map_get (?f x m) h = Some (e, u) \<or>
        h \<noteq> [] \<and> (\<exists>uid st. (uid, st) \<in> set xs \<and> href st = h \<and> etag st = e \<and> is_uid st = u)"
      by simp
    then show ?case by (auto simp: x split: if_splits)
  qed simp
  from this [of "go_range (env_range env) 0 its" "[]"] assms show ?thesis
    by (fastforce simp: known_of_def dest: go_range_sound)
qed

text \<open>An item of a resolved side that is not marked as changed was recorded with the ETag it is
  listed with now.\<close>

definition side_sound :: "item_meta list \<Rightarrow> known_hrefs \<Rightarrow> side_items \<Rightarrow> bool" where
  "side_sound listed known out \<longleftrightarrow>
     (\<forall>uid si. map_get out uid = Some si \<longrightarrow>
        \<lparr>im_href = si_href si, im_etag = si_etag si\<rparr> \<in> set listed \<and> si_uid si = uid \<and>
        (\<not> si_changed si \<longrightarrow> map_get known (si_href si) = Some (si_etag si, uid)))"

lemma item_meta_eta [simp]: "\<lparr>im_href = im_href m, im_etag = im_etag m\<rparr> = m"
  by (cases m rule: item_meta.cases) simp

lemma side_sound_Nil: "side_sound listed known []"
  by (simp add: side_sound_def)

lemma side_sound_put:
  assumes "side_sound listed known out" and "m \<in> set listed"
    and "si_href si = im_href m" and "si_etag si = im_etag m" and "si_uid si = uid"
    and "\<not> si_changed si \<Longrightarrow> map_get known (im_href m) = Some (im_etag m, uid)"
  shows "side_sound listed known (map_put uid si out)"
proof -
  have "\<lparr>im_href = im_href m, im_etag = im_etag m\<rparr> \<in> set listed"
    using assms(2) by simp
  with assms(1,3-6) show ?thesis by (auto simp: side_sound_def)
qed

lemma resolveSide_sound:
  assumes "resolveSide env coll listed known opts uidFn f w = (e, r)"
  shows "side_sound listed known (rs_out r)"
proof -
  have fetch: "side_sound listed known (rs_out (snd (resolve_fetch env coll opts uidFn m r)))"
    if "m \<in> set listed" "side_sound listed known (rs_out r)" for m r
    using that
    by (auto simp: resolve_fetch_def Let_def split: prod.splits sum.splits intro!: side_sound_put)
  have step: "side_sound listed known (rs_out (snd (resolve_step env coll known opts uidFn m r)))"
    if "m \<in> set listed" "side_sound listed known (rs_out r)" for m r
    using that
    by (auto simp: resolve_step_def split: option.splits prod.splits intro!: side_sound_put fetch)
  have "side_sound listed known (rs_out (snd (resolveSide env coll listed known opts uidFn f w)))"
    unfolding resolveSide_def
    by (rule foreach_inv [where I = "\<lambda>r. side_sound listed known (rs_out r)"])
      (simp_all add: step side_sound_Nil)
  with assms show ?thesis by simp
qed

lemma syncBidirectional_cases:
  obtains
    (aborted) e w1 where
      "w1 = snd (coll_list a w) \<or> w1 = snd (coll_list b (snd (coll_list a w)))"
      "syncBidirectional env a b its opts uidFn w = bidi_out its e w1"
  | (resolving_a) e la w1 lb w2 ra where
      "coll_list a w = (Inr la, w1)" "coll_list b w1 = (Inr lb, w2)"
      "resolveSide env a la (known_of env src_href src_etag its) opts uidFn {} w2 = (Some e, ra)"
      "syncBidirectional env a b its opts uidFn w = bidi_out its e (rs_world ra)"
  | (resolving_b) e la w1 lb w2 ra rb where
      "coll_list a w = (Inr la, w1)" "coll_list b w1 = (Inr lb, w2)"
      "resolveSide env a la (known_of env src_href src_etag its) opts uidFn {} w2 = (None, ra)"
      "resolveSide env b lb (known_of env dst_href dst_etag its) opts uidFn (rs_filtered ra)
         (rs_world ra) = (Some e, rb)"
      "syncBidirectional env a b its opts uidFn w = bidi_out its e (rs_world rb)"
  | (ran) la w1 lb w2 ra rb where
      "coll_list a w = (Inr la, w1)" "coll_list b w1 = (Inr lb, w2)"
      "resolveSide env a la (known_of env src_href src_etag its) opts uidFn {} w2 = (None, ra)"
      "resolveSide env b lb (known_of env dst_href dst_etag its) opts uidFn (rs_filtered ra)
         (rs_world ra) = (None, rb)"
      "syncBidirectional env a b its opts uidFn w =
         bidi_reconcile env a b opts its (rs_out ra) (rs_out rb) (rs_filtered rb) (rs_world rb)"
proof -
  note u = syncBidirectional_def [of env a b its opts uidFn w]
  let ?ka = "known_of env src_href src_etag its" and ?kb = "known_of env dst_href dst_etag its"
  obtain xa w1 where la: "coll_list a w = (xa, w1)" by fastforce
  obtain xb w2 where lb: "coll_list b w1 = (xb, w2)" by fastforce
  consider (stop) "isl xa \<or> isl xb"
    | (guard) la' lb' where "xa = Inr la'" "xb = Inr lb'"
        "guardVanished ''A'' (length la') (length (map_keys ?ka)) \<noteq> None \<or>
         guardVanished ''B'' (length lb') (length (map_keys ?kb)) \<noteq> None"
    | (go) la' lb' where "xa = Inr la'" "xb = Inr lb'"
        "guardVanished ''A'' (length la') (length (map_keys ?ka)) = None"
        "guardVanished ''B'' (length lb') (length (map_keys ?kb)) = None"
    by (metis isl_def sum.exhaust)
  then show thesis
  proof cases
    case stop
    show thesis
    proof (cases xa)
      case (Inl e)
      with la show thesis by (intro aborted) (auto simp: u)
    next
      case (Inr l)
      with stop obtain e where "xb = Inl e" by (cases xb) auto
      with Inr la lb show thesis by (intro aborted) (auto simp: u)
    qed
  next
    case guard
    then have "\<exists>e. syncBidirectional env a b its opts uidFn w = bidi_out its e w2"
      using la lb
      by (cases "guardVanished ''A'' (length la') (length (map_keys ?ka))") (auto simp: u)
    with la lb show thesis using aborted by force
  next
    case go
    obtain ea ra where ra: "resolveSide env a la' ?ka opts uidFn {} w2 = (ea, ra)" by fastforce
    obtain eb rb where rb: "resolveSide env b lb' ?kb opts uidFn (rs_filtered ra) (rs_world ra) = (eb, rb)"
      by fastforce
    show thesis
    proof (cases ea)
      case (Some e)
      with la lb go ra show thesis by (intro resolving_a) (auto simp: u)
    next
      case None
      show thesis
      proof (cases eb)
        case (Some e)
        with None la lb go ra rb show thesis by (intro resolving_b) (auto simp: u)
      next
        case eb: None
        with None la lb go ra rb show thesis by (intro ran) (auto simp: u)
      qed
    qed
  qed
qed

text \<open>The hrefs a run may delete: recorded, and listed now with the recorded ETag.\<close>

definition unchanged_hrefs ::
  "(item_state \<Rightarrow> string) \<Rightarrow> (item_state \<Rightarrow> string) \<Rightarrow> items \<Rightarrow> item_meta list result \<Rightarrow> string set" where
  "unchanged_hrefs href etag its listing =
     (case listing of
        Inl _ \<Rightarrow> {}
      | Inr ms \<Rightarrow> {h. \<exists>uid st. map_get its uid = Some st \<and> href st = h \<and> h \<noteq> [] \<and>
                       \<lparr>im_href = h, im_etag = etag st\<rparr> \<in> set ms})"

lemma side_sound_unchanged:
  assumes "side_sound ms (known_of env href etag its) out"
    and "map_get out uid = Some si" and "\<not> si_changed si"
  shows "si_href si \<in> unchanged_hrefs href etag its (Inr ms)"
proof -
  from assms have "map_get (known_of env href etag its) (si_href si) = Some (si_etag si, uid)"
    and "\<lparr>im_href = si_href si, im_etag = si_etag si\<rparr> \<in> set ms" by (auto simp: side_sound_def)
  with known_of_sound [of env href etag its "si_href si"] show ?thesis
    unfolding unchanged_hrefs_def by fastforce
qed

context bidi_frame
begin

lemma syncBidirectional_frame:
  assumes "I w"
    and "\<And>h. h \<in> unchanged_hrefs src_href src_etag its (fst (coll_list a w)) \<Longrightarrow> delA h"
    and "\<And>h. h \<in> unchanged_hrefs dst_href dst_etag its (fst (coll_list b (snd (coll_list a w)))) \<Longrightarrow> delB h"
  shows "I (so_world (syncBidirectional env a b its opts uidFn w))"
proof -
  have I1: "I (snd (coll_list a w))" using assms(1) by (rule ab.src_list)
  then have I2: "I (snd (coll_list b (snd (coll_list a w))))" by (rule ab.dst_list)
  show ?thesis
  proof (cases rule: syncBidirectional_cases [of a w b env its opts uidFn])
    case (aborted e w1)
    with I1 I2 show ?thesis by (auto simp: bidi_out_def)
  next
    case (resolving_a e la w1 lb w2 ra)
    with I2 have "I (rs_world ra)" by (auto intro: ab.resolve_src_frame)
    with resolving_a(4) show ?thesis by (simp add: bidi_out_def)
  next
    case (resolving_b e la w1 lb w2 ra rb)
    with I2 have "I (rs_world ra)" by (auto intro: ab.resolve_src_frame)
    with resolving_b(4) have "I (rs_world rb)" by (auto intro: ba.resolve_src_frame)
    with resolving_b(5) show ?thesis by (simp add: bidi_out_def)
  next
    case (ran la w1 lb w2 ra rb)
    with I2 have "I (rs_world ra)" by (auto intro: ab.resolve_src_frame)
    with ran(4) have rb: "I (rs_world rb)" by (auto intro: ba.resolve_src_frame)
    have delA: "delA (si_href si)" if "map_get (rs_out ra) uid = Some si" "\<not> si_changed si" for uid si
      using side_sound_unchanged [OF resolveSide_sound [OF ran(3)] that] assms(2) ran(1) by simp
    have delB: "delB (si_href si)" if "map_get (rs_out rb) uid = Some si" "\<not> si_changed si" for uid si
      using side_sound_unchanged [OF resolveSide_sound [OF ran(4)] that] assms(3) ran(1,2) by simp
    have "I (bi_world (snd (foreach (bidi_step a b opts (rs_out ra) (rs_out rb) (rs_filtered rb)) us
        \<lparr>bi_world = rs_world rb, bi_items = its, bi_res = zero_result\<rparr>)))" for us
      by (rule foreach_inv [where I = "\<lambda>s. I (bi_world s)"])
        (auto simp: rb intro!: bidi_step_frame delA delB)
    with ran(5) show ?thesis by (simp add: bidi_reconcile_def split: prod.splits) (metis snd_conv)
  qed
qed

end


section \<open>The contracts on traced collections\<close>

datatype ab = SideA | SideB

definition deletes_ab :: "string set \<Rightarrow> string set \<Rightarrow> 'w \<times> ab dav_op list \<Rightarrow> bool" where
  "deletes_ab HA HB = (\<lambda>(w, log). \<forall>x\<in>set log. is_delete x \<longrightarrow>
     op_href x \<in> (case op_side x of SideA \<Rightarrow> HA | SideB \<Rightarrow> HB))"

interpretation bidels: bidi_frame "traced SideA a" "traced SideB b" "deletes_ab HA HB"
    "\<lambda>h. h \<in> HA" "\<lambda>h. h \<in> HB"
  for a b :: "'w collection" and HA HB
  by unfold_locales (auto simp: deletes_ab_def)


section \<open>The counters\<close>

definition btally :: "('w \<times> 's dav_op list) bidi \<Rightarrow> bool" where
  "btally s \<longleftrightarrow> counted (r_created (bi_res s) + r_updated (bi_res s)) (r_deleted (bi_res s)) (bi_world s)"

lemma copyItem_counted:
  assumes "counted p d w" and "copyItem (traced sl src) (traced dl dst) si h w = (x, w')"
  shows "counted (if is_ok x then Suc p else p) d w'"
proof -
  obtain g w1 where g: "dataOf (traced sl src) si w = (g, w1)" by (rule prod.exhaust)
  with assms(1) have c: "counted p d w1" by (rule counts.dataOf_src_frame)
  obtain w0 log where "w1 = (w0, log)" by fastforce
  with assms(2) g c show ?thesis
    by (auto simp: copyItem_def counted_def is_ok_def split: prod.splits sum.splits)
qed

lemma copies_btally:
  assumes "btally s" and "cnt = add_created \<or> cnt = add_updated"
  shows "btally (snd (copy_to_b (traced sl a) (traced dl b) uid ai h cnt s))"
    and "btally (snd (copy_to_a (traced sl a) (traced dl b) uid ai h cnt s))"
proof -
  have c: "counted (r_created (bi_res s) + r_updated (bi_res s)) (r_deleted (bi_res s)) (bi_world s)"
    using assms(1) by (simp add: btally_def)
  show "btally (snd (copy_to_b (traced sl a) (traced dl b) uid ai h cnt s))"
    using assms(2) copyItem_counted [OF c, of sl a dl b ai h]
    by (auto simp: copy_to_b_def btally_def is_ok_def add_created_def add_updated_def
        split: prod.splits sum.splits)
  show "btally (snd (copy_to_a (traced sl a) (traced dl b) uid ai h cnt s))"
    using assms(2) copyItem_counted [OF c, of dl b sl a ai h]
    by (auto simp: copy_to_a_def btally_def is_ok_def add_created_def add_updated_def
        split: prod.splits sum.splits)
qed

lemma winnerIsA_counted:
  assumes "counted p d w" and "winnerIsA (traced sl a) (traced dl b) ai bi opts w = (x, w')"
  shows "counted p d w'"
  using assms
  by (auto simp: winnerIsA_def split: option.splits if_splits prod.splits sum.splits
      dest: counts.dataOf_src_frame)

lemma both_step_btally:
  assumes "btally s"
  shows "btally (snd (both_step (traced sl a) (traced dl b) opts uid ai bi s))"
proof -
  have "btally (s\<lparr>bi_world := w\<rparr>)"
    if "winnerIsA (traced sl a) (traced dl b) ai bi opts (bi_world s) = (x, w)" for x w
    using assms winnerIsA_counted that by (fastforce simp: btally_def)
  with assms show ?thesis
    by (auto simp: both_step_def split: prod.splits sum.splits intro!: copies_btally)
qed

lemma bidi_step_btally:
  assumes "btally s"
  shows "btally (snd (bidi_step (traced sl a) (traced dl b) opts aSide bSide filtered uid s))"
proof -
  obtain w log where w: "bi_world s = (w, log)" by fastforce
  have del: "btally (snd (delete_on n (traced l c) uid si s))" for n l c si
    using assms w
    by (auto simp: delete_on_def btally_def counted_def add_deleted_def is_ok_def
        split: prod.splits sum.splits)
  have map: "btally (s\<lparr>bi_items := i\<rparr>)" for i using assms by (simp add: btally_def)
  show ?thesis
    using assms
    by (auto simp: bidi_step_def map split: option.splits
        intro!: copies_btally both_step_btally del)
qed

lemma syncBidirectional_tally:
  "tally_out (syncBidirectional env (traced sl a) (traced dl b) its opts uidFn (w, []))"
proof -
  let ?a = "traced sl a" and ?b = "traced dl b"
  have l1: "counted 0 0 (snd (coll_list ?a (w, [])))" by (simp add: counted_def)
  then have l2: "counted 0 0 (snd (coll_list ?b (snd (coll_list ?a (w, [])))))"
    by (rule counts.dst_list)
  have abort: "tally_out (bidi_out its e w')" if "counted 0 0 w'" for e w'
    using that by (simp add: tally_out_def bidi_out_def zero_result_def)
  show ?thesis
  proof (cases rule: syncBidirectional_cases [of ?a "(w, [])" ?b env its opts uidFn])
    case (aborted e w1)
    with l1 l2 abort show ?thesis by metis
  next
    case (resolving_a e la w1 lb w2 ra)
    with l2 have "counted 0 0 (rs_world ra)" by (metis counts.resolve_src_frame snd_conv)
    with resolving_a(4) abort show ?thesis by simp
  next
    case (resolving_b e la w1 lb w2 ra rb)
    with l2 have "counted 0 0 (rs_world ra)" by (metis counts.resolve_src_frame snd_conv)
    with resolving_b(4) have "counted 0 0 (rs_world rb)" by (metis counts.resolve_src_frame)
    with resolving_b(5) abort show ?thesis by simp
  next
    case (ran la w1 lb w2 ra rb)
    with l2 have "counted 0 0 (rs_world ra)" by (metis counts.resolve_src_frame snd_conv)
    with ran(4) have c: "counted 0 0 (rs_world rb)" by (metis counts.resolve_src_frame)
    have "btally (snd (foreach (bidi_step ?a ?b opts (rs_out ra) (rs_out rb) (rs_filtered rb)) us
        \<lparr>bi_world = rs_world rb, bi_items = its, bi_res = zero_result\<rparr>))" for us
      by (rule foreach_inv [where I = btally])
        (use c in \<open>auto simp: btally_def [of "\<lparr>bi_world = _, bi_items = _, bi_res = _\<rparr>"]
            zero_result_def intro: bidi_step_btally\<close>)
    with ran(5) show ?thesis
      by (auto simp: bidi_reconcile_def tally_out_def btally_def split: prod.splits) (metis snd_conv)+
  qed
qed


section \<open>Properties of a run\<close>

definition sync_run ::
  "dav_env \<Rightarrow> 'w collection \<Rightarrow> 'w collection \<Rightarrow> items \<Rightarrow> options \<Rightarrow> 'w \<Rightarrow>
     ('w \<times> ab dav_op list) sync_out" where
  "sync_run env a b its opts w = Sync env (traced SideA a) (traced SideB b) its opts (w, [])"

definition sync_log ::
  "dav_env \<Rightarrow> 'w collection \<Rightarrow> 'w collection \<Rightarrow> items \<Rightarrow> options \<Rightarrow> 'w \<Rightarrow> ab dav_op list" where
  "sync_log env a b its opts w = snd (so_world (sync_run env a b its opts w))"

text \<open>The sides the direction of a job lets a run write to.\<close>

definition writable :: "options \<Rightarrow> ab set" where
  "writable opts =
     (if opt_uid opts = None then {}
      else if opt_direction opts = AToB then {SideB}
      else if opt_direction opts = BToA then {SideA}
      else if opt_direction opts = Bidirectional then {SideA, SideB}
      else {})"

text \<open>C14: a run writes only to the sides its direction names: a one-way job never creates, changes or
  deletes anything on its source, and a job with an unknown direction or without a UID function
  writes nothing at all, whatever the two servers answer and however the run ends.\<close>

theorem Sync_writes_only_targets:
  "filter (\<lambda>x. op_writes x \<and> op_side x \<notin> writable opts) (sync_log env a b its opts w) = []"
proof (cases "opt_uid opts")
  case None
  then show ?thesis by (simp add: sync_log_def sync_run_def Sync_def bidi_out_def)
next
  case (Some uidFn)
  have ab: "(SideA = SideB) = False" "(SideB = SideA) = False" by simp_all
  have uni: "x = SideA \<or> x = SideB" for x by (cases x) auto
  have A: "snd (so_world (syncOneWay env (traced SideA a) (traced SideB b) its opts uidFn (w, []))) = log \<Longrightarrow>
      x \<in> set log \<Longrightarrow> op_writes x \<Longrightarrow> op_side x = SideB" for x log
    using syncOneWay_source_reads [of SideA SideB env a b its opts uidFn w] uni [of "op_side x"]
    by (auto simp: source_reads_def filter_empty_conv case_prod_unfold)
  have B: "snd (so_world (syncOneWay env (traced SideB b) (traced SideA a) its opts uidFn (w, []))) = log \<Longrightarrow>
      x \<in> set log \<Longrightarrow> op_writes x \<Longrightarrow> op_side x = SideA" for x log
    using syncOneWay_source_reads [of SideB SideA env b a its opts uidFn w] uni [of "op_side x"]
    by (auto simp: source_reads_def filter_empty_conv case_prod_unfold)
  show ?thesis
    using Some A B uni
    by (auto simp: sync_log_def sync_run_def Sync_def writable_def filter_empty_conv bidi_out_def)
qed

text \<open>C15: the counters a run reports are the writes the servers acknowledged: created plus updated is
  the number of successful PUTs and deleted the number of successful DELETEs, in every direction
  and also when the run stops with an error.\<close>

theorem Sync_counts:
  "r_created (so_res (sync_run env a b its opts w)) + r_updated (so_res (sync_run env a b its opts w)) =
     puts_of (sync_log env a b its opts w) \<and>
   r_deleted (so_res (sync_run env a b its opts w)) = deletes_of (sync_log env a b its opts w)"
proof -
  have "tally_out (sync_run env a b its opts w)"
    by (auto simp: sync_run_def Sync_def syncOneWay_tally syncBidirectional_tally split: option.splits)
      (simp_all add: tally_out_def bidi_out_def zero_result_def counted_def)
  then show ?thesis
    by (auto simp: tally_out_def counted_def sync_log_def split: prod.splits)
qed

text \<open>C12: a change beats a deletion: a bidirectional run deletes on a side only items whose href is
  recorded and which that side lists now with the recorded ETag; an item that is new or changed
  since the last run is never deleted.\<close>

theorem bidi_deletes_unchanged_only:
  "filter (\<lambda>x. is_delete x \<and> op_href x \<notin>
       (case op_side x of
          SideA \<Rightarrow> unchanged_hrefs src_href src_etag its (fst (coll_list a w))
        | SideB \<Rightarrow> unchanged_hrefs dst_href dst_etag its (fst (coll_list b (snd (coll_list a w))))))
     (snd (so_world (syncBidirectional env (traced SideA a) (traced SideB b) its opts uidFn (w, [])))) = []"
    (is "filter (\<lambda>x. is_delete x \<and> op_href x \<notin> (case op_side x of SideA \<Rightarrow> ?HA | SideB \<Rightarrow> ?HB)) ?log = []")
proof -
  have "deletes_ab ?HA ?HB
      (so_world (syncBidirectional env (traced SideA a) (traced SideB b) its opts uidFn (w, [])))"
    by (rule bidels.syncBidirectional_frame) (simp_all add: deletes_ab_def)
  then show ?thesis by (auto simp: deletes_ab_def filter_empty_conv split: prod.splits)
qed

end
