(* ===== verification/Ics_Types.thy ===== *)
theory Ics_Types
  imports Go_Time "HOL-Library.List_Lexorder" "HOL-Library.Char_ord"
begin

text \<open>
  The calendar data the program passes around (go-ical's \<^verbatim>\<open>Component\<close> and \<^verbatim>\<open>Prop\<close>, whose fields the code
  reads and writes directly) and the accessors of \<^verbatim>\<open>internal/ics/ics.go\<close>.

  The methods of go-ical are third-party code: they are the fields of \<open>ical_lib\<close>, and what a theorem
  needs of them is the predicate \<open>props_laws\<close>. \<open>'l\<close> is Go's \<^verbatim>\<open>*time.Location\<close>.
\<close>


section \<open>Components\<close>

record ical_prop =
  p_name :: string
  p_params :: "(string, string list) go_map"
  p_value :: string

type_synonym props = "(string, ical_prop list) go_map"

datatype component =
  Component (c_name: string) (c_props: props) (c_children: "component list")

definition with_props :: "props \<Rightarrow> component \<Rightarrow> component" where
  "with_props ps c = Component (c_name c) ps (c_children c)"

definition with_children :: "component list \<Rightarrow> component \<Rightarrow> component" where
  "with_children cs c = Component (c_name c) (c_props c) cs"

lemma with_simps [simp]:
  "c_name (with_props ps c) = c_name c" "c_props (with_props ps c) = ps"
  "c_children (with_props ps c) = c_children c"
  "c_name (with_children cs c) = c_name c" "c_props (with_children cs c) = c_props c"
  "c_children (with_children cs c) = cs"
  "with_props (c_props c) c = c" "with_children (c_children c) c = c"
  by (simp_all add: with_props_def with_children_def)

definition CompEvent :: string where "CompEvent = ''VEVENT''"
definition CompAlarm :: string where "CompAlarm = ''VALARM''"
definition CompTimezone :: string where "CompTimezone = ''VTIMEZONE''"
definition CompStandard :: string where "CompStandard = ''STANDARD''"
definition CompDaylight :: string where "CompDaylight = ''DAYLIGHT''"
definition CompCalendar :: string where "CompCalendar = ''VCALENDAR''"

text \<open>
  go-ical as the code uses it: decoding and encoding, the property list methods, the date
  accessors of an event, the construction of a property, and which children
  \<^verbatim>\<open>Calendar.Events()\<close> lists. \<^verbatim>\<open>Events()\<close> hands out the children themselves, so a loop over it that
  changes an event changes the calendar. \<open>il_start\<close> is the instant of \<^verbatim>\<open>DateTimeStart\<close> and
  \<open>il_start_loc\<close> the location the returned time carries (the event's TZID where it has one).
\<close>

record 'l ical_lib =
  il_decode :: "bytes \<Rightarrow> component result"
  il_encode :: "component \<Rightarrow> bytes result"
  il_is_event :: "component \<Rightarrow> bool"
  il_get :: "props \<Rightarrow> string \<Rightarrow> ical_prop option"
  il_set :: "ical_prop \<Rightarrow> props \<Rightarrow> props"
  il_del :: "string \<Rightarrow> props \<Rightarrow> props"
  il_set_text :: "string \<Rightarrow> string \<Rightarrow> props \<Rightarrow> props"
  il_text :: "props \<Rightarrow> string \<Rightarrow> string result"
  il_prop_text :: "string \<Rightarrow> ical_prop \<Rightarrow> ical_prop"
  il_new_prop :: "string \<Rightarrow> ical_prop"
  il_datetime :: "ical_prop \<Rightarrow> 'l \<Rightarrow> go_time result"
  il_props_datetime :: "props \<Rightarrow> string \<Rightarrow> 'l \<Rightarrow> go_time result"
  il_start :: "component \<Rightarrow> 'l \<Rightarrow> go_time \<times> go_error option"
  il_start_loc :: "component \<Rightarrow> 'l \<Rightarrow> 'l"
  il_end :: "component \<Rightarrow> 'l \<Rightarrow> go_time \<times> go_error option"
  il_set_datetime :: "go_time \<Rightarrow> 'l \<Rightarrow> ical_prop \<Rightarrow> ical_prop"

text \<open>Documented behaviour of the property list: \<^verbatim>\<open>Set\<close> replaces the properties of that name,
  \<^verbatim>\<open>SetText\<close> sets one whose text is the argument, \<^verbatim>\<open>Del\<close> removes them; other names are untouched.\<close>

definition props_laws :: "'l ical_lib \<Rightarrow> bool" where
  "props_laws lib \<longleftrightarrow>
     (\<forall>ps n. il_get lib (il_del lib n ps) n = None) \<and>
     (\<forall>ps n m. m \<noteq> n \<longrightarrow> il_get lib (il_del lib n ps) m = il_get lib ps m) \<and>
     (\<forall>ps p. il_get lib (il_set lib p ps) (p_name p) = Some p) \<and>
     (\<forall>ps p m. m \<noteq> p_name p \<longrightarrow> il_get lib (il_set lib p ps) m = il_get lib ps m) \<and>
     (\<forall>n. p_name (il_new_prop lib n) = n) \<and>
     (\<forall>ps n v m. m \<noteq> n \<longrightarrow> il_get lib (il_set_text lib n v ps) m = il_get lib ps m)"

lemma props_lawsD:
  assumes "props_laws lib"
  shows "il_get lib (il_del lib n ps) n = None"
    and "m \<noteq> n \<Longrightarrow> il_get lib (il_del lib n ps) m = il_get lib ps m"
    and "il_get lib (il_set lib p ps) (p_name p) = Some p"
    and "m \<noteq> p_name p \<Longrightarrow> il_get lib (il_set lib p ps) m = il_get lib ps m"
    and "p_name (il_new_prop lib n) = n"
    and "m \<noteq> n \<Longrightarrow> il_get lib (il_set_text lib n v ps) m = il_get lib ps m"
  using assms by (simp_all add: props_laws_def)


section \<open>Parsing and serialising errors\<close>

definition Parse :: "'l ical_lib \<Rightarrow> bytes \<Rightarrow> component result" where
  "Parse lib data = (case il_decode lib data of
     Inl e \<Rightarrow> Inl (wrapf ''ics: parse: '' e)
   | Inr cal \<Rightarrow> Inr cal)"


section \<open>Field access\<close>

definition FieldSummary :: string where "FieldSummary = ''SUMMARY''"
definition FieldDescription :: string where "FieldDescription = ''DESCRIPTION''"
definition FieldLocation :: string where "FieldLocation = ''LOCATION''"
definition FieldCategories :: string where "FieldCategories = ''CATEGORIES''"
definition FieldDTStart :: string where "FieldDTStart = ''DTSTART''"
definition FieldDTEnd :: string where "FieldDTEnd = ''DTEND''"
definition FieldRRule :: string where "FieldRRule = ''RRULE''"
definition FieldRDate :: string where "FieldRDate = ''RDATE''"
definition FieldRecurrenceID :: string where "FieldRecurrenceID = ''RECURRENCE-ID''"

fun unescape :: "string \<Rightarrow> string" where
  "unescape [] = []"
| "unescape [c] = [c]"
| "unescape (c # n # v) =
     (if c \<noteq> CHR 0x5C then c # unescape (n # v)
      else if n = CHR ''n'' \<or> n = CHR ''N'' then CHR 0x0A # unescape v
      else if n = CHR 0x5C \<or> n = CHR '','' \<or> n = CHR '';'' then n # unescape v
      else CHR 0x5C # n # unescape v)"

definition unescapeText :: "string \<Rightarrow> string" where
  "unescapeText v = (if \<not> CHR 0x5C \<in> set v then v else unescape v)"

definition Text :: "'l ical_lib \<Rightarrow> component \<Rightarrow> string \<Rightarrow> string" where
  "Text lib e field = (case il_get lib (c_props e) field of
     None \<Rightarrow> [] | Some pr \<Rightarrow> unescapeText (p_value pr))"

definition Raw :: "'l ical_lib \<Rightarrow> component \<Rightarrow> string \<Rightarrow> string" where
  "Raw lib e field = (case il_get lib (c_props e) field of
     None \<Rightarrow> [] | Some pr \<Rightarrow> p_value pr)"

definition SetText :: "'l ical_lib \<Rightarrow> string \<Rightarrow> string \<Rightarrow> component \<Rightarrow> component" where
  "SetText lib field value e = with_props (il_set_text lib field value (c_props e)) e"

definition Remove :: "(string \<Rightarrow> string) \<Rightarrow> 'l ical_lib \<Rightarrow> string \<Rightarrow> component \<Rightarrow> component" where
  "Remove uupp lib field e = with_props (il_del lib (go_to_upper uupp field) (c_props e)) e"

definition IsDateOnly :: "ical_prop \<Rightarrow> bool" where
  "IsDateOnly pr \<longleftrightarrow> length (p_value pr) = length ''20060102'' \<and> \<not> go_contains (p_value pr) ''T''"

text \<open>\<^verbatim>\<open>FilterEvents\<close>: the predicate is a closure that may write variables of its caller, so it is a
  state transformer; the calendar's children are visited in order.\<close>

fun filter_children :: "(component \<Rightarrow> 's \<Rightarrow> bool \<times> 's) \<Rightarrow> component list \<Rightarrow> 's \<Rightarrow> component list \<times> 's" where
  "filter_children keep [] s = ([], s)"
| "filter_children keep (child # rest) s =
     (if c_name child \<noteq> CompEvent then
        (case filter_children keep rest s of (kept, s') \<Rightarrow> (child # kept, s'))
      else
        (case keep child s of (k, s1) \<Rightarrow>
           (case filter_children keep rest s1 of (kept, s') \<Rightarrow>
              (if k then child # kept else kept, s'))))"

definition FilterEvents :: "(component \<Rightarrow> 's \<Rightarrow> bool \<times> 's) \<Rightarrow> component \<Rightarrow> 's \<Rightarrow> component \<times> 's" where
  "FilterEvents keep cal s =
     (case filter_children keep (c_children cal) s of (kept, s') \<Rightarrow> (with_children kept cal, s'))"

text \<open>Without a state the pass is a filter that never touches a non-event.\<close>

lemma filter_children_pure:
  assumes "\<And>e s. keep e s = (p e, s)"
  shows "filter_children keep cs s = (filter (\<lambda>c. c_name c \<noteq> CompEvent \<or> p c) cs, s)"
  by (induction cs arbitrary: s) (simp_all add: assms)

lemma filter_children_Cons_other:
  "c_name c \<noteq> CompEvent \<Longrightarrow> filter_children keep (c # cs) s =
     (c # fst (filter_children keep cs s), snd (filter_children keep cs s))"
  by (simp add: case_prod_unfold)

lemma filter_children_Cons_event:
  "c_name c = CompEvent \<Longrightarrow> filter_children keep (c # cs) s =
     (let (k, s1) = keep c s; (kept, s') = filter_children keep cs s1
      in (if k then c # kept else kept, s'))"
  by (simp add: case_prod_unfold Let_def)

declare filter_children.simps(2) [simp del]
  filter_children_Cons_other [simp] filter_children_Cons_event [simp]

lemma filter_children_sub:
  "set (fst (filter_children keep cs s)) \<subseteq> set cs"
proof (induction cs arbitrary: s)
  case (Cons c cs)
  show ?case
    using Cons.IH [of s] Cons.IH [of "snd (keep c s)"]
    by (cases "c_name c = CompEvent")
      (auto simp: case_prod_unfold Let_def)
qed simp

lemma filter_children_other:
  "filter (\<lambda>c. c_name c \<noteq> CompEvent) (fst (filter_children keep cs s)) =
     filter (\<lambda>c. c_name c \<noteq> CompEvent) cs"
proof (induction cs arbitrary: s)
  case (Cons c cs)
  show ?case
    using Cons.IH [of s] Cons.IH [of "snd (keep c s)"]
    by (cases "c_name c = CompEvent")
      (auto simp: case_prod_unfold Let_def)
qed simp


text \<open>A loop over \<^verbatim>\<open>cal.Events()\<close> that changes each event.\<close>

definition on_events :: "'l ical_lib \<Rightarrow> (component \<Rightarrow> component) \<Rightarrow> component \<Rightarrow> component" where
  "on_events lib f cal =
     with_children (map (\<lambda>c. if il_is_event lib c then f c else c) (c_children cal)) cal"

definition events_of :: "'l ical_lib \<Rightarrow> component \<Rightarrow> component list" where
  "events_of lib cal = filter (il_is_event lib) (c_children cal)"


section \<open>Escaping\<close>

text \<open>RFC 5545 TEXT escaping, the reference \<open>unescapeText\<close> is judged by.\<close>

fun escape_text :: "string \<Rightarrow> string" where
  "escape_text [] = []"
| "escape_text (c # v) =
     (if c = CHR 0x5C \<or> c = CHR '','' \<or> c = CHR '';'' then CHR 0x5C # c # escape_text v
      else if c = CHR 0x0A then CHR 0x5C # CHR ''n'' # escape_text v
      else c # escape_text v)"

lemma text_unescape_plain: "c \<noteq> CHR 0x5C \<Longrightarrow> unescape (c # v) = c # unescape v"
  by (cases v) simp_all

lemma unescape_escape: "unescape (escape_text v) = v"
  by (induction v) (auto simp: text_unescape_plain)

lemma unescape_none: "CHR 0x5C \<notin> set v \<Longrightarrow> unescape v = v"
  by (induction v) (auto simp: text_unescape_plain)

text \<open>Reading a text value undoes the RFC 5545 escaping: commas, semicolons, backslashes and
  newlines all survive a write and a read.\<close>

theorem unescapeText_escape: "unescapeText (escape_text v) = v"
  by (metis unescapeText_def unescape_escape unescape_none)


section \<open>A concrete property list\<close>

text \<open>
  An instance of \<open>ical_lib\<close> that satisfies \<open>props_laws\<close>: property lists as Go maps of lists, dates read
  as zero. The theorems that assume the laws are applied to it.
\<close>

definition sample_ical :: "'l ical_lib" where
  "sample_ical = \<lparr>
     il_decode = (\<lambda>_. Inl (ErrNew ''no decoder'')),
     il_encode = (\<lambda>_. Inr []),
     il_is_event = (\<lambda>c. c_name c = ''VEVENT''),
     il_get = (\<lambda>ps n. case map_get ps n of Some (p # _) \<Rightarrow> Some p | _ \<Rightarrow> None),
     il_set = (\<lambda>p. map_put (p_name p) [p]),
     il_del = map_del,
     il_set_text = (\<lambda>n v. map_put n [\<lparr>p_name = n, p_params = [], p_value = escape_text v\<rparr>]),
     il_text = (\<lambda>ps n. case map_get ps n of Some (p # _) \<Rightarrow> Inr (p_value p) | _ \<Rightarrow> Inr []),
     il_prop_text = (\<lambda>v p. p\<lparr>p_value := escape_text v\<rparr>),
     il_new_prop = (\<lambda>n. \<lparr>p_name = n, p_params = [], p_value = []\<rparr>),
     il_datetime = (\<lambda>p _. Inr 0),
     il_props_datetime = (\<lambda>ps n _. Inr 0),
     il_start = (\<lambda>c _. (0, None)),
     il_start_loc = (\<lambda>c l. l),
     il_end = (\<lambda>c _. (0, None)),
     il_set_datetime = (\<lambda>t _ p. p)\<rparr>"

lemma sample_ical_laws: "props_laws sample_ical"
  by (simp add: props_laws_def sample_ical_def)

definition sample_event :: "(string \<times> string) list \<Rightarrow> component" where
  "sample_event kvs =
     Component ''VEVENT'' (map (\<lambda>(n, v). (n, [\<lparr>p_name = n, p_params = [], p_value = v\<rparr>])) kvs) []"

lemma sample_Raw: "Raw sample_ical (sample_event kvs) n = (case map_of kvs n of Some v \<Rightarrow> v | None \<Rightarrow> [])"
  by (induction kvs) (auto simp: Raw_def sample_ical_def sample_event_def map_get_def split: option.splits)

end
