(* ===== verification/Ics_Text.thy ===== *)
theory Ics_Text
  imports Ics_Types
begin

text \<open>
  The text level of \<^verbatim>\<open>internal/ics\<close>: RFC 5545 line folding, content lines, the hand-written serialiser
  of an empty calendar, and the duration formatter (\<^verbatim>\<open>duration.go\<close>). References the properties judge
  them by: \<open>unfold_text\<close> (RFC 5545 unfolding), \<open>after_colon\<close> (where the value of a content line
  begins) and \<open>duration_minutes\<close> (reading an RFC 5545 duration).
\<close>

definition crlf :: string where "crlf = [CHR 0x0D, CHR 0x0A]"


section \<open>Folding\<close>

text \<open>\<^verbatim>\<open>utf8.RuneStart\<close>: the byte is no continuation byte.\<close>

definition rune_start :: "char \<Rightarrow> bool" where
  "rune_start c \<longleftrightarrow> (of_char c :: nat) div 64 \<noteq> 2"

fun cut_at :: "string \<Rightarrow> nat \<Rightarrow> nat" where
  "cut_at line 0 = 0"
| "cut_at line (Suc n) =
     (if 1 < Suc n \<and> \<not> rune_start (line ! Suc n) then cut_at line n else Suc n)"

lemma cut_at_le: "cut_at line n \<le> n"
  by (induction line n rule: cut_at.induct) auto

lemma cut_at_pos: "0 < n \<Longrightarrow> 0 < cut_at line n"
  by (induction line n rule: cut_at.induct) auto

function fold_from :: "nat \<Rightarrow> string \<Rightarrow> string" where
  "fold_from room line =
     (if room < length line then
        take (cut_at line room) line @ crlf @ '' '' @ fold_from 74 (drop (cut_at line room) line)
      else line @ crlf)"
  by pat_completeness auto
termination
proof (relation "measure (\<lambda>(room, line). 2 * length line + (if room = 0 then 1 else 0))", goal_cases)
  case (2 room line)
  then show ?case using cut_at_pos [of room line] by (cases "room = 0") auto
qed simp

declare fold_from.simps [simp del]

definition foldLine :: "string \<Rightarrow> string" where
  "foldLine line = fold_from 75 line"

text \<open>The physical lines as a list.\<close>

function fold_chunks :: "nat \<Rightarrow> string \<Rightarrow> string list" where
  "fold_chunks room line =
     (if room < length line \<and> 0 < room then
        take (cut_at line room) line # fold_chunks 74 (drop (cut_at line room) line)
      else [line])"
  by pat_completeness auto
termination
  by (relation "measure (\<lambda>(room, line). length line)") (auto intro!: diff_less cut_at_pos)

declare fold_chunks.simps [simp del]

lemma fold_chunks_not_Nil [simp]: "fold_chunks room line \<noteq> []"
  by (simp add: fold_chunks.simps [of room line])

lemma go_join_Cons: "xs \<noteq> [] \<Longrightarrow> go_join (x # xs) sep = x @ sep @ go_join xs sep"
  by (cases xs) simp_all

lemma fold_from_chunks: "0 < room \<Longrightarrow> fold_from room line = go_join (fold_chunks room line) (crlf @ '' '') @ crlf"
proof (induction room line rule: fold_chunks.induct)
  case (1 room line)
  show ?case
  proof (cases "room < length line")
    case True
    with 1 have "fold_from 74 (drop (cut_at line room) line) =
        go_join (fold_chunks 74 (drop (cut_at line room) line)) (crlf @ '' '') @ crlf" by simp
    with True 1(2) show ?thesis
      by (simp add: fold_from.simps [of room line] fold_chunks.simps [of room line] go_join_Cons)
  next
    case False
    then show ?thesis by (simp add: fold_from.simps [of room line] fold_chunks.simps [of room line])
  qed
qed

lemma fold_chunks_concat: "concat (fold_chunks room line) = line"
proof (induction room line rule: fold_chunks.induct)
  case (1 room line)
  then show ?case by (simp add: fold_chunks.simps [of room line])
qed

lemma fold_chunks_length:
  "0 < room \<Longrightarrow> room \<le> 75 \<Longrightarrow>
     length (hd (fold_chunks room line)) \<le> room \<and> list_all (\<lambda>c. length c \<le> 74) (tl (fold_chunks room line))"
proof (induction room line rule: fold_chunks.induct)
  case (1 room line)
  show ?case
  proof (cases "room < length line")
    case True
    let ?rest = "fold_chunks 74 (drop (cut_at line room) line)"
    from 1(1) [OF conjI [OF True 1(2)]]
    have "length (hd ?rest) \<le> 74 \<and> list_all (\<lambda>c. length c \<le> 74) (tl ?rest)" by simp
    then have "list_all (\<lambda>c. length c \<le> 74) ?rest" by (cases ?rest) auto
    with True 1(2) cut_at_le [of line room] show ?thesis
      by (simp add: fold_chunks.simps [of room line])
  next
    case False
    then show ?thesis by (simp add: fold_chunks.simps [of room line])
  qed
qed

text \<open>In a UTF-8 string a sequence has at most three continuation bytes, so the search for the cut
  ends at the start of a sequence.\<close>

definition utf8_dense :: "string \<Rightarrow> bool" where
  "utf8_dense line \<longleftrightarrow> list_all (\<lambda>i. \<exists>k\<in>set [0..<4]. k \<le> i \<and> rune_start (line ! (i - k))) [0..<length line]"

lemma utf8_dense_iff:
  "utf8_dense line \<longleftrightarrow> (\<forall>i<length line. \<exists>k\<le>3. k \<le> i \<and> rune_start (line ! (i - k)))"
proof -
  have "set [0..<4] = {..3}" by auto
  then show ?thesis by (simp add: utf8_dense_def list_all_iff Bex_def Ball_def del: set_upt upt_Suc) auto
qed

lemmas utf8_denseD = utf8_dense_iff [THEN iffD1, rule_format]

lemma cut_at_rune:
  assumes "k < n" and "rune_start (line ! (n - k))"
  shows "rune_start (line ! cut_at line n)"
  using assms
proof (induction n arbitrary: k)
  case (Suc n)
  show ?case
  proof (cases "rune_start (line ! Suc n)")
    case True
    then show ?thesis by simp
  next
    case False
    with Suc.prems have "k \<noteq> 0" by (intro notI) simp
    then obtain j where j: "k = Suc j" by (cases k) auto
    with Suc.prems have "j < n" "rune_start (line ! (n - j))" by simp_all
    with Suc.IH False show ?thesis by auto
  qed
qed simp

lemma utf8_dense_drop:
  assumes "utf8_dense line" and "n \<le> length line" and "n < length line \<Longrightarrow> rune_start (line ! n)"
  shows "utf8_dense (drop n line)"
  unfolding utf8_dense_iff
proof (intro allI impI)
  fix i assume i: "i < length (drop n line)"
  then have "n + i < length line" by auto
  from utf8_denseD [OF assms(1) this] obtain k where k: "k \<le> 3" "k \<le> n + i"
    "rune_start (line ! (n + i - k))" by blast
  show "\<exists>k\<le>3. k \<le> i \<and> rune_start (drop n line ! (i - k))"
  proof (cases "k \<le> i")
    case True
    with k i show ?thesis by (intro exI [of _ k]) (auto simp: add.commute)
  next
    case False
    with k(1) i assms(2,3) show ?thesis by (intro exI [of _ i]) auto
  qed
qed

lemma fold_chunks_runes:
  "utf8_dense line \<Longrightarrow> 4 \<le> room \<Longrightarrow> (line \<noteq> [] \<Longrightarrow> rune_start (hd line)) \<Longrightarrow>
     list_all (\<lambda>c. c \<noteq> [] \<and> rune_start (hd c)) (tl (fold_chunks room line))"
proof (induction room line rule: fold_chunks.induct)
  case (1 room line)
  show ?case
  proof (cases "room < length line")
    case True
    let ?n = "cut_at line room" and ?rest = "fold_chunks 74 (drop (cut_at line room) line)"
    have pos: "0 < room" using 1(3) by simp
    have n: "?n < length line" using True cut_at_le [of line room] by simp
    obtain k where "k \<le> 3" "rune_start (line ! (room - k))"
      using utf8_denseD [OF 1(2) True] by blast
    with 1(3) have start: "rune_start (line ! ?n)" by (intro cut_at_rune) auto
    with 1(2) n have dense: "utf8_dense (drop ?n line)" by (intro utf8_dense_drop) auto
    have hd_rest: "rune_start (hd (drop ?n line))" using start n by (simp add: hd_drop_conv_nth)
    have tl: "list_all (\<lambda>c. c \<noteq> [] \<and> rune_start (hd c)) (tl ?rest)"
      using 1(1) [OF conjI [OF True pos] dense] hd_rest by simp
    have "hd ?rest \<noteq> []" "hd (hd ?rest) = hd (drop ?n line)"
      using n by (auto simp: fold_chunks.simps [of 74 "drop ?n line"] cut_at_pos)
    with tl hd_rest have "list_all (\<lambda>c. c \<noteq> [] \<and> rune_start (hd c)) ?rest" by (cases ?rest) auto
    with True pos show ?thesis by (simp add: fold_chunks.simps [of room line])
  next
    case False
    then show ?thesis by (simp add: fold_chunks.simps [of room line])
  qed
qed

text \<open>C39: folding cuts a content line into physical lines of at most 75 octets (the first) and 74
  octets after the leading space (the others), loses nothing, and starts every continuation at the
  beginning of a UTF-8 sequence, so no character is split.\<close>

theorem foldLine_spec:
  assumes "utf8_dense line" and "line = [] \<or> rune_start (hd line)"
  shows "\<exists>first rest. foldLine line = go_join (first # rest) (crlf @ '' '') @ crlf \<and>
    concat (first # rest) = line \<and> length first \<le> 75 \<and> list_all (\<lambda>c. length c \<le> 74) rest \<and>
    list_all (\<lambda>c. c \<noteq> [] \<and> rune_start (hd c)) rest"
proof -
  obtain first rest where c: "fold_chunks 75 line = first # rest"
    by (cases "fold_chunks 75 line") auto
  show ?thesis
    using c fold_from_chunks [of 75 line] fold_chunks_concat [of 75 line]
      fold_chunks_length [of 75 line] fold_chunks_runes [of line 75] assms
    by (intro exI [of _ first] exI [of _ rest]) (auto simp: foldLine_def)
qed

text \<open>RFC 5545 unfolding: a CRLF followed by a space is removed.\<close>

fun unfold_text :: "string \<Rightarrow> string" where
  "unfold_text (a # b # c # s) =
     (if a = CHR 0x0D \<and> b = CHR 0x0A \<and> c = CHR '' '' then unfold_text s
      else a # unfold_text (b # c # s))"
| "unfold_text s = s"

lemma unfold_text_plain: "a \<noteq> CHR 0x0D \<Longrightarrow> unfold_text (a # s) = a # unfold_text s"
  by (cases s; cases "tl s") auto

lemma unfold_text_append: "CHR 0x0D \<notin> set u \<Longrightarrow> unfold_text (u @ s) = u @ unfold_text s"
  by (induction u) (auto simp: unfold_text_plain)

lemma unfold_text_fold:
  "CHR 0x0D \<notin> set line \<Longrightarrow> unfold_text (fold_from room line) = line @ crlf"
proof (induction room line rule: fold_from.induct)
  case (1 room line)
  show ?case
  proof (cases "room < length line")
    case True
    let ?n = "cut_at line room"
    have no: "CHR 0x0D \<notin> set (take ?n line)" "CHR 0x0D \<notin> set (drop ?n line)"
      using 1(2) by (auto dest: in_set_takeD in_set_dropD)
    have "fold_from room line = take ?n line @ crlf @ '' '' @ fold_from 74 (drop ?n line)"
      using True by (simp add: fold_from.simps [of room line])
    then have "unfold_text (fold_from room line) = take ?n line @ unfold_text (fold_from 74 (drop ?n line))"
      using no(1) by (simp add: unfold_text_append crlf_def)
    with 1(1) [OF True no(2)] show ?thesis by simp
  next
    case False
    with 1(2) show ?thesis
      by (simp add: fold_from.simps [of room line] unfold_text_append crlf_def)
  qed
qed

text \<open>Unfolding the folded line gives the line back, whatever its length.\<close>

theorem foldLine_unfold:
  assumes "CHR 0x0D \<notin> set line"
  shows "unfold_text (foldLine line) = line @ crlf"
  using unfold_text_fold [OF assms] by (simp add: foldLine_def)


section \<open>Content lines\<close>

fun param_values :: "string \<Rightarrow> bool \<Rightarrow> string list \<Rightarrow> string result" where
  "param_values name first [] = Inr []"
| "param_values name first (v # vs) =
     (if CHR 0x22 \<in> set v then
        Inl (ErrMsg [Lit ''param '', Quo name, Lit '' contains a double-quote''])
      else
        let piece = (if list_ex (\<lambda>c. c \<in> set '';:,'') v then [CHR 0x22] @ v @ [CHR 0x22] else v)
        in case param_values name False vs of
             Inl e \<Rightarrow> Inl e
           | Inr s \<Rightarrow> Inr ((if first then [] else '','') @ piece @ s))"

fun param_text :: "(string, string list) go_map \<Rightarrow> string list \<Rightarrow> string result" where
  "param_text params [] = Inr []"
| "param_text params (name # names) =
     (case param_values name True (case map_get params name of Some vs \<Rightarrow> vs | None \<Rightarrow> []) of
        Inl e \<Rightarrow> Inl e
      | Inr vals \<Rightarrow>
          (case param_text params names of
             Inl e \<Rightarrow> Inl e
           | Inr rest \<Rightarrow> Inr ('';'' @ name @ ''='' @ vals @ rest)))"

definition contentLine :: "ical_prop \<Rightarrow> string result" where
  "contentLine pr =
     (case param_text (p_params pr) (sort (map_keys (p_params pr))) of
        Inl e \<Rightarrow> Inl e
      | Inr params \<Rightarrow>
          if list_ex (\<lambda>c. c = CHR 0x0D \<or> c = CHR 0x0A) (p_value pr) then
            Inl (ErrMsg [Lit ''property '', Quo (p_name pr), Lit '' value contains a CR or LF''])
          else Inr (p_name pr @ params @ '':'' @ p_value pr))"

text \<open>The value of a content line starts after the first colon outside a quoted parameter.\<close>

fun after_colon :: "bool \<Rightarrow> string \<Rightarrow> string" where
  "after_colon quoted [] = []"
| "after_colon quoted (c # s) =
     (if c = CHR 0x22 then after_colon (\<not> quoted) s
      else if c = CHR '':'' \<and> \<not> quoted then s
      else after_colon quoted s)"

definition neutral :: "string \<Rightarrow> bool" where
  "neutral u \<longleftrightarrow> (\<forall>s. after_colon False (u @ s) = after_colon False s)"

lemma neutral_append: "neutral u \<Longrightarrow> neutral v \<Longrightarrow> neutral (u @ v)"
  by (simp add: neutral_def)

lemma neutral_plain: "CHR 0x22 \<notin> set u \<Longrightarrow> CHR '':'' \<notin> set u \<Longrightarrow> neutral u"
proof (unfold neutral_def, intro allI)
  fix s assume "CHR 0x22 \<notin> set u" "CHR '':'' \<notin> set u"
  then show "after_colon False (u @ s) = after_colon False s" by (induction u) auto
qed

lemma neutral_quoted: "CHR 0x22 \<notin> set u \<Longrightarrow> neutral ([CHR 0x22] @ u @ [CHR 0x22])"
proof (unfold neutral_def, intro allI)
  fix s assume "CHR 0x22 \<notin> set u"
  then have "after_colon True (u @ [CHR 0x22] @ s) = after_colon False s" by (induction u) auto
  then show "after_colon False (([CHR 0x22] @ u @ [CHR 0x22]) @ s) = after_colon False s" by simp
qed

lemma param_values_neutral: "param_values name first vs = Inr s \<Longrightarrow> neutral s"
proof (induction name first vs arbitrary: s rule: param_values.induct)
  case (1 name first)
  then show ?case by (auto simp: neutral_def)
next
  case (2 name first v vs)
  let ?piece = "if list_ex (\<lambda>c. c \<in> set '';:,'') v then [CHR 0x22] @ v @ [CHR 0x22] else v"
  from 2(2) have q: "CHR 0x22 \<notin> set v" by (auto split: if_splits)
  with 2(2) obtain s' where s': "param_values name False vs = Inr s'"
    and s: "s = (if first then [] else '','') @ ?piece @ s'"
    by (auto simp: Let_def split: sum.splits)
  have "neutral s'" using 2(1) q s' by simp
  moreover have "neutral ?piece"
    using q neutral_quoted [OF q] by (auto simp: list_ex_iff intro!: neutral_plain)
  moreover have "neutral (if first then [] else '','')" by (auto intro: neutral_plain)
  ultimately show ?case unfolding s by (intro neutral_append)
qed

definition plain_names :: "ical_prop \<Rightarrow> bool" where
  "plain_names pr \<longleftrightarrow>
     list_all (\<lambda>n. CHR 0x22 \<notin> set n \<and> CHR '':'' \<notin> set n) (p_name pr # map_keys (p_params pr))"

lemma param_text_neutral:
  "param_text params names = Inr s \<Longrightarrow>
     list_all (\<lambda>n. CHR 0x22 \<notin> set n \<and> CHR '':'' \<notin> set n) names \<Longrightarrow> neutral s"
proof (induction names arbitrary: s)
  case Nil
  then show ?case by (auto simp: neutral_def)
next
  case (Cons n names)
  let ?vs = "case map_get params n of Some vs \<Rightarrow> vs | None \<Rightarrow> []"
  from Cons.prems obtain vals rest where v: "param_values n True ?vs = Inr vals"
    and r: "param_text params names = Inr rest" and s: "s = '';'' @ n @ ''='' @ vals @ rest"
    by (auto split: sum.splits)
  have "neutral rest" using Cons r by simp
  moreover have "neutral vals" using v by (rule param_values_neutral)
  moreover have "neutral ('';'' @ n @ ''='')" using Cons.prems(2) by (intro neutral_plain) auto
  ultimately have "neutral (('';'' @ n @ ''='') @ vals @ rest)" using neutral_append by metis
  then show ?case by (simp add: s)
qed

text \<open>A rendered content line can be read back: the text after the first colon outside quotes is
  the property's value, even when parameter values hold colons; and the line has no CR or LF that
  came from the value.\<close>

theorem contentLine_value:
  assumes "contentLine pr = Inr line" and "plain_names pr"
  shows "after_colon False line = p_value pr \<and>
    CHR 0x0D \<notin> set (p_value pr) \<and> CHR 0x0A \<notin> set (p_value pr)"
proof -
  from assms(1) obtain params where
    p: "param_text (p_params pr) (sort (map_keys (p_params pr))) = Inr params"
    and l: "line = p_name pr @ params @ '':'' @ p_value pr"
    and v: "\<not> list_ex (\<lambda>c. c = CHR 0x0D \<or> c = CHR 0x0A) (p_value pr)"
    by (auto simp: contentLine_def split: sum.splits if_splits)
  have "neutral params" using p assms(2) by (intro param_text_neutral) (auto simp: plain_names_def list_all_iff)
  moreover have "neutral (p_name pr)" using assms(2) by (intro neutral_plain) (auto simp: plain_names_def)
  ultimately have "after_colon False line = p_value pr" by (simp add: l neutral_def)
  with v show ?thesis by (auto simp: list_ex_iff)
qed


section \<open>The empty calendar\<close>

fun prop_lines :: "ical_prop list \<Rightarrow> string result" where
  "prop_lines [] = Inr []"
| "prop_lines (pr # prs) =
     (case contentLine pr of
        Inl e \<Rightarrow> Inl (wrapf ''ics: serialize: '' e)
      | Inr line \<Rightarrow>
          (case prop_lines prs of Inl e \<Rightarrow> Inl e | Inr rest \<Rightarrow> Inr (foldLine line @ rest)))"

fun name_lines :: "props \<Rightarrow> string list \<Rightarrow> string result" where
  "name_lines ps [] = Inr []"
| "name_lines ps (name # names) =
     (case prop_lines (case map_get ps name of Some prs \<Rightarrow> prs | None \<Rightarrow> []) of
        Inl e \<Rightarrow> Inl e
      | Inr s \<Rightarrow> (case name_lines ps names of Inl e \<Rightarrow> Inl e | Inr rest \<Rightarrow> Inr (s @ rest)))"

text \<open>\<open>write\<close> is the \<^verbatim>\<open>io.Writer\<close>: the error of its only call, if any.\<close>

definition serializeEmpty :: "(bytes \<Rightarrow> go_error option) \<Rightarrow> component \<Rightarrow> bytes result" where
  "serializeEmpty write cal =
     (case name_lines (c_props cal) (sort (map_keys (c_props cal))) of
        Inl e \<Rightarrow> Inl e
      | Inr mid \<Rightarrow>
          let buf = foldLine (''BEGIN:'' @ CompCalendar) @ mid @ foldLine (''END:'' @ CompCalendar)
          in case write buf of
               Some e \<Rightarrow> Inl (wrapf ''ics: serialize: '' e)
             | None \<Rightarrow> Inr buf)"

definition Serialize :: "'l ical_lib \<Rightarrow> (bytes \<Rightarrow> go_error option) \<Rightarrow> component \<Rightarrow> bytes result" where
  "Serialize lib write cal =
     (if c_children cal = [] then serializeEmpty write cal
      else case il_encode lib cal of
             Inl e \<Rightarrow> Inl (wrapf ''ics: serialize: '' e)
           | Inr bs \<Rightarrow> (case write bs of
                Some e \<Rightarrow> Inl (wrapf ''ics: serialize: '' e)
              | None \<Rightarrow> Inr bs))"

lemma foldLine_short: "length line \<le> 75 \<Longrightarrow> foldLine line = line @ crlf"
  by (simp add: foldLine_def fold_from.simps [of 75 line])

lemma serializeEmpty_frame:
  "serializeEmpty write cal = Inr bs \<Longrightarrow> \<exists>mid. bs = ''BEGIN:VCALENDAR'' @ crlf @ mid @ ''END:VCALENDAR'' @ crlf"
  by (auto simp: serializeEmpty_def CompCalendar_def foldLine_short Let_def
      split: sum.splits option.splits)


section \<open>Durations\<close>

definition Duration :: "go_duration \<Rightarrow> string" where
  "Duration d =
     (let totalMinutes = go_quot d minute
      in if totalMinutes \<le> 0 then ''PT0S''
         else
           let days = go_quot totalMinutes (24 * 60);
               hours = go_quot (go_rem totalMinutes (24 * 60)) 60;
               minutes = go_rem totalMinutes 60
           in ''P'' @
              (if days > 0 then itoa days @ ''D'' else []) @
              (if hours > 0 \<or> minutes > 0 then
                 ''T'' @ (if hours > 0 then itoa hours @ ''H'' else []) @
                 (if minutes > 0 then itoa minutes @ ''M'' else [])
               else []))"

text \<open>Reading a duration, in minutes.\<close>

fun duration_minutes :: "nat \<Rightarrow> string \<Rightarrow> nat" where
  "duration_minutes acc [] = 0"
| "duration_minutes acc (c # s) =
     (if is_digit c then duration_minutes (10 * acc + digit_val c) s
      else if c = CHR ''D'' then 1440 * acc + duration_minutes 0 s
      else if c = CHR ''H'' then 60 * acc + duration_minutes 0 s
      else if c = CHR ''M'' then acc + duration_minutes 0 s
      else duration_minutes 0 s)"

lemma duration_minutes_digits:
  "list_all is_digit ds \<Longrightarrow> duration_minutes acc (ds @ s) =
     duration_minutes (foldl (\<lambda>n c. 10 * n + digit_val c) acc ds) s"
  by (induction ds arbitrary: acc) auto

lemma duration_minutes_itoa:
  assumes "0 \<le> n"
  shows "duration_minutes 0 (itoa n @ s) = duration_minutes (nat n) s"
proof -
  have "list_all is_digit (nat_text (nat n))" by (auto simp: list_all_iff)
  from duration_minutes_digits [OF this, of 0 s] assms show ?thesis
    using digits_val_nat_text [of "nat n"] by (simp add: itoa_def digits_val_def)
qed

lemma unit_chars [simp]:
  "\<not> is_digit (CHR ''P'')" "\<not> is_digit (CHR ''T'')" "\<not> is_digit (CHR ''D'')"
  "\<not> is_digit (CHR ''H'')" "\<not> is_digit (CHR ''M'')" "\<not> is_digit (CHR ''S'')"
  by (simp_all add: is_digit_def)

lemma duration_minutes_tail:
  assumes "0 \<le> h" and "0 \<le> n"
  shows "duration_minutes 0 (if h > 0 \<or> n > 0 then ''T'' @ (if h > 0 then itoa h @ ''H'' else []) @
      (if n > 0 then itoa n @ ''M'' else []) else []) = 60 * nat h + nat n"
  using assms by (cases "h = 0"; cases "n = 0") (simp_all add: duration_minutes_itoa)

lemma duration_minutes_body:
  assumes "0 \<le> d" and "0 \<le> h" and "0 \<le> n"
  shows "duration_minutes 0 (''P'' @ (if d > 0 then itoa d @ ''D'' else []) @
      (if h > 0 \<or> n > 0 then ''T'' @ (if h > 0 then itoa h @ ''H'' else []) @
        (if n > 0 then itoa n @ ''M'' else []) else [])) = 1440 * nat d + (60 * nat h + nat n)"
  using assms duration_minutes_tail [OF assms(2,3)]
  by (cases "d = 0") (simp_all add: duration_minutes_itoa)

text \<open>A rendered duration reads back as the whole minutes of its argument; everything below a
  minute, negative durations included, is zero.\<close>

theorem Duration_reads_back: "duration_minutes 0 (Duration d) = nat (go_quot d minute)"
proof (cases "go_quot d minute \<le> 0")
  case True
  have "is_digit (CHR ''0'')" by (simp add: is_digit_def)
  with True show ?thesis by (simp add: Duration_def)
next
  case False
  define m where "m = go_quot d minute"
  have m: "0 < m" using False by (simp add: m_def)
  let ?d = "m div 1440" and ?h = "m mod 1440 div 60" and ?n = "m mod 60"
  have q: "go_quot m 1440 = ?d" "go_quot (go_rem m 1440) 60 = ?h" "go_rem m 60 = ?n"
    using m by (simp_all add: go_quot_pos go_rem_pos)
  have pos: "0 \<le> ?d" "0 \<le> ?h" "0 \<le> ?n" using m by (simp_all add: pos_imp_zdiv_nonneg_iff)
  have "m mod 1440 mod 60 = m mod 60" by (rule mod_mod_cancel) simp
  then have eq: "1440 * ?d + 60 * ?h + ?n = m"
    using mult_div_mod_eq [of 1440 m] mult_div_mod_eq [of 60 "m mod 1440"] by linarith
  have D: "Duration d = ''P'' @ (if ?d > 0 then itoa ?d @ ''D'' else []) @
      (if ?h > 0 \<or> ?n > 0 then ''T'' @ (if ?h > 0 then itoa ?h @ ''H'' else []) @
        (if ?n > 0 then itoa ?n @ ''M'' else []) else [])"
    using m unfolding Duration_def m_def [symmetric] Let_def by (simp add: q)
  have "duration_minutes 0 (Duration d) = 1440 * nat ?d + (60 * nat ?h + nat ?n)"
    unfolding D using pos by (rule duration_minutes_body)
  also have "\<dots> = nat m"
  proof -
    have "int (1440 * nat ?d + (60 * nat ?h + nat ?n)) = m" using pos eq by simp
    then show ?thesis by linarith
  qed
  finally show ?thesis by (simp add: m_def)
qed


section \<open>Building properties\<close>

definition TextProp :: "'l ical_lib \<Rightarrow> string \<Rightarrow> string \<Rightarrow> ical_prop" where
  "TextProp lib name val =
     (let pr = il_prop_text lib val (il_new_prop lib name)
      in pr\<lparr>p_params := map_del ''VALUE'' (p_params pr)\<rparr>)"

definition DurationProp :: "'l ical_lib \<Rightarrow> string \<Rightarrow> go_duration \<Rightarrow> bool \<Rightarrow> ical_prop" where
  "DurationProp lib name d withValueParam =
     (let pr = (il_new_prop lib name)\<lparr>p_value := Duration d\<rparr>
      in if withValueParam then pr\<lparr>p_params := map_put ''VALUE'' [''DURATION''] (p_params pr)\<rparr>
         else pr)"


section \<open>Concrete inputs\<close>

lemma foldLine_spec_witness:
  "\<exists>first rest. foldLine (replicate 80 (CHR ''x'')) = go_join (first # rest) (crlf @ '' '') @ crlf \<and>
     length first \<le> 75"
proof -
  have rs: "rune_start (CHR ''x'')" by (simp add: rune_start_def)
  have "\<exists>k\<le>3. k \<le> i \<and> rune_start (replicate 80 (CHR ''x'') ! (i - k))" if "i < 80" for i
    using that rs by (intro exI [of _ 0]) auto
  then have "utf8_dense (replicate 80 (CHR ''x''))" by (simp add: utf8_dense_iff)
  from foldLine_spec [OF this] rs show ?thesis by fastforce
qed

lemma foldLine_unfold_witness: "unfold_text (foldLine (replicate 200 (CHR ''x''))) = replicate 200 (CHR ''x'') @ crlf"
  by (rule foldLine_unfold) simp

lemma contentLine_value_witness:
  "after_colon False ''A;B=[x:y]:z'' = ''y]:z'' \<and>
   (\<exists>line. contentLine \<lparr>p_name = ''A'', p_params = [(''B'', [''x:y''])], p_value = ''z''\<rparr> = Inr line \<and>
      after_colon False line = ''z'')"
proof -
  let ?p = "\<lparr>p_name = ''A'', p_params = [(''B'', [''x:y''])], p_value = ''z''\<rparr>"
  have c: "contentLine ?p = Inr (''A;B='' @ [CHR 0x22] @ ''x:y'' @ [CHR 0x22] @ '':z'')"
    by (simp add: contentLine_def map_keys_def map_get_def)
  moreover have "plain_names ?p" by (simp add: plain_names_def map_keys_def)
  ultimately show ?thesis using contentLine_value [of ?p] by simp
qed

end
