(* ===== verification/Ics_Dates.thy ===== *)
theory Ics_Dates
  imports Ics_Text Go_Time_Format
begin

text \<open>
  \<^verbatim>\<open>recurrence.go\<close> (when an event's last occurrence ends) and \<^verbatim>\<open>vtimezone.go\<close> (VTIMEZONE components with
  explicit transitions). The time zone database is the parameter \<open>tz_lib\<close>.
\<close>


section \<open>Recurrence\<close>

definition parseICalTime :: "string \<Rightarrow> go_time option" where
  "parseICalTime v =
     (case go_parse LayoutCompactUTC v of
        Some t \<Rightarrow> Some t
      | None \<Rightarrow> (case go_parse LayoutCompact v of
           Some t \<Rightarrow> Some t
         | None \<Rightarrow> go_parse LayoutCompactDate v))"

fun until_of_parts :: "string list \<Rightarrow> go_time option" where
  "until_of_parts [] = None"
| "until_of_parts (part # parts) =
     (case cut_char (CHR ''='') part of
        (name, val, found) \<Rightarrow>
          if \<not> found \<or> map upper_char (go_trim_space name) \<noteq> ''UNTIL'' then until_of_parts parts
          else parseICalTime (go_trim_space val))"

definition ruleUntil :: "string \<Rightarrow> go_time option" where
  "ruleUntil rrule = until_of_parts (split_char (CHR '';'') rrule)"

definition rdate_entry :: "string \<Rightarrow> string" where
  "rdate_entry entry = (case cut_char (CHR ''/'') entry of
     (start, _, isPeriod) \<Rightarrow> if isPeriod then start else entry)"

fun latest_of :: "go_time \<Rightarrow> string list \<Rightarrow> go_time" where
  "latest_of latest [] = latest"
| "latest_of latest (e # es) =
     (let entry = go_trim_space e
      in if entry = [] then latest_of latest es
         else case parseICalTime (rdate_entry entry) of
           Some t \<Rightarrow> latest_of (if time_after t latest then t else latest) es
         | None \<Rightarrow> latest_of latest es)"

definition latestRDate :: "string \<Rightarrow> go_time \<times> bool" where
  "latestRDate rdate =
     (let latest = latest_of 0 (split_char (CHR '','') rdate) in (latest, \<not> time_is_zero latest))"

definition IsRecurring :: "'l ical_lib \<Rightarrow> component \<Rightarrow> bool" where
  "IsRecurring lib e \<longleftrightarrow> Raw lib e FieldRRule \<noteq> [] \<or> Raw lib e FieldRDate \<noteq> []"

definition LastOccurrence :: "'l ical_lib \<Rightarrow> 'l \<Rightarrow> component \<Rightarrow> go_time \<times> bool" where
  "LastOccurrence lib utc e =
     (let (start, errStart) = il_start lib e utc;
          (end0, err) = il_end lib e utc;
          fin = (if err \<noteq> None \<or> time_is_zero end0 then start else end0);
          rrule = Raw lib e FieldRRule;
          rdate = Raw lib e FieldRDate
      in if rrule = [] \<and> rdate = [] then
           (if time_is_zero fin then (0, False) else (fin, True))
         else
           case (if rrule \<noteq> [] then
                   (case ruleUntil rrule of
                      None \<Rightarrow> None
                    | Some until \<Rightarrow>
                        Some (if errStart = None \<and> \<not> time_is_zero start \<and> time_after fin start
                              then time_add until (time_sub fin start) else until))
                 else Some 0) of
             None \<Rightarrow> (0, False)
           | Some last0 \<Rightarrow>
               let (latest, ok) = latestRDate rdate;
                   lastT = (if ok \<and> time_after latest last0 then latest else last0)
               in if time_is_zero lastT then (0, False) else (lastT, True))"

lemma latest_of_ge: "latest \<le> latest_of latest es"
proof (induction es arbitrary: latest)
  case (Cons e es)
  show ?case
  proof (cases "go_trim_space e = [] \<or> parseICalTime (rdate_entry (go_trim_space e)) = None")
    case True
    then show ?thesis using Cons [of latest] by (auto simp: Let_def)
  next
    case False
    then obtain t where "parseICalTime (rdate_entry (go_trim_space e)) = Some t" by auto
    with False show ?thesis using Cons [of t] Cons [of latest] by (auto simp: go_simps Let_def)
  qed
qed simp

lemma latest_of_upper:
  "e \<in> set es \<Longrightarrow> go_trim_space e \<noteq> [] \<Longrightarrow>
     parseICalTime (rdate_entry (go_trim_space e)) = Some t \<Longrightarrow> t \<le> latest_of latest es"
proof (induction es arbitrary: latest)
  case (Cons x es)
  show ?case
  proof (cases "e = x")
    case True
    with Cons.prems latest_of_ge [of t es] latest_of_ge [of latest es] show ?thesis
      by (auto simp: go_simps Let_def)
  next
    case False
    with Cons.prems have "e \<in> set es" by simp
    with Cons show ?thesis by (auto simp: Let_def split: option.splits)
  qed
qed simp

text \<open>a series without an end is never dated: an event whose RRULE has no readable UNTIL (a
  COUNT-limited one included) is unbounded, whatever its RDATEs say.\<close>

theorem LastOccurrence_open_ended:
  assumes "Raw lib e FieldRRule \<noteq> []" and "ruleUntil (Raw lib e FieldRRule) = None"
  shows "\<not> snd (LastOccurrence lib utc e)"
  using assms by (auto simp: LastOccurrence_def Let_def split: prod.splits)

text \<open>The reported end of a series is not before its UNTIL and not before any readable RDATE.\<close>

theorem LastOccurrence_covers:
  assumes "LastOccurrence lib utc e = (fin, True)"
    and "entry \<in> set (split_char (CHR '','') (Raw lib e FieldRDate))"
    and "go_trim_space entry \<noteq> []"
    and "parseICalTime (rdate_entry (go_trim_space entry)) = Some t" and "0 < t"
    and "ruleUntil (Raw lib e FieldRRule) = Some until"
  shows "t \<le> fin \<and> until \<le> fin"
proof -
  have "Raw lib e FieldRDate \<noteq> []" using assms(2,3) by auto
  moreover have "Raw lib e FieldRRule \<noteq> []" using assms(6) by (auto simp: ruleUntil_def)
  moreover have le: "t \<le> fst (latestRDate (Raw lib e FieldRDate))"
    using latest_of_upper [OF assms(2-4)] by (simp add: latestRDate_def Let_def)
  moreover from this assms(5) have "snd (latestRDate (Raw lib e FieldRDate))"
    by (auto simp: latestRDate_def Let_def time_is_zero_def)
  ultimately show ?thesis
    using assms(1,6)
    by (auto simp: LastOccurrence_def Let_def go_simps time_sub_def split: prod.splits if_splits)
qed


section \<open>Time zones\<close>

record 'l tz_lib =
  tz_load :: "string \<Rightarrow> 'l result"
  tz_zone :: "'l \<Rightarrow> go_time \<Rightarrow> string \<times> int"
  tz_dst :: "'l \<Rightarrow> go_time \<Rightarrow> bool"

definition utc_offset :: "'l tz_lib \<Rightarrow> 'l \<Rightarrow> go_time \<Rightarrow> int" where
  "utc_offset tz loc t = snd (tz_zone tz loc t)"

lemma time_sub_half:
  assumes "time_sub hi lo > second"
  shows "lo < lo + go_quot (time_sub hi lo) 2" "lo + go_quot (time_sub hi lo) 2 < hi"
  using assms by (auto simp: time_sub_def go_quot_def max_def min_def split: if_splits)

function bisectTransition :: "(go_time \<Rightarrow> int) \<Rightarrow> go_time \<Rightarrow> go_time \<Rightarrow> int \<Rightarrow> go_time" where
  "bisectTransition off lo hi loOff =
     (if time_sub hi lo > second then
        (let mid = time_add lo (go_quot (time_sub hi lo) 2)
         in if off mid = loOff then bisectTransition off mid hi loOff
            else bisectTransition off lo mid loOff)
      else hi)"
  by pat_completeness auto
termination
  by (relation "measure (\<lambda>(off, lo, hi, loOff). nat (hi - lo))")
    (use time_sub_half in \<open>force simp: time_add_def\<close>)+

declare bisectTransition.simps [simp del]

text \<open>C40: the bisection always ends, and it finds the transition to the second: when the offset
  differs from \<open>loOff\<close> exactly from the instant \<open>tr\<close> on, the result lies in the second that starts
  at \<open>tr\<close>.\<close>

theorem bisectTransition_exact:
  assumes "lo < tr" and "tr \<le> hi" and "hi - lo < 2 ^ 62"
    and "\<And>t. lo \<le> t \<Longrightarrow> t \<le> hi \<Longrightarrow> off t = loOff \<longleftrightarrow> t < tr"
  shows "tr \<le> bisectTransition off lo hi loOff \<and> bisectTransition off lo hi loOff < tr + second"
  using assms
proof (induction off lo hi loOff rule: bisectTransition.induct)
  case (1 off lo hi loOff)
  have sub: "time_sub hi lo = hi - lo" using 1(3-5) by (intro time_sub_exact) auto
  show ?case
  proof (cases "time_sub hi lo > second")
    case False
    with 1(3-4) sub show ?thesis by (auto simp: bisectTransition.simps [of off lo hi loOff])
  next
    case True
    define mid where "mid = time_add lo (go_quot (time_sub hi lo) 2)"
    have mid: "lo < mid" "mid < hi" using time_sub_half [OF True] by (simp_all add: mid_def time_add_def)
    show ?thesis
    proof (cases "off mid = loOff")
      case t: True
      with mid 1(6) [of mid] have "mid < tr" by simp
      with 1(1) [OF True mid_def t] 1(4-6) mid True t show ?thesis
        by (auto simp: bisectTransition.simps [of off lo hi loOff] Let_def mid_def [symmetric])
    next
      case f: False
      with mid 1(6) [of mid] have "tr \<le> mid" by simp
      with 1(2) [OF True mid_def f] 1(3,5,6) mid True f show ?thesis
        by (auto simp: bisectTransition.simps [of off lo hi loOff] Let_def mid_def [symmetric])
    qed
  qed
qed

text \<open>\<^verbatim>\<open>fmt.Sprintf("%s%02d%02d")\<close>.\<close>

definition two_digits :: "int \<Rightarrow> string" where
  "two_digits n = (if n < 10 then ''0'' @ itoa n else itoa n)"

definition fmtUTCOffset :: "int \<Rightarrow> string" where
  "fmtUTCOffset seconds =
     (let sign = (if seconds < 0 then ''-'' else ''+'');
          s = (if seconds < 0 then - seconds else seconds)
      in sign @ two_digits (go_quot s 3600) @ two_digits (go_quot (go_rem s 3600) 60))"

definition offset_value :: "string \<Rightarrow> int" where
  "offset_value s =
     (let v = 3600 * int (digits_val (take 2 (drop 1 s))) + 60 * int (digits_val (drop 3 s))
      in if take 1 s = ''-'' then - v else v)"

lemma two_digits_form:
  assumes "0 \<le> n" and "n < 100"
  shows "length (two_digits n) = 2" "int (digits_val (two_digits n)) = n"
proof -
  have small: "\<exists>k<100. n = int k" using assms by (intro exI [of _ "nat n"]) auto
  then obtain k where k: "n = int k" "k < 100" by blast
  have "length (two_digits (int k)) = 2 \<and> digits_val (two_digits (int k)) = k"
  proof (cases "k < 10")
    case True
    then show ?thesis
      by (simp add: two_digits_def itoa_def nat_text.simps [of k] digits_val_def)
        (simp add: digit_val_def)
  next
    case False
    with k(2) have "k div 10 < 10" by simp
    then have "nat_text k = [digit_char (k div 10), digit_char (k mod 10)]"
      using False by (simp add: nat_text.simps [of k] nat_text.simps [of "k div 10"])
    with False \<open>k div 10 < 10\<close> show ?thesis by (simp add: two_digits_def itoa_def digits_val_def)
  qed
  with k show "length (two_digits n) = 2" "int (digits_val (two_digits n)) = n" by simp_all
qed

lemma offset_value_parts:
  "length a = 2 \<Longrightarrow> offset_value (c # a @ b) =
     (if c = CHR ''-'' then - (3600 * int (digits_val a) + 60 * int (digits_val b))
      else 3600 * int (digits_val a) + 60 * int (digits_val b))"
  by (simp add: offset_value_def)

text \<open>a rendered UTC offset has the form of a sign and four digits and reads back as the offset,
  truncated to whole minutes, for every offset below 100 hours.\<close>

theorem fmtUTCOffset_reads_back:
  assumes "\<bar>s\<bar> < 360000"
  shows "length (fmtUTCOffset s) = 5 \<and> offset_value (fmtUTCOffset s) = 60 * go_quot s 60"
proof -
  define h where "h = \<bar>s\<bar> div 3600"
  define n where "n = \<bar>s\<bar> mod 3600 div 60"
  define q where "q = \<bar>s\<bar> div 60"
  have h: "0 \<le> h" "h < 100" and n: "0 \<le> n" "n < 100"
    using assms by (auto simp: h_def n_def pos_imp_zdiv_nonneg_iff)
  have f: "fmtUTCOffset s = (if s < 0 then CHR ''-'' else CHR ''+'') # two_digits h @ two_digits n"
    by (simp add: fmtUTCOffset_def Let_def go_quot_pos go_rem_pos h_def n_def)
  have "\<bar>s\<bar> mod 3600 mod 60 = \<bar>s\<bar> mod 60" by (rule mod_mod_cancel) simp
  then have eq: "3600 * h + 60 * n = 60 * q"
    using mult_div_mod_eq [of 3600 "\<bar>s\<bar>"] mult_div_mod_eq [of 60 "\<bar>s\<bar> mod 3600"]
      mult_div_mod_eq [of 60 "\<bar>s\<bar>"] unfolding h_def n_def q_def by linarith
  have g: "go_quot s 60 = (if s < 0 then - q else q)" by (simp add: go_quot_def q_def)
  note hh = two_digits_form [OF h] and nn = two_digits_form [OF n]
  have "offset_value (fmtUTCOffset s) =
      (if s < 0 then - (3600 * h + 60 * n) else 3600 * h + 60 * n)"
    unfolding f by (simp add: offset_value_parts [OF hh(1)] hh(2) nn(2))
  moreover have "length (fmtUTCOffset s) = 5" unfolding f using hh(1) nn(1) by simp
  ultimately show ?thesis using g eq by simp
qed

definition setRaw :: "'l ical_lib \<Rightarrow> string \<Rightarrow> string \<Rightarrow> component \<Rightarrow> component" where
  "setRaw lib name val c =
     with_props (il_set lib ((il_new_prop lib name)\<lparr>p_value := val\<rparr>) (c_props c)) c"

text \<open>\<open>before\<close> and \<open>after\<close> are the instants whose local times in \<open>loc\<close> the Go function is given.\<close>

definition observance ::
  "'l ical_lib \<Rightarrow> 'l tz_lib \<Rightarrow> 'l \<Rightarrow> go_time \<Rightarrow> go_time \<Rightarrow> go_time \<Rightarrow> component" where
  "observance lib tz loc utc before after =
     (let name = (if tz_dst tz loc after then CompDaylight else CompStandard);
          (abbr, offTo) = tz_zone tz loc after;
          offFrom = utc_offset tz loc before;
          child = Component name [] [];
          child = setRaw lib ''DTSTART''
                    (go_format LayoutCompact (time_add utc (offFrom * second))) child;
          child = setRaw lib ''TZOFFSETFROM'' (fmtUTCOffset offFrom) child;
          child = setRaw lib ''TZOFFSETTO'' (fmtUTCOffset offTo) child
      in if abbr \<noteq> [] then with_props (il_set_text lib ''TZNAME'' abbr (c_props child)) child
         else child)"

function scan_transitions ::
  "'l ical_lib \<Rightarrow> 'l tz_lib \<Rightarrow> 'l \<Rightarrow> go_time \<Rightarrow> go_time \<Rightarrow> go_time \<Rightarrow> int \<Rightarrow> component list" where
  "scan_transitions lib tz loc stop t prev prevOff =
     (if time_after t stop then []
      else
        (let off = utc_offset tz loc t
         in if off \<noteq> prevOff then
              (let tr = bisectTransition (utc_offset tz loc) prev t prevOff
               in observance lib tz loc tr (time_add tr (- second)) tr
                    # scan_transitions lib tz loc stop (time_add t hour) t off)
            else scan_transitions lib tz loc stop (time_add t hour) t prevOff))"
  by pat_completeness auto
termination
  by (relation "measure (\<lambda>(lib, tz, loc, stop, t, prev, prevOff). nat (stop - t + 1))")
    (auto simp: go_simps)

declare scan_transitions.simps [simp del]

definition VTimezone ::
  "'l ical_lib \<Rightarrow> 'l tz_lib \<Rightarrow> string \<Rightarrow> go_time \<Rightarrow> go_time \<Rightarrow> component result" where
  "VTimezone lib tz tzid from0 to0 =
     (case tz_load tz tzid of
        Inl e \<Rightarrow> Inl (ErrWrap [Lit ''ics: load timezone '', Quo tzid, Lit '': ''] e [])
      | Inr loc \<Rightarrow>
          let (start, stop) = (if time_before to0 from0 then (to0, from0) else (from0, to0));
              props = il_set_text lib ''TZID'' tzid []
          in Inr (Component CompTimezone props
               (observance lib tz loc start start start #
                scan_transitions lib tz loc stop (time_add start hour) start
                  (utc_offset tz loc start))))"

text \<open>The offsets seen on the hourly grid that the scan walks.\<close>

function grid_changes :: "(go_time \<Rightarrow> int) \<Rightarrow> go_time \<Rightarrow> go_time \<Rightarrow> int \<Rightarrow> nat" where
  "grid_changes off stop t prevOff =
     (if t > stop then 0
      else (if off t \<noteq> prevOff then 1 else 0) + grid_changes off stop (t + hour) (off t))"
  by pat_completeness auto
termination
  by (relation "measure (\<lambda>(off, stop, t, prevOff). nat (stop - t + 1))") auto

declare grid_changes.simps [simp del]

lemma scan_transitions_length:
  "length (scan_transitions lib tz loc stop t prev prevOff) =
     grid_changes (utc_offset tz loc) stop t prevOff"
proof (induction lib tz loc stop t prev prevOff rule: scan_transitions.induct)
  case (1 lib tz loc stop t prev prevOff)
  show ?case
  proof (cases "time_after t stop")
    case True
    then show ?thesis
      by (simp add: scan_transitions.simps [of lib tz loc stop t] go_simps
          grid_changes.simps [of _ stop t])
  next
    case False
    with 1 show ?thesis
      by (cases "utc_offset tz loc t = prevOff")
        (simp_all add: scan_transitions.simps [of lib tz loc stop t] Let_def go_simps
          grid_changes.simps [of _ stop t])
  qed
qed

text \<open>A VTIMEZONE carries one observance for the start of the window and one for every change of
  the offset on the hourly grid: a zone without transitions still gets one, and no change is lost
  or doubled.\<close>

theorem VTimezone_observances:
  assumes "tz_load tz tzid = Inr loc" and "from0 \<le> to0"
  shows "\<exists>comp. VTimezone lib tz tzid from0 to0 = Inr comp \<and> c_name comp = ''VTIMEZONE'' \<and>
    length (c_children comp) =
      Suc (grid_changes (utc_offset tz loc) to0 (from0 + hour) (utc_offset tz loc from0))"
  using assms
  by (simp add: VTimezone_def go_simps scan_transitions_length CompTimezone_def not_less)


section \<open>Concrete inputs\<close>

lemma LastOccurrence_open_ended_witness:
  "\<not> snd (LastOccurrence sample_ical () (sample_event [(''RRULE'', ''FREQ=WEEKLY;COUNT=3'')]))"
proof (rule LastOccurrence_open_ended)
  show "Raw sample_ical (sample_event [(''RRULE'', ''FREQ=WEEKLY;COUNT=3'')]) FieldRRule \<noteq> []"
    by (simp add: sample_Raw FieldRRule_def)
  have "ruleUntil ''FREQ=WEEKLY;COUNT=3'' = None" by code_simp
  then show "ruleUntil (Raw sample_ical (sample_event [(''RRULE'', ''FREQ=WEEKLY;COUNT=3'')]) FieldRRule) = None"
    by (simp add: sample_Raw FieldRRule_def)
qed

definition until_event :: component where
  "until_event = sample_event [(''RRULE'', ''FREQ=DAILY;UNTIL=20260101''), (''RDATE'', ''20260301'')]"

lemma LastOccurrence_covers_witness:
  "\<exists>until t. ruleUntil ''FREQ=DAILY;UNTIL=20260101'' = Some until \<and> parseICalTime ''20260301'' = Some t \<and>
     t \<le> fst (LastOccurrence sample_ical () until_event) \<and>
     until \<le> fst (LastOccurrence sample_ical () until_event)"
proof -
  have raw: "Raw sample_ical until_event FieldRRule = ''FREQ=DAILY;UNTIL=20260101''"
    "Raw sample_ical until_event FieldRDate = ''20260301''"
    by (simp_all add: until_event_def sample_Raw FieldRRule_def FieldRDate_def)
  have u: "ruleUntil ''FREQ=DAILY;UNTIL=20260101'' = Some 63902822400000000000" by code_simp
  have t: "go_trim_space ''20260301'' = ''20260301''" "rdate_entry ''20260301'' = ''20260301''"
    "parseICalTime ''20260301'' = Some 63907920000000000000" by code_simp+
  have "latestRDate ''20260301'' = (63907920000000000000, True)" by code_simp
  then have l: "LastOccurrence sample_ical () until_event = (63907920000000000000, True)"
    by (simp add: LastOccurrence_def raw u go_simps) (simp add: sample_ical_def)
  have "63907920000000000000 \<le> (63907920000000000000 :: int) \<and> 63902822400000000000 \<le> (63907920000000000000 :: int)"
    using LastOccurrence_covers [OF l, of "''20260301''" 63907920000000000000 63902822400000000000]
    by (simp add: raw u t split_char_id)
  with l u t show ?thesis by simp
qed

lemma bisectTransition_exact_witness:
  "5 * second \<le> bisectTransition (\<lambda>t. if t < 5 * second then 1 else 2) 0 hour 1 \<and>
   bisectTransition (\<lambda>t. if t < 5 * second then 1 else 2) 0 hour 1 < 6 * second"
  using bisectTransition_exact [of 0 "5 * second" hour "\<lambda>t. if t < 5 * second then 1 else 2" 1] by simp

lemma fmtUTCOffset_reads_back_witness: "offset_value (fmtUTCOffset (- 12600)) = - 12600"
  using fmtUTCOffset_reads_back [of "- 12600"] by (simp add: go_quot_def)

lemma VTimezone_observances_witness:
  "\<exists>comp. VTimezone sample_ical
       \<lparr>tz_load = (\<lambda>n. Inr ()), tz_zone = (\<lambda>_ _. (''UTC'', 0)), tz_dst = (\<lambda>_ _. False)\<rparr> ''UTC'' 0 0 = Inr comp \<and>
     length (c_children comp) = 1"
  using VTimezone_observances [of "\<lparr>tz_load = (\<lambda>n. Inr ()), tz_zone = (\<lambda>_ _. (''UTC'', 0)), tz_dst = (\<lambda>_ _. False)\<rparr>"
      "''UTC''" "()" 0 0 sample_ical]
  by (auto simp: grid_changes.simps)

end
