(* ===== verification/Pipeline.thy ===== *)
theory Pipeline
  imports Ics_Dates
begin

text \<open>
  \<^verbatim>\<open>internal/pipeline\<close>: matchers (\<^verbatim>\<open>matcher.go\<close>), the seven rules (\<^verbatim>\<open>rules.go\<close>), the rule configuration
  (\<^verbatim>\<open>config.go\<close>) and the pipeline that runs them (\<^verbatim>\<open>pipeline.go\<close>). A rule is a value; \<^verbatim>\<open>Apply\<close> returns
  the error, the rule (the reporting rules remember what they matched) and the changed calendar.

  Regular expressions, the Unicode case tables, the time zone database and go-ical are the
  parameters collected in \<open>pipe_env\<close>.
\<close>


section \<open>Environment\<close>

record 're regex_lib =
  re_compile :: "string \<Rightarrow> 're result"
  re_match :: "'re \<Rightarrow> string \<Rightarrow> bool"
  re_replace :: "'re \<Rightarrow> string \<Rightarrow> string \<Rightarrow> string"
  re_replace_literal :: "'re \<Rightarrow> string \<Rightarrow> string \<Rightarrow> string"
  re_quote :: "string \<Rightarrow> string"

record ('re, 'l) pipe_env =
  pe_ical :: "'l ical_lib"
  pe_re :: "'re regex_lib"
  pe_tz :: "'l tz_lib"
  pe_lower :: "string \<Rightarrow> string"
  pe_upper :: "string \<Rightarrow> string"
  pe_utc :: 'l


section \<open>Matchers\<close>

definition MatchSubstring :: string where "MatchSubstring = ''substring''"
definition MatchRegex :: string where "MatchRegex = ''regex''"

record 're matcher =
  m_mode :: string
  m_pattern :: string
  m_re :: "'re option"
  m_lower :: string

definition NewMatcher :: "('re, 'l) pipe_env \<Rightarrow> string \<Rightarrow> string \<Rightarrow> 're matcher result" where
  "NewMatcher env mode pattern =
     (if mode = MatchSubstring then
        Inr \<lparr>m_mode = mode, m_pattern = pattern, m_re = None,
             m_lower = go_to_lower (pe_lower env) pattern\<rparr>
      else if mode = MatchRegex then
        (case re_compile (pe_re env) pattern of
           Inl e \<Rightarrow> Inl (ErrWrap [Lit ''pipeline: invalid regex '', Quo pattern, Lit '': ''] e [])
         | Inr re \<Rightarrow> Inr \<lparr>m_mode = mode, m_pattern = pattern, m_re = Some re, m_lower = []\<rparr>)
      else Inl (ErrMsg [Lit ''pipeline: unknown match mode '', Quo mode]))"

definition MatchString :: "('re, 'l) pipe_env \<Rightarrow> 're matcher \<Rightarrow> string \<Rightarrow> bool" where
  "MatchString env m s =
     (if m_mode m = MatchSubstring then go_contains (go_to_lower (pe_lower env) s) (m_lower m)
      else if m_mode m = MatchRegex then
        (case m_re m of Some re \<Rightarrow> re_match (pe_re env) re s | None \<Rightarrow> False)
      else False)"


section \<open>Shared helpers\<close>

record matched_event =
  me_summary :: string
  me_uid :: string
  me_start :: string

definition matchedEvent :: "('re, 'l) pipe_env \<Rightarrow> component \<Rightarrow> matched_event" where
  "matchedEvent env e =
     \<lparr>me_summary = Text (pe_ical env) e FieldSummary, me_uid = Text (pe_ical env) e ''UID'',
      me_start = Raw (pe_ical env) e FieldDTStart\<rparr>"

definition defaultMatchFields :: "string list" where
  "defaultMatchFields = [FieldSummary, FieldDescription, FieldLocation, FieldCategories]"

definition fieldValue :: "('re, 'l) pipe_env \<Rightarrow> component \<Rightarrow> string \<Rightarrow> string" where
  "fieldValue env e field =
     (if field = FieldCategories then Raw (pe_ical env) e field else Text (pe_ical env) e field)"

definition normalizeFields :: "('re, 'l) pipe_env \<Rightarrow> string list \<Rightarrow> string list" where
  "normalizeFields env flds = map (\<lambda>f. go_to_upper (pe_upper env) (go_trim_space f)) flds"


section \<open>Rules\<close>

definition FilterBlacklist :: string where "FilterBlacklist = ''blacklist''"
definition FilterWhitelist :: string where "FilterWhitelist = ''whitelist''"
definition PseudoFieldDate :: string where "PseudoFieldDate = ''DATE''"

record 're filter_rule =
  fr_matcher :: "'re matcher"
  fr_fields :: "string list"
  fr_mode :: string
  fr_matched :: "matched_event list"

record 're rename_rule =
  rr_field :: string
  rr_re :: 're
  rr_replacement :: string
  rr_literal :: bool
  rr_matched :: "matched_event list"

datatype ('re, 'l) rule =
    RFilter "'re filter_rule"
  | RDedup "string list"
  | RRename "'re rename_rule"
  | RStrip "string list"
  | RTimezone 'l 'l
  | RExpire go_duration
  | RAlarm go_duration string

definition NewFilterRule ::
  "('re, 'l) pipe_env \<Rightarrow> string \<Rightarrow> string \<Rightarrow> string \<Rightarrow> string list \<Rightarrow> ('re, 'l) rule result" where
  "NewFilterRule env mode matchMode pattern flds =
     (if mode \<noteq> FilterBlacklist \<and> mode \<noteq> FilterWhitelist then
        Inl (ErrMsg [Lit ''pipeline: unknown filter mode '', Quo mode])
      else if go_trim_space pattern = [] then
        Inl (ErrMsg [Lit ''pipeline: filter pattern must not be empty''])
      else case NewMatcher env matchMode pattern of
        Inl e \<Rightarrow> Inl e
      | Inr m \<Rightarrow>
          let flds = (if flds = [] then defaultMatchFields else flds)
          in Inr (RFilter \<lparr>fr_matcher = m, fr_fields = normalizeFields env flds, fr_mode = mode,
                           fr_matched = []\<rparr>))"

definition NewDedupRule :: "('re, 'l) pipe_env \<Rightarrow> string list \<Rightarrow> ('re, 'l) rule" where
  "NewDedupRule env keyFields =
     (let keyFields = (if keyFields = [] then [FieldSummary, PseudoFieldDate] else keyFields)
      in RDedup (normalizeFields env keyFields))"

definition NewRenameRule ::
  "('re, 'l) pipe_env \<Rightarrow> string \<Rightarrow> string \<Rightarrow> string \<Rightarrow> string \<Rightarrow> ('re, 'l) rule result" where
  "NewRenameRule env field0 matchMode pattern replacement =
     (let field = go_to_upper (pe_upper env) (go_trim_space field0)
      in if field \<noteq> FieldSummary \<and> field \<noteq> FieldDescription \<and> field \<noteq> FieldLocation then
           Inl (ErrMsg [Lit ''pipeline: rename target '', Quo field, Lit '' is not an editable text field''])
         else if go_trim_space pattern = [] then
           Inl (ErrMsg [Lit ''pipeline: rename pattern must not be empty''])
         else if matchMode \<noteq> MatchRegex \<and> matchMode \<noteq> MatchSubstring then
           Inl (ErrMsg [Lit ''pipeline: unknown match mode '', Quo matchMode])
         else
           (case re_compile (pe_re env)
                   (if matchMode = MatchRegex then pattern else ''(?i)'' @ re_quote (pe_re env) pattern) of
              Inl e \<Rightarrow> Inl (wrapf ''pipeline: rename pattern: '' e)
            | Inr re \<Rightarrow> Inr (RRename \<lparr>rr_field = field, rr_re = re, rr_replacement = replacement,
                 rr_literal = (matchMode = MatchSubstring), rr_matched = []\<rparr>)))"

definition NewStripRule :: "('re, 'l) pipe_env \<Rightarrow> string list \<Rightarrow> ('re, 'l) rule result" where
  "NewStripRule env flds =
     (if flds = [] then Inl (ErrMsg [Lit ''pipeline: strip rule needs at least one field''])
      else Inr (RStrip (normalizeFields env flds)))"

definition NewAlarmRule :: "int \<Rightarrow> string \<Rightarrow> ('re, 'l) rule result" where
  "NewAlarmRule minutesBefore text =
     (if minutesBefore < 0 then
        Inl (ErrMsg [Lit (''pipeline: alarm lead time must be >= 0, got '' @ itoa minutesBefore)])
      else Inr (RAlarm (int64 (minutesBefore * minute)) (go_trim_space text)))"

definition NewTimezoneRule :: "('re, 'l) pipe_env \<Rightarrow> string \<Rightarrow> string \<Rightarrow> ('re, 'l) rule result" where
  "NewTimezoneRule env target floatingDefault =
     (case tz_load (pe_tz env) target of
        Inl e \<Rightarrow> Inl (ErrWrap [Lit ''pipeline: timezone '', Quo target, Lit '': ''] e [])
      | Inr loc \<Rightarrow>
          if floatingDefault = [] then Inr (RTimezone loc loc)
          else (case tz_load (pe_tz env) floatingDefault of
             Inl e \<Rightarrow>
               Inl (ErrWrap [Lit ''pipeline: floating timezone '', Quo floatingDefault, Lit '': ''] e [])
           | Inr floating \<Rightarrow> Inr (RTimezone loc floating)))"

definition NewExpireRule :: "int \<Rightarrow> ('re, 'l) rule result" where
  "NewExpireRule days =
     (if days \<le> 0 then
        Inl (ErrMsg [Lit (''pipeline: expire days must be > 0, got '' @ itoa days)])
      else Inr (RExpire (int64 (int64 (days * 24) * hour))))"


section \<open>Applying a rule\<close>

subsection \<open>Filter\<close>

definition filter_matches :: "('re, 'l) pipe_env \<Rightarrow> 're filter_rule \<Rightarrow> component \<Rightarrow> bool" where
  "filter_matches env r e \<longleftrightarrow> list_ex (\<lambda>f. MatchString env (fr_matcher r) (fieldValue env e f)) (fr_fields r)"

definition filter_keep ::
  "('re, 'l) pipe_env \<Rightarrow> component \<Rightarrow> 're filter_rule \<Rightarrow> bool \<times> 're filter_rule" where
  "filter_keep env e r =
     (let matched = filter_matches env r e;
          r' = (if matched then r\<lparr>fr_matched := fr_matched r @ [matchedEvent env e]\<rparr> else r)
      in (if fr_mode r = FilterWhitelist then matched else \<not> matched, r'))"

definition apply_filter ::
  "('re, 'l) pipe_env \<Rightarrow> 're filter_rule \<Rightarrow> component \<Rightarrow> 're filter_rule \<times> component" where
  "apply_filter env r cal =
     (case FilterEvents (filter_keep env) cal (r\<lparr>fr_matched := []\<rparr>) of (cal', r') \<Rightarrow> (r', cal'))"


subsection \<open>Dedup\<close>

definition startDate :: "('re, 'l) pipe_env \<Rightarrow> component \<Rightarrow> string" where
  "startDate env e =
     (case il_start (pe_ical env) e (pe_utc env) of
        (t, Some _) \<Rightarrow> []
      | (t, None) \<Rightarrow>
          go_format_at LayoutDate (utc_offset (pe_tz env) (il_start_loc (pe_ical env) e (pe_utc env)) t) t)"

definition dedup_key :: "('re, 'l) pipe_env \<Rightarrow> string list \<Rightarrow> component \<Rightarrow> string" where
  "dedup_key env keyFields e =
     go_join (map (\<lambda>f. if f = PseudoFieldDate then startDate env e else fieldValue env e f) keyFields)
       [CHR 0x1F]"

definition dedup_keep ::
  "('re, 'l) pipe_env \<Rightarrow> string list \<Rightarrow> component \<Rightarrow> string set \<Rightarrow> bool \<times> string set" where
  "dedup_keep env keyFields e seen =
     (let key = dedup_key env keyFields e
      in if key \<in> seen then (False, seen) else (True, insert key seen))"

definition apply_dedup :: "('re, 'l) pipe_env \<Rightarrow> string list \<Rightarrow> component \<Rightarrow> component" where
  "apply_dedup env keyFields cal = fst (FilterEvents (dedup_keep env keyFields) cal {})"


subsection \<open>Rename\<close>

definition rename_event ::
  "('re, 'l) pipe_env \<Rightarrow> 're rename_rule \<Rightarrow> component \<Rightarrow> component \<times> matched_event list" where
  "rename_event env r e =
     (let lib = pe_ical env; val = Text lib e (rr_field r)
      in if val = [] \<or> \<not> re_match (pe_re env) (rr_re r) val then (e, [])
         else
           let out = (if rr_literal r then re_replace_literal (pe_re env) (rr_re r) val (rr_replacement r)
                      else re_replace (pe_re env) (rr_re r) val (rr_replacement r))
           in if out \<noteq> val then
                (let e' = SetText lib (rr_field r) out e in (e', [matchedEvent env e']))
              else (e, []))"

definition apply_rename ::
  "('re, 'l) pipe_env \<Rightarrow> 're rename_rule \<Rightarrow> component \<Rightarrow> 're rename_rule \<times> component" where
  "apply_rename env r cal =
     (r\<lparr>rr_matched := concat (map (\<lambda>e. snd (rename_event env r e)) (events_of (pe_ical env) cal))\<rparr>,
      on_events (pe_ical env) (\<lambda>e. fst (rename_event env r e)) cal)"


subsection \<open>Strip\<close>

definition apply_strip :: "('re, 'l) pipe_env \<Rightarrow> string list \<Rightarrow> component \<Rightarrow> component" where
  "apply_strip env flds cal =
     on_events (pe_ical env) (\<lambda>e. fold (Remove (pe_upper env) (pe_ical env)) flds e) cal"


subsection \<open>Alarm\<close>

definition negativeDuration :: "go_duration \<Rightarrow> string" where
  "negativeDuration d = (if d < minute then Duration 0 else ''-'' @ Duration d)"

definition buildAlarm :: "'l ical_lib \<Rightarrow> go_duration \<Rightarrow> string \<Rightarrow> component" where
  "buildAlarm lib lead text =
     Component CompAlarm
       (il_set lib ((il_new_prop lib ''TRIGGER'')\<lparr>p_value := negativeDuration lead\<rparr>)
         (il_set_text lib ''DESCRIPTION'' text (il_set_text lib ''ACTION'' ''DISPLAY'' []))) []"

definition alarm_event :: "'l ical_lib \<Rightarrow> go_duration \<Rightarrow> string \<Rightarrow> component \<Rightarrow> component" where
  "alarm_event lib lead text0 e =
     (let kept = filter (\<lambda>c. c_name c \<noteq> CompAlarm) (c_children e);
          text1 = (if text0 = [] then Text lib e FieldSummary else text0);
          text2 = (if text1 = [] then ''Reminder'' else text1)
      in with_children (kept @ [buildAlarm lib lead text2]) e)"

definition apply_alarm :: "'l ical_lib \<Rightarrow> go_duration \<Rightarrow> string \<Rightarrow> component \<Rightarrow> component" where
  "apply_alarm lib lead text cal = on_events lib (alarm_event lib lead text) cal"


subsection \<open>Timezone\<close>

definition tz_convert ::
  "'l ical_lib \<Rightarrow> 'l \<Rightarrow> 'l \<Rightarrow> string \<Rightarrow> component \<Rightarrow> component" where
  "tz_convert lib target floating field e =
     (case il_get lib (c_props e) field of
        None \<Rightarrow> e
      | Some pr \<Rightarrow>
          if IsDateOnly pr then e
          else (case il_datetime lib pr floating of
             Inl _ \<Rightarrow> e
           | Inr t \<Rightarrow>
               let np = il_set_datetime lib t target (il_new_prop lib field);
                   np = np\<lparr>p_params := fold (\<lambda>(name, vals) m.
                            if name = ''TZID'' \<or> name = ''VALUE'' then m else map_put name vals m)
                          (p_params pr) (p_params np)\<rparr>
               in with_props (il_set lib np (c_props e)) e))"

definition apply_timezone :: "'l ical_lib \<Rightarrow> 'l \<Rightarrow> 'l \<Rightarrow> component \<Rightarrow> component" where
  "apply_timezone lib target floating cal =
     on_events lib (\<lambda>e. tz_convert lib target floating FieldDTEnd
                          (tz_convert lib target floating FieldDTStart e)) cal"


subsection \<open>Expire\<close>

definition expire_keep :: "('re, 'l) pipe_env \<Rightarrow> go_time \<Rightarrow> component \<Rightarrow> bool" where
  "expire_keep env cutoff e =
     (case LastOccurrence (pe_ical env) (pe_utc env) e of
        (t, bounded) \<Rightarrow> if \<not> bounded then True else \<not> time_before t cutoff)"

definition apply_expire ::
  "('re, 'l) pipe_env \<Rightarrow> go_time \<Rightarrow> go_duration \<Rightarrow> component \<Rightarrow> component" where
  "apply_expire env now maxAge cal =
     (let cutoff = time_add now (int64 (- maxAge))
      in fst (FilterEvents (\<lambda>e s. (expire_keep env cutoff e, s)) cal ()))"


section \<open>The pipeline\<close>

definition rule_name :: "('re, 'l) rule \<Rightarrow> string" where
  "rule_name r = (case r of RFilter _ \<Rightarrow> ''filter'' | RDedup _ \<Rightarrow> ''dedup'' | RRename _ \<Rightarrow> ''rename''
     | RStrip _ \<Rightarrow> ''strip'' | RTimezone _ _ \<Rightarrow> ''timezone'' | RExpire _ \<Rightarrow> ''expire'' | RAlarm _ _ \<Rightarrow> ''alarm'')"

text \<open>\<open>now\<close> is what the clock of the expire rule returns; every \<^verbatim>\<open>Apply\<close> returns nil.\<close>

definition apply_rule ::
  "('re, 'l) pipe_env \<Rightarrow> go_time \<Rightarrow> ('re, 'l) rule \<Rightarrow> component \<Rightarrow>
     go_error option \<times> ('re, 'l) rule \<times> component" where
  "apply_rule env now r cal =
     (case r of
        RFilter f \<Rightarrow> (case apply_filter env f cal of (f', cal') \<Rightarrow> (None, RFilter f', cal'))
      | RDedup ks \<Rightarrow> (None, r, apply_dedup env ks cal)
      | RRename f \<Rightarrow> (case apply_rename env f cal of (f', cal') \<Rightarrow> (None, RRename f', cal'))
      | RStrip fs \<Rightarrow> (None, r, apply_strip env fs cal)
      | RTimezone target floating \<Rightarrow> (None, r, apply_timezone (pe_ical env) target floating cal)
      | RExpire maxAge \<Rightarrow> (None, r, apply_expire env now maxAge cal)
      | RAlarm lead text \<Rightarrow> (None, r, apply_alarm (pe_ical env) lead text cal))"

text \<open>\<^verbatim>\<open>Pipeline.Apply\<close>, with the rules in the state they are left in.\<close>

fun pipeline_apply ::
  "('re, 'l) pipe_env \<Rightarrow> go_time \<Rightarrow> ('re, 'l) rule list \<Rightarrow> component \<Rightarrow>
     go_error option \<times> ('re, 'l) rule list \<times> component" where
  "pipeline_apply env now [] cal = (None, [], cal)"
| "pipeline_apply env now (r # rs) cal =
     (case apply_rule env now r cal of
        (Some e, r', cal') \<Rightarrow>
          (Some (ErrWrap [Lit ''pipeline: rule '', Quo (rule_name r), Lit '': ''] e []), r' # rs, cal')
      | (None, r', cal') \<Rightarrow>
          (case pipeline_apply env now rs cal' of (e, rs', cal'') \<Rightarrow> (e, r' # rs', cal'')))"

definition rule_matched :: "('re, 'l) rule \<Rightarrow> matched_event list option" where
  "rule_matched r = (case r of RFilter f \<Rightarrow> Some (fr_matched f) | RRename f \<Rightarrow> Some (rr_matched f) | _ \<Rightarrow> None)"

record rule_match =
  rm_rule :: string
  rm_events :: "matched_event list"

definition pipeline_matches :: "('re, 'l) rule list \<Rightarrow> rule_match list" where
  "pipeline_matches rules =
     List.map_filter (\<lambda>r. case rule_matched r of
        None \<Rightarrow> None
      | Some evs \<Rightarrow> if evs \<noteq> [] then Some \<lparr>rm_rule = rule_name r, rm_events = evs\<rparr> else None) rules"


section \<open>Configuration\<close>

record rule_config =
  rc_type :: string
  rc_enabled :: "bool option"
  rc_match_mode :: string
  rc_pattern :: string
  rc_filter_mode :: string
  rc_fields :: "string list"
  rc_field :: string
  rc_replacement :: string
  rc_key_fields :: "string list"
  rc_target :: string
  rc_default_tz :: string
  rc_days :: int
  rc_minutes_before :: int
  rc_alarm_text :: string

definition BuildRule :: "('re, 'l) pipe_env \<Rightarrow> rule_config \<Rightarrow> ('re, 'l) rule result" where
  "BuildRule env c =
     (if rc_type c = ''filter'' then
        NewFilterRule env (rc_filter_mode c) (rc_match_mode c) (rc_pattern c) (rc_fields c)
      else if rc_type c = ''dedup'' then Inr (NewDedupRule env (rc_key_fields c))
      else if rc_type c = ''rename'' then
        NewRenameRule env (rc_field c) (rc_match_mode c) (rc_pattern c) (rc_replacement c)
      else if rc_type c = ''strip'' then NewStripRule env (rc_fields c)
      else if rc_type c = ''timezone'' then NewTimezoneRule env (rc_target c) (rc_default_tz c)
      else if rc_type c = ''expire'' then NewExpireRule (rc_days c)
      else if rc_type c = ''alarm'' then NewAlarmRule (rc_minutes_before c) (rc_alarm_text c)
      else Inl (ErrMsg [Lit ''pipeline: unknown rule type '', Quo (rc_type c)]))"

definition rule_enabled :: "rule_config \<Rightarrow> bool" where
  "rule_enabled c \<longleftrightarrow> rc_enabled c \<noteq> Some False"

fun build_from :: "('re, 'l) pipe_env \<Rightarrow> nat \<Rightarrow> rule_config list \<Rightarrow> ('re, 'l) rule list result" where
  "build_from env i [] = Inr []"
| "build_from env i (c # cs) =
     (if \<not> rule_enabled c then build_from env (Suc i) cs
      else case BuildRule env c of
        Inl e \<Rightarrow> Inl (wrapf (''pipeline: rule '' @ itoa (int i) @ '': '') e)
      | Inr r \<Rightarrow> (case build_from env (Suc i) cs of
           Inl e \<Rightarrow> Inl e
         | Inr rs \<Rightarrow> Inr (r # rs)))"

definition BuildPipeline :: "('re, 'l) pipe_env \<Rightarrow> rule_config list \<Rightarrow> ('re, 'l) rule list result" where
  "BuildPipeline env configs = build_from env 0 configs"

end
