(* ===== verification/Pipeline_Props.thy ===== *)
theory Pipeline_Props
  imports Pipeline
begin

text \<open>
  What the rules of the pipeline do to a calendar, and what building and applying a pipeline
  guarantees.
\<close>


section \<open>Filter\<close>

lemma filter_keep_fields [simp]:
  "fr_mode (snd (filter_keep env e r)) = fr_mode r"
  "fr_fields (snd (filter_keep env e r)) = fr_fields r"
  "fr_matcher (snd (filter_keep env e r)) = fr_matcher r"
  by (simp_all add: filter_keep_def Let_def)

lemma filter_matches_cong:
  "fr_fields r = fr_fields r' \<Longrightarrow> fr_matcher r = fr_matcher r' \<Longrightarrow>
     filter_matches env r e = filter_matches env r' e"
  by (simp add: filter_matches_def)

lemma filter_children_filter:
  "filter_children (filter_keep env) cs r =
     (filter (\<lambda>c. c_name c \<noteq> CompEvent \<or> filter_matches env r c = (fr_mode r = FilterWhitelist)) cs,
      r\<lparr>fr_matched := fr_matched r @
          map (matchedEvent env) (filter (\<lambda>c. c_name c = CompEvent \<and> filter_matches env r c) cs)\<rparr>)"
proof (induction cs arbitrary: r)
  case (Cons c cs)
  show ?case
  proof (cases "c_name c = CompEvent")
    case False
    then show ?thesis by (simp add: Cons.IH)
  next
    case True
    let ?r = "snd (filter_keep env c r)"
    have m: "filter_matches env ?r = filter_matches env r"
      by (rule ext, rule filter_matches_cong) simp_all
    have "filter_keep env c r = (fst (filter_keep env c r), ?r)" by simp
    with True show ?thesis
      using Cons.IH [of ?r] m
      by (simp add: filter_children_Cons_event case_prod_unfold Let_def)
        (auto simp: filter_keep_def Let_def)
  qed
qed simp

text \<open>The filter rule keeps every component that is no event and, in order, exactly the events
  that match (whitelist) or do not match (blacklist); what it reports to the notifier are the
  matching events of this run and nothing left from an earlier one.\<close>

theorem apply_filter_spec:
  "apply_filter env r cal =
     (r\<lparr>fr_matched := map (matchedEvent env)
          (filter (\<lambda>c. c_name c = CompEvent \<and> filter_matches env r c) (c_children cal))\<rparr>,
      with_children
        (filter (\<lambda>c. \<not> (c_name c = CompEvent \<and> filter_matches env r c \<noteq> (fr_mode r = FilterWhitelist)))
          (c_children cal)) cal)"
proof -
  have m: "filter_matches env (r\<lparr>fr_matched := []\<rparr>) = filter_matches env r"
    by (rule ext, rule filter_matches_cong) simp_all
  show ?thesis by (simp add: apply_filter_def FilterEvents_def filter_children_filter m de_Morgan_conj)
qed


section \<open>Dedup\<close>

definition event_keys :: "('re, 'l) pipe_env \<Rightarrow> string list \<Rightarrow> component list \<Rightarrow> string list" where
  "event_keys env ks cs = map (dedup_key env ks) (filter (\<lambda>c. c_name c = CompEvent) cs)"

lemma dedup_children:
  "distinct (event_keys env ks (fst (filter_children (dedup_keep env ks) cs seen))) \<and>
   set (event_keys env ks (fst (filter_children (dedup_keep env ks) cs seen))) =
     set (event_keys env ks cs) - seen"
proof (induction cs arbitrary: seen)
  case (Cons c cs)
  show ?case
  proof (cases "c_name c = CompEvent")
    case False
    then show ?thesis using Cons.IH [of seen] by (simp add: filter_children_Cons_other event_keys_def)
  next
    case True
    then show ?thesis
      using Cons.IH [of seen] Cons.IH [of "insert (dedup_key env ks c) seen"]
      by (auto simp: dedup_keep_def event_keys_def Let_def case_prod_unfold)
  qed
qed (simp add: event_keys_def)

lemma dedup_children_id:
  "distinct (event_keys env ks cs) \<Longrightarrow> set (event_keys env ks cs) \<inter> seen = {} \<Longrightarrow>
     fst (filter_children (dedup_keep env ks) cs seen) = cs"
proof (induction cs arbitrary: seen)
  case (Cons c cs)
  show ?case
  proof (cases "c_name c = CompEvent")
    case False
    with Cons show ?thesis by (simp add: filter_children_Cons_other event_keys_def)
  next
    case True
    with Cons.prems have "fst (filter_children (dedup_keep env ks) cs
        (insert (dedup_key env ks c) seen)) = cs"
      by (intro Cons.IH) (auto simp: event_keys_def)
    moreover have "dedup_keep env ks c seen = (True, insert (dedup_key env ks c) seen)"
      using True Cons.prems by (simp add: dedup_keep_def event_keys_def)
    ultimately show ?thesis using True by (simp add: Let_def case_prod_unfold)
  qed
qed simp

text \<open>After the dedup rule no two events share a key, every key that occurred still occurs, other
  components are untouched, and a second application changes nothing.\<close>

theorem apply_dedup_spec:
  "distinct (event_keys env ks (c_children (apply_dedup env ks cal))) \<and>
   set (event_keys env ks (c_children (apply_dedup env ks cal))) = set (event_keys env ks (c_children cal)) \<and>
   filter (\<lambda>c. c_name c \<noteq> CompEvent) (c_children (apply_dedup env ks cal)) =
     filter (\<lambda>c. c_name c \<noteq> CompEvent) (c_children cal) \<and>
   apply_dedup env ks (apply_dedup env ks cal) = apply_dedup env ks cal"
proof -
  let ?cs = "fst (filter_children (dedup_keep env ks) (c_children cal) {})"
  have a: "apply_dedup env ks cal' = with_children (fst (filter_children (dedup_keep env ks) (c_children cal') {})) cal'"
    for cal' by (simp add: apply_dedup_def FilterEvents_def case_prod_unfold)
  note d = dedup_children [of env ks "c_children cal" "{}"]
  from d have "fst (filter_children (dedup_keep env ks) ?cs {}) = ?cs"
    by (intro dedup_children_id) simp_all
  with d show ?thesis by (simp add: a filter_children_other with_children_def)
qed


section \<open>Strip\<close>

lemma fold_Remove_get:
  assumes "props_laws lib"
  shows "il_get lib (c_props (fold (Remove uupp lib) fs e)) n =
    (if n \<in> go_to_upper uupp ` set fs then None else il_get lib (c_props e) n)"
proof (induction fs arbitrary: e)
  case (Cons f fs)
  then show ?case
    using props_lawsD(1,2) [OF assms]
    by (cases "n = go_to_upper uupp f") (auto simp: Remove_def)
qed simp

lemma fold_Remove_children [simp]:
  "c_children (fold (Remove uupp lib) fs e) = c_children e" "c_name (fold (Remove uupp lib) fs e) = c_name e"
  by (induction fs arbitrary: e) (simp_all add: Remove_def)

text \<open>after the strip rule no event has one of the stripped fields, and every other field of every
  event reads as before.\<close>

theorem apply_strip_spec:
  assumes "props_laws (pe_ical env)" and "i < length (c_children cal)"
    and "il_is_event (pe_ical env) (c_children cal ! i)"
  shows "il_get (pe_ical env) (c_props (c_children (apply_strip env fs cal) ! i)) n =
    (if n \<in> go_to_upper (pe_upper env) ` set fs then None
     else il_get (pe_ical env) (c_props (c_children cal ! i)) n)"
  using assms by (simp add: apply_strip_def on_events_def fold_Remove_get)


section \<open>Alarm\<close>

definition is_alarm :: "component \<Rightarrow> bool" where
  "is_alarm c \<longleftrightarrow> c_name c = CompAlarm"

lemma alarm_event_props [simp]:
  "c_props (alarm_event lib lead msg e) = c_props e" "c_name (alarm_event lib lead msg e) = c_name e"
  by (simp_all add: alarm_event_def Let_def)

lemma Text_alarm_event [simp]: "Text lib (alarm_event lib lead msg e) f = Text lib e f"
  by (simp add: Text_def)

lemma alarm_event_idem: "alarm_event lib lead msg (alarm_event lib lead msg e) = alarm_event lib lead msg e"
  by (simp add: alarm_event_def [of lib lead msg "alarm_event lib lead msg e"] Let_def)
    (simp add: alarm_event_def Let_def buildAlarm_def filter_filter with_children_def)

text \<open>After the alarm rule every event carries exactly one VALARM, so a client never fires twice;
  the event's properties and its other parts are unchanged; and applying the rule again to such an
  event changes nothing.\<close>

theorem alarm_event_spec:
  "length (filter is_alarm (c_children (alarm_event lib lead msg e))) = 1 \<and>
   filter (\<lambda>c. \<not> is_alarm c) (c_children (alarm_event lib lead msg e)) =
     filter (\<lambda>c. \<not> is_alarm c) (c_children e) \<and>
   c_props (alarm_event lib lead msg e) = c_props e \<and>
   alarm_event lib lead msg (alarm_event lib lead msg e) = alarm_event lib lead msg e"
proof -
  have "filter is_alarm (filter (\<lambda>c. c_name c \<noteq> CompAlarm) cs) = []" for cs
    by (induction cs) (simp_all add: is_alarm_def)
  then show ?thesis
    by (simp add: alarm_event_idem)
      (simp add: alarm_event_def Let_def buildAlarm_def is_alarm_def)
qed

text \<open>the lead time of the alarm reads back: for any number of minutes that fits a duration the
  TRIGGER is a negated RFC 5545 duration of that many minutes, and zero is plain PT0S.\<close>

theorem alarm_trigger_reads_back:
  assumes "NewAlarmRule minutes text = Inr (RAlarm lead t)" and "minutes < 2 ^ 63 div minute"
  shows "lead = minutes * minute \<and>
    (if minutes = 0 then negativeDuration lead = ''PT0S''
     else hd (negativeDuration lead) = CHR ''-'' \<and>
          duration_minutes 0 (tl (negativeDuration lead)) = nat minutes)"
proof -
  from assms(1) have m: "0 \<le> minutes" and l: "lead = int64 (minutes * minute)"
    by (auto simp: NewAlarmRule_def split: if_splits)
  from m assms(2) have lead: "lead = minutes * minute"
    unfolding l by (intro int64_id) (auto simp: in_int64_def)
  have q: "go_quot (minutes * minute) minute = minutes" using m by (simp add: go_quot_pos)
  show ?thesis
  proof (cases "minutes = 0")
    case True
    then show ?thesis by (simp add: lead negativeDuration_def Duration_def go_quot_def)
  next
    case False
    with m have "\<not> minutes * minute < minute" by simp
    then show ?thesis using False lead Duration_reads_back [of lead] q by (simp add: negativeDuration_def)
  qed
qed


section \<open>Timezone\<close>

text \<open>A date field the rule can convert: present, with a time, and readable.\<close>

definition tz_convertible :: "'l ical_lib \<Rightarrow> 'l \<Rightarrow> component \<Rightarrow> string \<Rightarrow> bool" where
  "tz_convertible lib floating e f =
     (case il_get lib (c_props e) f of
        None \<Rightarrow> False
      | Some pr \<Rightarrow> \<not> IsDateOnly pr \<and> \<not> isl (il_datetime lib pr floating))"

lemma tz_convert_id: "\<not> tz_convertible lib floating e f \<Longrightarrow> tz_convert lib target floating f e = e"
  by (auto simp: tz_convert_def tz_convertible_def split: option.splits sum.splits)

lemma tz_convert_name [simp]: "c_name (tz_convert lib target floating f e) = c_name e"
  by (simp add: tz_convert_def Let_def split: option.splits sum.splits)

text \<open>The timezone rule never adds, drops or reorders a component, and every event whose DTSTART
  and DTEND are absent, all-day or unreadable (an unknown TZID) comes out unchanged.\<close>

theorem apply_timezone_safe:
  "map c_name (c_children (apply_timezone lib target floating cal)) = map c_name (c_children cal) \<and>
   filter (\<lambda>(e, e'). \<not> tz_convertible lib floating e FieldDTStart \<and>
       \<not> tz_convertible lib floating e FieldDTEnd \<and> e' \<noteq> e)
     (zip (c_children cal) (c_children (apply_timezone lib target floating cal))) = []"
  by (auto simp: apply_timezone_def on_events_def filter_empty_conv set_zip tz_convert_id
      split: if_splits) (metis tz_convert_id)


section \<open>Expire\<close>

text \<open>The expire rule drops an event exactly when its series is bounded and ended before the
  cutoff; an open-ended series is always kept. For up to 106751 days the cutoff is that many days
  before now.\<close>

theorem expire_spec:
  assumes "NewExpireRule days = Inr (RExpire maxAge)" and "days \<le> 106751"
  shows "apply_expire env now maxAge cal = with_children
    (filter (\<lambda>c. c_name c \<noteq> CompEvent \<or> \<not> snd (LastOccurrence (pe_ical env) (pe_utc env) c) \<or>
       now - days * (24 * hour) \<le> fst (LastOccurrence (pe_ical env) (pe_utc env) c)) (c_children cal)) cal"
proof -
  from assms have d: "0 < days" and m: "maxAge = int64 (int64 (days * 24) * hour)"
    by (auto simp: NewExpireRule_def split: if_splits)
  have "int64 (days * 24) = days * 24" using d assms(2) by (intro int64_id) (simp add: in_int64_def)
  moreover have "int64 (days * 24 * hour) = days * 24 * hour"
    using d assms(2) by (intro int64_id) (simp add: in_int64_def)
  ultimately have "maxAge = days * 24 * hour" by (simp add: m)
  moreover from this have "int64 (- maxAge) = - maxAge"
    using d assms(2) by (intro int64_id) (simp add: in_int64_def)
  ultimately have c: "time_add now (int64 (- maxAge)) = now - days * (24 * hour)"
    by (simp add: time_add_def)
  have "expire_keep env (now - days * (24 * hour)) e \<longleftrightarrow>
      \<not> snd (LastOccurrence (pe_ical env) (pe_utc env) e) \<or>
      now - days * (24 * hour) \<le> fst (LastOccurrence (pe_ical env) (pe_utc env) e)" for e
    by (auto simp: expire_keep_def go_simps split: prod.splits)
  then show ?thesis
    unfolding apply_expire_def Let_def c
    by (simp add: FilterEvents_def filter_children_pure)
qed

text \<open>with 200000 days the duration wraps around: the rule is accepted, but its cutoff lies in
  the future, so it drops an event that ends right now.\<close>

theorem expire_overflow:
  "\<exists>maxAge. NewExpireRule 200000 = Inr (RExpire maxAge) \<and> maxAge < 0 \<and>
     now < time_add now (int64 (- maxAge))"
  by (simp add: NewExpireRule_def int64_def time_add_def)


section \<open>Building and running a pipeline\<close>

lemma build_from_enabled:
  "(\<exists>rs. build_from env i cs = Inr rs \<and> build_from env j (filter rule_enabled cs) = Inr rs) \<or>
   (isl (build_from env i cs) \<and> isl (build_from env j (filter rule_enabled cs)))"
proof (induction cs arbitrary: i j)
  case (Cons c cs)
  show ?case
  proof (cases "rule_enabled c")
    case False
    then show ?thesis using Cons.IH [of "Suc i" j] by simp
  next
    case True
    then show ?thesis
      using Cons.IH [of "Suc i" "Suc j"] by (auto split: sum.splits)
  qed
qed simp

text \<open>a disabled rule is as good as absent: a configuration builds the same pipeline as the list
  of its enabled rules, and is rejected exactly when that list is rejected, so a broken disabled
  rule never blocks a feed.\<close>

theorem BuildPipeline_ignores_disabled:
  "(case BuildPipeline env configs of Inl _ \<Rightarrow> None | Inr rs \<Rightarrow> Some rs) =
   (case BuildPipeline env (filter rule_enabled configs) of Inl _ \<Rightarrow> None | Inr rs \<Rightarrow> Some rs)"
  using build_from_enabled [of env 0 configs 0]
  by (auto simp: BuildPipeline_def split: sum.splits)

lemma apply_rule_ok: "fst (apply_rule env now r cal) = None"
  by (cases r) (auto simp: apply_rule_def split: prod.splits)

text \<open>running a pipeline never fails, and a pipeline made of two parts runs the first part and
  then the second on its outcome.\<close>

theorem pipeline_apply_compose:
  "fst (pipeline_apply env now rs cal) = None \<and>
   snd (snd (pipeline_apply env now (rs @ qs) cal)) =
     snd (snd (pipeline_apply env now qs (snd (snd (pipeline_apply env now rs cal)))))"
proof -
  have ok: "fst (pipeline_apply env now rs cal) = None" for cal
  proof (induction rs arbitrary: cal)
    case (Cons r rs)
    then show ?case
      using apply_rule_ok [of env now r cal]
      by (auto split: prod.splits option.splits) (metis fst_conv)
  qed simp
  have "snd (snd (pipeline_apply env now (rs @ qs) cal)) =
     snd (snd (pipeline_apply env now qs (snd (snd (pipeline_apply env now rs cal)))))" for cal
  proof (induction rs arbitrary: cal)
    case (Cons r rs)
    obtain r' cal' where a: "apply_rule env now r cal = (None, r', cal')"
      using apply_rule_ok [of env now r cal] by (metis prod.collapse)
    then show ?case using Cons.IH [of cal'] by (simp add: case_prod_unfold)
  qed simp
  with ok show ?thesis by blast
qed

text \<open>an empty or blank pattern is rejected for a filter and for a rename, so no stored rule can
  silently match every event.\<close>

theorem blank_pattern_rejected:
  assumes "go_trim_space (rc_pattern c) = []" and "rc_type c = ''filter'' \<or> rc_type c = ''rename''"
  shows "isl (BuildRule env c)"
  using assms by (auto simp: BuildRule_def NewFilterRule_def NewRenameRule_def Let_def)


section \<open>Concrete inputs\<close>

definition sample_tz :: "unit tz_lib" where
  "sample_tz = \<lparr>tz_load = (\<lambda>n. Inr ()), tz_zone = (\<lambda>_ _. (''UTC'', 0)), tz_dst = (\<lambda>_ _. False)\<rparr>"

text \<open>Literal patterns as the regular expressions.\<close>

definition literal_regex :: "string regex_lib" where
  "literal_regex = \<lparr>re_compile = Inr, re_match = (\<lambda>re s. go_contains s re),
     re_replace = (\<lambda>re s r. r), re_replace_literal = (\<lambda>re s r. r), re_quote = id\<rparr>"

definition sample_env :: "(string, unit) pipe_env" where
  "sample_env = \<lparr>pe_ical = sample_ical, pe_re = literal_regex, pe_tz = sample_tz,
     pe_lower = id, pe_upper = id, pe_utc = ()\<rparr>"

definition empty_config :: rule_config where
  "empty_config = \<lparr>rc_type = [], rc_enabled = None, rc_match_mode = [], rc_pattern = [],
     rc_filter_mode = [], rc_fields = [], rc_field = [], rc_replacement = [], rc_key_fields = [],
     rc_target = [], rc_default_tz = [], rc_days = 0, rc_minutes_before = 0, rc_alarm_text = []\<rparr>"

lemma apply_strip_spec_witness:
  "il_get (pe_ical sample_env) (c_props (c_children (apply_strip sample_env [''LOCATION'']
     (Component ''VCALENDAR'' [] [sample_event [(''LOCATION'', ''x''), (''SUMMARY'', ''y'')]])) ! 0)) ''LOCATION'' = None"
proof -
  let ?cal = "Component ''VCALENDAR'' [] [sample_event [(''LOCATION'', ''x''), (''SUMMARY'', ''y'')]]"
  have "props_laws (pe_ical sample_env)" by (simp add: sample_env_def sample_ical_laws)
  moreover have "il_is_event (pe_ical sample_env) (c_children ?cal ! 0)"
    by (simp add: sample_env_def sample_ical_def sample_event_def)
  moreover have "go_to_upper (pe_upper sample_env) ''LOCATION'' = ''LOCATION''" by code_simp
  ultimately show ?thesis
    using apply_strip_spec [of sample_env 0 ?cal "[''LOCATION'']" "''LOCATION''"] by simp
qed

lemma alarm_trigger_reads_back_witness:
  "duration_minutes 0 (tl (negativeDuration (360 * minute))) = 360"
proof -
  have "NewAlarmRule 360 [] = (Inr (RAlarm (360 * minute) []) :: (string, unit) rule result)"
    by (simp add: NewAlarmRule_def int64_def)
  from alarm_trigger_reads_back [OF this] show ?thesis by simp
qed

lemma expire_spec_witness:
  "apply_expire sample_env 0 (30 * (24 * hour)) (Component ''VCALENDAR'' [] [sample_event []]) =
     Component ''VCALENDAR'' [] [sample_event []]"
proof -
  have "NewExpireRule 30 = (Inr (RExpire (30 * (24 * hour))) :: (string, unit) rule result)"
    by (simp add: NewExpireRule_def int64_def)
  from expire_spec [OF this, of sample_env 0 "Component ''VCALENDAR'' [] [sample_event []]"]
  show ?thesis
    by (simp add: LastOccurrence_def sample_env_def sample_Raw FieldRRule_def FieldRDate_def)
      (simp add: sample_ical_def with_children_def time_is_zero_def)
qed

lemma blank_pattern_rejected_witness:
  "isl (BuildRule sample_env (empty_config\<lparr>rc_type := ''filter'', rc_pattern := '' ''\<rparr>))"
proof (rule blank_pattern_rejected)
  have "go_trim_space '' '' = []" by code_simp
  then show "go_trim_space (rc_pattern (empty_config\<lparr>rc_type := ''filter'', rc_pattern := '' ''\<rparr>)) = []"
    by simp
qed simp

end
