(* ===== verification/Store_Tables.thy ===== *)
theory Store_Tables
  imports Go_Time_Order
begin

text \<open>
  The parts of \<^verbatim>\<open>internal/store\<close> the feed pipeline rests on: timestamps, table scans, the feed cache
  and the notification ledger. A table is the list of its rows; the
  SQL of a method is written out as the change it makes to the rows (\<^verbatim>\<open>ON CONFLICT\<close>, \<^verbatim>\<open>INSERT OR
  IGNORE\<close>, the \<^verbatim>\<open>WHERE\<close> clauses), and timestamps are the RFC 3339 texts the methods bind. SQLite itself
  (I/O errors, locking) is not modelled; where an error of the store matters, the client's
  interface carries it.
\<close>

definition ErrNotFound :: go_error where "ErrNotFound = ErrNew ''store: not found''"


section \<open>Timestamps\<close>

definition parseTime :: "string \<Rightarrow> go_time" where
  "parseTime s = (case go_parse LayoutRFC3339 s of Some t \<Rightarrow> t | None \<Rightarrow> 0)"

definition formatTime :: "go_time \<Rightarrow> string" where
  "formatTime t = (if time_is_zero t then [] else stamp t)"

lemma parseTime_stamp: "plain_year t \<Longrightarrow> parseTime (stamp t) = unix_secs t * 1000000000"
  by (simp add: parseTime_def stamp_parse)

lemma stamp_le_iff: "plain_year t \<Longrightarrow> plain_year u \<Longrightarrow> stamp t \<le> stamp u \<longleftrightarrow> unix_secs t \<le> unix_secs u"
  by (simp add: stamp_less_iff not_less [symmetric])


section \<open>Tables\<close>

text \<open>\<^verbatim>\<open>SELECT ... WHERE key = ?\<close>, \<^verbatim>\<open>DELETE WHERE\<close> with the number of rows removed.\<close>

definition select_one :: "('r \<Rightarrow> bool) \<Rightarrow> 'r list \<Rightarrow> 'r result" where
  "select_one p rows = (case List.find p rows of Some r \<Rightarrow> Inr r | None \<Rightarrow> Inl ErrNotFound)"

definition delete_where :: "('r \<Rightarrow> bool) \<Rightarrow> 'r list \<Rightarrow> nat \<times> 'r list" where
  "delete_where p rows = (length (filter p rows), filter (\<lambda>r. \<not> p r) rows)"

lemma select_one_filter: "(\<And>r. p r \<Longrightarrow> q r) \<Longrightarrow> select_one p (filter q rows) = select_one p rows"
  by (induction rows) (auto simp: select_one_def)


section \<open>The feed cache\<close>

record cached_feed =
  cf_key :: string
  cf_url :: string
  cf_body :: bytes
  cf_etag :: string
  cf_fetched_at :: go_time

record cache_row =
  cr_key :: string
  cr_url :: string
  cr_body :: bytes
  cr_etag :: string
  cr_fetched_at :: string

definition GetCachedFeed :: "string \<Rightarrow> cache_row list \<Rightarrow> cached_feed result" where
  "GetCachedFeed key rows =
     (case select_one (\<lambda>r. cr_key r = key) rows of
        Inl e \<Rightarrow> Inl e
      | Inr r \<Rightarrow> Inr \<lparr>cf_key = cr_key r, cf_url = cr_url r, cf_body = cr_body r, cf_etag = cr_etag r,
                      cf_fetched_at = parseTime (cr_fetched_at r)\<rparr>)"

text \<open>\<^verbatim>\<open>ORDER BY fetched_at DESC LIMIT 1\<close>: the largest text.\<close>

definition CachedFeedFetchedAt :: "string \<Rightarrow> cache_row list \<Rightarrow> go_time" where
  "CachedFeedFetchedAt url rows =
     (case map cr_fetched_at (filter (\<lambda>r. cr_url r = url) rows) of
        [] \<Rightarrow> 0
      | t # ts \<Rightarrow> parseTime (fold max ts t))"

definition PutCachedFeed :: "go_time \<Rightarrow> cached_feed \<Rightarrow> cache_row list \<Rightarrow> cache_row list" where
  "PutCachedFeed now cf rows =
     (let fetched = (if time_is_zero (cf_fetched_at cf) then now else cf_fetched_at cf);
          key = (if cf_key cf = [] then cf_url cf else cf_key cf);
          row = \<lparr>cr_key = key, cr_url = cf_url cf, cr_body = cf_body cf, cr_etag = cf_etag cf,
                 cr_fetched_at = stamp fetched\<rparr>
      in if list_ex (\<lambda>r. cr_key r = key) rows
         then map (\<lambda>r. if cr_key r = key then row else r) rows
         else rows @ [row])"

definition DeleteCachedFeedsBefore :: "go_time \<Rightarrow> cache_row list \<Rightarrow> nat \<times> cache_row list" where
  "DeleteCachedFeedsBefore cutoff = delete_where (\<lambda>r. cr_fetched_at r < stamp cutoff)"

lemma find_map_upsert:
  "list_ex (\<lambda>r. cr_key r = key) rows \<Longrightarrow> cr_key row = key \<Longrightarrow>
     List.find (\<lambda>r. cr_key r = key) (map (\<lambda>r. if cr_key r = key then row else r) rows) = Some row"
  by (induction rows) auto

lemma find_map_other:
  "cr_key row = key \<Longrightarrow> key' \<noteq> key \<Longrightarrow>
     List.find (\<lambda>r. cr_key r = key') (map (\<lambda>r. if cr_key r = key then row else r) rows) =
     List.find (\<lambda>r. cr_key r = key') rows"
  by (induction rows) auto

lemma find_append_new:
  "\<not> list_ex p rows \<Longrightarrow> List.find p (rows @ [row]) = (if p row then Some row else None)"
  by (induction rows) auto

lemma find_append_other: "\<not> p row \<Longrightarrow> List.find p (rows @ [row]) = List.find p rows"
  by (induction rows) auto

lemma GetCachedFeed_Put_same:
  assumes "cf_key cf = key" and "key \<noteq> []" and "plain_year (cf_fetched_at cf)"
    and "cf_fetched_at cf \<noteq> 0"
  shows "GetCachedFeed key (PutCachedFeed now cf rows) =
    Inr (cf\<lparr>cf_fetched_at := unix_secs (cf_fetched_at cf) * 1000000000\<rparr>)"
  using assms
  by (cases "list_ex (\<lambda>r. cr_key r = key) rows")
    (auto simp: GetCachedFeed_def PutCachedFeed_def select_one_def find_map_upsert find_append_new
      time_is_zero_def parseTime_stamp Let_def)

lemma GetCachedFeed_Put_other:
  assumes "key' \<noteq> (if cf_key cf = [] then cf_url cf else cf_key cf)"
  shows "GetCachedFeed key' (PutCachedFeed now cf rows) = GetCachedFeed key' rows"
  using assms
  by (auto simp: GetCachedFeed_def PutCachedFeed_def select_one_def Let_def find_map_other
      find_append_other)


section \<open>The notification ledger\<close>

record notified_row =
  nr_feed :: string
  nr_key :: string
  nr_at :: string

definition nr_is :: "string \<Rightarrow> string \<Rightarrow> notified_row \<Rightarrow> bool" where
  "nr_is feed key r \<longleftrightarrow> nr_feed r = feed \<and> nr_key r = key"

definition IsNotified :: "string \<Rightarrow> string \<Rightarrow> notified_row list \<Rightarrow> bool" where
  "IsNotified feed key rows = list_ex (nr_is feed key) rows"

definition MarkNotified ::
  "go_time \<Rightarrow> string \<Rightarrow> string \<Rightarrow> notified_row list \<Rightarrow> bool \<times> notified_row list" where
  "MarkNotified now feed key rows =
     (if list_ex (nr_is feed key) rows then
        (False, map (\<lambda>r. if nr_is feed key r then r\<lparr>nr_at := stamp now\<rparr> else r) rows)
      else (True, rows @ [\<lparr>nr_feed = feed, nr_key = key, nr_at = stamp now\<rparr>]))"

definition UnmarkNotified :: "string \<Rightarrow> string \<Rightarrow> notified_row list \<Rightarrow> notified_row list" where
  "UnmarkNotified feed key rows = filter (\<lambda>r. \<not> nr_is feed key r) rows"

definition DeleteNotifiedBefore :: "go_time \<Rightarrow> notified_row list \<Rightarrow> nat \<times> notified_row list" where
  "DeleteNotifiedBefore cutoff = delete_where (\<lambda>r. nr_at r < stamp cutoff)"

lemma nr_is_touch [simp]: "nr_is f k (r\<lparr>nr_at := t\<rparr>) = nr_is f k r"
  by (simp add: nr_is_def)

lemma list_ex_touch:
  "list_ex (nr_is f k) (map (\<lambda>r. if q r then r\<lparr>nr_at := t\<rparr> else r) rows) = list_ex (nr_is f k) rows"
  by (induction rows) auto

lemma MarkNotified_entry:
  "\<exists>r\<in>set (snd (MarkNotified now feed key rows)). nr_is feed key r \<and> nr_at r = stamp now"
proof (cases "list_ex (nr_is feed key) rows")
  case True
  then have "\<exists>r\<in>set (map (\<lambda>r. if nr_is feed key r then r\<lparr>nr_at := stamp now\<rparr> else r) rows).
      nr_is feed key r \<and> nr_at r = stamp now"
    by (induction rows) auto
  with True show ?thesis by (simp add: MarkNotified_def)
next
  case False
  then show ?thesis by (simp add: MarkNotified_def nr_is_def)
qed

lemma IsNotified_Mark:
  "IsNotified f k (snd (MarkNotified now feed key rows)) \<longleftrightarrow> (f = feed \<and> k = key) \<or> IsNotified f k rows"
  by (auto simp: IsNotified_def MarkNotified_def list_ex_touch) (auto simp: list_ex_iff nr_is_def)

lemma MarkNotified_fst: "fst (MarkNotified now feed key rows) \<longleftrightarrow> \<not> IsNotified feed key rows"
  by (simp add: MarkNotified_def IsNotified_def)

lemma IsNotified_Unmark:
  "IsNotified f k (UnmarkNotified feed key rows) \<longleftrightarrow> IsNotified f k rows \<and> \<not> (f = feed \<and> k = key)"
  by (auto simp: IsNotified_def UnmarkNotified_def list_ex_iff nr_is_def)

text \<open>The ledger and its pruning: an entry seen again keeps being fresh, so pruning with a cutoff
  not after the sighting keeps it, and it is never reported as new a second time.\<close>

theorem notified_refresh_survives_prune:
  assumes "plain_year now" and "plain_year cutoff" and "cutoff \<le> now"
  shows "\<not> fst (MarkNotified later feed key
    (snd (DeleteNotifiedBefore cutoff (snd (MarkNotified now feed key rows)))))"
proof -
  have "unix_secs cutoff \<le> unix_secs now" using assms(3) by (simp add: unix_secs_def zdiv_mono1)
  then have "\<not> stamp now < stamp cutoff" using assms(1,2) by (simp add: stamp_less_iff)
  moreover obtain r where "r \<in> set (snd (MarkNotified now feed key rows))" "nr_is feed key r"
    "nr_at r = stamp now"
    using MarkNotified_entry by blast
  ultimately have "IsNotified feed key (snd (DeleteNotifiedBefore cutoff (snd (MarkNotified now feed key rows))))"
    by (auto simp: IsNotified_def DeleteNotifiedBefore_def delete_where_def list_ex_iff)
  then show ?thesis by (simp add: MarkNotified_fst)
qed


section \<open>Concrete inputs\<close>

lemma notified_refresh_survives_prune_witness:
  "\<not> fst (MarkNotified 0 ''f'' ''k'' (snd (DeleteNotifiedBefore new_year
     (snd (MarkNotified (new_year + second) ''f'' ''k'' [])))))"
  using notified_refresh_survives_prune [OF new_year_plain(2,1)] by simp

end
