(* ===== verification/Redact.thy ===== *)
theory Redact
  imports Go_URL
begin

text \<open>
  The masking of \<^verbatim>\<open>internal/outbound/outbound.go\<close>: \<^verbatim>\<open>RedactURL\<close> and \<^verbatim>\<open>RedactError\<close>, over the parts
  of \<^verbatim>\<open>net/url\<close> they need beyond \<open>Go_URL\<close>: the userinfo, the query, the raw path, and printing with
  \<^verbatim>\<open>URL.Redacted\<close>.
\<close>


section \<open>Parsing with all parts\<close>

record full_url =
  fu_scheme :: string
  fu_opaque :: string
  fu_user :: "(string \<times> string option) option"
  fu_host :: string
  fu_path :: string
  fu_raw_path :: string
  fu_omit_host :: bool
  fu_force_query :: bool
  fu_raw_query :: string
  fu_fragment :: string

definition read_userinfo :: "string \<Rightarrow> (string \<times> string option) option" where
  "read_userinfo ui =
     (if \<not> valid_userinfo ui then None
      else if CHR '':'' \<notin> set ui then map_option (\<lambda>u. (u, None)) (unescape EncUserPassword ui)
      else case cut_char (CHR '':'') ui of (user, pass, found) \<Rightarrow>
        (case (unescape EncUserPassword user, unescape EncUserPassword pass) of
           (Some u, Some p) \<Rightarrow> Some (u, Some p)
         | _ \<Rightarrow> None))"

definition read_authority :: "string \<Rightarrow> ((string \<times> string option) option \<times> string) option" where
  "read_authority a =
     (case last_index (CHR ''@'') a of
        None \<Rightarrow> map_option (Pair None) (parse_host a)
      | Some i \<Rightarrow>
          (case (parse_host (drop (i + 1) a), read_userinfo (take i a)) of
             (Some h, Some u) \<Rightarrow> Some (Some u, h)
           | _ \<Rightarrow> None))"

text \<open>\<^verbatim>\<open>shouldEscape\<close> and \<^verbatim>\<open>escape\<close>.\<close>

definition alnum :: "char \<Rightarrow> bool" where
  "alnum c \<longleftrightarrow> is_alpha c \<or> is_digit c"

definition should_escape :: "escape_mode \<Rightarrow> char \<Rightarrow> bool" where
  "should_escape m c =
     (if alnum c then False
      else if (m = EncHost \<or> m = EncZone) \<and> (c \<in> set ''!$&()*+,;=:[]<>'' \<or> c = CHR 0x27 \<or> c = CHR 0x22) then False
      else if c \<in> set ''-_.~'' then False
      else if c \<in> set ''$&+,/:;=?@'' then
        (case m of
           EncPath \<Rightarrow> c = CHR ''?''
         | EncPathSegment \<Rightarrow> c \<in> set ''/;,?''
         | EncUserPassword \<Rightarrow> c \<in> set ''@/?:''
         | EncFragment \<Rightarrow> False
         | _ \<Rightarrow> True)
      else if m = EncFragment then \<not> (c \<in> set ''!()*'')
      else True)"

definition upper_hex :: "nat \<Rightarrow> char" where
  "upper_hex n = ''0123456789ABCDEF'' ! (n mod 16)"

definition escape :: "escape_mode \<Rightarrow> string \<Rightarrow> string" where
  "escape m s = concat (map (\<lambda>c. if should_escape m c
     then [CHR ''%'', upper_hex (of_char c div 16), upper_hex (of_char c)] else [c]) s)"

definition no_url :: full_url where
  "no_url = \<lparr>fu_scheme = [], fu_opaque = [], fu_user = None, fu_host = [], fu_path = [], fu_raw_path = [],
     fu_omit_host = False, fu_force_query = False, fu_raw_query = [], fu_fragment = []\<rparr>"

text \<open>\<^verbatim>\<open>setPath\<close> keeps the raw form when it is not the default encoding.\<close>

definition set_path :: "string \<Rightarrow> full_url \<Rightarrow> full_url option" where
  "set_path p u =
     map_option (\<lambda>path. u\<lparr>fu_path := path, fu_raw_path := (if escape EncPath path = p then [] else p)\<rparr>)
       (unescape EncPath p)"

definition full_rest :: "string \<Rightarrow> full_url \<Rightarrow> full_url option" where
  "full_rest rest u =
     (let scheme = fu_scheme u in
      if \<not> has_prefix rest ''/'' \<and> scheme \<noteq> [] then Some (u\<lparr>fu_opaque := rest\<rparr>)
      else if \<not> has_prefix rest ''/'' \<and> CHR '':'' \<in> set (fst (cut_char (CHR ''/'') rest)) then None
      else if (scheme \<noteq> [] \<or> \<not> has_prefix rest ''///'') \<and> has_prefix rest ''//'' then
        (let a = drop 2 rest; auth = takeWhile (\<lambda>c. c \<noteq> CHR ''/'') a in
         case read_authority auth of
           None \<Rightarrow> None
         | Some (user, h) \<Rightarrow> set_path (drop (length auth) a) (u\<lparr>fu_user := user, fu_host := h\<rparr>))
      else set_path rest (u\<lparr>fu_omit_host := (scheme \<noteq> [] \<and> has_prefix rest ''/'')\<rparr>))"

definition full_query :: "string \<Rightarrow> full_url \<Rightarrow> string \<times> full_url" where
  "full_query s u =
     (if has_suffix s ''?'' \<and> count_list s (CHR ''?'') = 1 then (butlast s, u\<lparr>fu_force_query := True\<rparr>)
      else case cut_char (CHR ''?'') s of (rest, q, found) \<Rightarrow> (rest, u\<lparr>fu_raw_query := q\<rparr>))"

definition full_no_fragment :: "string \<Rightarrow> full_url option" where
  "full_no_fragment raw =
     (if has_ctl_byte raw then None
      else if raw = ''*'' then Some (no_url\<lparr>fu_path := ''*''\<rparr>)
      else case get_scheme raw of
             None \<Rightarrow> None
           | Some (scheme, s) \<Rightarrow>
               (case full_query s (no_url\<lparr>fu_scheme := map lower_char scheme\<rparr>) of (rest, u) \<Rightarrow> full_rest rest u))"

definition full_parse :: "string \<Rightarrow> full_url option" where
  "full_parse raw =
     (case cut_char (CHR ''#'') raw of (u, frag, found) \<Rightarrow>
        (case full_no_fragment u of
           None \<Rightarrow> None
         | Some r \<Rightarrow> map_option (\<lambda>f. r\<lparr>fu_fragment := f\<rparr>) (unescape EncFragment frag)))"


section \<open>Printing\<close>

definition valid_encoded :: "escape_mode \<Rightarrow> string \<Rightarrow> bool" where
  "valid_encoded m s \<longleftrightarrow>
     list_all (\<lambda>c. c \<in> set ''!$&()*+,;=:@[]%'' \<or> c = CHR 0x27 \<or> \<not> should_escape m c) s"

definition escaped_path :: "full_url \<Rightarrow> string" where
  "escaped_path u =
     (if fu_raw_path u \<noteq> [] \<and> valid_encoded EncPath (fu_raw_path u) \<and>
         unescape EncPath (fu_raw_path u) = Some (fu_path u) then fu_raw_path u
      else if fu_path u = ''*'' then ''*''
      else escape EncPath (fu_path u))"

definition userinfo_string :: "string \<times> string option \<Rightarrow> string" where
  "userinfo_string ui =
     escape EncUserPassword (fst ui) @
     (case snd ui of None \<Rightarrow> [] | Some p \<Rightarrow> '':'' @ escape EncUserPassword p)"

definition authority_string :: "full_url \<Rightarrow> string" where
  "authority_string u =
     (if fu_scheme u \<noteq> [] \<or> fu_host u \<noteq> [] \<or> fu_user u \<noteq> None then
        (if fu_omit_host u \<and> fu_host u = [] \<and> fu_user u = None then []
         else (if fu_host u \<noteq> [] \<or> fu_path u \<noteq> [] \<or> fu_user u \<noteq> None then ''//'' else []) @
              (case fu_user u of None \<Rightarrow> [] | Some ui \<Rightarrow> userinfo_string ui @ ''@'') @
              (if fu_host u \<noteq> [] then escape EncHost (fu_host u) else []))
      else [])"

definition url_string :: "full_url \<Rightarrow> string" where
  "url_string u =
     (let start = (if fu_scheme u \<noteq> [] then fu_scheme u @ '':'' else []);
          body = (if fu_opaque u \<noteq> [] then start @ fu_opaque u
            else (let buf = start @ authority_string u; path = escaped_path u;
                      buf = (if path \<noteq> [] \<and> \<not> has_prefix path ''/'' \<and> fu_host u \<noteq> [] then buf @ ''/'' else buf);
                      buf = (if buf = [] \<and> CHR '':'' \<in> set (fst (cut_char (CHR ''/'') path)) then buf @ ''./'' else buf)
                  in buf @ path))
      in body @ (if fu_force_query u \<or> fu_raw_query u \<noteq> [] then ''?'' @ fu_raw_query u else []) @
         (if fu_fragment u \<noteq> [] then ''#'' @ escape EncFragment (fu_fragment u) else []))"

text \<open>\<^verbatim>\<open>URL.Redacted\<close>: a password is replaced before printing.\<close>

definition redacted :: "full_url \<Rightarrow> string" where
  "redacted u =
     url_string (case fu_user u of
        Some (name, Some _) \<Rightarrow> u\<lparr>fu_user := Some (name, Some ''xxxxx'')\<rparr>
      | _ \<Rightarrow> u)"


section \<open>Redaction\<close>

definition RedactURL :: "string \<Rightarrow> string" where
  "RedactURL raw =
     (case full_parse raw of
        None \<Rightarrow> ''[redacted]''
      | Some u \<Rightarrow> redacted (u\<lparr>fu_raw_query := [], fu_fragment := []\<rparr>))"

text \<open>\<^verbatim>\<open>strings.ReplaceAll\<close> of a non-empty text; the number counts the bytes of a match still to skip.\<close>

fun replace_from :: "nat \<Rightarrow> string \<Rightarrow> string \<Rightarrow> string \<Rightarrow> string" where
  "replace_from n old new [] = []"
| "replace_from (Suc n) old new (c # s) = replace_from n old new s"
| "replace_from 0 old new (c # s) =
     (if has_prefix (c # s) old then new @ replace_from (length old - 1) old new s
      else c # replace_from 0 old new s)"

definition replace_all :: "string \<Rightarrow> string \<Rightarrow> string \<Rightarrow> string" where
  "replace_all s old new = replace_from 0 old new s"

text \<open>\<open>as_url\<close> is \<^verbatim>\<open>errors.As\<close> for a \<^verbatim>\<open>*url.Error\<close>, with the error it holds; every caller passes an error,
  never \<^verbatim>\<open>nil\<close>.\<close>

definition RedactError ::
  "(go_error \<Rightarrow> string) \<Rightarrow> (go_error \<Rightarrow> go_error option) \<Rightarrow> go_error \<Rightarrow> string \<Rightarrow> go_error" where
  "RedactError msg as_url err raw =
     (if raw = [] \<or> \<not> go_contains (msg err) raw
      then (case as_url err of Some inner \<Rightarrow> inner | None \<Rightarrow> err)
      else ErrNew (replace_all (msg err) raw (RedactURL raw)))"


section \<open>Both readings of a URL agree\<close>

definition short_url :: "full_url \<Rightarrow> url" where
  "short_url u = \<lparr>url_scheme = fu_scheme u, url_opaque = fu_opaque u, url_host = fu_host u, url_path = fu_path u\<rparr>"

lemma cut_char_absent: "c \<notin> set s \<Longrightarrow> cut_char c s = (s, [], False)"
  by (induction s) auto

lemma read_userinfo_short: "read_userinfo ui = None \<longleftrightarrow> parse_userinfo ui = None"
  by (cases "CHR '':'' \<in> set ui")
    (auto simp: read_userinfo_def parse_userinfo_def cut_char_absent split: prod.splits option.splits)

lemma read_authority_short: "map_option snd (read_authority a) = parse_authority a"
  using read_userinfo_short [of "take (the (last_index (CHR ''@'') a)) a"]
  by (auto simp: read_authority_def parse_authority_def option.map_comp comp_def option.map_ident split: option.splits)

lemma set_path_short:
  "map_option short_url (set_path p u) =
     map_option (\<lambda>path. (short_url u)\<lparr>url_path := path\<rparr>) (unescape EncPath p)"
  by (cases "unescape EncPath p") (simp_all add: set_path_def short_url_def)

lemma full_query_short:
  "fst (full_query s u) = cut_query s" "short_url (snd (full_query s u)) = short_url u"
  "fu_scheme (snd (full_query s u)) = fu_scheme u" "fu_opaque (snd (full_query s u)) = fu_opaque u"
  "fu_host (snd (full_query s u)) = fu_host u" "fu_path (snd (full_query s u)) = fu_path u"
  by (auto simp: full_query_def cut_query_def short_url_def split: prod.splits)

lemma full_rest_short:
  assumes "fu_opaque u = []" and "fu_host u = []" and "fu_path u = []"
  shows "map_option short_url (full_rest rest u) = parse_rest (fu_scheme u) rest"
proof -
  have auth: "map_option short_url (case read_authority auth of None \<Rightarrow> None
      | Some (user, h) \<Rightarrow> set_path p (u\<lparr>fu_user := user, fu_host := h\<rparr>)) =
    (case parse_authority auth of None \<Rightarrow> None | Some h \<Rightarrow> url_with_path (fu_scheme u) h p)" for auth p
    using assms
    by (cases "read_authority auth")
      (auto simp flip: read_authority_short simp: set_path_short url_with_path_def short_url_def
        split: prod.split)
  show ?thesis
    using assms
    by (simp add: full_rest_def parse_rest_def Let_def auth set_path_short url_with_path_def)
      (simp add: short_url_def)
qed

lemma full_parse_short: "map_option short_url (full_parse raw) = url_parse raw"
proof -
  have nf: "map_option short_url (full_no_fragment r) = parse_no_fragment r" for r
  proof (cases "get_scheme r")
    case None
    then show ?thesis by (simp add: full_no_fragment_def parse_no_fragment_def short_url_def no_url_def)
  next
    case (Some ss)
    obtain scheme s where ss: "ss = (scheme, s)" by fastforce
    let ?u = "no_url\<lparr>fu_scheme := map lower_char scheme\<rparr>"
    have "map_option short_url (full_rest (fst (full_query s ?u)) (snd (full_query s ?u))) =
        parse_rest (map lower_char scheme) (cut_query s)"
      using full_rest_short [of "snd (full_query s ?u)" "cut_query s"] by (simp add: full_query_short no_url_def)
    then show ?thesis
      using Some ss by (simp add: full_no_fragment_def parse_no_fragment_def short_url_def no_url_def case_prod_unfold)
  qed
  show ?thesis
  proof (cases "full_no_fragment (fst (cut_char (CHR ''#'') raw))")
    case None
    then show ?thesis
      using nf [of "fst (cut_char (CHR ''#'') raw)"]
      by (auto simp: full_parse_def url_parse_def split: prod.split)
  next
    case (Some r)
    then show ?thesis
      using nf [of "fst (cut_char (CHR ''#'') raw)"]
      by (cases "unescape EncFragment (fst (snd (cut_char (CHR ''#'') raw)))")
        (auto simp: full_parse_def url_parse_def short_url_def split: prod.split option.split)
  qed
qed


section \<open>Links with an account and a secret query\<close>

definition unreserved :: "char \<Rightarrow> bool" where
  "unreserved c \<longleftrightarrow> alnum c \<or> c \<in> set ''-_.~''"

definition path_char :: "char \<Rightarrow> bool" where
  "path_char c \<longleftrightarrow> unreserved c \<or> c = CHR ''/''"

definition ctl_char :: "char \<Rightarrow> bool" where
  "ctl_char c \<longleftrightarrow> (of_char c :: nat) < 32 \<or> c = CHR 0x7F"

definition query_char :: "char \<Rightarrow> bool" where
  "query_char c \<longleftrightarrow> c \<noteq> CHR ''#'' \<and> \<not> ctl_char c"

lemma unreserved_not: "unreserved c \<Longrightarrow> c \<notin> set ''#?/@:[%*''"
  by (auto simp: unreserved_def alnum_def is_alpha_def is_digit_def Let_def)

lemma unreserved_absent:
  assumes "list_all unreserved s" and "c \<in> set ''#?/@:[%*''"
  shows "c \<notin> set s"
  using assms unreserved_not unfolding list_all_iff by blast

lemma unreserved_kept: "unreserved c \<Longrightarrow> \<not> should_escape m c"
  by (cases "alnum c") (auto simp: unreserved_def should_escape_def)

lemma unreserved_no_ctl: "unreserved c \<Longrightarrow> \<not> ctl_char c"
  by (cases "alnum c") (auto simp: unreserved_def ctl_char_def alnum_def is_alpha_def is_digit_def Let_def)

lemma unreserved_userinfo: "unreserved c \<Longrightarrow> valid_userinfo [c]"
  by (cases "alnum c") (auto simp: unreserved_def valid_userinfo_def alnum_def)

lemma unreserved_host: "unreserved c \<Longrightarrow> \<not> host_bad_char c"
  by (cases "alnum c") (auto simp: unreserved_def host_bad_char_def alnum_def is_alpha_def is_digit_def Let_def)

lemma escape_plain: "list_all (\<lambda>c. \<not> should_escape m c) s \<Longrightarrow> escape m s = s"
  by (induction s) (simp_all add: escape_def)

lemma unescape_unreserved: "list_all unreserved s \<Longrightarrow> unescape m s = Some s"
proof (induction s)
  case (Cons c s)
  then have "c \<noteq> CHR ''%''" "\<not> host_bad_char c" using unreserved_not [of c] unreserved_host [of c] by auto
  with Cons show ?case by simp
qed simp

lemma last_index_last: "c \<notin> set b \<Longrightarrow> last_index c (a @ c # b) = Some (length a)"
proof -
  assume "c \<notin> set b"
  then have "takeWhile (\<lambda>x. x \<noteq> c) (rev b @ c # rev a) = rev b" by (subst takeWhile_append2) auto
  then show ?thesis by (simp add: last_index_def)
qed

lemma takeWhile_until: "c \<notin> set a \<Longrightarrow> takeWhile (\<lambda>x. x \<noteq> c) (a @ c # b) = a"
  by (induction a) auto

lemma last_index_absent: "c \<notin> set a \<Longrightarrow> last_index c a = None"
  by (simp add: last_index_def)

lemma scheme_loop_alpha:
  "list_all is_alpha s \<Longrightarrow>
     scheme_loop raw acc (s @ CHR '':'' # t) = (if acc = [] \<and> s = [] then None else Some (acc @ s, t))"
  by (induction s arbitrary: acc) (simp_all add: is_alpha_def is_digit_def)

lemma get_scheme_alpha:
  "s \<noteq> [] \<Longrightarrow> list_all is_alpha s \<Longrightarrow> get_scheme (s @ '':'' @ t) = Some (s, t)"
  by (simp add: get_scheme_def scheme_loop_alpha)

lemma no_ctl_byte: "\<not> has_ctl_byte s \<longleftrightarrow> list_all (\<lambda>c. \<not> ctl_char c) s"
  by (auto simp: has_ctl_byte_def ctl_char_def list_all_iff list_ex_iff)

lemma list_all_imp: "list_all P s \<Longrightarrow> (\<And>c. P c \<Longrightarrow> Q c) \<Longrightarrow> list_all Q s"
  by (simp add: list_all_iff)

lemma valid_userinfo_all: "valid_userinfo s \<longleftrightarrow> list_all (\<lambda>c. valid_userinfo [c]) s"
  by (simp add: valid_userinfo_def)

lemma read_link_authority:
  assumes "list_all unreserved user" and "list_all unreserved pw" and "list_all unreserved host"
  shows "read_authority (user @ '':'' @ pw @ ''@'' @ host) = Some (Some (user, Some pw), host)"
proof -
  have host: "parse_host host = Some host"
  proof -
    have "\<not> has_prefix host ''[''"
      using unreserved_absent [OF assms(3), of "CHR ''[''"] by (cases host) (auto simp: has_prefix_def)
    moreover have "last_index (CHR '':'') host = None"
      using unreserved_absent [OF assms(3), of "CHR '':''"] by (intro last_index_absent) simp
    ultimately show ?thesis using unescape_unreserved [OF assms(3)] by (simp add: parse_host_def)
  qed
  have "CHR ''@'' \<notin> set host" using unreserved_absent [OF assms(3)] by simp
  then have i: "last_index (CHR ''@'') (user @ CHR '':'' # pw @ CHR ''@'' # host) = Some (length (user @ CHR '':'' # pw))"
    using last_index_last [of "CHR ''@''" host "user @ CHR '':'' # pw"] by simp
  have colon: "valid_userinfo [CHR '':'']" by (simp add: valid_userinfo_def)
  have "valid_userinfo (user @ CHR '':'' # pw)"
    using list_all_imp [OF assms(1) unreserved_userinfo] list_all_imp [OF assms(2) unreserved_userinfo] colon
    by (subst valid_userinfo_all) (simp only: list_all_append list.pred_inject simp_thms)
  moreover have "cut_char (CHR '':'') (user @ CHR '':'' # pw) = (user, pw, True)"
    using unreserved_absent [OF assms(1)] by (simp add: cut_char_append)
  ultimately have "read_userinfo (user @ CHR '':'' # pw) = Some (user, Some pw)"
    using assms by (simp add: read_userinfo_def unescape_unreserved)
  with i host show ?thesis by (simp add: read_authority_def)
qed

lemma unescape_path: "list_all path_char p \<Longrightarrow> unescape EncPath p = Some p"
  using unreserved_not [of "CHR ''%''"] by (intro unescape_plain) (auto simp: list_all_iff path_char_def)

lemma path_char_kept: "path_char c \<Longrightarrow> \<not> should_escape EncPath c"
proof -
  have "\<not> should_escape EncPath (CHR ''/'')" by code_simp
  then show "path_char c \<Longrightarrow> \<not> should_escape EncPath c" by (auto simp: path_char_def unreserved_kept)
qed

lemma full_query_cut:
  assumes "CHR ''?'' \<notin> set a"
  shows "full_query (a @ ''?'' @ q) u = (a, if q = [] then u\<lparr>fu_force_query := True\<rparr> else u\<lparr>fu_raw_query := q\<rparr>)"
proof -
  have c: "count_list a (CHR ''?'') = 0" using assms by (simp add: count_list_0_iff)
  have cut: "cut_char (CHR ''?'') (a @ ''?'' @ q) = (a, q, True)" using cut_char_append [OF assms, of q] by simp
  show ?thesis
  proof (cases "q = []")
    case True
    have "has_suffix (a @ ''?'') ''?''" by (simp add: has_suffix_def)
    with True c show ?thesis by (simp add: full_query_def butlast_append)
  next
    case False
    have no: "\<not> (has_suffix (a @ ''?'' @ q) ''?'' \<and> count_list (a @ ''?'' @ q) (CHR ''?'') = 1)"
    proof
      assume a: "has_suffix (a @ ''?'' @ q) ''?'' \<and> count_list (a @ ''?'' @ q) (CHR ''?'') = 1"
      have "last (a @ ''?'' @ q) = CHR ''?''"
        using a last_drop [of "length (a @ ''?'' @ q) - 1" "a @ ''?'' @ q"] by (auto simp: has_suffix_def)
      moreover have "CHR ''?'' \<notin> set q" using a c by (simp add: count_list_0_iff)
      ultimately show False using False last_in_set [of q] by auto
    qed
    show ?thesis unfolding full_query_def if_not_P [OF no] if_not_P [OF False] cut by simp
  qed
qed

text \<open>What \<^verbatim>\<open>url.Parse\<close> makes of a link of the usual form.\<close>

definition with_link_query :: "string \<Rightarrow> full_url \<Rightarrow> full_url" where
  "with_link_query query u = (if query = [] then u\<lparr>fu_force_query := True\<rparr> else u\<lparr>fu_raw_query := query\<rparr>)"

lemma with_link_query_same [simp]:
  "fu_scheme (with_link_query query u) = fu_scheme u" "fu_fragment (with_link_query query u) = fu_fragment u"
  by (simp_all add: with_link_query_def)

lemma link_no_ctl:
  assumes "list_all unreserved authority" and "list_all path_char path" and "list_all query_char query"
  shows "list_all (\<lambda>c. \<not> ctl_char c) authority" "list_all (\<lambda>c. \<not> ctl_char c) path"
    "list_all (\<lambda>c. \<not> ctl_char c) query"
proof -
  show "list_all (\<lambda>c. \<not> ctl_char c) authority" using assms(1) unreserved_no_ctl by (rule list_all_imp)
  show "list_all (\<lambda>c. \<not> ctl_char c) path"
    using assms(2) by (rule list_all_imp) (auto simp: path_char_def dest: unreserved_no_ctl, simp add: ctl_char_def)
  show "list_all (\<lambda>c. \<not> ctl_char c) query"
    using assms(3) by (rule list_all_imp) (simp add: query_char_def)
qed

lemma path_char_not: "list_all path_char path \<Longrightarrow> c \<in> set ''#?@:'' \<Longrightarrow> c \<notin> set path"
  using unreserved_not unfolding list_all_iff path_char_def by fastforce

lemma path_escapes:
  assumes "list_all path_char path"
  shows "escape EncPath (CHR ''/'' # path) = CHR ''/'' # path"
    "unescape EncPath (CHR ''/'' # path) = Some (CHR ''/'' # path)"
  using escape_plain [of EncPath "CHR ''/'' # path"] list_all_imp [OF assms path_char_kept] unescape_path [OF assms]
  by (simp_all add: should_escape_def)

lemma link_rest:
  assumes "list_all unreserved user" and "list_all unreserved pw" and "list_all unreserved host"
    and "list_all path_char path" and "fu_scheme u \<noteq> []" and "fu_raw_path u = []" and "fu_opaque u = []"
  shows "full_rest (''//'' @ user @ '':'' @ pw @ ''@'' @ host @ ''/'' @ path) u =
    Some (u\<lparr>fu_user := Some (user, Some pw), fu_host := host, fu_path := ''/'' @ path\<rparr>)"
proof -
  let ?auth = "user @ '':'' @ pw @ ''@'' @ host" and ?path = "''/'' @ path"
  note un = unreserved_absent [OF assms(1)] unreserved_absent [OF assms(2)] unreserved_absent [OF assms(3)]
  have auth: "takeWhile (\<lambda>c. c \<noteq> CHR ''/'') (?auth @ ?path) = ?auth"
    using takeWhile_until [of "CHR ''/''" ?auth path] un by simp
  have len: "drop (length ?auth) (?auth @ ?path) = ?path" by simp
  have user: "read_authority ?auth = Some (Some (user, Some pw), host)"
    using read_link_authority [OF assms(1-3)] by simp
  show ?thesis
    using auth user len assms(5,6)
    by (simp add: full_rest_def has_prefix_def set_path_def path_escapes [OF assms(4)] unescape_path [OF assms(4)] Let_def)
qed

lemma link_parsed:
  assumes "scheme \<in> {''http'', ''https''}" and "list_all unreserved user" and "list_all unreserved pw"
    and "list_all unreserved host" and "list_all path_char path" and "list_all query_char query"
  shows "full_parse (scheme @ ''://'' @ user @ '':'' @ pw @ ''@'' @ host @ ''/'' @ path @ ''?'' @ query) =
    Some ((with_link_query query (no_url\<lparr>fu_scheme := scheme\<rparr>))
      \<lparr>fu_user := Some (user, Some pw), fu_host := host, fu_path := ''/'' @ path\<rparr>)"
proof -
  let ?rest = "''//'' @ user @ '':'' @ pw @ ''@'' @ host @ ''/'' @ path"
  let ?s = "?rest @ ''?'' @ query" and ?u = "no_url\<lparr>fu_scheme := scheme\<rparr>"
  have scheme: "list_all is_alpha scheme" "scheme \<noteq> []" "map lower_char scheme = scheme" "list_all unreserved scheme"
    "scheme @ '':'' @ ?s \<noteq> ''*''"
    using assms(1) by (auto simp: is_alpha_def lower_char_def unreserved_def alnum_def)
  note un = unreserved_absent [OF assms(2)] unreserved_absent [OF assms(3)] unreserved_absent [OF assms(4)]
    unreserved_absent [OF scheme(4)] path_char_not [OF assms(5)]
  have "CHR ''#'' \<notin> set query" using assms(6) by (auto simp: list_all_iff query_char_def)
  then have frag: "cut_char (CHR ''#'') (scheme @ '':'' @ ?s) = (scheme @ '':'' @ ?s, [], False)"
    using un by (intro cut_char_absent) simp
  have ctl: "\<not> has_ctl_byte (scheme @ '':'' @ ?s)"
    using link_no_ctl [OF _ assms(5,6)] assms(2-4) scheme(4) unfolding no_ctl_byte list_all_append
    by (simp add: ctl_char_def)
  have query: "full_query ?s ?u = (?rest, with_link_query query ?u)"
    using full_query_cut [of ?rest query ?u] un by (simp add: with_link_query_def)
  have "full_no_fragment (scheme @ '':'' @ ?s) = full_rest ?rest (with_link_query query ?u)"
    using ctl scheme(5) get_scheme_alpha [OF scheme(2,1), of ?s] scheme(3) query by (simp add: full_no_fragment_def)
  also have "\<dots> = Some ((with_link_query query ?u)
      \<lparr>fu_user := Some (user, Some pw), fu_host := host, fu_path := ''/'' @ path\<rparr>)"
    using scheme(2) by (intro link_rest assms(2-5)) (simp_all add: with_link_query_def no_url_def)
  finally show ?thesis using frag by (simp add: full_parse_def no_url_def)
qed



end
