(* ===== verification/Proxy.thy ===== *)
theory Proxy
  imports Store_Tables Redact
begin

text \<open>
  \<^verbatim>\<open>internal/proxy/proxy.go\<close>: the fetcher with its cache. The fetcher's fields and the libraries it calls
  are \<open>fetch_env\<close>: \<open>fe_do\<close> is the HTTP client on the outside world \<open>'w\<close> (whose clock is \<open>fe_now\<close>),
  \<open>fe_get\<close> and \<open>fe_put\<close> the \<^verbatim>\<open>Cache\<close> interface on its own state \<open>'c\<close>, \<open>fe_error\<close> the
  text of an error and \<open>fe_url_inner\<close> what a \<^verbatim>\<open>*url.Error\<close> holds.
  The interface is the locale \<open>feed_cache\<close>, interpreted on the store's cache table.
\<close>


section \<open>Requests and responses\<close>

record request =
  rq_url :: string
  rq_basic :: "(string \<times> string) option"
  rq_if_none_match :: "string option"

text \<open>A response body is the bytes the stream yields and the error it ends with, if any.\<close>

record response =
  rp_status :: int
  rp_etag :: string
  rp_body :: bytes
  rp_body_error :: "go_error option"

record ('w, 'c) fetch_env =
  fe_do :: "request \<Rightarrow> 'w \<Rightarrow> response result \<times> 'w"
  fe_now :: "'w \<Rightarrow> go_time"
  fe_get :: "string \<Rightarrow> 'c \<Rightarrow> cached_feed result"
  fe_put :: "cached_feed \<Rightarrow> 'c \<Rightarrow> go_error option \<times> 'c"
  fe_sha256 :: "bytes \<Rightarrow> bytes"
  fe_url_error :: "string \<Rightarrow> go_error"
  fe_error :: "go_error \<Rightarrow> string"
  fe_url_inner :: "go_error \<Rightarrow> go_error option"

definition maxFeedSize :: nat where "maxFeedSize = 26214400"

definition nul :: string where "nul = [CHR 0x00]"

definition cacheKey :: "(bytes \<Rightarrow> bytes) \<Rightarrow> string \<Rightarrow> string \<Rightarrow> string \<Rightarrow> string" where
  "cacheKey sha url username password =
     (if username = [] \<and> password = [] then url
      else url @ nul @ hex_encode (take 8 (sha (username @ nul @ password))))"

datatype source = SourceNone | SourceUpstream | SourceCacheFresh | SourceCacheStale


section \<open>The upstream request\<close>

definition upstream_request :: "string \<Rightarrow> cached_feed option \<Rightarrow> string \<Rightarrow> string \<Rightarrow> request" where
  "upstream_request url cached username password =
     \<lparr>rq_url = url,
      rq_basic = (if username \<noteq> [] then Some (username, password) else None),
      rq_if_none_match =
        (case cached of
           Some c \<Rightarrow> if cf_etag c \<noteq> [] then Some (cf_etag c) else None
         | None \<Rightarrow> None)\<rparr>"

text \<open>\<^verbatim>\<open>io.ReadAll(io.LimitReader(body, n))\<close>: an error beyond the limit is never reached.\<close>

definition read_limited :: "nat \<Rightarrow> response \<Rightarrow> bytes result" where
  "read_limited n resp =
     (if length (rp_body resp) < n then
        (case rp_body_error resp of Some e \<Rightarrow> Inl e | None \<Rightarrow> Inr (rp_body resp))
      else Inr (take n (rp_body resp)))"

text \<open>The body is \<open>None\<close> where the code returns a nil slice (status 304).\<close>

definition fetchUpstream ::
  "('w, 'c) fetch_env \<Rightarrow> string \<Rightarrow> cached_feed option \<Rightarrow> string \<Rightarrow> string \<Rightarrow> 'w \<Rightarrow>
     (bytes option \<times> string) result \<times> 'w" where
  "fetchUpstream env url cached username password w =
     (case url_parse url of
        None \<Rightarrow> (Inl (fe_url_error env url), w)
      | Some _ \<Rightarrow>
        (case fe_do env (upstream_request url cached username password) w of
           (Inl e, w') \<Rightarrow> (Inl e, w')
         | (Inr resp, w') \<Rightarrow>
             (if rp_status resp = 304 then
                (case cached of
                   Some c \<Rightarrow> Inr (None, cf_etag c)
                 | None \<Rightarrow> Inl (ErrMsg [Lit ''unexpected 304 without cache'']))
              else if rp_status resp = 200 then
                (case read_limited maxFeedSize resp of
                   Inl e \<Rightarrow> Inl e
                 | Inr body \<Rightarrow> Inr (Some body, rp_etag resp))
              else Inl (ErrMsg [Lit ''unexpected status '', Lit (itoa (rp_status resp))]), w')))"


section \<open>Fetching with the cache\<close>

text \<open>The part of \<^verbatim>\<open>FetchAuth\<close> after the freshness test.\<close>

definition fetch_refresh ::
  "('w, 'c) fetch_env \<Rightarrow> string \<Rightarrow> string \<Rightarrow> string \<Rightarrow> string \<Rightarrow> cached_feed option \<Rightarrow> 'w \<Rightarrow> 'c \<Rightarrow>
     (bytes \<times> source) result \<times> 'w \<times> 'c" where
  "fetch_refresh env url username password key cached w c =
     (case fetchUpstream env url cached username password w of
        (Inl e, w') \<Rightarrow>
          (case cached of
             Some cf \<Rightarrow> (Inr (cf_body cf, SourceCacheStale), w', c)
           | None \<Rightarrow>
               (Inl (ErrWrap [Lit ''proxy: fetch '', Lit (RedactURL url), Lit '': '']
                  (RedactError (fe_error env) (fe_url_inner env) e url) []), w', c))
      | (Inr (up, etag), w') \<Rightarrow>
          (case (case up of Some b \<Rightarrow> Some b | None \<Rightarrow> map_option cf_body cached) of
             None \<Rightarrow> (Inl (ErrMsg [Lit ''proxy: empty response for '', Lit (RedactURL url)]), w', c)
           | Some body \<Rightarrow>
               (Inr (body, SourceUpstream), w',
                snd (fe_put env \<lparr>cf_key = key, cf_url = url, cf_body = body, cf_etag = etag,
                                 cf_fetched_at = fe_now env w'\<rparr> c))))"

definition FetchAuth ::
  "('w, 'c) fetch_env \<Rightarrow> string \<Rightarrow> go_duration \<Rightarrow> string \<Rightarrow> string \<Rightarrow> 'w \<times> 'c \<Rightarrow>
     (bytes \<times> source) result \<times> 'w \<times> 'c" where
  "FetchAuth env url ttl username password s =
     (case s of (w, c) \<Rightarrow>
        let key = cacheKey (fe_sha256 env) url username password in
        (case fe_get env key c of
           Inl e \<Rightarrow>
             if \<not> err_is e ErrNotFound then (Inl (wrapf ''proxy: read cache: '' e), w, c)
             else fetch_refresh env url username password key None w c
         | Inr cf \<Rightarrow>
             if 0 < ttl \<and> time_sub (fe_now env w) (cf_fetched_at cf) < ttl
             then (Inr (cf_body cf, SourceCacheFresh), w, c)
             else fetch_refresh env url username password key (Some cf) w c))"

definition Fetch ::
  "('w, 'c) fetch_env \<Rightarrow> string \<Rightarrow> go_duration \<Rightarrow> 'w \<times> 'c \<Rightarrow> (bytes \<times> source) result \<times> 'w \<times> 'c" where
  "Fetch env url ttl = FetchAuth env url ttl [] []"


section \<open>The cache interface\<close>

text \<open>
  What the fetcher needs of its cache: an entry just put is read back under its key with its body,
  tag and URL, no more than \<open>grain\<close> older than it was (the store keeps whole seconds), and a put
  leaves every other key alone.
\<close>

locale feed_cache =
  fixes get :: "string \<Rightarrow> 'c \<Rightarrow> cached_feed result"
    and put :: "cached_feed \<Rightarrow> 'c \<Rightarrow> go_error option \<times> 'c"
    and ok_time :: "go_time \<Rightarrow> bool"
    and grain :: go_duration
  assumes get_put_same: "cf_key cf \<noteq> [] \<Longrightarrow> ok_time (cf_fetched_at cf) \<Longrightarrow>
        \<exists>t. get (cf_key cf) (snd (put cf c)) = Inr (cf\<lparr>cf_fetched_at := t\<rparr>) \<and>
            cf_fetched_at cf - grain < t \<and> t \<le> cf_fetched_at cf"
    and get_put_other: "cf_key cf \<noteq> [] \<Longrightarrow> key \<noteq> cf_key cf \<Longrightarrow> get key (snd (put cf c)) = get key c"
begin

text \<open>A fetch touches no entry but the one of its own URL and credentials.\<close>

lemma fetch_frame:
  assumes "fe_get env = get" and "fe_put env = put" and "url \<noteq> []"
    and "key \<noteq> cacheKey (fe_sha256 env) url username password"
  shows "get key (snd (snd (FetchAuth env url ttl username password (w, c)))) = get key c"
proof -
  have k: "cacheKey (fe_sha256 env) url username password \<noteq> []"
    using assms(3) by (simp add: cacheKey_def)
  show ?thesis
    unfolding FetchAuth_def fetch_refresh_def Let_def using assms k
    by (auto simp: get_put_other split: sum.splits option.splits prod.splits)
qed

text \<open>After a fetch that reached the upstream server, the same fetch within the TTL is answered from
  the cache with the same body and leaves the world alone.\<close>

lemma upstream_then_fresh:
  assumes env: "fe_get env = get" "fe_put env = put" and url: "url \<noteq> []"
    and fetch: "FetchAuth env url ttl0 username password (w, c) = (Inr (body, SourceUpstream), w', c')"
    and "ok_time (fe_now env w')"
    and ttl: "0 < ttl" "ttl < 2 ^ 63" "fe_now env w2 - fe_now env w' + grain \<le> ttl"
  shows "FetchAuth env url ttl username password (w2, c') = (Inr (body, SourceCacheFresh), w2, c')"
proof -
  let ?key = "cacheKey (fe_sha256 env) url username password"
  have k: "?key \<noteq> []" using url by (simp add: cacheKey_def)
  obtain etag where "c' = snd (put \<lparr>cf_key = ?key, cf_url = url, cf_body = body, cf_etag = etag,
      cf_fetched_at = fe_now env w'\<rparr> c)"
    using fetch env unfolding FetchAuth_def fetch_refresh_def Let_def
    by (auto split: sum.splits option.splits prod.splits if_splits)
  then obtain t where t: "get ?key c' = Inr \<lparr>cf_key = ?key, cf_url = url, cf_body = body,
      cf_etag = etag, cf_fetched_at = t\<rparr>" "fe_now env w' - grain < t"
    using get_put_same [of "\<lparr>cf_key = ?key, cf_url = url, cf_body = body, cf_etag = etag,
      cf_fetched_at = fe_now env w'\<rparr>" c] k assms(5) by auto
  have "time_sub (fe_now env w2) t < ttl"
    using t(2) ttl by (simp add: time_sub_less_iff)
  with t ttl show ?thesis by (simp add: FetchAuth_def env)
qed

end

text \<open>The store's table is such a cache: timestamps are kept to the second, in years 1 to 9999.\<close>

definition cacheable_time :: "go_time \<Rightarrow> bool" where
  "cacheable_time t \<longleftrightarrow> plain_year t \<and> t \<noteq> 0"

interpretation store_cache: feed_cache
  GetCachedFeed "\<lambda>cf rows. (None, PutCachedFeed now cf rows)" cacheable_time second for now
proof unfold_locales
  fix cf :: cached_feed and rows :: "cache_row list" and key
  assume k: "cf_key cf \<noteq> []"
  {
    assume "cacheable_time (cf_fetched_at cf)"
    with k have "GetCachedFeed (cf_key cf) (snd (None, PutCachedFeed now cf rows)) =
        Inr (cf\<lparr>cf_fetched_at := unix_secs (cf_fetched_at cf) * 1000000000\<rparr>)"
      using GetCachedFeed_Put_same by (auto simp: cacheable_time_def)
    moreover have "cf_fetched_at cf - second < unix_secs (cf_fetched_at cf) * 1000000000"
      "unix_secs (cf_fetched_at cf) * 1000000000 \<le> cf_fetched_at cf"
      by (simp_all add: unix_secs_def)
    ultimately show "\<exists>t. GetCachedFeed (cf_key cf) (snd (None, PutCachedFeed now cf rows)) =
        Inr (cf\<lparr>cf_fetched_at := t\<rparr>) \<and> cf_fetched_at cf - second < t \<and> t \<le> cf_fetched_at cf"
      by blast
  }
  assume "key \<noteq> cf_key cf"
  with k show "GetCachedFeed key (snd (None, PutCachedFeed now cf rows)) = GetCachedFeed key rows"
    by (simp add: GetCachedFeed_Put_other)
qed

definition store_fetcher :: "go_time \<Rightarrow> ('w, cache_row list) fetch_env \<Rightarrow> ('w, cache_row list) fetch_env" where
  "store_fetcher now env =
     env\<lparr>fe_get := GetCachedFeed, fe_put := (\<lambda>cf rows. (None, PutCachedFeed now cf rows))\<rparr>"

lemma store_fetcher_fields [simp]:
  "fe_get (store_fetcher now env) = GetCachedFeed"
  "fe_put (store_fetcher now env) = (\<lambda>cf rows. (None, PutCachedFeed now cf rows))"
  "fe_now (store_fetcher now env) = fe_now env" "fe_sha256 (store_fetcher now env) = fe_sha256 env"
  "fe_do (store_fetcher now env) = fe_do env"
  by (simp_all add: store_fetcher_def)


section \<open>What a fetch returns\<close>

lemma read_limited_length: "read_limited n resp = Inr body \<Longrightarrow> length body \<le> n"
  by (auto simp: read_limited_def split: if_splits option.splits)

lemma fetchUpstream_body_length:
  "fetchUpstream env url cached username password w = (Inr (Some body, etag), w') \<Longrightarrow>
     length body \<le> maxFeedSize"
  by (auto simp: fetchUpstream_def dest: read_limited_length split: option.splits sum.splits prod.splits if_splits)

lemma fetch_refresh_cached:
  "\<exists>body src w' c'. fetch_refresh env url username password key (Some cf) w c = (Inr (body, src), w', c') \<and>
     (src = SourceUpstream \<and> (body = cf_body cf \<or> length body \<le> maxFeedSize) \<or>
      src = SourceCacheStale \<and> body = cf_body cf \<and> c' = c \<and>
        isl (fst (fetchUpstream env url (Some cf) username password w)))"
proof (cases "fetchUpstream env url (Some cf) username password w")
  case (Pair r w')
  show ?thesis
  proof (cases r)
    case (Inr up)
    with Pair show ?thesis
      by (cases up; cases "fst up") (auto simp: fetch_refresh_def dest: fetchUpstream_body_length)
  qed (use Pair in \<open>auto simp: fetch_refresh_def\<close>)
qed


text \<open>With the store as its cache, a body fetched from upstream is what the next fetch of the same
  URL and credentials returns for as long as the TTL lasts (to the second the table keeps), with no
  request sent.\<close>

theorem fetch_then_fresh:
  assumes "FetchAuth (store_fetcher now env) url ttl0 username password (w, c) =
      (Inr (body, SourceUpstream), w', c')"
    and "url \<noteq> []" and "cacheable_time (fe_now env w')" and "0 < ttl" and "ttl < 2 ^ 63"
    and "fe_now env w2 - fe_now env w' + second \<le> ttl"
  shows "FetchAuth (store_fetcher now env) url ttl username password (w2, c') =
      (Inr (body, SourceCacheFresh), w2, c')"
  by (rule store_cache.upstream_then_fresh [OF _ _ assms(2,1)]) (use assms in simp_all)

lemma cacheKey_eq_iff:
  assumes "CHR 0x00 \<notin> set url" and "CHR 0x00 \<notin> set url'"
  shows "cacheKey sha url u p = cacheKey sha url' u' p' \<longleftrightarrow>
    url = url' \<and> (u = [] \<and> p = [] \<longleftrightarrow> u' = [] \<and> p' = []) \<and>
    (u = [] \<and> p = [] \<or> take 8 (sha (u @ nul @ p)) = take 8 (sha (u' @ nul @ p')))"
proof -
  have app: "url @ CHR 0x00 # a = url' @ CHR 0x00 # b \<longleftrightarrow> url = url' \<and> a = b" for a b
    using assms cut_char_append [of "CHR 0x00" url a] cut_char_append [of "CHR 0x00" url' b]
    by (metis Pair_inject)
  have ne: "url \<noteq> url' @ CHR 0x00 # a" "url' \<noteq> url @ CHR 0x00 # a" for a
    using assms by auto
  show ?thesis using ne ne [symmetric] by (auto simp: cacheKey_def nul_def app dest: hex_encode_inj)
qed

lemma fetch_reads_own_key:
  assumes "fe_get env (cacheKey (fe_sha256 env) url u p) c' = fe_get env (cacheKey (fe_sha256 env) url u p) c"
  shows "fst (FetchAuth env url ttl u p (w, c')) = fst (FetchAuth env url ttl u p (w, c)) \<and>
    fst (snd (FetchAuth env url ttl u p (w, c'))) = fst (snd (FetchAuth env url ttl u p (w, c)))"
  using assms
  by (auto simp: FetchAuth_def fetch_refresh_def Let_def split: sum.splits option.splits prod.splits)

text \<open>C38: cached copies are scoped to URL and credentials: unless URL and credential digest agree, a
  fetch cannot see anything an earlier fetch stored; in particular a request without credentials is
  never answered with a body that needed them.\<close>

theorem fetch_scoped_to_credentials:
  assumes "CHR 0x00 \<notin> set url" and "CHR 0x00 \<notin> set url'" and "url \<noteq> []"
    and "url' = url \<Longrightarrow> (u' = [] \<and> p' = []) = (u = [] \<and> p = []) \<Longrightarrow>
      (u \<noteq> [] \<or> p \<noteq> []) \<and> take 8 (fe_sha256 env (u' @ nul @ p')) \<noteq> take 8 (fe_sha256 env (u @ nul @ p))"
  shows "fst (FetchAuth (store_fetcher now env) url' ttl' u' p'
          (w2, snd (snd (FetchAuth (store_fetcher now env) url ttl u p (w, c))))) =
        fst (FetchAuth (store_fetcher now env) url' ttl' u' p' (w2, c)) \<and>
      fst (snd (FetchAuth (store_fetcher now env) url' ttl' u' p'
          (w2, snd (snd (FetchAuth (store_fetcher now env) url ttl u p (w, c)))))) =
        fst (snd (FetchAuth (store_fetcher now env) url' ttl' u' p' (w2, c)))"
proof (rule fetch_reads_own_key, simp)
  have "cacheKey (fe_sha256 env) url' u' p' \<noteq> cacheKey (fe_sha256 env) url u p"
    using assms(4) cacheKey_eq_iff [OF assms(2,1), of "fe_sha256 env" u' p' u p] by auto
  then show "GetCachedFeed (cacheKey (fe_sha256 env) url' u' p')
      (snd (snd (FetchAuth (store_fetcher now env) url ttl u p (w, c)))) =
      GetCachedFeed (cacheKey (fe_sha256 env) url' u' p') c"
    using assms(3) by (intro store_cache.fetch_frame) simp_all
qed


section \<open>Concrete inputs\<close>

text \<open>A client whose server answers every request with the same calendar; the world counts the
  requests, and its clock stands at the start of 2026.\<close>

definition sample_fetch_env :: "(nat, cache_row list) fetch_env" where
  "sample_fetch_env = \<lparr>
     fe_do = (\<lambda>r n. (Inr \<lparr>rp_status = 200, rp_etag = ''v1'', rp_body = ''BEGIN'', rp_body_error = None\<rparr>, n + 1)),
     fe_now = (\<lambda>n. new_year),
     fe_get = GetCachedFeed,
     fe_put = (\<lambda>cf rows. (None, PutCachedFeed 0 cf rows)),
     fe_sha256 = (\<lambda>bs. take 32 (bs @ replicate 32 CHR 0x00)),
     fe_url_error = (\<lambda>u. ErrNew ''parse''),
     fe_error = (\<lambda>e. []),
     fe_url_inner = (\<lambda>e. None)\<rparr>"

definition sample_copy :: cache_row where
  "sample_copy = \<lparr>cr_key = ''/cal'', cr_url = ''/cal'', cr_body = ''OLD'', cr_etag = [],
                 cr_fetched_at = stamp new_year\<rparr>"


lemma sample_fetch:
  "url_parse url \<noteq> None \<Longrightarrow> FetchAuth (store_fetcher 0 sample_fetch_env) url 0 u p (0, []) =
     (Inr (''BEGIN'', SourceUpstream), 1, PutCachedFeed 0
       \<lparr>cf_key = cacheKey (fe_sha256 sample_fetch_env) url u p, cf_url = url, cf_body = ''BEGIN'',
        cf_etag = ''v1'', cf_fetched_at = new_year\<rparr> [])"
  by (auto simp: FetchAuth_def fetch_refresh_def fetchUpstream_def sample_fetch_env_def GetCachedFeed_def
      select_one_def read_limited_def maxFeedSize_def Let_def store_fetcher_def)

lemma fetch_then_fresh_witness:
  "fst (FetchAuth (store_fetcher 0 sample_fetch_env) ''/cal'' 60000000000 ''u'' ''p'' (7,
     snd (snd (FetchAuth (store_fetcher 0 sample_fetch_env) ''/cal'' 0 ''u'' ''p'' (0, []))))) =
   Inr (''BEGIN'', SourceCacheFresh)"
proof -
  have "url_parse ''/cal'' \<noteq> None" by code_simp
  note f = sample_fetch [OF this, of "''u''" "''p''"]
  have t: "cacheable_time (fe_now sample_fetch_env 1)" "fe_now sample_fetch_env n = new_year" for n
    by (simp_all add: sample_fetch_env_def cacheable_time_def new_year_plain)
      (simp add: new_year_def)
  show ?thesis
    using fetch_then_fresh [OF f _ t(1), of 60000000000 7] by (simp add: t(2) f)
qed

lemma fetch_scoped_to_credentials_witness:
  "fst (FetchAuth (store_fetcher 0 sample_fetch_env) ''/cal'' 60000000000 [] [] (7,
     snd (snd (FetchAuth (store_fetcher 0 sample_fetch_env) ''/cal'' 0 ''u'' ''p'' (0, []))))) =
   fst (FetchAuth (store_fetcher 0 sample_fetch_env) ''/cal'' 60000000000 [] [] (7, []))"
  using fetch_scoped_to_credentials [of "''/cal''" "''/cal''" "[]" "[]" "''u''" "''p''" sample_fetch_env 0 60000000000 7 0 0 "[]"]
  by simp

end
