(* ===== verification/Store_Feeds.thy ===== *)
theory Store_Feeds
  imports Store_Tables
begin

text \<open>
  \<^verbatim>\<open>internal/store/feeds.go\<close>: the feeds table. A row holds what the columns hold (timestamps and the
  two JSON documents as text, the sources as encoded by \<^verbatim>\<open>encoding/json\<close>, which is the parameter
  \<open>json_lib\<close>). The constraints of the schema (\<^verbatim>\<open>id\<close> primary key, \<^verbatim>\<open>secret\<close> unique) are the error
  branches of the insert and the update.
\<close>


section \<open>Rows\<close>

record feed_source =
  fs_url :: string
  fs_username :: string
  fs_password :: string

record feed =
  fd_id :: string
  fd_user :: string
  fd_name :: string
  fd_secret :: string
  fd_sources :: "feed_source list"
  fd_rules :: bytes
  fd_ttl :: int
  fd_basic_user :: string
  fd_basic_hash :: string
  fd_notifications :: bytes
  fd_last_served :: go_time
  fd_serve_count :: int
  fd_created :: go_time
  fd_updated :: go_time

record feed_row =
  w_id :: string
  w_user :: string
  w_name :: string
  w_secret :: string
  w_sources :: string
  w_rules :: string
  w_ttl :: int
  w_basic_user :: string
  w_basic_hash :: string
  w_notifications :: string
  w_served :: string
  w_count :: int
  w_created :: string
  w_updated :: string

text \<open>\<^verbatim>\<open>json.Marshal\<close> and \<^verbatim>\<open>json.Unmarshal\<close> of the source list.\<close>

record json_lib =
  js_marshal_sources :: "feed_source list \<Rightarrow> string result"
  js_unmarshal_sources :: "string \<Rightarrow> feed_source list result"

text \<open>Documented behaviour of \<^verbatim>\<open>encoding/json\<close>: these strings encode, the text of a list decodes to the
  list, and no text is empty.\<close>

definition sources_json :: "json_lib \<Rightarrow> bool" where
  "sources_json js \<longleftrightarrow>
     (\<forall>ss. \<exists>t. js_marshal_sources js ss = Inr t \<and> t \<noteq> [] \<and> js_unmarshal_sources js t = Inr ss) \<and>
     js_unmarshal_sources js ''[]'' = Inr []"

definition marshalSources :: "json_lib \<Rightarrow> feed_source list \<Rightarrow> string result" where
  "marshalSources js sources =
     (if sources = [] then Inr ''[]''
      else case js_marshal_sources js sources of
        Inl e \<Rightarrow> Inl (wrapf ''encode feed sources: '' e)
      | Inr t \<Rightarrow> Inr t)"

definition rulesOrEmpty :: "bytes \<Rightarrow> string" where
  "rulesOrEmpty raw = (if raw = [] then ''[]'' else raw)"

definition notifOrEmpty :: "bytes \<Rightarrow> string" where
  "notifOrEmpty raw = (if raw = [] then ''{}'' else raw)"

definition scanFeed :: "json_lib \<Rightarrow> feed_row \<Rightarrow> feed result" where
  "scanFeed js r =
     (let f = (\<lambda>sources. \<lparr>fd_id = w_id r, fd_user = w_user r, fd_name = w_name r, fd_secret = w_secret r,
                 fd_sources = sources, fd_rules = w_rules r, fd_ttl = w_ttl r,
                 fd_basic_user = w_basic_user r, fd_basic_hash = w_basic_hash r,
                 fd_notifications = w_notifications r, fd_last_served = parseTime (w_served r),
                 fd_serve_count = w_count r, fd_created = parseTime (w_created r),
                 fd_updated = parseTime (w_updated r)\<rparr>)
      in if w_sources r = [] then Inr (f [])
         else case js_unmarshal_sources js (w_sources r) of
           Inl e \<Rightarrow> Inl (wrapf ''decode feed sources: '' e)
         | Inr ss \<Rightarrow> Inr (f ss))"


section \<open>Operations\<close>

text \<open>\<^verbatim>\<open>checkAffected\<close>: no row changed is \<^verbatim>\<open>ErrNotFound\<close>.\<close>

definition checkAffected :: "nat \<Rightarrow> go_error option" where
  "checkAffected n = (if n = 0 then Some ErrNotFound else None)"

definition update_where :: "('r \<Rightarrow> bool) \<Rightarrow> ('r \<Rightarrow> 'r) \<Rightarrow> 'r list \<Rightarrow> nat \<times> 'r list" where
  "update_where p f rows = (length (filter p rows), map (\<lambda>r. if p r then f r else r) rows)"

definition constraint_failed :: go_error where
  "constraint_failed = ErrNew ''constraint failed''"

definition CreateFeed :: "json_lib \<Rightarrow> go_time \<Rightarrow> feed \<Rightarrow> feed_row list \<Rightarrow> go_error option \<times> feed_row list" where
  "CreateFeed js now f rows =
     (case marshalSources js (fd_sources f) of
        Inl e \<Rightarrow> (Some e, rows)
      | Inr sources \<Rightarrow>
          (if list_ex (\<lambda>r. w_id r = fd_id f \<or> w_secret r = fd_secret f) rows
           then (Some (wrapf ''create feed: '' constraint_failed), rows)
           else (None, rows @ [\<lparr>w_id = fd_id f, w_user = fd_user f, w_name = fd_name f,
             w_secret = fd_secret f, w_sources = sources, w_rules = rulesOrEmpty (fd_rules f),
             w_ttl = fd_ttl f, w_basic_user = fd_basic_user f, w_basic_hash = fd_basic_hash f,
             w_notifications = notifOrEmpty (fd_notifications f),
             w_served = formatTime (fd_last_served f), w_count = fd_serve_count f,
             w_created = stamp (if time_is_zero (fd_created f) then now else fd_created f),
             w_updated = stamp now\<rparr>])))"

definition owned :: "string \<Rightarrow> string \<Rightarrow> feed_row \<Rightarrow> bool" where
  "owned fid user r \<longleftrightarrow> w_id r = fid \<and> w_user r = user"

definition UpdateFeed :: "json_lib \<Rightarrow> go_time \<Rightarrow> feed \<Rightarrow> feed_row list \<Rightarrow> go_error option \<times> feed_row list" where
  "UpdateFeed js now f rows =
     (case marshalSources js (fd_sources f) of
        Inl e \<Rightarrow> (Some e, rows)
      | Inr sources \<Rightarrow>
          (if list_ex (owned (fd_id f) (fd_user f)) rows \<and>
              list_ex (\<lambda>r. \<not> owned (fd_id f) (fd_user f) r \<and> w_secret r = fd_secret f) rows
           then (Some (wrapf ''update feed: '' constraint_failed), rows)
           else case update_where (owned (fd_id f) (fd_user f))
               (\<lambda>r. r\<lparr>w_name := fd_name f, w_secret := fd_secret f, w_sources := sources,
                      w_rules := rulesOrEmpty (fd_rules f), w_ttl := fd_ttl f,
                      w_basic_user := fd_basic_user f, w_basic_hash := fd_basic_hash f,
                      w_notifications := notifOrEmpty (fd_notifications f), w_updated := stamp now\<rparr>) rows
             of (n, rows') \<Rightarrow> (checkAffected n, rows')))"

definition MarkFeedServed :: "go_time \<Rightarrow> string \<Rightarrow> feed_row list \<Rightarrow> feed_row list" where
  "MarkFeedServed now fid rows =
     snd (update_where (\<lambda>r. w_id r = fid) (\<lambda>r. r\<lparr>w_served := stamp now, w_count := w_count r + 1\<rparr>) rows)"

definition DeleteFeed :: "string \<Rightarrow> string \<Rightarrow> feed_row list \<Rightarrow> go_error option \<times> feed_row list" where
  "DeleteFeed fid user rows =
     (case delete_where (owned fid user) rows of (n, rows') \<Rightarrow> (checkAffected n, rows'))"

definition feedBy :: "json_lib \<Rightarrow> string \<Rightarrow> (feed_row \<Rightarrow> bool) \<Rightarrow> feed_row list \<Rightarrow> feed result" where
  "feedBy js column p rows =
     (case List.find p rows of
        None \<Rightarrow> Inl ErrNotFound
      | Some r \<Rightarrow>
          (case scanFeed js r of
             Inl e \<Rightarrow> Inl (wrapf (''query feed by '' @ column @ '': '') e)
           | Inr f \<Rightarrow> Inr f))"

definition FeedByID :: "json_lib \<Rightarrow> string \<Rightarrow> feed_row list \<Rightarrow> feed result" where
  "FeedByID js fid = feedBy js ''id'' (\<lambda>r. w_id r = fid)"

definition FeedBySecret :: "json_lib \<Rightarrow> string \<Rightarrow> feed_row list \<Rightarrow> feed result" where
  "FeedBySecret js sec = feedBy js ''secret'' (\<lambda>r. w_secret r = sec)"

fun scanFeeds :: "json_lib \<Rightarrow> feed_row list \<Rightarrow> feed list result" where
  "scanFeeds js [] = Inr []"
| "scanFeeds js (r # rs) =
     (case scanFeed js r of
        Inl e \<Rightarrow> Inl e
      | Inr f \<Rightarrow> (case scanFeeds js rs of Inl e \<Rightarrow> Inl e | Inr fs \<Rightarrow> Inr (f # fs)))"

text \<open>\<^verbatim>\<open>ORDER BY created_at\<close> on the text of the column.\<close>

definition FeedsByUser :: "json_lib \<Rightarrow> string \<Rightarrow> feed_row list \<Rightarrow> feed list result" where
  "FeedsByUser js user rows = scanFeeds js (sort_key w_created (filter (\<lambda>r. w_user r = user) rows))"

definition AllFeeds :: "json_lib \<Rightarrow> feed_row list \<Rightarrow> feed list result" where
  "AllFeeds js rows = scanFeeds js (sort_key w_created rows)"


section \<open>The table invariant\<close>

definition feeds_wf :: "feed_row list \<Rightarrow> bool" where
  "feeds_wf rows \<longleftrightarrow> distinct (map w_id rows) \<and> distinct (map w_secret rows)"

lemma map_update_where [simp]:
  "(\<And>r. g (f r) = g r) \<Longrightarrow> map g (snd (update_where p f rows)) = map g rows"
  by (simp add: update_where_def comp_def if_distrib cong: if_cong)

lemma distinct_update_one:
  assumes "distinct (map w_id rows)" and "distinct (map w_secret rows)"
    and "\<not> list_ex (\<lambda>r. \<not> owned i u r \<and> w_secret r = sec) rows"
    and "\<And>r. w_secret (f r) = sec"
  shows "distinct (map w_secret (snd (update_where (owned i u) f rows)))"
  using assms(1-3)
proof (induction rows)
  case (Cons r rows)
  have IH: "distinct (map w_secret (snd (update_where (owned i u) f rows)))" using Cons by auto
  have "w_secret (if owned i u r then f r else r) \<notin>
      set (map w_secret (snd (update_where (owned i u) f rows)))"
  proof
    assume "w_secret (if owned i u r then f r else r) \<in>
      set (map w_secret (snd (update_where (owned i u) f rows)))"
    then obtain q where q: "q \<in> set rows"
      "w_secret (if owned i u r then f r else r) = w_secret (if owned i u q then f q else q)"
      by (auto simp: update_where_def)
    have "w_id q \<in> set (map w_id rows)" using q(1) by simp
    moreover have "w_id r \<notin> set (map w_id rows)" using Cons.prems(1) by simp
    ultimately have "w_id q \<noteq> w_id r" by metis
    then have "\<not> (owned i u r \<and> owned i u q)" by (auto simp: owned_def)
    with q Cons.prems(2,3) assms(4) show False
      by (auto simp: list_ex_iff split: if_splits)
  qed
  with IH show ?case by (simp only: update_where_def snd_conv list.map distinct.simps simp_thms)
qed (simp add: update_where_def)

lemma feeds_wf_Create: "feeds_wf rows \<Longrightarrow> feeds_wf (snd (CreateFeed js now f rows))"
  by (auto simp: CreateFeed_def feeds_wf_def list_ex_iff split: sum.splits)

lemma feeds_wf_Update:
  assumes "feeds_wf rows"
  shows "feeds_wf (snd (UpdateFeed js now f rows))"
proof (cases "marshalSources js (fd_sources f)")
  case (Inr t)
  show ?thesis
  proof (cases "list_ex (owned (fd_id f) (fd_user f)) rows")
    case True
    with assms Inr show ?thesis
      by (auto simp: UpdateFeed_def feeds_wf_def case_prod_unfold intro: distinct_update_one)
  next
    case False
    then have "snd (update_where (owned (fd_id f) (fd_user f)) g rows) = rows" for g
      by (auto simp: update_where_def list_ex_iff intro: map_idI)
    with assms Inr False show ?thesis by (simp add: UpdateFeed_def case_prod_unfold)
  qed
qed (use assms in \<open>simp add: UpdateFeed_def\<close>)

lemma feeds_wf_Served: "feeds_wf rows \<Longrightarrow> feeds_wf (MarkFeedServed now i rows)"
  by (simp add: MarkFeedServed_def feeds_wf_def)

lemma feeds_wf_Delete: "feeds_wf rows \<Longrightarrow> feeds_wf (snd (DeleteFeed i u rows))"
  by (auto simp: DeleteFeed_def delete_where_def feeds_wf_def distinct_map_filter)

text \<open>The tables the operations can produce, starting from an empty one.\<close>

inductive feeds_reachable :: "json_lib \<Rightarrow> feed_row list \<Rightarrow> bool" for js where
  reach_empty: "feeds_reachable js []"
| reach_create: "feeds_reachable js rows \<Longrightarrow> feeds_reachable js (snd (CreateFeed js now f rows))"
| reach_update: "feeds_reachable js rows \<Longrightarrow> feeds_reachable js (snd (UpdateFeed js now f rows))"
| reach_served: "feeds_reachable js rows \<Longrightarrow> feeds_reachable js (MarkFeedServed now i rows)"
| reach_delete: "feeds_reachable js rows \<Longrightarrow> feeds_reachable js (snd (DeleteFeed i u rows))"

lemma feeds_reachable_wf: "feeds_reachable js rows \<Longrightarrow> feeds_wf rows"
proof (induction rule: feeds_reachable.induct)
  case reach_empty
  then show ?case by (simp add: feeds_wf_def)
qed (simp_all add: feeds_wf_Create feeds_wf_Update feeds_wf_Served feeds_wf_Delete)

text \<open>Whatever sequence of feed operations built the table, an access secret (and an id) belongs to
  at most one feed, so the public link of a feed never serves another one.\<close>

theorem feed_secret_unique:
  assumes "feeds_reachable js rows" and "r \<in> set rows" and "q \<in> set rows"
    and "w_secret r = w_secret q \<or> w_id r = w_id q"
  shows "r = q"
  using feeds_reachable_wf [OF assms(1)] assms(2-4) by (auto simp: feeds_wf_def distinct_map inj_on_def)


section \<open>Ownership\<close>

lemma filter_update_where_other:
  assumes "\<And>r. q r \<Longrightarrow> \<not> p r" and "\<And>r. p r \<Longrightarrow> \<not> q (f r)"
  shows "filter q (snd (update_where p f rows)) = filter q rows"
  using assms by (induction rows) (auto simp: update_where_def)

lemma owned_update [simp]: "w_id (f r) = w_id r \<Longrightarrow> w_user (f r) = w_user r \<Longrightarrow> owned i u (f r) = owned i u r"
  by (simp add: owned_def)

definition kept_columns :: "feed_row \<Rightarrow> string \<times> string \<times> string \<times> string \<times> int" where
  "kept_columns r = (w_id r, w_user r, w_created r, w_served r, w_count r)"

text \<open>An update or a delete touches only the feed with that id owned by that user (every other row,
  in particular every row of another user, stays as it is), fails with \<^verbatim>\<open>ErrNotFound\<close> without a change
  when there is none, and an update keeps the owner, the creation time and the serving statistics.\<close>

theorem feed_changes_owner_scoped:
  "filter (\<lambda>r. \<not> owned (fd_id f) (fd_user f) r) (snd (UpdateFeed js now f rows)) =
     filter (\<lambda>r. \<not> owned (fd_id f) (fd_user f) r) rows \<and>
   map kept_columns (snd (UpdateFeed js now f rows)) = map kept_columns rows \<and>
   filter (\<lambda>r. \<not> owned i u r) (snd (DeleteFeed i u rows)) = filter (\<lambda>r. \<not> owned i u r) rows \<and>
   (fst (DeleteFeed i u rows) = (if list_ex (owned i u) rows then None else Some ErrNotFound)) \<and>
   (if fst (UpdateFeed js now f rows) = None then list_ex (owned (fd_id f) (fd_user f)) rows
    else snd (UpdateFeed js now f rows) = rows)"
proof -
  let ?o = "owned (fd_id f) (fd_user f)"
  have none: "filter ?o rows = [] \<Longrightarrow> snd (update_where ?o g rows) = rows" for g
    by (auto simp: update_where_def filter_empty_conv intro: map_idI)
  have ex: "list_ex p rows \<longleftrightarrow> filter p rows \<noteq> []" for p :: "feed_row \<Rightarrow> bool"
    by (auto simp: list_ex_iff filter_empty_conv)
  have 1: "filter (\<lambda>r. \<not> ?o r) (snd (UpdateFeed js now f rows)) = filter (\<lambda>r. \<not> ?o r) rows"
    unfolding UpdateFeed_def
    by (auto simp: case_prod_unfold split: sum.split intro!: filter_update_where_other)
  have 2: "map kept_columns (snd (UpdateFeed js now f rows)) = map kept_columns rows"
    unfolding UpdateFeed_def
    by (auto simp: case_prod_unfold kept_columns_def [abs_def] simp del: map_update_where
        intro!: map_update_where split: sum.split)
  have 3: "fst (DeleteFeed i u rows) = (if list_ex (owned i u) rows then None else Some ErrNotFound)"
    by (simp add: DeleteFeed_def delete_where_def checkAffected_def ex)
  have 4: "if fst (UpdateFeed js now f rows) = None then list_ex ?o rows
      else snd (UpdateFeed js now f rows) = rows"
    using none
    by (auto simp: UpdateFeed_def case_prod_unfold checkAffected_def ex split: sum.split)
      (auto simp: update_where_def split: if_splits)
  show ?thesis using 1 2 3 4 by (simp add: DeleteFeed_def delete_where_def)
qed


section \<open>Round trip\<close>

text \<open>The second an instant is stored as.\<close>

definition to_second :: "go_time \<Rightarrow> go_time" where
  "to_second t = unix_secs t * 1000000000"

lemma parse_formatTime: "plain_year t \<Longrightarrow> parseTime (formatTime t) = to_second t"
  by (auto simp: formatTime_def parseTime_stamp to_second_def time_is_zero_def unix_secs_def)
    (simp add: parseTime_def go_parse_def LayoutRFC3339_def parse_chunks.simps num4_def)

lemma marshalSources_law:
  assumes "sources_json js"
  shows "\<exists>t. marshalSources js ss = Inr t \<and> t \<noteq> [] \<and> js_unmarshal_sources js t = Inr ss"
proof (cases "ss = []")
  case False
  obtain t where "js_marshal_sources js ss = Inr t" "t \<noteq> []" "js_unmarshal_sources js t = Inr ss"
    using assms unfolding sources_json_def by blast
  with False show ?thesis by (simp add: marshalSources_def)
qed (use assms in \<open>simp add: marshalSources_def sources_json_def\<close>)

text \<open>A feed that is created is read back by its id and by its secret as it was, its times to the
  second, with the defaults the insert fills in.\<close>

theorem create_then_read:
  assumes "sources_json js" and "fst (CreateFeed js now f rows) = None"
    and "plain_year now" and "plain_year (fd_created f)" and "plain_year (fd_last_served f)"
  shows "FeedByID js (fd_id f) (snd (CreateFeed js now f rows)) =
      Inr (f\<lparr>fd_rules := rulesOrEmpty (fd_rules f), fd_notifications := notifOrEmpty (fd_notifications f),
             fd_last_served := to_second (fd_last_served f),
             fd_created := to_second (if fd_created f = 0 then now else fd_created f),
             fd_updated := to_second now\<rparr>) \<and>
    FeedBySecret js (fd_secret f) (snd (CreateFeed js now f rows)) =
      FeedByID js (fd_id f) (snd (CreateFeed js now f rows))"
proof -
  obtain t where t: "marshalSources js (fd_sources f) = Inr t" "t \<noteq> []"
      "js_unmarshal_sources js t = Inr (fd_sources f)"
    using marshalSources_law [OF assms(1)] by blast
  with assms(2) have new: "\<not> list_ex (\<lambda>r. w_id r = fd_id f) rows" "\<not> list_ex (\<lambda>r. w_secret r = fd_secret f) rows"
    by (auto simp: CreateFeed_def list_ex_iff split: if_splits)
  let ?row = "\<lparr>w_id = fd_id f, w_user = fd_user f, w_name = fd_name f, w_secret = fd_secret f,
      w_sources = t, w_rules = rulesOrEmpty (fd_rules f), w_ttl = fd_ttl f,
      w_basic_user = fd_basic_user f, w_basic_hash = fd_basic_hash f,
      w_notifications = notifOrEmpty (fd_notifications f), w_served = formatTime (fd_last_served f),
      w_count = fd_serve_count f, w_created = stamp (if fd_created f = 0 then now else fd_created f),
      w_updated = stamp now\<rparr>"
  have c: "snd (CreateFeed js now f rows) = rows @ [?row]"
    using assms(2) t(1) by (simp add: CreateFeed_def time_is_zero_def split: if_splits)
  have "scanFeed js ?row =
      Inr (f\<lparr>fd_rules := rulesOrEmpty (fd_rules f), fd_notifications := notifOrEmpty (fd_notifications f),
             fd_last_served := to_second (fd_last_served f),
             fd_created := to_second (if fd_created f = 0 then now else fd_created f),
             fd_updated := to_second now\<rparr>)"
    using t(2,3) assms(3,4)
    by (simp add: scanFeed_def parse_formatTime [OF assms(5)] parseTime_stamp to_second_def)
  with new show ?thesis
    unfolding c FeedByID_def FeedBySecret_def feedBy_def by (simp add: find_append_new)
qed


section \<open>Concrete inputs\<close>

text \<open>A codec for the witnesses: every character of a field is preceded by \<^verbatim>\<open>-\<close> and a field ends with
  \<^verbatim>\<open>.\<close>, so the decoder needs no lookahead.\<close>

fun pack_field :: "string \<Rightarrow> string" where
  "pack_field [] = ''.''"
| "pack_field (c # cs) = CHR ''-'' # c # pack_field cs"

fun unpack :: "string \<Rightarrow> string \<Rightarrow> string list" where
  "unpack [] cur = []"
| "unpack [m] cur = (if m = CHR ''.'' then [cur] else [])"
| "unpack (m # c # s) cur =
     (if m = CHR ''.'' then cur # unpack (c # s) [] else unpack s (cur @ [c]))"

fun pack_sources :: "feed_source list \<Rightarrow> string" where
  "pack_sources [] = []"
| "pack_sources (s # ss) =
     pack_field (fs_url s) @ pack_field (fs_username s) @ pack_field (fs_password s) @ pack_sources ss"

fun group_sources :: "string list \<Rightarrow> feed_source list" where
  "group_sources (a # b # c # r) = \<lparr>fs_url = a, fs_username = b, fs_password = c\<rparr> # group_sources r"
| "group_sources _ = []"

lemma unpack_field: "unpack (pack_field f @ rest) cur = (cur @ f) # unpack rest []"
proof (induction f arbitrary: cur)
  case Nil
  then show ?case by (cases rest) simp_all
qed simp

lemma group_unpack: "group_sources (unpack (pack_sources ss) []) = ss"
  by (induction ss) (simp_all add: unpack_field)

definition sample_json :: json_lib where
  "sample_json = \<lparr>
     js_marshal_sources = (\<lambda>ss. Inr (if ss = [] then ''[]'' else pack_sources ss)),
     js_unmarshal_sources = (\<lambda>s. Inr (if s = ''[]'' then [] else group_sources (unpack s [])))\<rparr>"

lemma pack_sources_start: "ss \<noteq> [] \<Longrightarrow> \<exists>r. pack_sources ss = CHR ''-'' # r \<or> pack_sources ss = CHR ''.'' # r"
  by (cases ss; cases "fs_url (hd ss)") auto

lemma sample_json_laws: "sources_json sample_json"
proof -
  have "ss \<noteq> [] \<Longrightarrow> pack_sources ss \<noteq> [] \<and> pack_sources ss \<noteq> ''[]''" for ss
    using pack_sources_start [of ss] by auto
  then show ?thesis by (simp add: sources_json_def sample_json_def group_unpack)
qed

definition sample_feed :: feed where
  "sample_feed = \<lparr>fd_id = ''f1'', fd_user = ''u1'', fd_name = ''Work'', fd_secret = ''s3cret'',
     fd_sources = [\<lparr>fs_url = ''https://example.org/a.ics'', fs_username = [], fs_password = []\<rparr>],
     fd_rules = [], fd_ttl = 900, fd_basic_user = [], fd_basic_hash = [], fd_notifications = [],
     fd_last_served = 0, fd_serve_count = 0, fd_created = 0, fd_updated = 0\<rparr>"

lemma sample_feed_created: "fst (CreateFeed sample_json new_year sample_feed []) = None"
  by (simp add: CreateFeed_def marshalSources_def sample_json_def sample_feed_def)

lemma create_then_read_witness:
  "FeedByID sample_json ''f1'' (snd (CreateFeed sample_json new_year sample_feed [])) =
     Inr (sample_feed\<lparr>fd_rules := ''[]'', fd_notifications := ''{}'', fd_last_served := 0,
       fd_created := new_year, fd_updated := new_year\<rparr>)"
  using create_then_read [OF sample_json_laws sample_feed_created] new_year_plain
  by (simp add: sample_feed_def to_second_def rulesOrEmpty_def notifOrEmpty_def unix_secs_def new_year_def)

lemma feed_secret_unique_witness:
  "hd (snd (CreateFeed sample_json new_year sample_feed [])) =
     last (snd (CreateFeed sample_json new_year sample_feed []))"
proof (rule feed_secret_unique [OF reach_create [OF reach_empty, of sample_json new_year sample_feed]])
  show "hd (snd (CreateFeed sample_json new_year sample_feed [])) \<in> set (snd (CreateFeed sample_json new_year sample_feed []))"
    "last (snd (CreateFeed sample_json new_year sample_feed [])) \<in> set (snd (CreateFeed sample_json new_year sample_feed []))"
    by (simp_all add: CreateFeed_def marshalSources_def sample_json_def sample_feed_def)
qed (simp add: CreateFeed_def marshalSources_def sample_json_def sample_feed_def)

end
