(* ===== verification/Feed.thy ===== *)
theory Feed
  imports Pipeline Proxy Store_Feeds Ics_Text
begin

text \<open>
  \<^verbatim>\<open>internal/feed/service.go\<close>: rendering a feed. \<open>feed_env\<close> collects the fetcher, the pipeline's
  libraries and \<^verbatim>\<open>json.Unmarshal\<close> of the rule list; the state \<open>'w \<times> 'c\<close> is the outside world with its
  clock and the fetcher's cache. Components are values here, so an event that the merge changes is
  the changed copy that ends up in the output.
\<close>


section \<open>Environment\<close>

record ('w, 'c, 're, 'l) feed_env =
  ve_fetch :: "('w, 'c) fetch_env"
  ve_pipe :: "('re, 'l) pipe_env"
  ve_rules :: "bytes \<Rightarrow> rule_config list result"

abbreviation ve_lib :: "('w, 'c, 're, 'l) feed_env \<Rightarrow> 'l ical_lib" where
  "ve_lib env \<equiv> pe_ical (ve_pipe env)"

abbreviation ve_sha :: "('w, 'c, 're, 'l) feed_env \<Rightarrow> bytes \<Rightarrow> bytes" where
  "ve_sha env \<equiv> fe_sha256 (ve_fetch env)"

record event_summary =
  es_uid :: string
  es_summary :: string
  es_start :: string
  es_location :: string
  es_description :: string


section \<open>The empty output calendar\<close>

definition newCalendar :: "'l ical_lib \<Rightarrow> feed \<Rightarrow> component" where
  "newCalendar lib f =
     (let ps = il_set_text lib ''VERSION'' ''2.0'' (il_set_text lib ''PRODID'' ''-//TidyDAV//EN'' []);
          name = go_trim_space (fd_name f);
          ps = (if name \<noteq> [] then
                  il_set lib (TextProp lib ''X-WR-CALNAME'' name) (il_set lib (TextProp lib ''NAME'' name) ps)
                else ps);
          d = int64 (fd_ttl f * second);
          ps = (if 0 < fd_ttl f then
                  il_set lib (DurationProp lib ''X-PUBLISHED-TTL'' d False)
                    (il_set lib (DurationProp lib ''REFRESH-INTERVAL'' d True) ps)
                else ps)
      in Component CompCalendar ps [])"


section \<open>Merging the sources\<close>

text \<open>\<^verbatim>\<open>seq\<close> is the map of the next sequence number per key.\<close>

definition uid_key :: "(bytes \<Rightarrow> bytes) \<Rightarrow> 'l ical_lib \<Rightarrow> string \<Rightarrow> component \<Rightarrow> string" where
  "uid_key sha lib sourceURL e =
     take 32 (hex_encode (sha (concat (map (\<lambda>part. part @ [CHR 0x1F])
       [sourceURL, Text lib e FieldSummary, Raw lib e FieldDTStart, Text lib e FieldLocation]))))"

definition seq_at :: "(string, nat) go_map \<Rightarrow> string \<Rightarrow> nat" where
  "seq_at seq key = (case map_get seq key of Some n \<Rightarrow> n | None \<Rightarrow> 0)"

definition uid_text :: "string \<Rightarrow> nat \<Rightarrow> string" where
  "uid_text key n = (if 0 < n then key @ ''-'' @ itoa (int n) @ ''@tidydav'' else key @ ''@tidydav'')"

definition syntheticUID ::
  "(bytes \<Rightarrow> bytes) \<Rightarrow> 'l ical_lib \<Rightarrow> string \<Rightarrow> component \<Rightarrow> (string, nat) go_map \<Rightarrow>
     string \<times> (string, nat) go_map" where
  "syntheticUID sha lib sourceURL e seq =
     (let key = uid_key sha lib sourceURL e; n = seq_at seq key
      in (uid_text key n, map_put key (n + 1) seq))"

text \<open>\<^verbatim>\<open>time.Unix(0, 0)\<close> in the model's count from year 1.\<close>

definition unix_epoch :: go_time where "unix_epoch = 62135596800000000000"

definition event_start :: "('re, 'l) pipe_env \<Rightarrow> component \<Rightarrow> go_time option" where
  "event_start env e =
     (case il_start (pe_ical env) e (pe_utc env) of
        (t, err) \<Rightarrow> if err \<noteq> None \<or> time_is_zero t then None else Some t)"

definition ensureDTStamp :: "('re, 'l) pipe_env \<Rightarrow> component \<Rightarrow> component" where
  "ensureDTStamp env e =
     (if il_get (pe_ical env) (c_props e) ''DTSTAMP'' \<noteq> None then e
      else
        (let t = (case event_start env e of Some t \<Rightarrow> t | None \<Rightarrow> unix_epoch);
             pr = il_set_datetime (pe_ical env) t (pe_utc env) (il_new_prop (pe_ical env) ''DTSTAMP'')
         in with_props (il_set (pe_ical env) pr (c_props e)) e))"

record merge_state =
  ms_children :: "component list"
  ms_seen :: "(string, unit) go_map"
  ms_seq :: "(string, nat) go_map"
  ms_tz :: "(string, component) go_map"
  ms_fetched :: nat

definition dedup_id :: "'l ical_lib \<Rightarrow> component \<Rightarrow> string" where
  "dedup_id lib e = Text lib e ''UID'' @ nul @ Raw lib e FieldRecurrenceID"

definition merge_event ::
  "('w, 'c, 're, 'l) feed_env \<Rightarrow> string \<Rightarrow> component \<Rightarrow> merge_state \<Rightarrow> merge_state" where
  "merge_event env sourceURL e s =
     (let lib = ve_lib env; uid = Text lib e ''UID''; dedupID = dedup_id lib e
      in if uid = [] then
           (let (uid', seq) = syntheticUID (ve_sha env) lib sourceURL e (ms_seq s);
                e' = ensureDTStamp (ve_pipe env) (SetText lib ''UID'' uid' e)
            in s\<lparr>ms_children := ms_children s @ [e'], ms_seq := seq\<rparr>)
         else if map_get (ms_seen s) dedupID \<noteq> None then s
         else s\<lparr>ms_children := ms_children s @ [ensureDTStamp (ve_pipe env) e],
                ms_seen := map_put dedupID () (ms_seen s)\<rparr>)"

definition merge_tz :: "('w, 'c, 're, 'l) feed_env \<Rightarrow> component \<Rightarrow> merge_state \<Rightarrow> merge_state" where
  "merge_tz env child s =
     (if c_name child \<noteq> CompTimezone then s
      else case il_text (ve_lib env) (c_props child) ''TZID'' of
          Inl _ \<Rightarrow> s
        | Inr tzid \<Rightarrow>
            if tzid \<noteq> [] \<and> map_get (ms_tz s) tzid = None
            then s\<lparr>ms_tz := map_put tzid child (ms_tz s)\<rparr> else s)"

definition merge_calendar ::
  "('w, 'c, 're, 'l) feed_env \<Rightarrow> string \<Rightarrow> component \<Rightarrow> merge_state \<Rightarrow> merge_state" where
  "merge_calendar env sourceURL cal s =
     fold (merge_event env sourceURL) (events_of (ve_lib env) cal)
       (fold (merge_tz env) (c_children cal) (s\<lparr>ms_fetched := ms_fetched s + 1\<rparr>))"

text \<open>One round of the loop over the sources: an unavailable or unreadable source is skipped.\<close>

definition merge_source ::
  "('w, 'c, 're, 'l) feed_env \<Rightarrow> go_duration \<Rightarrow> feed_source \<Rightarrow> merge_state \<times> 'w \<times> 'c \<Rightarrow>
     merge_state \<times> 'w \<times> 'c" where
  "merge_source env ttl src st =
     (case st of (s, wc) \<Rightarrow>
        (case FetchAuth (ve_fetch env) (fs_url src) ttl (fs_username src) (fs_password src) wc of
           (Inl _, wc') \<Rightarrow> (s, wc')
         | (Inr (body, _), wc') \<Rightarrow>
             (case Parse (ve_lib env) body of
                Inl _ \<Rightarrow> (s, wc')
              | Inr cal \<Rightarrow> (merge_calendar env (fs_url src) cal s, wc'))))"

definition merge_start :: merge_state where
  "merge_start = \<lparr>ms_children = [], ms_seen = [], ms_seq = [], ms_tz = [], ms_fetched = 0\<rparr>"

definition merge ::
  "('w, 'c, 're, 'l) feed_env \<Rightarrow> feed \<Rightarrow> 'w \<times> 'c \<Rightarrow>
     (component \<times> (string, component) go_map) result \<times> 'w \<times> 'c" where
  "merge env f wc =
     (case fold (merge_source env (int64 (fd_ttl f * second))) (fd_sources f) (merge_start, wc) of
        (s, wc') \<Rightarrow>
          (if ms_fetched s = 0 \<and> fd_sources f \<noteq> []
           then Inl (ErrMsg [Lit ''feed '', Lit (fd_id f), Lit '': no source could be fetched''])
           else Inr (with_children (ms_children s) (newCalendar (ve_lib env) f), ms_tz s), wc'))"


section \<open>Time zone definitions\<close>

text \<open>\<^verbatim>\<open>for _, props := range e.Props\<close> collects into a set, so the order of the map does not matter.
  \<^verbatim>\<open>Params.Get\<close> is the first value of the parameter.\<close>

definition param_get :: "ical_prop \<Rightarrow> string \<Rightarrow> string" where
  "param_get p name = (case map_get (p_params p) name of Some (v # _) \<Rightarrow> v | _ \<Rightarrow> [])"

definition event_tzids :: "component \<Rightarrow> string list" where
  "event_tzids e =
     filter (\<lambda>z. z \<noteq> []) (map (\<lambda>p. param_get p ''TZID'') (concat (map snd (c_props e))))"

definition referencedTZIDs :: "'l ical_lib \<Rightarrow> component \<Rightarrow> string list" where
  "referencedTZIDs lib cal = sort (remdups (concat (map event_tzids (events_of lib cal))))"

text \<open>\<^verbatim>\<open>t.AddDate(years, 0, 0)\<close>: the same wall clock in another year (29 February turns into 1 March),
  converted back with the offset \<^verbatim>\<open>time.Date\<close> settles on.\<close>

definition add_years :: "('l \<Rightarrow> go_time \<Rightarrow> int) \<Rightarrow> 'l \<Rightarrow> int \<Rightarrow> go_time \<Rightarrow> go_time" where
  "add_years offset loc n t =
     (let f = time_fields_at (offset loc t) t;
          wall = days_of_civil (tf_year f + n) (tf_month f) (tf_day f) * 86400 + tf_hour f * 3600
                   + tf_min f * 60 + tf_sec f;
          o1 = offset loc (wall * second);
          o2 = (if o1 = 0 then 0 else offset loc ((wall - o1) * second))
      in (wall - o2) * second + tf_nsec f)"

definition tzWindowPastYears :: int where "tzWindowPastYears = 3"
definition tzWindowFutureYears :: int where "tzWindowFutureYears = 6"

definition midnight :: "go_time \<Rightarrow> go_time" where
  "midnight t = t div (86400 * second) * (86400 * second)"

text \<open>A bound of the window is an instant with the location it was read in.\<close>

definition window_step ::
  "('re, 'l) pipe_env \<Rightarrow> component \<Rightarrow> (go_time \<times> 'l) \<times> (go_time \<times> 'l) \<Rightarrow> (go_time \<times> 'l) \<times> (go_time \<times> 'l)" where
  "window_step env e b =
     (case b of (lo, hi) \<Rightarrow>
       (case event_start env e of
          None \<Rightarrow> b
        | Some t \<Rightarrow>
            let at = (t, il_start_loc (pe_ical env) e (pe_utc env))
            in (if time_is_zero (fst lo) \<or> time_before t (fst lo) then at else lo,
                if time_is_zero (fst hi) \<or> time_after t (fst hi) then at else hi)))"

definition eventWindow :: "('re, 'l) pipe_env \<Rightarrow> component \<Rightarrow> go_time \<Rightarrow> go_time \<times> go_time" where
  "eventWindow env cal now0 =
     (let off = utc_offset (pe_tz env); utc = pe_utc env; now = midnight now0;
          utc_years = add_years (\<lambda>_ _. 0) utc;
          minLo = utc_years (- tzWindowPastYears) now;
          maxHi = utc_years tzWindowFutureYears now;
          (lo, hi) = fold (window_step env) (events_of (pe_ical env) cal) ((0, utc), (0, utc))
      in if time_is_zero (fst lo) then (utc_years (- 1) now, utc_years 1 now)
         else
           (let lo' = (add_years off (snd lo) (- 1) (fst lo), snd lo);
                hi' = add_years off (snd hi) 1 (fst hi);
                lo' = (if time_before (fst lo') minLo then (minLo, utc) else lo');
                hi' = (if time_after hi' maxHi then maxHi else hi');
                hi' = (if time_before hi' (fst lo') then add_years off (snd lo') 1 (fst lo') else hi')
            in (fst lo', hi')))"

definition attach_def ::
  "('w, 'c, 're, 'l) feed_env \<Rightarrow> (string, component) go_map \<Rightarrow> go_time \<times> go_time \<Rightarrow> string \<Rightarrow> component option" where
  "attach_def env upstream win tzid =
     (case map_get upstream tzid of
        Some d \<Rightarrow> Some d
      | None \<Rightarrow>
          (case VTimezone (ve_lib env) (pe_tz (ve_pipe env)) tzid (fst win) (snd win) of
             Inr d \<Rightarrow> Some d | Inl _ \<Rightarrow> None))"

definition attachTimezones ::
  "('w, 'c, 're, 'l) feed_env \<Rightarrow> go_time \<Rightarrow> (string, component) go_map \<Rightarrow> component \<Rightarrow> component" where
  "attachTimezones env now upstream cal =
     (let tzids = referencedTZIDs (ve_lib env) cal
      in if tzids = [] then cal
         else with_children
           (List.map_filter (attach_def env upstream (eventWindow (ve_pipe env) cal now)) tzids @ c_children cal)
           cal)"


section \<open>Rendering\<close>

definition buildPipeline :: "('w, 'c, 're, 'l) feed_env \<Rightarrow> bytes \<Rightarrow> ('re, 'l) rule list result" where
  "buildPipeline env rules =
     (if rules = [] then BuildPipeline (ve_pipe env) []
      else case ve_rules env rules of
        Inl e \<Rightarrow> Inl (wrapf ''decode rules: '' e)
      | Inr configs \<Rightarrow> BuildPipeline (ve_pipe env) configs)"

definition feed_err :: "feed \<Rightarrow> go_error \<Rightarrow> go_error" where
  "feed_err f e = wrapf (''feed '' @ fd_id f @ '': '') e"

definition summarize :: "('re, 'l) pipe_env \<Rightarrow> component \<Rightarrow> event_summary list" where
  "summarize env cal =
     map (\<lambda>e. \<lparr>es_uid = Text (pe_ical env) e ''UID'', es_summary = Text (pe_ical env) e FieldSummary,
               es_start = (case event_start env e of
                  Some t \<Rightarrow> go_format_at LayoutRFC3339
                    (utc_offset (pe_tz env) (il_start_loc (pe_ical env) e (pe_utc env)) t) t
                | None \<Rightarrow> []),
               es_location = Text (pe_ical env) e FieldLocation,
               es_description = Text (pe_ical env) e FieldDescription\<rparr>)
       (events_of (pe_ical env) cal)"

text \<open>Merge, build the pipeline and apply it: the common part of \<^verbatim>\<open>Render\<close>, \<^verbatim>\<open>Preview\<close> and \<^verbatim>\<open>Matches\<close>.
  \<open>now\<close> is the clock the expire rule reads.\<close>

definition transform ::
  "('w, 'c, 're, 'l) feed_env \<Rightarrow> go_time \<Rightarrow> feed \<Rightarrow> component \<Rightarrow>
     (('re, 'l) rule list \<times> component) result" where
  "transform env now f merged =
     (case buildPipeline env (fd_rules f) of
        Inl e \<Rightarrow> Inl (feed_err f e)
      | Inr p \<Rightarrow>
          (case pipeline_apply (ve_pipe env) now p merged of
             (Some e, _, _) \<Rightarrow> Inl (feed_err f e)
           | (None, p', cal) \<Rightarrow> Inr (p', cal)))"

definition Render ::
  "('w, 'c, 're, 'l) feed_env \<Rightarrow> feed \<Rightarrow> 'w \<times> 'c \<Rightarrow> bytes result \<times> 'w \<times> 'c" where
  "Render env f wc =
     (case merge env f wc of
        (Inl e, wc') \<Rightarrow> (Inl e, wc')
      | (Inr (merged, tzdefs), wc') \<Rightarrow>
          (let now = fe_now (ve_fetch env) (fst wc')
           in (case transform env now f merged of
                 Inl e \<Rightarrow> Inl e
               | Inr (_, cal) \<Rightarrow>
                   (case Serialize (ve_lib env) (\<lambda>_. None) (attachTimezones env now tzdefs cal) of
                      Inl e \<Rightarrow> Inl (wrapf (''feed '' @ fd_id f @ '': serialize: '') e)
                    | Inr out \<Rightarrow> Inr out)), wc'))"

definition Preview ::
  "('w, 'c, 're, 'l) feed_env \<Rightarrow> feed \<Rightarrow> 'w \<times> 'c \<Rightarrow>
     (event_summary list \<times> event_summary list) result \<times> 'w \<times> 'c" where
  "Preview env f wc =
     (case merge env f wc of
        (Inl e, wc') \<Rightarrow> (Inl e, wc')
      | (Inr (merged, _), wc') \<Rightarrow>
          ((case transform env (fe_now (ve_fetch env) (fst wc')) f merged of
              Inl e \<Rightarrow> Inl e
            | Inr (_, cal) \<Rightarrow> Inr (summarize (ve_pipe env) merged, summarize (ve_pipe env) cal)), wc'))"

definition Matches ::
  "('w, 'c, 're, 'l) feed_env \<Rightarrow> feed \<Rightarrow> 'w \<times> 'c \<Rightarrow> rule_match list result \<times> 'w \<times> 'c" where
  "Matches env f wc =
     (case merge env f wc of
        (Inl e, wc') \<Rightarrow> (Inl e, wc')
      | (Inr (merged, _), wc') \<Rightarrow>
          ((case transform env (fe_now (ve_fetch env) (fst wc')) f merged of
              Inl e \<Rightarrow> Inl e
            | Inr (p, _) \<Rightarrow> Inr (pipeline_matches p)), wc'))"

definition CheckSource ::
  "('w, 'c, 're, 'l) feed_env \<Rightarrow> string \<Rightarrow> string \<Rightarrow> string \<Rightarrow> 'w \<times> 'c \<Rightarrow> nat result \<times> 'w \<times> 'c" where
  "CheckSource env url username password wc =
     (case FetchAuth (ve_fetch env) url 0 username password wc of
        (Inl e, wc') \<Rightarrow> (Inl e, wc')
      | (Inr (body, _), wc') \<Rightarrow>
          ((case Parse (ve_lib env) body of
              Inl _ \<Rightarrow> Inl (ErrMsg [Lit ''response is not a valid iCalendar document''])
            | Inr cal \<Rightarrow> Inr (length (events_of (ve_lib env) cal))), wc'))"

end
