(* ===== verification/Feed_Props.thy ===== *)
theory Feed_Props
  imports Feed Pipeline_Props
begin

text \<open>
  What \<^verbatim>\<open>feed.Service\<close> guarantees: a failing source never disturbs the others, the merged events have
  identities of their own and everything the encoder requires, and the window the generated time
  zone definitions cover is bounded and stable over a day.
\<close>


section \<open>A bad source never costs the others\<close>

text \<open>The calendars the sources yield, in order, with the world each fetch leaves.\<close>

fun source_calendars ::
  "('w, 'c, 're, 'l) feed_env \<Rightarrow> go_duration \<Rightarrow> feed_source list \<Rightarrow> 'w \<times> 'c \<Rightarrow>
     (string \<times> component) list \<times> 'w \<times> 'c" where
  "source_calendars env ttl [] wc = ([], wc)"
| "source_calendars env ttl (src # rest) wc =
     (case FetchAuth (ve_fetch env) (fs_url src) ttl (fs_username src) (fs_password src) wc of
        (r, wc') \<Rightarrow>
          (case source_calendars env ttl rest wc' of
             (cals, wc'') \<Rightarrow>
               (case r of
                  Inl _ \<Rightarrow> (cals, wc'')
                | Inr (body, _) \<Rightarrow>
                    (case Parse (ve_lib env) body of
                       Inl _ \<Rightarrow> (cals, wc'')
                     | Inr cal \<Rightarrow> ((fs_url src, cal) # cals, wc'')))))"

definition merge_all ::
  "('w, 'c, 're, 'l) feed_env \<Rightarrow> (string \<times> component) list \<Rightarrow> merge_state \<Rightarrow> merge_state" where
  "merge_all env cals s = fold (\<lambda>(url, cal). merge_calendar env url cal) cals s"

lemma merge_sources:
  "fold (merge_source env ttl) srcs (s, wc) =
     (case source_calendars env ttl srcs wc of (cals, wc') \<Rightarrow> (merge_all env cals s, wc'))"
  by (induction srcs arbitrary: s wc)
    (auto simp: merge_all_def merge_source_def split: prod.split sum.split)

lemma merge_event_frame:
  "ms_fetched (merge_event env u e s) = ms_fetched s" "ms_tz (merge_event env u e s) = ms_tz s"
  by (simp_all add: merge_event_def syntheticUID_def Let_def)

lemma merge_tz_frame:
  "ms_fetched (merge_tz env c s) = ms_fetched s" "ms_children (merge_tz env c s) = ms_children s"
  "ms_seen (merge_tz env c s) = ms_seen s" "ms_seq (merge_tz env c s) = ms_seq s"
  by (simp_all add: merge_tz_def split: sum.split)

lemma fold_keeps: "(\<And>x s. g (f x s) = g s) \<Longrightarrow> g (fold f xs s) = g s"
  by (induction xs arbitrary: s) auto

lemma merge_calendar_fetched: "ms_fetched (merge_calendar env u cal s) = ms_fetched s + 1"
  by (simp add: merge_calendar_def fold_keeps [where g = ms_fetched] merge_event_frame merge_tz_frame)

lemma merge_all_fetched: "ms_fetched (merge_all env cals s) = ms_fetched s + length cals"
  unfolding merge_all_def
  by (induction cals arbitrary: s) (auto simp: merge_calendar_fetched)

lemma merge_eq:
  "merge env f wc =
     (case source_calendars env (int64 (fd_ttl f * second)) (fd_sources f) wc of
        (cals, wc') \<Rightarrow>
          (if cals = [] \<and> fd_sources f \<noteq> []
           then Inl (ErrMsg [Lit ''feed '', Lit (fd_id f), Lit '': no source could be fetched''])
           else Inr (with_children (ms_children (merge_all env cals merge_start)) (newCalendar (ve_lib env) f),
                     ms_tz (merge_all env cals merge_start)), wc'))"
proof -
  have "ms_fetched (merge_all env cals merge_start) = 0 \<longleftrightarrow> cals = []" for cals
    by (simp add: merge_all_fetched merge_start_def)
  then show ?thesis by (simp add: merge_def merge_sources split: prod.split)
qed

text \<open>C34: a merge is the merge of the calendars its sources yielded: a source that cannot be fetched or
  parsed contributes nothing and takes nothing away, and the feed only fails when it has sources and
  none of them yielded a calendar.\<close>

theorem merge_tolerates_failures:
  "merge env f wc =
     (case source_calendars env (int64 (fd_ttl f * second)) (fd_sources f) wc of
        (cals, wc') \<Rightarrow>
          (if cals = [] \<and> fd_sources f \<noteq> []
           then Inl (ErrMsg [Lit ''feed '', Lit (fd_id f), Lit '': no source could be fetched''])
           else Inr (with_children (ms_children (merge_all env cals merge_start)) (newCalendar (ve_lib env) f),
                     ms_tz (merge_all env cals merge_start)), wc'))"
  by (rule merge_eq)


section \<open>Identities of merged events\<close>

text \<open>Documented behaviour of go-ical the merge relies on: besides the property list laws, the text just
  set is the text read, and \<^verbatim>\<open>SetDateTime\<close> keeps the property's name.\<close>

definition merge_laws :: "'l ical_lib \<Rightarrow> bool" where
  "merge_laws lib \<longleftrightarrow> props_laws lib \<and>
     (\<forall>n v e. Text lib (SetText lib n v e) n = v) \<and>
     (\<forall>t l p. p_name (il_set_datetime lib t l p) = p_name p)"

definition identity :: "'l ical_lib \<Rightarrow> component \<Rightarrow> string \<times> string" where
  "identity lib e = (Text lib e ''UID'', Raw lib e FieldRecurrenceID)"

lemma Text_cong: "il_get lib (c_props e) n = il_get lib (c_props e') n \<Longrightarrow> Text lib e n = Text lib e' n"
  by (simp add: Text_def)

lemma ensureDTStamp_other:
  assumes "merge_laws (pe_ical env)" and "n \<noteq> ''DTSTAMP''"
  shows "il_get (pe_ical env) (c_props (ensureDTStamp env e)) n = il_get (pe_ical env) (c_props e) n"
  using assms by (auto simp: merge_laws_def ensureDTStamp_def Let_def props_lawsD)

lemma ensureDTStamp_stamp:
  assumes "merge_laws (pe_ical env)"
  shows "il_get (pe_ical env) (c_props (ensureDTStamp env e)) ''DTSTAMP'' \<noteq> None"
proof (cases "il_get (pe_ical env) (c_props e) ''DTSTAMP'' = None")
  case True
  let ?t = "case event_start env e of Some t \<Rightarrow> t | None \<Rightarrow> unix_epoch"
  let ?p = "il_set_datetime (pe_ical env) ?t (pe_utc env) (il_new_prop (pe_ical env) ''DTSTAMP'')"
  have "p_name ?p = ''DTSTAMP''" using assms by (simp add: merge_laws_def props_lawsD)
  then have "il_get (pe_ical env) (il_set (pe_ical env) ?p (c_props e)) ''DTSTAMP'' = Some ?p"
    using assms props_lawsD(3) [of "pe_ical env" ?p] by (simp add: merge_laws_def)
  with True show ?thesis by (simp add: ensureDTStamp_def Let_def)
qed (simp add: ensureDTStamp_def)

lemma ensureDTStamp_identity:
  assumes "merge_laws (pe_ical env)"
  shows "identity (pe_ical env) (ensureDTStamp env e) = identity (pe_ical env) e"
  using ensureDTStamp_other [OF assms]
  by (simp add: identity_def Text_def Raw_def FieldRecurrenceID_def)

text \<open>Synthesised identifiers: a hexadecimal key, then a number, then the suffix.\<close>

definition tidy_suffix :: string where "tidy_suffix = ''@tidydav''"

definition key_char :: "char \<Rightarrow> bool" where
  "key_char c \<longleftrightarrow> c \<noteq> CHR ''-'' \<and> c \<noteq> CHR ''@''"

lemma hex_digit_key: "key_char (hex_digit n)"
proof -
  have "hex_digit n \<in> set ''0123456789abcdef''"
    unfolding hex_digit_def by (rule nth_mem) simp
  then show ?thesis by (auto simp: key_char_def)
qed

lemma uid_key_chars: "c \<in> set (uid_key sha lib u e) \<Longrightarrow> key_char c"
  by (auto simp: uid_key_def hex_encode_def hex_digit_key dest!: in_set_takeD)

lemma uid_text_key: "(\<And>c. c \<in> set k \<Longrightarrow> key_char c) \<Longrightarrow> takeWhile key_char (uid_text k n) = k"
  by (auto simp: uid_text_def key_char_def takeWhile_append2 takeWhile_eq_all_conv)

lemma uid_text_inj:
  assumes "\<And>c. c \<in> set k \<Longrightarrow> key_char c" and "\<And>c. c \<in> set k' \<Longrightarrow> key_char c"
    and "uid_text k n = uid_text k' n'"
  shows "k = k' \<and> n = n'"
proof -
  have k: "k = k'" using uid_text_key assms by metis
  have "itoa (int m) = nat_text m" for m by (simp add: itoa_def)
  with k assms(3) show ?thesis by (auto simp: uid_text_def dest: nat_text_inj split: if_splits)
qed

lemma uid_text_suffix: "suffix tidy_suffix (uid_text k n)"
  by (auto simp: uid_text_def tidy_suffix_def suffix_def)

text \<open>The invariant of the loop over the events.\<close>

definition merge_inv :: "'l ical_lib \<Rightarrow> merge_state \<Rightarrow> bool" where
  "merge_inv lib s \<longleftrightarrow>
     distinct (map (identity lib) (ms_children s)) \<and>
     (\<forall>c \<in> set (ms_children s).
        Text lib c ''UID'' \<noteq> [] \<and> il_get lib (c_props c) ''DTSTAMP'' \<noteq> None \<and>
        (if suffix tidy_suffix (Text lib c ''UID'')
         then \<exists>k n. Text lib c ''UID'' = uid_text k n \<and> (\<forall>x \<in> set k. key_char x) \<and> n < seq_at (ms_seq s) k
         else map_get (ms_seen s) (dedup_id lib c) \<noteq> None))"

lemma merge_invD:
  assumes "merge_inv lib s" and "c \<in> set (ms_children s)"
  shows "suffix tidy_suffix (Text lib c ''UID'') \<Longrightarrow>
      \<exists>k n. Text lib c ''UID'' = uid_text k n \<and> (\<forall>x \<in> set k. key_char x) \<and> n < seq_at (ms_seq s) k"
    and "\<not> suffix tidy_suffix (Text lib c ''UID'') \<Longrightarrow> map_get (ms_seen s) (dedup_id lib c) \<noteq> None"
proof -
  from assms have "if suffix tidy_suffix (Text lib c ''UID'')
      then \<exists>k n. Text lib c ''UID'' = uid_text k n \<and> (\<forall>x \<in> set k. key_char x) \<and> n < seq_at (ms_seq s) k
      else map_get (ms_seen s) (dedup_id lib c) \<noteq> None"
    unfolding merge_inv_def by blast
  then show "suffix tidy_suffix (Text lib c ''UID'') \<Longrightarrow>
      \<exists>k n. Text lib c ''UID'' = uid_text k n \<and> (\<forall>x \<in> set k. key_char x) \<and> n < seq_at (ms_seq s) k"
    and "\<not> suffix tidy_suffix (Text lib c ''UID'') \<Longrightarrow> map_get (ms_seen s) (dedup_id lib c) \<noteq> None"
    by (simp_all split: if_splits)
qed

lemma merge_inv_append:
  assumes inv: "merge_inv lib s" and t: "ms_children t = ms_children s @ [e]"
    and fresh: "identity lib e \<notin> identity lib ` set (ms_children s)"
    and e: "Text lib e ''UID'' \<noteq> []" "il_get lib (c_props e) ''DTSTAMP'' \<noteq> None"
      "if suffix tidy_suffix (Text lib e ''UID'')
       then \<exists>k n. Text lib e ''UID'' = uid_text k n \<and> (\<forall>x \<in> set k. key_char x) \<and> n < seq_at (ms_seq t) k
       else map_get (ms_seen t) (dedup_id lib e) \<noteq> None"
    and seq: "\<And>k. seq_at (ms_seq s) k \<le> seq_at (ms_seq t) k"
    and seen: "\<And>d. map_get (ms_seen s) d \<noteq> None \<Longrightarrow> map_get (ms_seen t) d \<noteq> None"
  shows "merge_inv lib t"
proof -
  have old: "if suffix tidy_suffix (Text lib c ''UID'')
       then \<exists>k n. Text lib c ''UID'' = uid_text k n \<and> (\<forall>x \<in> set k. key_char x) \<and> n < seq_at (ms_seq t) k
       else map_get (ms_seen t) (dedup_id lib c) \<noteq> None" if "c \<in> set (ms_children s)" for c
    using inv that seen less_le_trans [OF _ seq] unfolding merge_inv_def by (simp split: if_splits) metis
  with inv t fresh e show ?thesis unfolding merge_inv_def by auto
qed

lemma seq_at_put: "seq_at (map_put k n m) k' = (if k' = k then n else seq_at m k')"
  by (simp add: seq_at_def)

lemma dedup_id_identity: "identity lib e = identity lib e' \<Longrightarrow> dedup_id lib e = dedup_id lib e'"
  by (simp add: identity_def dedup_id_def)

lemma merge_event_inv:
  assumes laws: "merge_laws (ve_lib env)" and inv: "merge_inv (ve_lib env) s"
    and e: "\<not> suffix tidy_suffix (Text (ve_lib env) e ''UID'')"
  shows "merge_inv (ve_lib env) (merge_event env u e s)"
proof (cases "Text (ve_lib env) e ''UID'' = []")
  case True
  let ?lib = "ve_lib env"
  let ?k = "uid_key (ve_sha env) ?lib u e"
  let ?n = "seq_at (ms_seq s) ?k"
  let ?e = "ensureDTStamp (ve_pipe env) (SetText ?lib ''UID'' (uid_text ?k ?n) e)"
  have t: "merge_event env u e s =
      s\<lparr>ms_children := ms_children s @ [?e], ms_seq := map_put ?k (?n + 1) (ms_seq s)\<rparr>"
    using True by (simp add: merge_event_def syntheticUID_def Let_def)
  have uid: "Text ?lib ?e ''UID'' = uid_text ?k ?n"
    using ensureDTStamp_identity [OF laws] laws by (simp add: identity_def merge_laws_def)
  have keys: "\<forall>x \<in> set ?k. key_char x" using uid_key_chars by blast
  have fresh: "identity ?lib ?e \<notin> identity ?lib ` set (ms_children s)"
  proof
    assume "identity ?lib ?e \<in> identity ?lib ` set (ms_children s)"
    then obtain c where c: "c \<in> set (ms_children s)" "Text ?lib c ''UID'' = uid_text ?k ?n"
      using uid by (auto simp: identity_def)
    then obtain k n where "uid_text ?k ?n = uid_text k n" "\<forall>x \<in> set k. key_char x"
      "n < seq_at (ms_seq s) k"
      using merge_invD(1) [OF inv c(1)] uid_text_suffix by metis
    with keys uid_text_inj [of ?k k ?n n] show False by auto
  qed
  show ?thesis unfolding t
  proof (rule merge_inv_append [OF inv _ fresh])
    show "Text ?lib ?e ''UID'' \<noteq> []" using uid by (simp add: uid_text_def)
    show "il_get ?lib (c_props ?e) ''DTSTAMP'' \<noteq> None" by (rule ensureDTStamp_stamp [OF laws])
    have "\<exists>k n. uid_text ?k ?n = uid_text k n \<and> (\<forall>x \<in> set k. key_char x) \<and>
        n < seq_at (map_put ?k (?n + 1) (ms_seq s)) k"
      using keys by (intro exI [of _ ?k] exI [of _ ?n]) (simp add: seq_at_put)
    then show "if suffix tidy_suffix (Text ?lib ?e ''UID'')
       then \<exists>k n. Text ?lib ?e ''UID'' = uid_text k n \<and> (\<forall>x \<in> set k. key_char x) \<and>
         n < seq_at (ms_seq (s\<lparr>ms_children := ms_children s @ [?e], ms_seq := map_put ?k (?n + 1) (ms_seq s)\<rparr>)) k
       else map_get (ms_seen (s\<lparr>ms_children := ms_children s @ [?e], ms_seq := map_put ?k (?n + 1) (ms_seq s)\<rparr>))
         (dedup_id ?lib ?e) \<noteq> None"
      using uid by (simp add: uid_text_suffix)
  qed (simp_all add: seq_at_put)
next
  case False
  let ?lib = "ve_lib env" and ?e = "ensureDTStamp (ve_pipe env) e"
  have id: "identity ?lib ?e = identity ?lib e" by (rule ensureDTStamp_identity [OF laws])
  show ?thesis
  proof (cases "map_get (ms_seen s) (dedup_id ?lib e) = None")
    case new: True
    have t: "merge_event env u e s = s\<lparr>ms_children := ms_children s @ [?e],
        ms_seen := map_put (dedup_id ?lib e) () (ms_seen s)\<rparr>"
      using False new by (simp add: merge_event_def Let_def)
    have fresh: "identity ?lib ?e \<notin> identity ?lib ` set (ms_children s)"
    proof
      assume "identity ?lib ?e \<in> identity ?lib ` set (ms_children s)"
      then obtain c where c: "c \<in> set (ms_children s)" "identity ?lib c = identity ?lib e"
        using id by auto
      then have "\<not> suffix tidy_suffix (Text ?lib c ''UID'')" using e by (simp add: identity_def)
      with inv c(1) have "map_get (ms_seen s) (dedup_id ?lib c) \<noteq> None" by (rule merge_invD(2))
      with new dedup_id_identity [OF c(2)] show False by simp
    qed
    show ?thesis unfolding t
      by (rule merge_inv_append [OF inv _ fresh])
        (use False e id dedup_id_identity [OF id] ensureDTStamp_stamp [OF laws] in \<open>auto simp: identity_def\<close>)
  qed (use False inv in \<open>simp add: merge_event_def Let_def\<close>)
qed

text \<open>No source event carries an identifier of the form the merge makes up.\<close>

definition foreign_uids :: "'l ical_lib \<Rightarrow> bool" where
  "foreign_uids lib \<longleftrightarrow>
     (\<forall>body cal e. il_decode lib body = Inr cal \<longrightarrow> e \<in> set (events_of lib cal) \<longrightarrow>
        \<not> suffix tidy_suffix (Text lib e ''UID''))"

lemma merge_tz_inv: "merge_inv lib s \<Longrightarrow> merge_inv lib (merge_tz env c s)"
  by (simp add: merge_inv_def merge_tz_frame)

lemma merge_calendar_inv:
  assumes "merge_laws (ve_lib env)" and "merge_inv (ve_lib env) s"
    and "\<And>e. e \<in> set (events_of (ve_lib env) cal) \<Longrightarrow> \<not> suffix tidy_suffix (Text (ve_lib env) e ''UID'')"
  shows "merge_inv (ve_lib env) (merge_calendar env u cal s)"
proof -
  have tz: "merge_inv (ve_lib env) (fold (merge_tz env) cs s')" if "merge_inv (ve_lib env) s'" for cs s'
    using that by (induction cs arbitrary: s') (auto intro: merge_tz_inv)
  have ev: "merge_inv (ve_lib env) (fold (merge_event env u) es s')"
    if "merge_inv (ve_lib env) s'" "\<forall>e\<in>set es. \<not> suffix tidy_suffix (Text (ve_lib env) e ''UID'')" for es s'
    using that by (induction es arbitrary: s') (auto intro: merge_event_inv [OF assms(1)])
  show ?thesis unfolding merge_calendar_def using assms(2,3)
    by (intro ev tz) (auto simp: merge_inv_def)
qed

lemma source_calendars_decoded:
  "(u, cal) \<in> set (fst (source_calendars env ttl srcs wc)) \<Longrightarrow> \<exists>body. il_decode (ve_lib env) body = Inr cal"
proof (induction srcs arbitrary: wc)
  case (Cons src srcs)
  obtain r wc' where f: "FetchAuth (ve_fetch env) (fs_url src) ttl (fs_username src) (fs_password src) wc = (r, wc')"
    by (rule prod.exhaust)
  obtain cals wc'' where r: "source_calendars env ttl srcs wc' = (cals, wc'')" by (rule prod.exhaust)
  show ?case
    using Cons.prems Cons.IH [of wc'] f r
    by (auto simp: Parse_def split: sum.splits)
qed simp



section \<open>The window of generated time zones\<close>

lemma year_span: "365 * int n \<le> days_before_year (y + int n) - days_before_year y \<and>
    days_before_year (y + int n) - days_before_year y \<le> 366 * int n"
proof (induction n)
  case (Suc n)
  have "days_before_year (y + int (Suc n)) = days_before_year (y + int n) + year_days (y + int n)"
    using days_before_year_Suc [of "y + int n"] by (simp add: algebra_simps)
  with Suc show ?case by (simp add: year_days_def split: if_splits)
qed simp

lemma month_span: "\<bar>days_before_month y m - days_before_month y' m\<bar> \<le> 1"
  by (simp add: days_before_month_def)

lemma civil_span:
  assumes "0 \<le> n"
  shows "365 * n - 1 \<le> days_of_civil (y + n) m d - days_of_civil y m d \<and>
    days_of_civil (y + n) m d - days_of_civil y m d \<le> 366 * n + 1"
  using year_span [of "nat n" y] month_span [of "y + n" m y] assms
  unfolding days_of_civil_def by simp linarith

text \<open>How far \<open>add_years\<close> moves an instant: \<open>d\<close> days and a difference of offsets.\<close>

lemma add_years_shift:
  fixes offset :: "'l \<Rightarrow> go_time \<Rightarrow> int"
  defines "f t loc \<equiv> time_fields_at (offset loc t) t"
  shows "\<exists>x. add_years offset loc n t - t =
      (86400 * (days_of_civil (tf_year (f t loc) + n) (tf_month (f t loc)) (tf_day (f t loc)) -
        days_of_civil (tf_year (f t loc)) (tf_month (f t loc)) (tf_day (f t loc))) + offset loc t - x) * second \<and>
      (x = 0 \<or> (\<exists>u. x = offset loc u))"
proof -
  let ?off = "offset loc t" and ?g = "f t loc"
  let ?h = "time_fields_at 0 (t + ?off * second)"
  have g: "tf_year ?g = tf_year ?h" "tf_month ?g = tf_month ?h" "tf_day ?g = tf_day ?h"
    "tf_hour ?g = tf_hour ?h" "tf_min ?g = tf_min ?h" "tf_sec ?g = tf_sec ?h"
    "tf_nsec ?g = t mod 1000000000"
    by (simp_all add: f_def time_fields_at_def Let_def case_prod_unfold add.commute)
  have u: "t div 1000000000 + ?off = days_of_civil (tf_year ?g) (tf_month ?g) (tf_day ?g) * 86400 +
      tf_hour ?g * 3600 + tf_min ?g * 60 + tf_sec ?g"
    using fields_at_bounds(12) [of "t + ?off * second"] unfolding g unix_secs_def by simp
  let ?wall = "days_of_civil (tf_year ?g + n) (tf_month ?g) (tf_day ?g) * 86400 + tf_hour ?g * 3600
      + tf_min ?g * 60 + tf_sec ?g"
  let ?o1 = "offset loc (?wall * second)"
  let ?o2 = "if ?o1 = 0 then 0 else offset loc ((?wall - ?o1) * second)"
  have a: "add_years offset loc n t = (?wall - ?o2) * second + t mod 1000000000"
    unfolding add_years_def f_def [symmetric] Let_def g(7) by simp
  have "t = t div 1000000000 * 1000000000 + t mod 1000000000" by simp
  then have "add_years offset loc n t - t = (?wall - ?o2 - t div 1000000000) * second"
    unfolding a by (simp add: algebra_simps)
  also have "?wall - ?o2 - t div 1000000000 =
      86400 * (days_of_civil (tf_year ?g + n) (tf_month ?g) (tf_day ?g) -
        days_of_civil (tf_year ?g) (tf_month ?g) (tf_day ?g)) + ?off - ?o2"
    using u by (simp add: algebra_simps)
  finally show ?thesis by (intro exI [of _ ?o2]) auto
qed

abbreviation day :: int where "day \<equiv> 86400000000000"

lemma add_years_bounds:
  assumes "0 \<le> n" and "\<And>u. \<bar>offset loc u\<bar> \<le> b"
  shows "(86400 * (365 * n - 1) - 2 * b) * second \<le> add_years offset loc n t - t"
    and "add_years offset loc n t - t \<le> (86400 * (366 * n + 1) + 2 * b) * second"
proof -
  obtain x where x: "add_years offset loc n t - t =
      (86400 * (days_of_civil (tf_year (time_fields_at (offset loc t) t) + n)
          (tf_month (time_fields_at (offset loc t) t)) (tf_day (time_fields_at (offset loc t) t)) -
        days_of_civil (tf_year (time_fields_at (offset loc t) t))
          (tf_month (time_fields_at (offset loc t) t)) (tf_day (time_fields_at (offset loc t) t))) +
       offset loc t - x) * second" "x = 0 \<or> (\<exists>u. x = offset loc u)"
    using add_years_shift [of offset loc n t] by blast
  have "0 \<le> b" using assms(2) [of t] by linarith
  with x(2) assms(2) have "\<bar>x\<bar> \<le> b" by auto
  then have k: "86400 * (365 * n - 1) - 2 * b \<le> 86400 * D + offset loc t - x"
      "86400 * D + offset loc t - x \<le> 86400 * (366 * n + 1) + 2 * b"
    if "365 * n - 1 \<le> D" "D \<le> 366 * n + 1" for D
    using assms(2) [of t] that by (simp_all add: abs_le_iff)
  note s = civil_span [OF assms(1), of "tf_year (time_fields_at (offset loc t) t)"
      "tf_month (time_fields_at (offset loc t) t)" "tf_day (time_fields_at (offset loc t) t)"]
  show "(86400 * (365 * n - 1) - 2 * b) * second \<le> add_years offset loc n t - t"
    and "add_years offset loc n t - t \<le> (86400 * (366 * n + 1) + 2 * b) * second"
    unfolding x(1) using s by (intro mult_right_mono k; simp)+
qed

lemma add_years_back:
  assumes "0 \<le> n"
  shows "(365 * n - 1) * day \<le> t - add_years (\<lambda>_ _. 0) loc (- n) t"
    and "t - add_years (\<lambda>_ _. 0) loc (- n) t \<le> (366 * n + 1) * day"
proof -
  let ?g = "time_fields_at 0 t"
  have "add_years (\<lambda>_ _. 0) loc (- n) t - t =
      86400 * (days_of_civil (tf_year ?g - n) (tf_month ?g) (tf_day ?g) -
        days_of_civil (tf_year ?g) (tf_month ?g) (tf_day ?g)) * second"
    using add_years_shift [of "\<lambda>_ _. 0" loc "- n" t] by auto
  then show "(365 * n - 1) * day \<le> t - add_years (\<lambda>_ _. 0) loc (- n) t"
    and "t - add_years (\<lambda>_ _. 0) loc (- n) t \<le> (366 * n + 1) * day"
    using civil_span [OF assms, of "tf_year ?g - n" "tf_month ?g" "tf_day ?g"] by simp_all
qed

lemma midnight_idem: "midnight (midnight t) = midnight t"
  by (simp add: midnight_def)

lemma utc_span:
  fixes loc :: 'l
  defines "utc \<equiv> add_years (\<lambda>_ _. 0) loc"
  shows "utc 1 now - utc (- 1) now \<le> 3300 * day" "utc (- 1) now \<le> utc 1 now"
    "utc tzWindowFutureYears now - utc (- tzWindowPastYears) now \<le> 3300 * day"
  using add_years_back [of 1 now loc] add_years_back [of 3 now loc]
    add_years_bounds [of 1 "\<lambda>_ _. 0" loc 0 now] add_years_bounds [of 6 "\<lambda>_ _. 0" loc 0 now]
  unfolding utc_def tzWindowFutureYears_def tzWindowPastYears_def by simp_all

text \<open>Whatever the dates of the events, the window the generated VTIMEZONEs are scanned over is never
  inverted and never wider than 3300 days, so a stray event in a distant year cannot make the hourly
  scan expensive; and it only depends on the current day, so a rendered feed does not change within a
  day.\<close>

theorem eventWindow_bounded:
  assumes "\<And>loc t. \<bar>utc_offset (pe_tz env) loc t\<bar> \<le> 86400"
  shows "fst (eventWindow env cal now) \<le> snd (eventWindow env cal now) \<and>
    snd (eventWindow env cal now) - fst (eventWindow env cal now) \<le> 3300 * day \<and>
    eventWindow env cal now = eventWindow env cal (midnight now)"
proof -
  let ?off = "utc_offset (pe_tz env)" and ?utc = "add_years (\<lambda>_ _. 0) (pe_utc env)"
  let ?now = "midnight now"
  let ?minLo = "?utc (- tzWindowPastYears) ?now" and ?maxHi = "?utc tzWindowFutureYears ?now"
  obtain lo hi where b: "fold (window_step env) (events_of (pe_ical env) cal) ((0, pe_utc env), (0, pe_utc env)) = (lo, hi)"
    by (rule prod.exhaust)
  define lo1 where "lo1 = (add_years ?off (snd lo) (- 1) (fst lo), snd lo)"
  define lo2 where "lo2 = (if fst lo1 < ?minLo then (?minLo, pe_utc env) else lo1)"
  define hi1 where "hi1 = min (add_years ?off (snd hi) 1 (fst hi)) ?maxHi"
  have w: "eventWindow env cal now =
      (if fst lo = 0 then (?utc (- 1) ?now, ?utc 1 ?now)
       else (fst lo2, if hi1 < fst lo2 then add_years ?off (snd lo2) 1 (fst lo2) else hi1))"
    unfolding eventWindow_def Let_def b lo2_def lo1_def hi1_def
    by (simp add: go_simps min_def not_less)
  have "?minLo \<le> fst lo2" by (simp add: lo2_def)
  moreover have "hi1 \<le> ?maxHi" by (simp add: hi1_def)
  moreover have "0 \<le> add_years ?off (snd lo2) 1 (fst lo2) - fst lo2"
    "add_years ?off (snd lo2) 1 (fst lo2) - fst lo2 \<le> 3300 * day"
    using add_years_bounds [of 1 ?off "snd lo2" 86400 "fst lo2"] assms by simp_all
  ultimately have "fst (eventWindow env cal now) \<le> snd (eventWindow env cal now) \<and>
      snd (eventWindow env cal now) - fst (eventWindow env cal now) \<le> 3300 * day"
    using utc_span [of "pe_utc env" ?now] unfolding w by auto
  moreover have "eventWindow env cal now = eventWindow env cal ?now"
    unfolding eventWindow_def midnight_idem ..
  ultimately show ?thesis by blast
qed


section \<open>Concrete inputs\<close>

text \<open>Two events without a UID and one delivered twice.\<close>

definition sample_calendar :: component where
  "sample_calendar = Component ''VCALENDAR'' []
     [sample_event [(''SUMMARY'', ''x'')], sample_event [(''SUMMARY'', ''x'')],
      sample_event [(''UID'', ''a'')], sample_event [(''UID'', ''a'')]]"

definition merge_pipe :: "(string, unit) pipe_env" where
  "merge_pipe = sample_env\<lparr>pe_ical := sample_ical\<lparr>il_decode := \<lambda>_. Inr sample_calendar\<rparr>\<rparr>"

definition sample_feed_env :: "(nat, cache_row list, string, unit) feed_env" where
  "sample_feed_env = \<lparr>ve_fetch = store_fetcher 0 sample_fetch_env, ve_pipe = merge_pipe,
     ve_rules = (\<lambda>_. Inr [])\<rparr>"

definition cal_feed :: feed where
  "cal_feed = sample_feed\<lparr>fd_ttl := 0,
     fd_sources := [\<lparr>fs_url = ''/cal'', fs_username = [], fs_password = []\<rparr>]\<rparr>"

lemma sample_merge_laws: "merge_laws (pe_ical merge_pipe)"
  by (simp add: merge_laws_def merge_pipe_def props_laws_def sample_ical_def Text_def SetText_def
      unescapeText_def unescape_escape) (metis unescape_escape unescape_none)

lemma sample_merge:
  assumes "ve_fetch env = store_fetcher 0 sample_fetch_env" and "ve_pipe env = merge_pipe"
    and "fd_ttl f = 0" and "fd_sources f = fd_sources cal_feed"
  shows "\<exists>cal tzdefs wc'. merge env f (0, []) = (Inr (cal, tzdefs), wc')"
proof -
  have "url_parse ''/cal'' \<noteq> None" by code_simp
  note f = sample_fetch [OF this, of "[]" "[]"]
  have "int64 (fd_ttl f * second) = 0" by (simp add: assms(3) int64_def)
  moreover have "fst (source_calendars env 0 (fd_sources f) (0, [])) \<noteq> []"
    using f by (simp add: assms cal_feed_def Parse_def merge_pipe_def)
  ultimately show ?thesis by (simp add: merge_eq case_prod_unfold)
qed


lemma eventWindow_bounded_witness:
  "snd (eventWindow merge_pipe sample_calendar new_year) - fst (eventWindow merge_pipe sample_calendar new_year)
     \<le> 3300 * day"
proof -
  have "\<bar>utc_offset (pe_tz merge_pipe) loc t\<bar> \<le> 86400" for loc t
    by (simp add: merge_pipe_def sample_env_def sample_tz_def utc_offset_def)
  from eventWindow_bounded [OF this] show ?thesis by blast
qed

end
