(* ===== verification/Notify.thy ===== *)
theory Notify
  imports Redact Go_Time
begin

text \<open>
  \<^verbatim>\<open>internal/notify/notify.go\<close>: the three kinds of notification targets, the dispatcher that fans an
  event out to them, and a feed's notification configuration. The HTTP client and
  \<^verbatim>\<open>encoding/json\<close> are the parameters in \<open>notify_env\<close>, \<open>ne_error\<close> the text of an error and \<open>ne_url_inner\<close> what a \<^verbatim>\<open>*url.Error\<close> holds;
  \<open>'w\<close> is the outside world.
\<close>

record event =
  ev_feed :: string
  ev_rule :: string
  ev_summary :: string
  ev_message :: string
  ev_time :: go_time

record post_request =
  po_url :: string
  po_content_type :: string
  po_body :: bytes
  po_headers :: "(string \<times> string) list"

record 'w notify_env =
  ne_do :: "post_request \<Rightarrow> 'w \<Rightarrow> int result \<times> 'w"
  ne_json_event :: "event \<Rightarrow> bytes result"
  ne_json_map :: "(string \<times> string) list \<Rightarrow> bytes result"
  ne_url_error :: "string \<Rightarrow> go_error"
  ne_error :: "go_error \<Rightarrow> string"
  ne_url_inner :: "go_error \<Rightarrow> go_error option"

definition post ::
  "'w notify_env \<Rightarrow> string \<Rightarrow> string \<Rightarrow> bytes \<Rightarrow> (string \<times> string) list \<Rightarrow> 'w \<Rightarrow> go_error option \<times> 'w" where
  "post env url contentType body headers w =
     (case url_parse url of
        None \<Rightarrow> (Some (ne_url_error env url), w)
      | Some _ \<Rightarrow>
          (case ne_do env \<lparr>po_url = url, po_content_type = contentType, po_body = body,
                          po_headers = headers\<rparr> w of
             (Inl e, w') \<Rightarrow>
               (Some (ErrWrap [Lit ''notify: post to '', Lit (RedactURL url), Lit '' failed: '']
                  (RedactError (ne_error env) (ne_url_inner env) e url) []), w')
           | (Inr status, w') \<Rightarrow>
               (if status < 200 \<or> 300 \<le> status
                then Some (ErrMsg [Lit ''notify: '', Lit (RedactURL url), Lit '' returned status '',
                                   Lit (itoa status)])
                else None, w')))"

definition title :: "event \<Rightarrow> string" where
  "title ev = (if ev_summary ev \<noteq> [] then ev_summary ev else ''TidyDAV'')"


section \<open>Targets\<close>

datatype target = Webhook string | Ntfy string | Gotify string

definition NewNtfyNotifier :: "string \<Rightarrow> string \<Rightarrow> target" where
  "NewNtfyNotifier server topic = Ntfy (trim_right_char (CHR ''/'') server @ ''/'' @ topic)"

definition NewGotifyNotifier :: "string \<Rightarrow> string \<Rightarrow> target" where
  "NewGotifyNotifier server token =
     Gotify (trim_right_char (CHR ''/'') server @ ''/message?token='' @ token)"

definition Kind :: "target \<Rightarrow> string" where
  "Kind t = (case t of Webhook _ \<Rightarrow> ''webhook'' | Ntfy _ \<Rightarrow> ''ntfy'' | Gotify _ \<Rightarrow> ''gotify'')"

definition Notify :: "'w notify_env \<Rightarrow> target \<Rightarrow> event \<Rightarrow> 'w \<Rightarrow> go_error option \<times> 'w" where
  "Notify env t ev w =
     (case t of
        Webhook url \<Rightarrow>
          (case ne_json_event env ev of
             Inl e \<Rightarrow> (Some e, w)
           | Inr body \<Rightarrow> post env url ''application/json'' body [] w)
      | Ntfy url \<Rightarrow> post env url ''text/plain'' (ev_message ev) [(''Title'', title ev)] w
      | Gotify url \<Rightarrow>
          (case ne_json_map env [(''title'', title ev), (''message'', ev_message ev)] of
             Inl e \<Rightarrow> (Some e, w)
           | Inr body \<Rightarrow> post env url ''application/json'' body [] w))"


section \<open>The dispatcher\<close>

fun dispatch_loop ::
  "'w notify_env \<Rightarrow> event \<Rightarrow> target list \<Rightarrow> nat \<Rightarrow> go_error option \<Rightarrow> 'w \<Rightarrow>
     (nat \<times> go_error option) \<times> 'w" where
  "dispatch_loop env ev [] delivered lastErr w = ((delivered, lastErr), w)"
| "dispatch_loop env ev (t # ts) delivered lastErr w =
     (case Notify env t ev w of
        (Some e, w') \<Rightarrow> dispatch_loop env ev ts delivered (Some e) w'
      | (None, w') \<Rightarrow> dispatch_loop env ev ts (delivered + 1) lastErr w')"

definition Dispatch :: "'w notify_env \<Rightarrow> target list \<Rightarrow> event \<Rightarrow> 'w \<Rightarrow> go_error option \<times> 'w" where
  "Dispatch env ts ev w =
     (case dispatch_loop env ev ts 0 None w of
        ((delivered, lastErr), w') \<Rightarrow> (if delivered = 0 then lastErr else None, w'))"


section \<open>Configuration\<close>

record config =
  nc_webhook_url :: string
  nc_ntfy_server :: string
  nc_ntfy_topic :: string
  nc_gotify_server :: string
  nc_gotify_token :: string

definition NewFromConfig :: "config \<Rightarrow> target list" where
  "NewFromConfig cfg =
     (if nc_webhook_url cfg \<noteq> [] then [Webhook (nc_webhook_url cfg)] else []) @
     (if nc_ntfy_server cfg \<noteq> [] \<and> nc_ntfy_topic cfg \<noteq> []
      then [NewNtfyNotifier (nc_ntfy_server cfg) (nc_ntfy_topic cfg)] else []) @
     (if nc_gotify_server cfg \<noteq> [] \<and> nc_gotify_token cfg \<noteq> []
      then [NewGotifyNotifier (nc_gotify_server cfg) (nc_gotify_token cfg)] else [])"

record feed_notifications =
  fn_webhook_url :: string
  fn_ntfy_server :: string
  fn_ntfy_topic :: string
  fn_gotify_server :: string
  fn_gotify_token :: string
  fn_triggers :: "string list"
  fn_stale_hours :: int

definition notif_config :: "feed_notifications \<Rightarrow> config" where
  "notif_config f = \<lparr>nc_webhook_url = fn_webhook_url f, nc_ntfy_server = fn_ntfy_server f,
     nc_ntfy_topic = fn_ntfy_topic f, nc_gotify_server = fn_gotify_server f,
     nc_gotify_token = fn_gotify_token f\<rparr>"

definition HasTarget :: "feed_notifications \<Rightarrow> bool" where
  "HasTarget f \<longleftrightarrow> fn_webhook_url f \<noteq> [] \<or> (fn_ntfy_server f \<noteq> [] \<and> fn_ntfy_topic f \<noteq> []) \<or>
     (fn_gotify_server f \<noteq> [] \<and> fn_gotify_token f \<noteq> [])"

definition Enabled :: "feed_notifications \<Rightarrow> bool" where
  "Enabled f \<longleftrightarrow> HasTarget f \<and> fn_triggers f \<noteq> []"

definition StaleEnabled :: "feed_notifications \<Rightarrow> bool" where
  "StaleEnabled f \<longleftrightarrow> HasTarget f \<and> 0 < fn_stale_hours f"

definition Triggered :: "feed_notifications \<Rightarrow> string \<Rightarrow> bool" where
  "Triggered f ruleType \<longleftrightarrow> list_ex (\<lambda>t. t = ruleType) (fn_triggers f)"

definition feed_dispatcher :: "feed_notifications \<Rightarrow> target list" where
  "feed_dispatcher f = NewFromConfig (notif_config f)"

lemma HasTarget_dispatcher: "HasTarget f \<longleftrightarrow> feed_dispatcher f \<noteq> []"
  by (simp add: HasTarget_def feed_dispatcher_def NewFromConfig_def notif_config_def)


section \<open>Every target is tried\<close>

text \<open>The outcome of each target in turn.\<close>

fun attempts :: "'w notify_env \<Rightarrow> event \<Rightarrow> target list \<Rightarrow> 'w \<Rightarrow> go_error option list \<times> 'w" where
  "attempts env ev [] w = ([], w)"
| "attempts env ev (t # ts) w =
     (case Notify env t ev w of (r, w') \<Rightarrow>
        (case attempts env ev ts w' of (rs, w'') \<Rightarrow> (r # rs, w'')))"

lemma length_attempts: "length (fst (attempts env ev ts w)) = length ts"
  by (induction ts arbitrary: w) (auto simp: case_prod_unfold)

lemma dispatch_loop_attempts:
  "dispatch_loop env ev ts n le w =
     (case attempts env ev ts w of (rs, w') \<Rightarrow>
        ((n + length (filter (\<lambda>r. r = None) rs),
          fold (\<lambda>r le. case r of None \<Rightarrow> le | Some e \<Rightarrow> Some e) rs le), w'))"
  by (induction ts arbitrary: n le w) (auto split: prod.split option.split)

lemma last_error_None: "fold (\<lambda>r le. case r of None \<Rightarrow> le | Some e \<Rightarrow> Some e) rs le = None \<longleftrightarrow>
    le = None \<and> (\<forall>r\<in>set rs. r = None)"
  by (induction rs arbitrary: le) (auto split: option.split)

text \<open>a dispatch tries every target whatever the others did, and reports an error exactly when there
  is a target and none of them could be reached.\<close>

theorem Dispatch_spec:
  "snd (Dispatch env ts ev w) = snd (attempts env ev ts w) \<and>
   (fst (Dispatch env ts ev w) \<noteq> None \<longleftrightarrow>
      ts \<noteq> [] \<and> None \<notin> set (fst (attempts env ev ts w)))"
proof (cases "attempts env ev ts w")
  case (Pair rs w')
  let ?last = "fold (\<lambda>r le. case r of None \<Rightarrow> le | Some e \<Rightarrow> Some e) rs None"
  have ts: "ts = [] \<longleftrightarrow> rs = []" using length_attempts [of env ev ts w] Pair by auto
  have d: "Dispatch env ts ev w = (if None \<in> set rs then None else ?last, w')"
  proof -
    have "length (filter (\<lambda>r. r = None) rs) = 0 \<longleftrightarrow> None \<notin> set rs"
      by (simp only: length_0_conv filter_empty_conv) metis
    then show ?thesis using Pair by (simp only: Dispatch_def dispatch_loop_attempts prod.case add_0) simp
  qed
  have "?last = None \<longleftrightarrow> (\<forall>r\<in>set rs. r = None)" by (simp add: last_error_None)
  moreover have "(\<forall>r\<in>set rs. r = None) \<longleftrightarrow> rs = []" if "None \<notin> set rs"
    using that by (cases rs) auto
  ultimately show ?thesis unfolding d ts using Pair by auto
qed

end
