(* ===== verification/Notifier.thy ===== *)
theory Notifier
  imports Notify Feed
begin

text \<open>
  \<^verbatim>\<open>internal/notifier/notifier.go\<close>: evaluating the notification triggers of the feeds. The
  de-duplication ledger is reached through the operations in \<open>notifier_env\<close>; their contract is the
  locale \<open>ledger\<close>, interpreted on the store's \<^verbatim>\<open>notified\<close> table. The state is the outside world with
  its clock, the feed cache and the ledger.
\<close>


section \<open>Environment\<close>

record ('w, 'c, 'n, 're, 'l) notifier_env =
  rv_feeds :: "('w, 'c, 're, 'l) feed_env"
  rv_notify :: "'w notify_env"
  rv_config :: "bytes \<Rightarrow> feed_notifications result"
  rv_mark :: "'w \<Rightarrow> string \<Rightarrow> string \<Rightarrow> 'n \<Rightarrow> bool result \<times> 'n"
  rv_unmark :: "string \<Rightarrow> string \<Rightarrow> 'n \<Rightarrow> go_error option \<times> 'n"
  rv_notified :: "string \<Rightarrow> string \<Rightarrow> 'n \<Rightarrow> bool result"
  rv_prune :: "go_time \<Rightarrow> 'n \<Rightarrow> nat result \<times> 'n"
  rv_fetched_at :: "string \<Rightarrow> 'c \<Rightarrow> go_time result"
  rv_quote :: "string \<Rightarrow> string"

abbreviation rv_now :: "('w, 'c, 'n, 're, 'l) notifier_env \<Rightarrow> 'w \<Rightarrow> go_time" where
  "rv_now env \<equiv> fe_now (ve_fetch (rv_feeds env))"

abbreviation rv_sha :: "('w, 'c, 'n, 're, 'l) notifier_env \<Rightarrow> bytes \<Rightarrow> bytes" where
  "rv_sha env \<equiv> fe_sha256 (ve_fetch (rv_feeds env))"

definition retention :: go_duration where "retention = 30 * (24 * hour)"

definition ruleSourceStale :: string where "ruleSourceStale = ''source_stale''"
definition ruleSourceRecovered :: string where "ruleSourceRecovered = ''source_recovered''"


section \<open>Keys\<close>

definition eventKey :: "matched_event \<Rightarrow> string" where
  "eventKey ev =
     (let eid = (if me_uid ev = [] then me_summary ev else me_uid ev) in eid @ ''|'' @ me_start ev)"

definition staleKey :: "(bytes \<Rightarrow> bytes) \<Rightarrow> string \<Rightarrow> string" where
  "staleKey sha url = ''source_stale|'' @ take 16 (hex_encode (sha url))"

definition staleEvent :: "('w, 'c, 'n, 're, 'l) notifier_env \<Rightarrow> feed \<Rightarrow> string \<Rightarrow> string \<Rightarrow> 'w \<Rightarrow> event" where
  "staleEvent env f rule msg w =
     \<lparr>ev_feed = fd_name f, ev_rule = rule, ev_summary = fd_name f, ev_message = msg,
      ev_time = rv_now env w\<rparr>"


section \<open>Rule matches\<close>

text \<open>
  The body both alerts share: record the key; when it was new, send the event; when nothing could be
  delivered, take the key back so that the next run tries again.
\<close>

definition announce ::
  "('w, 'c, 'n, 're, 'l) notifier_env \<Rightarrow> target list \<Rightarrow> string \<Rightarrow> string \<Rightarrow> ('w \<Rightarrow> event) \<Rightarrow> 'w \<times> 'n \<Rightarrow> 'w \<times> 'n" where
  "announce env disp fid key ev s =
     (case s of (w, n) \<Rightarrow>
        (case rv_mark env w fid key n of
           (Inl _, n') \<Rightarrow> (w, n')
         | (Inr isNew, n') \<Rightarrow>
             if \<not> isNew then (w, n')
             else (case Dispatch (rv_notify env) disp (ev w) w of
                 (None, w') \<Rightarrow> (w', n')
               | (Some _, w') \<Rightarrow> (w', snd (rv_unmark env fid key n')))))"

definition match_event ::
  "('w, 'c, 'n, 're, 'l) notifier_env \<Rightarrow> feed \<Rightarrow> string \<Rightarrow> matched_event \<Rightarrow> 'w \<Rightarrow> event" where
  "match_event env f rule ev w =
     \<lparr>ev_feed = fd_name f, ev_rule = rule, ev_summary = me_summary ev,
      ev_message = rule @ '' matched: '' @ me_summary ev, ev_time = rv_now env w\<rparr>"

definition match_key :: "string \<Rightarrow> matched_event \<Rightarrow> string" where
  "match_key rule ev = rule @ ''|'' @ eventKey ev"

definition run_match ::
  "('w, 'c, 'n, 're, 'l) notifier_env \<Rightarrow> feed \<Rightarrow> feed_notifications \<Rightarrow> target list \<Rightarrow> rule_match \<Rightarrow>
     'w \<times> 'n \<Rightarrow> 'w \<times> 'n" where
  "run_match env f cfg disp m s =
     (if \<not> Triggered cfg (rm_rule m) then s
      else fold (\<lambda>ev. announce env disp (fd_id f) (match_key (rm_rule m) ev) (match_event env f (rm_rule m) ev))
             (rm_events m) s)"

definition runMatches ::
  "('w, 'c, 'n, 're, 'l) notifier_env \<Rightarrow> feed \<Rightarrow> feed_notifications \<Rightarrow> target list \<Rightarrow>
     'w \<times> 'c \<times> 'n \<Rightarrow> 'w \<times> 'c \<times> 'n" where
  "runMatches env f cfg disp s =
     (case s of (w, c, n) \<Rightarrow>
        (case Matches (rv_feeds env) f (w, c) of
           (Inl _, w', c') \<Rightarrow> (w', c', n)
         | (Inr ms, w', c') \<Rightarrow>
             (case fold (run_match env f cfg disp) ms (w', n) of (w'', n') \<Rightarrow> (w'', c', n'))))"


section \<open>Outage alerts\<close>

text \<open>\<^verbatim>\<open>int(d.Hours())\<close>: whole hours, towards zero.\<close>

definition stale_message ::
  "('w, 'c, 'n, 're, 'l) notifier_env \<Rightarrow> feed \<Rightarrow> string \<Rightarrow> go_time \<Rightarrow> go_time \<Rightarrow> string" where
  "stale_message env f url fetchedAt now =
     (let safeURL = RedactURL url
      in if time_is_zero fetchedAt
         then ''Calendar '' @ rv_quote env (fd_name f) @ '': source '' @ safeURL @
              '' has never been fetched successfully.''
         else ''Calendar '' @ rv_quote env (fd_name f) @ '': source '' @ safeURL @
              '' has not updated for '' @ itoa (go_quot (time_sub now fetchedAt) hour) @ ''h.'')"

definition recovered_message :: "('w, 'c, 'n, 're, 'l) notifier_env \<Rightarrow> feed \<Rightarrow> string \<Rightarrow> string" where
  "recovered_message env f url =
     ''Calendar '' @ rv_quote env (fd_name f) @ '': source '' @ RedactURL url @
     '' is updating again.''"

definition source_outdated :: "go_duration \<Rightarrow> go_time \<Rightarrow> go_time \<Rightarrow> bool" where
  "source_outdated threshold now fetchedAt \<longleftrightarrow>
     time_is_zero fetchedAt \<or> threshold < time_sub now fetchedAt"

definition stale_source ::
  "('w, 'c, 'n, 're, 'l) notifier_env \<Rightarrow> feed \<Rightarrow> target list \<Rightarrow> go_duration \<Rightarrow> go_time \<Rightarrow> 'c \<Rightarrow>
     feed_source \<Rightarrow> 'w \<times> 'n \<Rightarrow> 'w \<times> 'n" where
  "stale_source env f disp threshold now c src s =
     (case rv_fetched_at env (fs_url src) c of
        Inl _ \<Rightarrow> s
      | Inr fetchedAt \<Rightarrow>
          (let key = staleKey (rv_sha env) (fs_url src)
           in if source_outdated threshold now fetchedAt then
                announce env disp (fd_id f) key
                  (staleEvent env f ruleSourceStale (stale_message env f (fs_url src) fetchedAt now)) s
              else
                (case s of (w, n) \<Rightarrow>
                  (case rv_notified env (fd_id f) key n of
                     Inl _ \<Rightarrow> (w, n)
                   | Inr announced \<Rightarrow>
                       if \<not> announced then (w, n)
                       else (case Dispatch (rv_notify env) disp
                             (staleEvent env f ruleSourceRecovered (recovered_message env f (fs_url src)) w) w of
                           (Some _, w') \<Rightarrow> (w', n)
                         | (None, w') \<Rightarrow> (w', snd (rv_unmark env (fd_id f) key n)))))))"

definition runStale ::
  "('w, 'c, 'n, 're, 'l) notifier_env \<Rightarrow> feed \<Rightarrow> feed_notifications \<Rightarrow> target list \<Rightarrow>
     'w \<times> 'c \<times> 'n \<Rightarrow> 'w \<times> 'c \<times> 'n" where
  "runStale env f cfg disp s =
     (case s of (w, c, n) \<Rightarrow>
        (let threshold = int64 (fn_stale_hours cfg * hour); now = rv_now env w
         in (case fold (stale_source env f disp threshold now c) (fd_sources f) (w, n) of
               (w', n') \<Rightarrow> (w', c, n'))))"


section \<open>A run\<close>

definition no_notifications :: feed_notifications where
  "no_notifications = \<lparr>fn_webhook_url = [], fn_ntfy_server = [], fn_ntfy_topic = [],
     fn_gotify_server = [], fn_gotify_token = [], fn_triggers = [], fn_stale_hours = 0\<rparr>"

definition runFeed ::
  "('w, 'c, 'n, 're, 'l) notifier_env \<Rightarrow> feed \<Rightarrow> 'w \<times> 'c \<times> 'n \<Rightarrow> 'w \<times> 'c \<times> 'n" where
  "runFeed env f s =
     (case (if fd_notifications f = [] then Inr no_notifications else rv_config env (fd_notifications f)) of
        Inl _ \<Rightarrow> s
      | Inr cfg \<Rightarrow>
          if \<not> HasTarget cfg then s
          else
            (let disp = feed_dispatcher cfg;
                 s = (if Enabled cfg then runMatches env f cfg disp s else s)
             in if StaleEnabled cfg then runStale env f cfg disp s else s))"

definition Run ::
  "('w, 'c, 'n, 're, 'l) notifier_env \<Rightarrow> feed list result \<Rightarrow> 'w \<times> 'c \<times> 'n \<Rightarrow> go_error option \<times> 'w \<times> 'c \<times> 'n" where
  "Run env feeds s =
     (case feeds of
        Inl e \<Rightarrow> (Some e, s)
      | Inr fs \<Rightarrow>
          (case fold (runFeed env) fs s of
             (w, c, n) \<Rightarrow> (None, w, c, snd (rv_prune env (time_add (rv_now env w) (- retention)) n))))"

end
