(* ===== verification/Notifier_Props.thy ===== *)
theory Notifier_Props
  imports Notifier Feed_Props
begin

text \<open>
  The ledger's contract as a locale, what the notifier's loops guarantee under it, and its
  interpretation on the store's table: a match is announced once, an undeliverable one is retried,
  and the outage alert of a source is a two-state machine.
\<close>


section \<open>The ledger\<close>

locale ledger =
  fixes mark :: "'w \<Rightarrow> string \<Rightarrow> string \<Rightarrow> 'n \<Rightarrow> bool result \<times> 'n"
    and unmark :: "string \<Rightarrow> string \<Rightarrow> 'n \<Rightarrow> go_error option \<times> 'n"
    and notified :: "string \<Rightarrow> string \<Rightarrow> 'n \<Rightarrow> bool result"
    and has :: "string \<Rightarrow> string \<Rightarrow> 'n \<Rightarrow> bool"
  assumes mark_new: "fst (mark w f k n) = Inr (\<not> has f k n)"
    and has_mark: "has f' k' (snd (mark w f k n)) \<longleftrightarrow> (f' = f \<and> k' = k) \<or> has f' k' n"
    and has_unmark: "has f' k' (snd (unmark f k n)) \<longleftrightarrow> has f' k' n \<and> \<not> (f' = f \<and> k' = k)"
    and notified_has: "notified f k n = Inr (has f k n)"
begin

definition uses :: "('w, 'c, 'n, 're, 'l) notifier_env \<Rightarrow> bool" where
  "uses env \<longleftrightarrow> rv_mark env = mark \<and> rv_unmark env = unmark \<and> rv_notified env = notified"

lemma announce_eq:
  assumes "uses env"
  shows "announce env disp f k ev (w, n) =
    (if has f k n then (w, snd (mark w f k n))
     else (case Dispatch (rv_notify env) disp (ev w) w of (e, w') \<Rightarrow>
       (w', if e = None then snd (mark w f k n) else snd (unmark f k (snd (mark w f k n))))))"
proof (cases "mark w f k n")
  case (Pair r n')
  with mark_new [of w f k n] have "r = Inr (\<not> has f k n)" by simp
  with Pair assms show ?thesis
    by (auto simp: announce_def uses_def split: prod.split option.split)
qed

lemma announce_has:
  assumes "uses env"
  shows "has f' k' (snd (announce env disp f k ev (w, n))) \<longleftrightarrow>
    has f' k' n \<or> (f' = f \<and> k' = k \<and> fst (Dispatch (rv_notify env) disp (ev w) w) = None)"
  by (auto simp: announce_eq [OF assms] has_mark has_unmark split: prod.split)

text \<open>Announcing a list of keys in turn.\<close>

definition announce_list ::
  "('w, 'c, 'n, 're, 'l) notifier_env \<Rightarrow> target list \<Rightarrow> string \<Rightarrow> (string \<times> ('w \<Rightarrow> event)) list \<Rightarrow>
     'w \<times> 'n \<Rightarrow> 'w \<times> 'n" where
  "announce_list env disp f kes = fold (\<lambda>(k, ev). announce env disp f k ev) kes"

lemma announce_list_mono:
  assumes "uses env" and "has f' k' (snd s)"
  shows "has f' k' (snd (announce_list env disp f kes s))"
  using assms(2)
proof (induction kes arbitrary: s)
  case (Cons ke kes)
  have "has f' k' (snd (announce env disp f (fst ke) (snd ke) s))"
    using announce_has [OF assms(1), of f' k' disp f "fst ke" "snd ke" "fst s" "snd s"] Cons.prems by simp
  then show ?case using Cons.IH by (simp add: announce_list_def case_prod_unfold)
qed (simp add: announce_list_def)

lemma announce_list_delivered:
  assumes "uses env" and "\<And>ev w. fst (Dispatch (rv_notify env) disp ev w) = None"
    and "k \<in> fst ` set kes"
  shows "has f k (snd (announce_list env disp f kes s))"
  using assms(3)
proof (induction kes arbitrary: s)
  case (Cons ke kes)
  let ?s = "announce env disp f (fst ke) (snd ke) s"
  have eq: "announce_list env disp f (ke # kes) s = announce_list env disp f kes ?s"
    by (simp add: announce_list_def case_prod_unfold)
  show ?case
  proof (cases "k = fst ke")
    case True
    then have "has f k (snd ?s)"
      using announce_has [OF assms(1), of f k disp f "fst ke" "snd ke" "fst s" "snd s"] assms(2) by simp
    then show ?thesis unfolding eq by (rule announce_list_mono [OF assms(1)])
  next
    case False
    with Cons.prems Cons.IH show ?thesis unfolding eq by auto
  qed
qed simp

lemma announce_list_known:
  assumes "uses env" and "\<forall>k \<in> fst ` set kes. has f k (snd s)"
  shows "fst (announce_list env disp f kes s) = fst s"
  using assms(2)
proof (induction kes arbitrary: s)
  case (Cons ke kes)
  let ?s = "announce env disp f (fst ke) (snd ke) s"
  have "?s = (fst s, snd (mark (fst s) f (fst ke) (snd s)))"
    using announce_eq [OF assms(1), of disp f "fst ke" "snd ke" "fst s" "snd s"] Cons.prems by simp
  then have "fst ?s = fst s" "\<forall>k \<in> fst ` set kes. has f k (snd ?s)"
    using Cons.prems by (simp_all add: has_mark)
  with Cons.IH [of ?s] show ?case by (simp add: announce_list_def case_prod_unfold)
qed (simp add: announce_list_def)

lemma announce_list_undelivered:
  assumes "uses env" and "\<And>ev w. fst (Dispatch (rv_notify env) disp ev w) \<noteq> None"
  shows "has f' k' (snd (announce_list env disp f kes s)) \<longleftrightarrow> has f' k' (snd s)"
proof (induction kes arbitrary: s)
  case (Cons ke kes)
  have "has f' k' (snd (announce env disp f (fst ke) (snd ke) s)) \<longleftrightarrow> has f' k' (snd s)"
    using announce_has [OF assms(1), of f' k' disp f "fst ke" "snd ke" "fst s" "snd s"] assms(2) by simp
  with Cons.IH show ?case by (simp add: announce_list_def case_prod_unfold)
qed (simp add: announce_list_def)

end


section \<open>The store's table is a ledger\<close>

definition mark_row :: "('w \<Rightarrow> go_time) \<Rightarrow> 'w \<Rightarrow> string \<Rightarrow> string \<Rightarrow> notified_row list \<Rightarrow> bool result \<times> notified_row list" where
  "mark_row clock w f k n = (case MarkNotified (clock w) f k n of (new, n') \<Rightarrow> (Inr new, n'))"

definition unmark_row :: "string \<Rightarrow> string \<Rightarrow> notified_row list \<Rightarrow> go_error option \<times> notified_row list" where
  "unmark_row f k n = (None, UnmarkNotified f k n)"

definition is_row :: "string \<Rightarrow> string \<Rightarrow> notified_row list \<Rightarrow> bool result" where
  "is_row f k n = Inr (IsNotified f k n)"

interpretation store_ledger: ledger "mark_row clock" unmark_row is_row IsNotified for clock
  by unfold_locales
    (simp_all add: mark_row_def unmark_row_def is_row_def case_prod_unfold MarkNotified_fst
      IsNotified_Mark IsNotified_Unmark)

definition store_notifier ::
  "('w, 'c, notified_row list, 're, 'l) notifier_env \<Rightarrow> ('w, 'c, notified_row list, 're, 'l) notifier_env" where
  "store_notifier env = env\<lparr>rv_mark := mark_row (rv_now env), rv_unmark := unmark_row, rv_notified := is_row\<rparr>"

lemma store_notifier_fields [simp]:
  "rv_feeds (store_notifier env) = rv_feeds env" "rv_notify (store_notifier env) = rv_notify env"
  "rv_fetched_at (store_notifier env) = rv_fetched_at env" "rv_quote (store_notifier env) = rv_quote env"
  "rv_mark (store_notifier env) = mark_row (rv_now env)" "rv_unmark (store_notifier env) = unmark_row"
  "rv_notified (store_notifier env) = is_row"
  by (simp_all add: store_notifier_def)

lemma store_notifier_uses: "store_ledger.uses (rv_now env) (store_notifier env)"
  by (simp add: store_ledger.uses_def)


section \<open>Matches are announced once\<close>

text \<open>The keys and events a list of matches triggers, in the order they are announced.\<close>

definition triggered ::
  "('w, 'c, 'n, 're, 'l) notifier_env \<Rightarrow> feed \<Rightarrow> feed_notifications \<Rightarrow> rule_match list \<Rightarrow>
     (string \<times> ('w \<Rightarrow> event)) list" where
  "triggered env f cfg ms = concat (map (\<lambda>m. if Triggered cfg (rm_rule m)
     then map (\<lambda>ev. (match_key (rm_rule m) ev, match_event env f (rm_rule m) ev)) (rm_events m) else []) ms)"

definition triggered_keys :: "feed_notifications \<Rightarrow> rule_match list \<Rightarrow> string set" where
  "triggered_keys cfg ms =
     {match_key (rm_rule m) ev |m ev. m \<in> set ms \<and> Triggered cfg (rm_rule m) \<and> ev \<in> set (rm_events m)}"

lemma fst_triggered: "fst ` set (triggered env f cfg ms) = triggered_keys cfg ms"
  by (force simp: triggered_def triggered_keys_def)

lemma run_match_announce:
  "fold (run_match env f cfg disp) ms s =
     fold (\<lambda>(k, ev). announce env disp (fd_id f) k ev) (triggered env f cfg ms) s"
  by (induction ms arbitrary: s) (simp_all add: triggered_def run_match_def fold_map comp_def)

lemma runMatches_store:
  assumes "Matches (rv_feeds env) f (w, c) = (Inr ms, w', c')"
  shows "runMatches (store_notifier env) f cfg disp (w, c, n) =
    (case store_ledger.announce_list (store_notifier env) disp (fd_id f)
        (triggered (store_notifier env) f cfg ms) (w', n) of (w'', n') \<Rightarrow> (w'', c', n'))"
  using assms by (simp add: runMatches_def run_match_announce store_ledger.announce_list_def)


text \<open>Nothing is lost: when no delivery gets through, the ledger records exactly what it recorded
  before the run, so the next run tries every one of the matches again.\<close>

theorem undelivered_is_retried:
  assumes "\<And>ev w. fst (Dispatch (rv_notify env) disp ev w) \<noteq> None"
    and "runMatches (store_notifier env) f cfg disp (w, c, n) = (w', c', n')"
  shows "IsNotified fid k n' \<longleftrightarrow> IsNotified fid k n"
proof (cases "Matches (rv_feeds env) f (w, c)")
  case (fields r w1 c1)
  show ?thesis
  proof (cases r)
    case (Inr ms)
    with fields have m: "Matches (rv_feeds env) f (w, c) = (Inr ms, w1, c1)" by simp
    have "n' = snd (store_ledger.announce_list (store_notifier env) disp (fd_id f)
        (triggered (store_notifier env) f cfg ms) (w1, n))"
      using assms(2) runMatches_store [OF m, of cfg disp n] by (simp split: prod.splits)
    moreover have "IsNotified fid k (snd (store_ledger.announce_list (store_notifier env) disp (fd_id f)
        (triggered (store_notifier env) f cfg ms) (w1, n))) \<longleftrightarrow> IsNotified fid k (snd (w1, n))"
      by (rule store_ledger.announce_list_undelivered [OF store_notifier_uses]) (use assms(1) in simp)
    ultimately show ?thesis by simp
  qed (use assms(2) fields in \<open>simp add: runMatches_def\<close>)
qed


section \<open>The outage alert\<close>

text \<open>The machine one source of one feed is: what is sent, and whether an outage counts as announced
  afterwards, by whether the source is outdated, whether the message got through and whether an
  outage was announced before.\<close>

datatype alert = Silent | Outage | Recovery

definition outage_step :: "bool \<Rightarrow> bool \<Rightarrow> bool \<Rightarrow> alert \<times> bool" where
  "outage_step outdated delivered announced =
     (if outdated then (if announced then (Silent, True) else (Outage, delivered))
      else (if announced then (Recovery, \<not> delivered) else (Silent, False)))"

definition alert_event ::
  "('w, 'c, 'n, 're, 'l) notifier_env \<Rightarrow> feed \<Rightarrow> string \<Rightarrow> go_time \<Rightarrow> go_time \<Rightarrow> alert \<Rightarrow> 'w \<Rightarrow> event" where
  "alert_event env f url fetchedAt now a w =
     (case a of
        Recovery \<Rightarrow> staleEvent env f ruleSourceRecovered (recovered_message env f url) w
      | _ \<Rightarrow> staleEvent env f ruleSourceStale (stale_message env f url fetchedAt now) w)"

text \<open>C36: the outage alert of a source is that machine: an outage is announced once until the source is
  fresh again, the all-clear is given once and only after an announced outage, an undelivered message
  leaves the state so that it is repeated, and the other entries of the ledger are not touched.\<close>

theorem stale_source_refines_outage:
  fixes env :: "('w, 'c, notified_row list, 're, 'l) notifier_env"
  defines "E \<equiv> store_notifier env"
  assumes "rv_fetched_at env (fs_url src) c = Inr fetchedAt"
    and "a = fst (outage_step (source_outdated threshold now fetchedAt) True (IsNotified (fd_id f) key n))"
    and "key = staleKey (rv_sha env) (fs_url src)"
    and "sent = Dispatch (rv_notify env) disp (alert_event E f (fs_url src) fetchedAt now a w) w"
    and "stale_source E f disp threshold now c src (w, n) = (w', n')"
  shows "w' = (if a = Silent then w else snd sent) \<and>
    IsNotified (fd_id f) key n' = snd (outage_step (source_outdated threshold now fetchedAt)
      (fst sent = None) (IsNotified (fd_id f) key n)) \<and>
    ((fid, k) = (fd_id f, key) \<or> IsNotified fid k n' = IsNotified fid k n)"
proof -
  note ann = store_ledger.announce_eq [OF store_notifier_uses]
  show ?thesis
    using assms(2-6) unfolding E_def
    by (auto simp: stale_source_def Let_def ann outage_step_def alert_event_def is_row_def unmark_row_def
        mark_row_def case_prod_unfold IsNotified_Mark IsNotified_Unmark split: if_splits option.splits)
qed

text \<open>A feed that arms nothing but the outage alert is judged by a cache the run does not refresh.\<close>

lemma outage_only_feed_never_fetches:
  assumes "rv_config env (fd_notifications f) = Inr cfg" and "fd_notifications f \<noteq> []"
    and "HasTarget cfg" and "fn_triggers cfg = []" and "0 < fn_stale_hours cfg"
  shows "runFeed env f s = runStale env f cfg (feed_dispatcher cfg) s \<and>
    fst (snd (runFeed env f s)) = fst (snd s)"
  using assms
  by (auto simp: runFeed_def Enabled_def StaleEnabled_def runStale_def Let_def split: prod.split)


section \<open>Concrete inputs\<close>

text \<open>A feed with one source and a filter rule that matches two of its events; the webhook answers with
  the given status.\<close>

definition match_rule :: rule_config where
  "match_rule = empty_config\<lparr>rc_type := ''filter'', rc_match_mode := ''substring'', rc_pattern := ''x'',
     rc_filter_mode := ''whitelist''\<rparr>"

definition hook_env :: "int \<Rightarrow> (nat, cache_row list, notified_row list, string, unit) notifier_env" where
  "hook_env status = \<lparr>
     rv_feeds = sample_feed_env\<lparr>ve_rules := \<lambda>_. Inr [match_rule]\<rparr>,
     rv_notify = \<lparr>ne_do = (\<lambda>r w. (Inr status, w + 1)), ne_json_event = (\<lambda>_. Inr []),
       ne_json_map = (\<lambda>_. Inr []), ne_url_error = (\<lambda>u. ErrNew []), ne_error = (\<lambda>e. []),
       ne_url_inner = (\<lambda>e. None)\<rparr>,
     rv_config = (\<lambda>_. Inr no_notifications),
     rv_mark = mark_row (\<lambda>_. 0), rv_unmark = unmark_row, rv_notified = is_row,
     rv_prune = (\<lambda>t n. (Inr 0, n)), rv_fetched_at = (\<lambda>u c. Inr (CachedFeedFetchedAt u c)),
     rv_quote = id\<rparr>"

definition ruled_feed :: feed where
  "ruled_feed = cal_feed\<lparr>fd_rules := ''[rules]''\<rparr>"

definition on_filter :: feed_notifications where
  "on_filter = no_notifications\<lparr>fn_webhook_url := ''/hook'', fn_triggers := [''filter'']\<rparr>"

lemma hook_Dispatch:
  "Dispatch (rv_notify (hook_env 200)) [Webhook ''/hook''] ev w = (None, w + 1)"
  "fst (Dispatch (rv_notify (hook_env 500)) [Webhook ''/hook''] ev w) \<noteq> None"
proof -
  have "url_parse ''/hook'' \<noteq> None" by code_simp
  then show "Dispatch (rv_notify (hook_env 200)) [Webhook ''/hook''] ev w = (None, w + 1)"
    "fst (Dispatch (rv_notify (hook_env 500)) [Webhook ''/hook''] ev w) \<noteq> None"
    by (auto simp: Dispatch_def Notify_def post_def hook_env_def)
qed

lemma match_rule_builds: "\<exists>p. buildPipeline (rv_feeds (hook_env s)) (fd_rules ruled_feed) = Inr p"
proof -
  have "go_trim_space ''x'' = ''x''" by code_simp
  then show ?thesis
    by (auto simp: buildPipeline_def hook_env_def ruled_feed_def BuildPipeline_def match_rule_def
        empty_config_def rule_enabled_def BuildRule_def NewFilterRule_def NewMatcher_def MatchSubstring_def
        FilterBlacklist_def FilterWhitelist_def sample_feed_env_def)
qed

lemma pipeline_apply_ok: "fst (pipeline_apply env now rs cal) = None"
proof (induction rs arbitrary: cal)
  case (Cons r rs)
  then show ?case using apply_rule_ok [of env now r cal] by (auto simp: case_prod_unfold split: option.split)
qed simp

lemma hook_Matches: "\<exists>ms w c. Matches (rv_feeds (hook_env s)) ruled_feed (0, []) = (Inr ms, w, c)"
proof -
  let ?E = "rv_feeds (hook_env s)"
  obtain cal tzdefs w c where "merge ?E ruled_feed (0, []) = (Inr (cal, tzdefs), w, c)"
    using sample_merge [of ?E ruled_feed] by (auto simp: hook_env_def sample_feed_env_def ruled_feed_def cal_feed_def)
  moreover obtain p where "buildPipeline ?E (fd_rules ruled_feed) = Inr p" using match_rule_builds by blast
  moreover obtain p' cal' where "pipeline_apply (ve_pipe ?E) (fe_now (ve_fetch ?E) w) p cal = (None, p', cal')"
    using pipeline_apply_ok [of "ve_pipe ?E" "fe_now (ve_fetch ?E) w" p cal] by (metis prod.collapse)
  ultimately show ?thesis by (simp add: Matches_def transform_def)
qed


lemma undelivered_is_retried_witness:
  "IsNotified ''f1'' ''k'' (snd (snd (runMatches (store_notifier (hook_env 500)) ruled_feed on_filter
     [Webhook ''/hook''] (0, [], [])))) \<longleftrightarrow> IsNotified ''f1'' ''k'' []"
proof -
  obtain w2 c2 n2 where r: "runMatches (store_notifier (hook_env 500)) ruled_feed on_filter [Webhook ''/hook''] (0, [], [])
      = (w2, c2, n2)"
    by (rule prod_cases3)
  from undelivered_is_retried [OF _ r] hook_Dispatch(2) show ?thesis unfolding r by simp
qed

lemma stale_source_refines_outage_witness:
  "\<exists>w' n'. stale_source (store_notifier (hook_env 200)) ruled_feed [Webhook ''/hook''] hour new_year []
       (hd (fd_sources cal_feed)) (0, []) = (w', n') \<and>
     w' = 1 \<and> IsNotified ''f1'' (staleKey (rv_sha (hook_env 200)) (fs_url (hd (fd_sources cal_feed)))) n'"
proof -
  let ?src = "hd (fd_sources cal_feed)"
  have f: "rv_fetched_at (hook_env 200) (fs_url ?src) [] = Inr 0"
    by (simp add: hook_env_def CachedFeedFetchedAt_def)
  obtain w' n' where r: "stale_source (store_notifier (hook_env 200)) ruled_feed [Webhook ''/hook''] hour new_year []
       ?src (0, []) = (w', n')"
    by (rule prod.exhaust)
  have out: "source_outdated hour new_year 0" by (simp add: source_outdated_def time_is_zero_def)
  have "fd_id ruled_feed = ''f1''" by (simp add: ruled_feed_def cal_feed_def sample_feed_def)
  with stale_source_refines_outage [OF f refl refl refl r] out hook_Dispatch(1) show ?thesis
    by (auto simp: outage_step_def IsNotified_def r)
qed

end
