(* ===== verification/Dav_Extract.thy ===== *)
theory Dav_Extract
  imports Dav_Types Ics_Types Go_Time_Format
begin

text \<open>
  \<^verbatim>\<open>internal/dav/extract.go\<close>: what the sync engine reads out of item bodies, and the parsing of window
  bounds. go-ical is \<open>ical_lib\<close>; go-vcard is \<open>vcard_lib\<close>, with \<open>'v\<close> its cards.
\<close>

record 'v vcard_lib =
  vc_decode :: "bytes \<Rightarrow> 'v result"
  vc_encode :: "'v \<Rightarrow> bytes result"
  vc_value :: "'v \<Rightarrow> string \<Rightarrow> string"
  vc_preferred :: "'v \<Rightarrow> string \<Rightarrow> string"


section \<open>Calendar bodies\<close>

fun first_uid :: "'l ical_lib \<Rightarrow> component list \<Rightarrow> string" where
  "first_uid lib [] = []"
| "first_uid lib (c # cs) =
     (case il_text lib (c_props c) ''UID'' of
        Inr uid \<Rightarrow> if uid \<noteq> [] then uid else first_uid lib cs
      | Inl _ \<Rightarrow> first_uid lib cs)"

definition CalendarUID :: "'l ical_lib \<Rightarrow> bytes \<Rightarrow> string" where
  "CalendarUID lib data =
     (case Parse lib data of Inl _ \<Rightarrow> [] | Inr cal \<Rightarrow> first_uid lib (c_children cal))"

definition later :: "'l ical_lib \<Rightarrow> 'l \<Rightarrow> component \<Rightarrow> string \<Rightarrow> go_time \<Rightarrow> go_time" where
  "later lib utc c field latest =
     (case il_props_datetime lib (c_props c) field utc of
        Inr t \<Rightarrow> if \<not> time_is_zero t \<and> time_after t latest then t else latest
      | Inl _ \<Rightarrow> latest)"

definition CalendarModified :: "'l ical_lib \<Rightarrow> 'l \<Rightarrow> bytes \<Rightarrow> go_time" where
  "CalendarModified lib utc data =
     (case Parse lib data of
        Inl _ \<Rightarrow> 0
      | Inr cal \<Rightarrow> fold (\<lambda>c. fold (later lib utc c) [''LAST-MODIFIED'', ''DTSTAMP'']) (c_children cal) 0)"

definition earlier :: "'l ical_lib \<Rightarrow> 'l \<Rightarrow> component \<Rightarrow> go_time \<Rightarrow> go_time" where
  "earlier lib utc c earliest =
     (case il_props_datetime lib (c_props c) ''DTSTART'' utc of
        Inr t \<Rightarrow> if \<not> time_is_zero t \<and> (time_is_zero earliest \<or> time_before t earliest) then t else earliest
      | Inl _ \<Rightarrow> earliest)"

definition CalendarStart :: "'l ical_lib \<Rightarrow> 'l \<Rightarrow> bytes \<Rightarrow> go_time" where
  "CalendarStart lib utc data =
     (case Parse lib data of
        Inl _ \<Rightarrow> 0
      | Inr cal \<Rightarrow> fold (earlier lib utc) (c_children cal) 0)"


section \<open>Contact bodies\<close>

definition ContactUID :: "'v vcard_lib \<Rightarrow> bytes \<Rightarrow> string" where
  "ContactUID lib data = (case vc_decode lib data of Inl _ \<Rightarrow> [] | Inr crd \<Rightarrow> vc_value lib crd ''UID'')"

fun parse_first :: "chunk list list \<Rightarrow> string \<Rightarrow> go_time" where
  "parse_first [] s = 0"
| "parse_first (l # ls) s = (case go_parse l s of Some t \<Rightarrow> t | None \<Rightarrow> parse_first ls s)"

definition ContactModified :: "'v vcard_lib \<Rightarrow> bytes \<Rightarrow> go_time" where
  "ContactModified lib data =
     (case vc_decode lib data of
        Inl _ \<Rightarrow> 0
      | Inr crd \<Rightarrow> parse_first [LayoutCompactUTC, LayoutRFC3339, LayoutRFC3339] (vc_value lib crd ''REV''))"


section \<open>Window bounds\<close>

definition parse_error :: "string \<Rightarrow> go_error" where
  "parse_error s = ErrMsg [Lit ''parsing time '', Quo s]"

definition parseBound :: "string \<Rightarrow> bool \<Rightarrow> go_time result" where
  "parseBound s endInclusive =
     (if s = [] then Inr 0
      else case go_parse LayoutDate s of
        Some t \<Rightarrow> if endInclusive then Inr (time_add t (24 * hour - second)) else Inr t
      | None \<Rightarrow> (case go_parse LayoutRFC3339 s of Some t \<Rightarrow> Inr t | None \<Rightarrow> Inl (parse_error s)))"

definition ParseWindow :: "string \<Rightarrow> string \<Rightarrow> (go_time \<times> go_time) result" where
  "ParseWindow start stop =
     (case parseBound start False of
        Inl e \<Rightarrow> Inl (wrapf ''window start: '' e)
      | Inr s \<Rightarrow>
          (case parseBound stop True of
             Inl e \<Rightarrow> Inl (wrapf ''window end: '' e)
           | Inr e \<Rightarrow> Inr (s, e)))"

lemma EventInWindow_iff:
  "EventInWindow calStart data start stop \<longleftrightarrow>
     calStart data = 0 \<or> (start \<noteq> 0 \<longrightarrow> start \<le> calStart data) \<and> (stop \<noteq> 0 \<longrightarrow> calStart data \<le> stop)"
  by (auto simp: EventInWindow_def Let_def go_simps)

text \<open>A window given by two dates is inclusive on both days: an item is inside exactly when its
  earliest start lies between the first second of the first day and the last second of the last, and
  an item whose start cannot be read is always inside.\<close>

theorem date_window_inclusive:
  assumes "ParseWindow start stop = Inr (s, e)" and "start \<noteq> []" and "stop \<noteq> []"
    and "go_parse LayoutDate start = Some d1" and "go_parse LayoutDate stop = Some d2"
    and "d1 \<noteq> 0" and "d2 + (24 * hour - second) \<noteq> 0"
  shows "EventInWindow (CalendarStart lib utc) data s e \<longleftrightarrow>
    CalendarStart lib utc data = 0 \<or>
    d1 \<le> CalendarStart lib utc data \<and> CalendarStart lib utc data \<le> d2 + (24 * hour - second)"
  using assms by (auto simp: ParseWindow_def parseBound_def EventInWindow_iff go_simps)

lemma january_bounds:
  "go_parse LayoutDate ''2026-01-01'' = Some 63902822400000000000"
  "go_parse LayoutDate ''2026-01-31'' = Some 63905414400000000000"
  by code_simp+

lemma date_window_inclusive_witness:
  "EventInWindow (CalendarStart sample_ical ()) [] 63902822400000000000 63905500799000000000"
proof -
  have "ParseWindow ''2026-01-01'' ''2026-01-31'' = Inr (63902822400000000000, 63905500799000000000)"
    by (simp add: ParseWindow_def parseBound_def january_bounds time_add_def)
  moreover have "CalendarStart sample_ical () [] = 0"
    by (simp add: CalendarStart_def Parse_def sample_ical_def)
  ultimately show ?thesis
    using date_window_inclusive [OF _ _ _ january_bounds, of _ _ sample_ical "()" "[]"] by simp
qed

end
