(* ===== verification/Dav_Collections.thy ===== *)
theory Dav_Collections
  imports Dav_Extract Ics_Text
begin

text \<open>
  \<^verbatim>\<open>internal/dav/caldav.go\<close> and \<^verbatim>\<open>carddav.go\<close>: the two implementations of \<^verbatim>\<open>Collection\<close> on go-webdav's
  clients. The client is the parameter \<open>dav_client\<close>: the requests of one authenticated endpoint, with
  \<open>'o\<close> the parsed object (a calendar or a card), acting on the outside world \<open>'w\<close>.
\<close>

record file_info =
  fi_path :: string
  fi_etag :: string
  fi_is_dir :: bool

record ('o, 'w) dav_client =
  dc_read_dir :: "string \<Rightarrow> 'w \<Rightarrow> file_info list result \<times> 'w"
  dc_get :: "string \<Rightarrow> 'w \<Rightarrow> (string \<times> string \<times> 'o) result \<times> 'w"
  dc_put :: "string \<Rightarrow> 'o \<Rightarrow> 'w \<Rightarrow> (string \<times> string) result \<times> 'w"
  dc_remove_all :: "string \<Rightarrow> 'w \<Rightarrow> unit result \<times> 'w"

text \<open>An adapter: the client, the collection's path, and reading and writing of bodies with the words
  its errors use.\<close>

record ('o, 'w) adapter =
  ad_client :: "('o, 'w) dav_client"
  ad_path :: string
  ad_parse :: "bytes \<Rightarrow> 'o result"
  ad_render :: "'o \<Rightarrow> bytes result"
  ad_render_error :: string
  ad_parse_error :: string


section \<open>Operations\<close>

definition is_member :: "string \<Rightarrow> file_info \<Rightarrow> bool" where
  "is_member path fi \<longleftrightarrow>
     \<not> (fi_is_dir fi \<or> trim_right_char (CHR ''/'') (fi_path fi) = trim_right_char (CHR ''/'') path)"

definition List :: "('o, 'w) adapter \<Rightarrow> 'w \<Rightarrow> item_meta list result \<times> 'w" where
  "List c w =
     (case dc_read_dir (ad_client c) (ad_path c) w of
        (Inl e, w') \<Rightarrow> (Inl (wrapf (''dav: list '' @ ad_path c @ '': '') e), w')
      | (Inr infos, w') \<Rightarrow>
          (Inr (map (\<lambda>fi. \<lparr>im_href = fi_path fi, im_etag = fi_etag fi\<rparr>)
                  (filter (is_member (ad_path c)) infos)), w'))"

definition Get :: "('o, 'w) adapter \<Rightarrow> string \<Rightarrow> 'w \<Rightarrow> item result \<times> 'w" where
  "Get c href w =
     (case dc_get (ad_client c) href w of
        (Inl e, w') \<Rightarrow> (Inl (wrapf (''dav: get '' @ href @ '': '') e), w')
      | (Inr (path, etag, obj), w') \<Rightarrow>
          (case ad_render c obj of
             Inl e \<Rightarrow> Inl (wrapf (''dav: '' @ ad_render_error c @ '' '' @ href @ '': '') e)
           | Inr data \<Rightarrow> Inr \<lparr>it_href = path, it_etag = etag, it_data = data\<rparr>, w'))"

definition put_path :: "string \<Rightarrow> string \<Rightarrow> string" where
  "put_path collection href =
     (if has_prefix href ''/'' then href else trim_right_char (CHR ''/'') collection @ ''/'' @ href)"

definition Put :: "('o, 'w) adapter \<Rightarrow> item \<Rightarrow> 'w \<Rightarrow> item result \<times> 'w" where
  "Put c it w =
     (case ad_parse c (it_data it) of
        Inl e \<Rightarrow> (Inl (wrapf (''dav: parse '' @ ad_parse_error c @ '': '') e), w)
      | Inr obj \<Rightarrow>
          (let path = put_path (ad_path c) (it_href it)
           in case dc_put (ad_client c) path obj w of
                (Inl e, w') \<Rightarrow> (Inl (wrapf (''dav: put '' @ path @ '': '') e), w')
              | (Inr (stored, etag), w') \<Rightarrow>
                  (Inr \<lparr>it_href = (if stored = [] then path else stored), it_etag = etag,
                        it_data = it_data it\<rparr>, w')))"

definition Delete :: "('o, 'w) adapter \<Rightarrow> string \<Rightarrow> 'w \<Rightarrow> unit result \<times> 'w" where
  "Delete c href w =
     (case dc_remove_all (ad_client c) href w of
        (Inl e, w') \<Rightarrow> (Inl (wrapf (''dav: delete '' @ href @ '': '') e), w')
      | (Inr _, w') \<Rightarrow> (Inr (), w'))"

definition as_collection :: "('o, 'w) adapter \<Rightarrow> 'w collection" where
  "as_collection c = \<lparr>coll_list = List c, coll_get = Get c, coll_put = Put c, coll_delete = Delete c\<rparr>"


section \<open>Construction\<close>

text \<open>\<open>connect\<close> is \<^verbatim>\<open>caldav.NewClient\<close> (\<^verbatim>\<open>carddav.NewClient\<close>) on the HTTP client with the credentials.\<close>

definition NewCalDAVCollection ::
  "'l ical_lib \<Rightarrow> (string \<Rightarrow> string \<Rightarrow> string \<Rightarrow> (component, 'w) dav_client result) \<Rightarrow>
     (string \<Rightarrow> go_error) \<Rightarrow> string \<Rightarrow> string \<Rightarrow> string \<Rightarrow> (component, 'w) adapter result" where
  "NewCalDAVCollection lib connect url_error endpoint username password =
     (case connect endpoint username password of
        Inl e \<Rightarrow> Inl (wrapf ''dav: caldav client: '' e)
      | Inr client \<Rightarrow>
          (case url_parse endpoint of
             None \<Rightarrow> Inl (wrapf ''dav: parse endpoint: '' (url_error endpoint))
           | Some u \<Rightarrow> Inr \<lparr>ad_client = client, ad_path = url_path u, ad_parse = Parse lib,
                            ad_render = Serialize lib (\<lambda>_. None), ad_render_error = ''serialize'',
                            ad_parse_error = ''item''\<rparr>))"

definition NewCardDAVCollection ::
  "'v vcard_lib \<Rightarrow> (string \<Rightarrow> string \<Rightarrow> string \<Rightarrow> ('v, 'w) dav_client result) \<Rightarrow>
     (string \<Rightarrow> go_error) \<Rightarrow> string \<Rightarrow> string \<Rightarrow> string \<Rightarrow> ('v, 'w) adapter result" where
  "NewCardDAVCollection lib connect url_error endpoint username password =
     (case connect endpoint username password of
        Inl e \<Rightarrow> Inl (wrapf ''dav: carddav client: '' e)
      | Inr client \<Rightarrow>
          (case url_parse endpoint of
             None \<Rightarrow> Inl (wrapf ''dav: parse endpoint: '' (url_error endpoint))
           | Some u \<Rightarrow> Inr \<lparr>ad_client = client, ad_path = url_path u, ad_parse = vc_decode lib,
                            ad_render = vc_encode lib, ad_render_error = ''encode'',
                            ad_parse_error = ''vcard''\<rparr>))"

end
