(* ===== verification/Dav_Preview.thy ===== *)
theory Dav_Preview
  imports Dav_Extract Dav_Calls Ics_Dates "HOL-Library.Product_Lexorder"
begin

text \<open>
  \<^verbatim>\<open>internal/dav/preview.go\<close>: the merge preview of a sync job. It works against the \<^verbatim>\<open>Collection\<close>
  interface, so the collections are the records of \<open>Dav_Types\<close>; the order Go ranges over the
  maps in is the argument \<open>rng\<close>.
\<close>


section \<open>Entries\<close>

record preview_entry =
  pe_uid :: string
  pe_title :: string
  pe_when :: string
  pe_modified :: go_time

record ('l, 'v) body_lib =
  bl_ical :: "'l ical_lib"
  bl_tz :: "'l tz_lib"
  bl_utc :: 'l
  bl_vcard :: "'v vcard_lib"

definition Summarize :: "('l, 'v) body_lib \<Rightarrow> string \<Rightarrow> bytes \<Rightarrow> preview_entry" where
  "Summarize lib kind data =
     (if kind = ''carddav'' then
        \<lparr>pe_uid = ContactUID (bl_vcard lib) data,
         pe_title = (case vc_decode (bl_vcard lib) data of
            Inl _ \<Rightarrow> [] | Inr crd \<Rightarrow> vc_preferred (bl_vcard lib) crd ''FN''),
         pe_when = [], pe_modified = 0\<rparr>
      else
        (let e = \<lparr>pe_uid = CalendarUID (bl_ical lib) data, pe_title = [], pe_when = [], pe_modified = 0\<rparr>
         in case Parse (bl_ical lib) data of
              Inl _ \<Rightarrow> e
            | Inr cal \<Rightarrow>
                (case events_of (bl_ical lib) cal of
                   [] \<Rightarrow> e
                 | ev # _ \<Rightarrow>
                     e\<lparr>pe_title := Text (bl_ical lib) ev FieldSummary,
                       pe_when := (case il_start (bl_ical lib) ev (bl_utc lib) of
                          (t, err) \<Rightarrow> if err = None \<and> \<not> time_is_zero t
                            then go_format_at LayoutRFC3339
                              (utc_offset (bl_tz lib) (il_start_loc (bl_ical lib) ev (bl_utc lib)) t) t
                            else [])\<rparr>)))"

type_synonym entries = "(string, preview_entry) go_map"

definition collect_step ::
  "dav_env \<Rightarrow> ('l, 'v) body_lib \<Rightarrow> 'w collection \<Rightarrow> options \<Rightarrow> string \<Rightarrow> item_meta \<Rightarrow>
     (entries \<times> preview_entry list) \<times> 'w \<Rightarrow> go_error option \<times> (entries \<times> preview_entry list) \<times> 'w" where
  "collect_step env lib coll opts kind meta s =
     (case s of ((byUID, flat), w) \<Rightarrow>
        (case coll_get coll (im_href meta) w of
           (Inl e, w') \<Rightarrow> (Some e, (byUID, flat), w')
         | (Inr it, w') \<Rightarrow>
             if kind \<noteq> ''carddav'' \<and> \<not> inWindow env opts (it_data it) then (None, (byUID, flat), w')
             else
               (let e = Summarize lib kind (it_data it);
                    e = (case opt_modified opts of Some m \<Rightarrow> e\<lparr>pe_modified := m (it_data it)\<rparr> | None \<Rightarrow> e);
                    key = (if pe_uid e = [] then im_href meta else pe_uid e)
                in (None, (map_put key e byUID, flat @ [e]), w'))))"

definition collect ::
  "dav_env \<Rightarrow> ('l, 'v) body_lib \<Rightarrow> 'w collection \<Rightarrow> options \<Rightarrow> string \<Rightarrow> 'w \<Rightarrow>
     (entries \<times> preview_entry list) result \<times> 'w" where
  "collect env lib coll opts kind w =
     (case coll_list coll w of
        (Inl e, w') \<Rightarrow> (Inl e, w')
      | (Inr metas, w') \<Rightarrow>
          (case foreach (collect_step env lib coll opts kind) metas (([], []), w') of
             (Some e, _, w'') \<Rightarrow> (Inl e, w'')
           | (None, out, w'') \<Rightarrow> (Inr out, w'')))"

definition mapValues :: "range_fn \<Rightarrow> entries \<Rightarrow> preview_entry list" where
  "mapValues rng m = map snd (go_range rng 2 m)"

text \<open>\<^verbatim>\<open>sort.SliceStable\<close> by start, then title.\<close>

definition sortEntries :: "preview_entry list \<Rightarrow> preview_entry list" where
  "sortEntries = sort_key (\<lambda>e. (pe_when e, pe_title e))"


section \<open>The merge\<close>

definition merge_primary ::
  "options \<Rightarrow> entries \<Rightarrow> string \<times> preview_entry \<Rightarrow> entries \<Rightarrow> entries" where
  "merge_primary opts secondary kv m =
     (case kv of (uid, e) \<Rightarrow>
        (case (if opt_direction opts = Bidirectional \<and> opt_conflict opts = NewestWins
               then map_get secondary uid else None) of
           Some other \<Rightarrow>
             if time_after (pe_modified other) (pe_modified e) then map_put uid other m
             else map_put uid e m
         | None \<Rightarrow> map_put uid e m))"

definition mergeEntries :: "range_fn \<Rightarrow> options \<Rightarrow> entries \<Rightarrow> entries \<Rightarrow> entries" where
  "mergeEntries rng opts primary secondary =
     fold (merge_primary opts secondary) (go_range rng 1 primary)
       (fold (\<lambda>(uid, e). map_put uid e) (go_range rng 0 secondary) [])"

definition PreviewMerge ::
  "dav_env \<Rightarrow> ('l, 'v) body_lib \<Rightarrow> 'w collection \<Rightarrow> 'w collection \<Rightarrow> options \<Rightarrow> string \<Rightarrow> 'w \<Rightarrow>
     (preview_entry list \<times> preview_entry list \<times> preview_entry list) result \<times> 'w" where
  "PreviewMerge env lib a b opts kind w =
     (case collect env lib a opts kind w of
        (Inl e, w1) \<Rightarrow> (Inl e, w1)
      | (Inr (aMap, aList), w1) \<Rightarrow>
          (case collect env lib b opts kind w1 of
             (Inl e, w2) \<Rightarrow> (Inl e, w2)
           | (Inr (bMap, bList), w2) \<Rightarrow>
               (let (primary, secondary) = (if opt_direction opts = BToA then (bMap, aMap) else (aMap, bMap))
                in (Inr (sortEntries aList, sortEntries bList,
                         sortEntries (mapValues (env_range env)
                           (mergeEntries (env_range env) opts primary secondary))), w2))))"


section \<open>What the preview shows\<close>

text \<open>The simulated outcome per UID.\<close>

definition winner :: "options \<Rightarrow> preview_entry option \<Rightarrow> preview_entry option \<Rightarrow> preview_entry option" where
  "winner opts p s =
     (case (p, s) of
        (None, _) \<Rightarrow> s
      | (Some e, None) \<Rightarrow> Some e
      | (Some e, Some other) \<Rightarrow>
          Some (if opt_direction opts = Bidirectional \<and> opt_conflict opts = NewestWins \<and>
                   pe_modified e < pe_modified other then other else e))"

lemma merge_primary_get:
  "map_get (merge_primary opts sec (uid, e) m) k =
     (if k = uid then winner opts (Some e) (map_get sec uid) else map_get m k)"
  by (auto simp: merge_primary_def winner_def go_simps split: option.split)

lemma fold_merge_primary:
  "distinct (map fst kvs) \<Longrightarrow>
     map_get (fold (merge_primary opts sec) kvs m) k =
       (case map_of kvs k of Some e \<Rightarrow> winner opts (Some e) (map_get sec k) | None \<Rightarrow> map_get m k)"
proof (induction kvs arbitrary: m)
  case (Cons kv kvs)
  obtain u e where kv: "kv = (u, e)" by (rule prod.exhaust)
  with Cons.prems have d: "distinct (map fst kvs)" and n: "u \<notin> fst ` set kvs" by auto
  from n have "map_of kvs u = None" by (simp add: map_of_eq_None_iff)
  then show ?case by (auto simp: kv Cons.IH [OF d] merge_primary_get split: option.split)
qed simp

lemma go_range_map_of:
  assumes "range_order rng" and "map_wf m"
  shows "distinct (map fst (go_range rng n m))" and "map_of (go_range rng n m) = map_get m"
proof -
  have mset: "mset (go_range rng n m) = mset m" by (rule go_range_mset [OF assms])
  then have "mset (map fst (go_range rng n m)) = mset (map fst m)" by simp
  then show d: "distinct (map fst (go_range rng n m))"
    using assms(2) by (metis map_wf_def map_keys_def mset_eq_imp_distinct_iff)
  show "map_of (go_range rng n m) = map_get m"
    using d assms(2) mset by (metis map_get_eq map_keys_def map_wf_def map_of_eqI map_of_inject_set set_mset_mset)
qed

lemma map_of_rev_distinct: "distinct (map fst kvs) \<Longrightarrow> map_of (rev kvs) = map_of kvs"
  by (simp add: map_of_inject_set rev_map [symmetric])

lemma collect_wf:
  fixes coll :: "'w collection"
  assumes "collect env lib coll opts kind w = (Inr (m, flat), w')"
  shows "map_wf m"
proof -
  have inv: "map_wf (fst (fst (snd (foreach (collect_step env lib coll opts kind) metas (([], []), w0)))))" for metas w0
  proof (rule foreach_inv)
    fix x and s :: "(entries \<times> preview_entry list) \<times> 'w"
    assume "map_wf (fst (fst s))"
    then show "map_wf (fst (fst (snd (collect_step env lib coll opts kind x s))))"
      by (auto simp: collect_step_def Let_def split: prod.split sum.split intro!: gm.wf_put)
  qed simp
  show ?thesis using assms
  proof (cases "coll_list coll w")
    case (Pair r w1)
    with assms obtain metas where r: "r = Inr metas" by (cases r) (auto simp: collect_def)
    show ?thesis using assms Pair r inv [of metas w1]
      by (auto simp: collect_def split: prod.splits option.splits)
  qed
qed

text \<open>The preview shows, per item identity, what a run in that direction would leave: the
  authoritative side's item, or under newest-wins the more recently modified one, and the items of
  the other side that have no counterpart; whatever order the maps are ranged in.\<close>

theorem PreviewMerge_outcome:
  assumes "range_order (env_range env)"
    and "collect env lib a opts kind w = (Inr (aMap, aList), w1)"
    and "collect env lib b opts kind w1 = (Inr (bMap, bList), w2)"
  shows "\<exists>m. PreviewMerge env lib a b opts kind w =
      (Inr (sortEntries aList, sortEntries bList, sortEntries (mapValues (env_range env) m)), w2) \<and>
    map_get m = (\<lambda>uid. if opt_direction opts = BToA then winner opts (map_get bMap uid) (map_get aMap uid)
                   else winner opts (map_get aMap uid) (map_get bMap uid))"
proof -
  have merge: "map_get (mergeEntries (env_range env) opts p s) k = winner opts (map_get p k) (map_get s k)"
    if "map_wf p" "map_wf s" for p s k
    using go_range_map_of [OF assms(1) that(1), of 1] go_range_map_of [OF assms(1) that(2), of 0]
    unfolding mergeEntries_def
    by (auto simp: fold_merge_primary gm.get_fold_put winner_def map_add_def map_of_rev_distinct
        split: option.split)
  have "map_wf aMap" "map_wf bMap" using assms(2,3) by (auto intro: collect_wf)
  with merge assms(2,3) show ?thesis
    by (cases "opt_direction opts = BToA") (auto simp: PreviewMerge_def fun_eq_iff)
qed



section \<open>Concrete inputs\<close>

text \<open>An address book with one card, listed under the given href.\<close>

definition card_coll :: "string \<Rightarrow> unit collection" where
  "card_coll h = \<lparr>coll_list = (\<lambda>w. (Inr [\<lparr>im_href = h, im_etag = ''1''\<rparr>], w)),
     coll_get = (\<lambda>h w. (Inr \<lparr>it_href = h, it_etag = ''1'', it_data = h\<rparr>, w)),
     coll_put = (\<lambda>it w. (Inl (ErrNew ''read only''), w)), coll_delete = (\<lambda>h w. (Inr (), w))\<rparr>"

definition plain_bodies :: "(unit, bytes) body_lib" where
  "plain_bodies = \<lparr>bl_ical = sample_ical,
     bl_tz = \<lparr>tz_load = (\<lambda>n. Inr ()), tz_zone = (\<lambda>_ _. (''UTC'', 0)), tz_dst = (\<lambda>_ _. False)\<rparr>,
     bl_utc = (),
     bl_vcard = \<lparr>vc_decode = Inr, vc_encode = Inr, vc_value = (\<lambda>c f. c), vc_preferred = (\<lambda>c f. f)\<rparr>\<rparr>"

lemma collect_card:
  "collect plain_env plain_bodies (card_coll h) plain_options ''carddav'' () =
     (Inr ([(h, \<lparr>pe_uid = h, pe_title = ''FN'', pe_when = [], pe_modified = 0\<rparr>)],
           [\<lparr>pe_uid = h, pe_title = ''FN'', pe_when = [], pe_modified = 0\<rparr>]), ())"
  by (simp add: collect_def collect_step_def card_coll_def Summarize_def plain_bodies_def plain_options_def
      ContactUID_def map_put_def Let_def)

lemma PreviewMerge_outcome_witness:
  "\<exists>m. snd (snd (projr (fst (PreviewMerge plain_env plain_bodies (card_coll ''x'') (card_coll ''y'')
       plain_options ''carddav'' ())))) = sortEntries (mapValues (env_range plain_env) m) \<and>
     map_option pe_uid (map_get m ''x'') = Some ''x'' \<and> map_option pe_uid (map_get m ''y'') = Some ''y''"
proof -
  obtain m where m: "PreviewMerge plain_env plain_bodies (card_coll ''x'') (card_coll ''y'') plain_options ''carddav'' () =
      (Inr (sortEntries [\<lparr>pe_uid = ''x'', pe_title = ''FN'', pe_when = [], pe_modified = 0\<rparr>],
            sortEntries [\<lparr>pe_uid = ''y'', pe_title = ''FN'', pe_when = [], pe_modified = 0\<rparr>],
            sortEntries (mapValues (env_range plain_env) m)), ())"
    and g: "map_get m = (\<lambda>uid. winner plain_options
      (map_get [(''x'', \<lparr>pe_uid = ''x'', pe_title = ''FN'', pe_when = [], pe_modified = 0\<rparr>)] uid)
      (map_get [(''y'', \<lparr>pe_uid = ''y'', pe_title = ''FN'', pe_when = [], pe_modified = 0\<rparr>)] uid))"
    using PreviewMerge_outcome [OF plain_env_range collect_card collect_card, of "''x''" "''y''"]
    by (auto simp: plain_options_def AToB_def BToA_def)
  show ?thesis by (intro exI [of _ m]) (simp add: m g winner_def map_get_def)
qed

end
