(* ===== verification/Store_Jobs.thy ===== *)
theory Store_Jobs
  imports Store_Feeds
begin

text \<open>
  \<^verbatim>\<open>internal/store/syncjobs.go\<close>: the sync job table, its configuration columns (written by
  \<^verbatim>\<open>CreateSyncJob\<close> and \<^verbatim>\<open>UpdateSyncJob\<close>) and its run columns (written by \<^verbatim>\<open>UpdateSyncJobRun\<close> and
  \<^verbatim>\<open>ResetSyncJobState\<close>).
\<close>


section \<open>Jobs and rows\<close>

record job_config =
  jc_name :: string
  jc_kind :: string
  jc_direction :: string
  jc_conflict :: string
  jc_a_url :: string
  jc_a_username :: string
  jc_a_password :: string
  jc_b_url :: string
  jc_b_username :: string
  jc_b_password :: string
  jc_interval :: int
  jc_enabled :: bool
  jc_window_start :: string
  jc_window_end :: string

record sync_job =
  sj_id :: string
  sj_user :: string
  sj_config :: job_config
  sj_state :: bytes
  sj_last_run :: go_time
  sj_last_status :: string
  sj_created :: go_time
  sj_updated :: go_time

record job_row =
  jr_id :: string
  jr_user :: string
  jr_config :: job_config
  jr_state :: string
  jr_last_run :: string
  jr_last_status :: string
  jr_created :: string
  jr_updated :: string

definition scanSyncJob :: "job_row \<Rightarrow> sync_job" where
  "scanSyncJob r = \<lparr>sj_id = jr_id r, sj_user = jr_user r, sj_config = jr_config r, sj_state = jr_state r,
     sj_last_run = parseTime (jr_last_run r), sj_last_status = jr_last_status r,
     sj_created = parseTime (jr_created r), sj_updated = parseTime (jr_updated r)\<rparr>"


section \<open>Operations\<close>

definition CreateSyncJob :: "go_time \<Rightarrow> sync_job \<Rightarrow> job_row list \<Rightarrow> go_error option \<times> job_row list" where
  "CreateSyncJob now j rows =
     (if list_ex (\<lambda>r. jr_id r = sj_id j) rows
      then (Some (wrapf ''create sync job: '' constraint_failed), rows)
      else (None, rows @ [\<lparr>jr_id = sj_id j, jr_user = sj_user j, jr_config = sj_config j,
        jr_state = notifOrEmpty (sj_state j), jr_last_run = formatTime (sj_last_run j),
        jr_last_status = sj_last_status j,
        jr_created = stamp (if time_is_zero (sj_created j) then now else sj_created j),
        jr_updated = stamp now\<rparr>]))"

definition job_of :: "string \<Rightarrow> string \<Rightarrow> job_row \<Rightarrow> bool" where
  "job_of jid user r \<longleftrightarrow> jr_id r = jid \<and> jr_user r = user"

definition UpdateSyncJob :: "go_time \<Rightarrow> sync_job \<Rightarrow> job_row list \<Rightarrow> go_error option \<times> job_row list" where
  "UpdateSyncJob now j rows =
     (case update_where (job_of (sj_id j) (sj_user j))
         (\<lambda>r. r\<lparr>jr_config := sj_config j, jr_updated := stamp now\<rparr>) rows of
        (n, rows') \<Rightarrow> (checkAffected n, rows'))"

definition UpdateSyncJobRun ::
  "go_time \<Rightarrow> string \<Rightarrow> bytes \<Rightarrow> go_time \<Rightarrow> string \<Rightarrow> job_row list \<Rightarrow> job_row list" where
  "UpdateSyncJobRun now jid state lastRun status rows =
     snd (update_where (\<lambda>r. jr_id r = jid)
       (\<lambda>r. r\<lparr>jr_state := notifOrEmpty state, jr_last_run := formatTime lastRun,
              jr_last_status := status, jr_updated := stamp now\<rparr>) rows)"

definition ResetSyncJobState ::
  "go_time \<Rightarrow> string \<Rightarrow> string \<Rightarrow> job_row list \<Rightarrow> go_error option \<times> job_row list" where
  "ResetSyncJobState now jid user rows =
     (case update_where (job_of jid user)
         (\<lambda>r. r\<lparr>jr_state := [], jr_last_status := [], jr_updated := stamp now\<rparr>) rows of
        (n, rows') \<Rightarrow> (checkAffected n, rows'))"

definition DeleteSyncJob :: "string \<Rightarrow> string \<Rightarrow> job_row list \<Rightarrow> go_error option \<times> job_row list" where
  "DeleteSyncJob jid user rows =
     (case delete_where (job_of jid user) rows of (n, rows') \<Rightarrow> (checkAffected n, rows'))"

definition SyncJobByID :: "string \<Rightarrow> job_row list \<Rightarrow> sync_job result" where
  "SyncJobByID jid rows =
     (case select_one (\<lambda>r. jr_id r = jid) rows of Inl e \<Rightarrow> Inl e | Inr r \<Rightarrow> Inr (scanSyncJob r))"

definition SyncJobsByUser :: "string \<Rightarrow> job_row list \<Rightarrow> sync_job list" where
  "SyncJobsByUser user rows = map scanSyncJob (sort_key jr_created (filter (\<lambda>r. jr_user r = user) rows))"

definition AllEnabledSyncJobs :: "job_row list \<Rightarrow> sync_job list" where
  "AllEnabledSyncJobs rows =
     map scanSyncJob (sort_key jr_created (filter (\<lambda>r. jc_enabled (jr_config r)) rows))"


section \<open>Configuration and run state are kept apart\<close>

definition run_columns :: "job_row \<Rightarrow> string \<times> string \<times> string" where
  "run_columns r = (jr_state r, jr_last_run r, jr_last_status r)"

definition fixed_columns :: "job_row \<Rightarrow> string \<times> string \<times> string" where
  "fixed_columns r = (jr_id r, jr_user r, jr_created r)"

text \<open>Editing a job never touches what the last run recorded, recording a run never touches the
  configuration, none of the operations changes id, owner or creation time, and another user's jobs are
  out of reach of the owner-scoped ones.\<close>

theorem job_columns_kept_apart:
  "map run_columns (snd (UpdateSyncJob now j rows)) = map run_columns rows \<and>
   map jr_config (UpdateSyncJobRun now i st t status rows) = map jr_config rows \<and>
   map jr_config (snd (ResetSyncJobState now i u rows)) = map jr_config rows \<and>
   map fixed_columns (snd (UpdateSyncJob now j rows)) = map fixed_columns rows \<and>
   map fixed_columns (UpdateSyncJobRun now i st t status rows) = map fixed_columns rows \<and>
   map fixed_columns (snd (ResetSyncJobState now i u rows)) = map fixed_columns rows \<and>
   filter (\<lambda>r. jr_user r \<noteq> sj_user j) (snd (UpdateSyncJob now j rows)) =
     filter (\<lambda>r. jr_user r \<noteq> sj_user j) rows \<and>
   filter (\<lambda>r. jr_user r \<noteq> u) (snd (ResetSyncJobState now i u rows)) = filter (\<lambda>r. jr_user r \<noteq> u) rows \<and>
   filter (\<lambda>r. jr_user r \<noteq> u) (snd (DeleteSyncJob i u rows)) = filter (\<lambda>r. jr_user r \<noteq> u) rows"
proof -
  have f: "filter (\<lambda>r. jr_user r \<noteq> v) (snd (update_where (job_of k v) g rows)) = filter (\<lambda>r. jr_user r \<noteq> v) rows"
    if "\<And>r. jr_user (g r) = jr_user r" for k v and g :: "job_row \<Rightarrow> job_row"
    using that by (intro filter_update_where_other) (auto simp: job_of_def)
  show ?thesis
    by (auto simp: UpdateSyncJob_def UpdateSyncJobRun_def ResetSyncJobState_def DeleteSyncJob_def
        case_prod_unfold run_columns_def fixed_columns_def f delete_where_def job_of_def
        simp del: map_update_where intro!: map_update_where filter_cong)
qed

lemma SyncJobByID_run:
  assumes "SyncJobByID i rows = Inr j"
  shows "\<exists>j'. SyncJobByID i (UpdateSyncJobRun now i st t status rows) = Inr j' \<and>
    sj_config j' = sj_config j \<and> sj_state j' = notifOrEmpty st \<and> sj_last_status j' = status \<and>
    sj_user j' = sj_user j"
  using assms
proof (induction rows)
  case (Cons r rows)
  then show ?case
    by (cases "jr_id r = i")
      (auto simp: SyncJobByID_def select_one_def UpdateSyncJobRun_def update_where_def scanSyncJob_def
        split: sum.splits option.splits)
qed (simp add: SyncJobByID_def select_one_def)

end
