(* ===== verification/Davsync.thy ===== *)
theory Davsync
  imports Store_Jobs Dav_Bidi Dav_Collections
begin

text \<open>
  \<^verbatim>\<open>internal/davsync/runner.go\<close>: running sync jobs. The first part is one run: building the
  collections and options, decoding the state, the sync itself and persisting the outcome. The
  second part is the table of running jobs shared by the scheduler and the manual runs, as a step
  relation on the goroutines that acquire and release a job.
\<close>


section \<open>Environment\<close>

record ('w, 'l, 'v) runner_env =
  ru_dav :: dav_env
  ru_ical :: "'l ical_lib"
  ru_utc :: 'l
  ru_vcard :: "'v vcard_lib"
  ru_caldav :: "string \<Rightarrow> string \<Rightarrow> string \<Rightarrow> (component, 'w) dav_client result"
  ru_carddav :: "string \<Rightarrow> string \<Rightarrow> string \<Rightarrow> ('v, 'w) dav_client result"
  ru_url_error :: "string \<Rightarrow> go_error"
  ru_decode :: "bytes \<Rightarrow> items result"
  ru_encode :: "items \<Rightarrow> bytes result"
  ru_quote :: "string \<Rightarrow> string"
  ru_now :: "'w \<Rightarrow> go_time"

abbreviation error_text :: "('w, 'l, 'v) runner_env \<Rightarrow> go_error \<Rightarrow> string" where
  "error_text env \<equiv> err_text (ru_quote env)"


section \<open>Building a sync\<close>

definition kind_options :: "string \<Rightarrow> string \<Rightarrow> options" where
  "kind_options direction conflict =
     \<lparr>opt_direction = direction, opt_conflict = conflict, opt_uid = None, opt_modified = None,
      opt_href_suffix = [], opt_window_start = 0, opt_window_end = 0\<rparr>"

definition connect_both ::
  "(string \<Rightarrow> string \<Rightarrow> string \<Rightarrow> ('o, 'w) adapter result) \<Rightarrow> job_config \<Rightarrow> options \<Rightarrow>
     ('w collection \<times> 'w collection \<times> options) result" where
  "connect_both new c opts =
     (case new (jc_a_url c) (jc_a_username c) (jc_a_password c) of
        Inl e \<Rightarrow> Inl e
      | Inr a \<Rightarrow>
          (case new (jc_b_url c) (jc_b_username c) (jc_b_password c) of
             Inl e \<Rightarrow> Inl e
           | Inr b \<Rightarrow> Inr (as_collection a, as_collection b, opts)))"

definition buildSync ::
  "('w, 'l, 'v) runner_env \<Rightarrow> job_config \<Rightarrow> ('w collection \<times> 'w collection \<times> options) result" where
  "buildSync env c =
     (if jc_direction c \<noteq> AToB \<and> jc_direction c \<noteq> BToA \<and> jc_direction c \<noteq> Bidirectional then
        Inl (ErrMsg [Lit ''invalid direction '', Quo (jc_direction c)])
      else if jc_conflict c \<noteq> NewestWins \<and> jc_conflict c \<noteq> SourceWins \<and> jc_conflict c \<noteq> [] then
        Inl (ErrMsg [Lit ''invalid conflict '', Quo (jc_conflict c)])
      else
        (let opts = kind_options (jc_direction c) (jc_conflict c)
         in if jc_kind c = ''caldav'' then
              (case ParseWindow (jc_window_start c) (jc_window_end c) of
                 Inl e \<Rightarrow> Inl e
               | Inr (s, e) \<Rightarrow>
                   connect_both (NewCalDAVCollection (ru_ical env) (ru_caldav env) (ru_url_error env)) c
                     (opts\<lparr>opt_uid := Some (CalendarUID (ru_ical env)),
                           opt_modified := Some (CalendarModified (ru_ical env) (ru_utc env)),
                           opt_href_suffix := ''.ics'', opt_window_start := s, opt_window_end := e\<rparr>))
            else if jc_kind c = ''carddav'' then
              connect_both (NewCardDAVCollection (ru_vcard env) (ru_carddav env) (ru_url_error env)) c
                (opts\<lparr>opt_uid := Some (ContactUID (ru_vcard env)),
                      opt_modified := Some (ContactModified (ru_vcard env)), opt_href_suffix := ''.vcf''\<rparr>)
            else Inl (ErrMsg [Lit ''invalid kind '', Quo (jc_kind c)])))"


section \<open>One run\<close>

definition runStatus :: "('w, 'l, 'v) runner_env \<Rightarrow> sync_result \<Rightarrow> go_error option \<Rightarrow> string" where
  "runStatus env res err =
     (case err of
        Some e \<Rightarrow>
          if err_is e ErrCollectionVanished then ''blocked: '' @ error_text env e
          else ''error: '' @ error_text env e
      | None \<Rightarrow> ''ok: +'' @ itoa (int (r_created res)) @ '' ~'' @ itoa (int (r_updated res)) @
                '' -'' @ itoa (int (r_deleted res)))"

definition finish ::
  "('w, 'l, 'v) runner_env \<Rightarrow> sync_job \<Rightarrow> items option \<Rightarrow> string \<Rightarrow> 'w \<times> job_row list \<Rightarrow> 'w \<times> job_row list" where
  "finish env job state status s =
     (case s of (w, rows) \<Rightarrow>
        let raw = (case state of
              None \<Rightarrow> []
            | Some its \<Rightarrow> (case ru_encode env its of Inr b \<Rightarrow> b | Inl _ \<Rightarrow> []))
        in (w, UpdateSyncJobRun (ru_now env w) (sj_id job) raw (ru_now env w) status rows))"

definition job_items :: "('w, 'l, 'v) runner_env \<Rightarrow> sync_job \<Rightarrow> items" where
  "job_items env job =
     (if sj_state job = [] then []
      else case ru_decode env (sj_state job) of Inr its \<Rightarrow> its | Inl _ \<Rightarrow> [])"

definition runLocked ::
  "('w, 'l, 'v) runner_env \<Rightarrow> sync_job \<Rightarrow> 'w \<times> job_row list \<Rightarrow> 'w \<times> job_row list" where
  "runLocked env job s =
     (case s of (w, rows) \<Rightarrow>
        (case buildSync env (sj_config job) of
           Inl e \<Rightarrow> finish env job None (''config error: '' @ error_text env e) (w, rows)
         | Inr (a, b, opts) \<Rightarrow>
             (let out = Sync (ru_dav env) a b (job_items env job) opts w
              in finish env job (Some (so_items out)) (runStatus env (so_res out) (so_err out))
                   (so_world out, rows))))"


section \<open>Which jobs run\<close>

definition due :: "sync_job \<Rightarrow> go_time \<Rightarrow> bool" where
  "due job now =
     (if time_is_zero (sj_last_run job) then True
      else
        (let interval = int64 (jc_interval (sj_config job) * second);
             interval = (if interval \<le> 0 then 15 * minute else interval)
         in interval \<le> time_sub now (sj_last_run job)))"

type_synonym running = "(string, bool) go_map"

definition is_running :: "running \<Rightarrow> string \<Rightarrow> bool" where
  "is_running m jid = (map_get m jid = Some True)"

definition acquire :: "string \<Rightarrow> running \<Rightarrow> bool \<times> running" where
  "acquire jid m = (if is_running m jid then (False, m) else (True, map_put jid True m))"

definition release :: "string \<Rightarrow> running \<Rightarrow> running" where
  "release jid m = map_del jid m"

definition ErrAlreadyRunning :: go_error where
  "ErrAlreadyRunning = ErrNew ''davsync: job is already running''"

text \<open>\<open>work\<close> is \<^verbatim>\<open>runLocked\<close> of the job; the deferred release runs when it returns.\<close>

definition RunOne :: "('s \<Rightarrow> 's) \<Rightarrow> string \<Rightarrow> running \<times> 's \<Rightarrow> go_error option \<times> running \<times> 's" where
  "RunOne work jid st =
     (case st of (m, s) \<Rightarrow>
        (case acquire jid m of
           (False, m') \<Rightarrow> (Some ErrAlreadyRunning, m', s)
         | (True, m') \<Rightarrow> (None, release jid m', work s)))"

definition runJob :: "('s \<Rightarrow> 's) \<Rightarrow> string \<Rightarrow> running \<times> 's \<Rightarrow> running \<times> 's" where
  "runJob work jid st =
     (case st of (m, s) \<Rightarrow>
        (case acquire jid m of
           (False, m') \<Rightarrow> (m', s)
         | (True, m') \<Rightarrow> (release jid m', work s)))"

definition Run ::
  "('w, 'l, 'v) runner_env \<Rightarrow> running \<times> 'w \<times> job_row list \<Rightarrow> running \<times> 'w \<times> job_row list" where
  "Run env st =
     (case st of (m, w, rows) \<Rightarrow>
        (let now = ru_now env w
         in fold (\<lambda>job st. if due job now then runJob (runLocked env job) (sj_id job) st else st)
              (AllEnabledSyncJobs rows) st))"

end
