(* ===== verification/Davsync_Props.thy ===== *)
theory Davsync_Props
  imports Davsync
begin

text \<open>
  What the sync runner guarantees: a job never runs twice at the same time, a run that trips the
  vanish guard changes nothing and says so, and the outcome of every run is recorded.
\<close>


section \<open>Mutual exclusion\<close>

text \<open>
  The goroutines (scheduler ticks and manual requests) as threads \<open>'t\<close>: each is idle or runs a job
  it acquired. \<open>acquire\<close> and \<open>release\<close> are atomic, being guarded by the runner's mutex.
\<close>

type_synonym 't runner_state = "running \<times> ('t \<Rightarrow> string option)"

inductive runner_step :: "'t runner_state \<Rightarrow> 't runner_state \<Rightarrow> bool" where
  step_acquire: "acquire jid m = (True, m') \<Longrightarrow> holds t = None \<Longrightarrow>
    runner_step (m, holds) (m', holds(t := Some jid))"
| step_refused: "acquire jid m = (False, m') \<Longrightarrow> holds t = None \<Longrightarrow> runner_step (m, holds) (m', holds)"
| step_release: "holds t = Some jid \<Longrightarrow> runner_step (m, holds) (release jid m, holds(t := None))"

inductive runner_reachable :: "'t runner_state \<Rightarrow> bool" where
  runner_start: "runner_reachable ([], \<lambda>_. None)"
| runner_next: "runner_reachable s \<Longrightarrow> runner_step s s' \<Longrightarrow> runner_reachable s'"

inductive_cases runner_stepE: "runner_step (m, holds) s'"

definition runner_inv :: "'t runner_state \<Rightarrow> bool" where
  "runner_inv s = (case s of (m, holds) \<Rightarrow>
     (\<forall>jid. is_running m jid \<longleftrightarrow> (\<exists>t. holds t = Some jid)) \<and>
     (\<forall>t t' jid. holds t = Some jid \<longrightarrow> holds t' = Some jid \<longrightarrow> t = t'))"

lemma is_running_put: "is_running (map_put k True m) j \<longleftrightarrow> j = k \<or> is_running m j"
  by (auto simp: is_running_def)

lemma is_running_release: "is_running (release k m) j \<longleftrightarrow> j \<noteq> k \<and> is_running m j"
  by (simp add: is_running_def release_def)

lemma runner_step_inv: "runner_step s s' \<Longrightarrow> runner_inv s \<Longrightarrow> runner_inv s'"
proof (induction rule: runner_step.induct)
  case (step_acquire jid m m' holds t)
  then have new: "\<not> is_running m jid" and m': "m' = map_put jid True m"
    by (auto simp: acquire_def split: if_splits)
  from step_acquire(2,3) new have free: "holds t = None" "\<And>u. holds u \<noteq> Some jid"
    by (auto simp: runner_inv_def)
  have "(\<exists>u. (holds(t := Some jid)) u = Some j) \<longleftrightarrow> j = jid \<or> (\<exists>u. holds u = Some j)" for j
    using free(1) by (auto simp: fun_upd_def) (metis option.distinct(1))
  with step_acquire(3) free show ?case
    by (simp add: runner_inv_def m' is_running_put) (use free(2) in auto)
next
  case (step_refused jid m m' holds t)
  then show ?case by (auto simp: acquire_def split: if_splits)
next
  case (step_release holds t jid m)
  then have uniq: "\<And>u. holds u = Some jid \<Longrightarrow> u = t" by (auto simp: runner_inv_def)
  have "(\<exists>u. (holds(t := None)) u = Some j) \<longleftrightarrow> j \<noteq> jid \<and> (\<exists>u. holds u = Some j)" for j
  proof
    assume "j \<noteq> jid \<and> (\<exists>u. holds u = Some j)"
    then obtain u where "holds u = Some j" "j \<noteq> jid" by blast
    moreover from this step_release(1) have "u \<noteq> t" by auto
    ultimately show "\<exists>u. (holds(t := None)) u = Some j" by auto
  qed (use uniq in \<open>auto split: if_splits\<close>)
  with step_release(2) show ?case
    by (auto simp: runner_inv_def is_running_release split: if_splits)
qed

lemma runner_reachable_inv: "runner_reachable s \<Longrightarrow> runner_inv s"
proof (induction rule: runner_reachable.induct)
  case runner_start
  then show ?case by (simp add: runner_inv_def is_running_def)
qed (rule runner_step_inv)

text \<open>However scheduler ticks and manual runs interleave, no two of them run the same job at the same
  time, a job is refused exactly while some run of it is in flight, and nothing stays marked as running
  once every run has returned.\<close>

theorem job_runs_exclusively:
  assumes "runner_reachable (m, holds)"
  shows "(holds t = Some jid \<and> holds t' = Some jid \<longrightarrow> t = t') \<and>
    (fst (acquire jid m) \<longleftrightarrow> (\<forall>u. holds u \<noteq> Some jid))"
  using runner_reachable_inv [OF assms] by (auto simp: runner_inv_def acquire_def)


section \<open>The outcome of a run\<close>

lemma finish_row:
  assumes "SyncJobByID (sj_id job) rows = Inr j"
  shows "\<exists>j'. SyncJobByID (sj_id job) (snd (finish env job state status (w, rows))) = Inr j' \<and>
    sj_config j' = sj_config j \<and> sj_last_status j' = status \<and>
    sj_state j' = notifOrEmpty (case state of
        None \<Rightarrow> [] | Some its \<Rightarrow> (case ru_encode env its of Inr b \<Rightarrow> b | Inl _ \<Rightarrow> []))"
  using SyncJobByID_run [OF assms, of "ru_now env w"
      "case state of None \<Rightarrow> [] | Some its \<Rightarrow> (case ru_encode env its of Inr b \<Rightarrow> b | Inl _ \<Rightarrow> [])"
      "ru_now env w" status]
  by (auto simp: finish_def Let_def)

lemma guard_error: "guardVanished side 0 n = Some e \<Longrightarrow> err_is e ErrCollectionVanished"
  by (auto simp: guardVanished_def split: if_splits)

text \<open>When the source of a one-way job lists nothing although five or more items are known, the run
  asks for nothing but that listing, records the state it started with, keeps the configuration, and
  its status carries the word the UI offers the reset for.\<close>

theorem vanished_run_is_blocked:
  assumes "SyncJobByID (sj_id job) rows = Inr job"
    and "buildSync env (sj_config job) = Inr (a, b, opts)" and "opt_direction opts = AToB"
    and "opt_uid opts \<noteq> None" and "coll_list a w = (Inr [], w')"
    and "5 \<le> length (map_keys (job_items env job))"
    and "ru_encode env (job_items env job) = Inr bs" and "bs \<noteq> []"
  shows "\<exists>job' msg. fst (runLocked env job (w, rows)) = w' \<and>
    SyncJobByID (sj_id job) (snd (runLocked env job (w, rows))) = Inr job' \<and>
    sj_state job' = bs \<and> sj_config job' = sj_config job \<and> sj_last_status job' = ''blocked: '' @ msg"
proof -
  obtain uidFn where u: "opt_uid opts = Some uidFn" using assms(4) by blast
  obtain e where g: "guardVanished ''source'' 0 (length (map_keys (job_items env job))) = Some e"
    using assms(6) by (simp add: guardVanished_def vanishGuardThreshold_def)
  have out: "Sync (ru_dav env) a b (job_items env job) opts w =
      \<lparr>so_err = Some e, so_res = zero_result, so_items = job_items env job, so_world = w'\<rparr>"
    using assms(3,5) u g by (simp add: Sync_def syncOneWay_def)
  have status: "runStatus env zero_result (Some e) = ''blocked: '' @ error_text env e"
    using guard_error [OF g] by (simp add: runStatus_def)
  have run: "runLocked env job (w, rows) =
      finish env job (Some (job_items env job)) (''blocked: '' @ error_text env e) (w', rows)"
    using assms(2) out status by (simp add: runLocked_def Let_def)
  show ?thesis
    using finish_row [OF assms(1), of env "Some (job_items env job)" "''blocked: '' @ error_text env e" w'] assms(7,8)
    unfolding run by (auto simp: finish_def notifOrEmpty_def Let_def)
qed

text \<open>A run that fails before it starts, on a configuration error, replaces the recorded sync state by
  the empty document, so the next run treats the collections as never synchronised.\<close>

lemma config_error_drops_state:
  assumes "SyncJobByID (sj_id job) rows = Inr job" and "buildSync env (sj_config job) = Inl e"
  shows "\<exists>job'. SyncJobByID (sj_id job) (snd (runLocked env job (w, rows))) = Inr job' \<and> sj_state job' = ''{}''"
  using finish_row [OF assms(1), of env None "''config error: '' @ error_text env e" w] assms(2)
  by (auto simp: runLocked_def notifOrEmpty_def)



section \<open>Concrete inputs\<close>

lemma job_runs_exclusively_witness:
  "\<not> fst (acquire ''j'' (snd (acquire ''j'' [])))"
proof -
  have "runner_reachable (snd (acquire ''j'' []), (\<lambda>_. None)(0 := Some ''j''))" for t :: nat
    by (rule runner_next [OF runner_start], rule step_acquire) (simp_all add: acquire_def is_running_def)
  from job_runs_exclusively [OF this, of "0 :: nat" "''j''" 0] show ?thesis by auto
qed

text \<open>A CardDAV job whose source lists nothing, with six items on record; a state text is the UIDs as
  single characters.\<close>

definition empty_client :: "(bytes, nat) dav_client" where
  "empty_client = \<lparr>dc_read_dir = (\<lambda>p n. (Inr [], n + 1)), dc_get = (\<lambda>h n. (Inl (ErrNew ''gone''), n)),
     dc_put = (\<lambda>h v n. (Inl (ErrNew ''read only''), n)), dc_remove_all = (\<lambda>h n. (Inr (), n))\<rparr>"

definition card_env :: "(nat, unit, bytes) runner_env" where
  "card_env = \<lparr>ru_dav = \<lparr>env_sha256 = id, env_start = (\<lambda>_. 0), env_range = (\<lambda>_ ks. ks)\<rparr>,
     ru_ical = sample_ical, ru_utc = (),
     ru_vcard = \<lparr>vc_decode = Inr, vc_encode = Inr, vc_value = (\<lambda>c f. c), vc_preferred = (\<lambda>c f. c)\<rparr>,
     ru_caldav = (\<lambda>_ _ _. Inl (ErrNew ''no calendar'')), ru_carddav = (\<lambda>_ _ _. Inr empty_client),
     ru_url_error = (\<lambda>u. ErrNew u), ru_decode = (\<lambda>s. Inr (map (\<lambda>c. ([c], zero_item_state)) s)),
     ru_encode = (\<lambda>its. Inr (concat (map_keys its))), ru_quote = id, ru_now = (\<lambda>n. new_year)\<rparr>"

definition card_job :: sync_job where
  "card_job = \<lparr>sj_id = ''j'', sj_user = ''u'',
     sj_config = \<lparr>jc_name = ''n'', jc_kind = ''carddav'', jc_direction = AToB, jc_conflict = [],
       jc_a_url = ''/a/'', jc_a_username = [], jc_a_password = [], jc_b_url = ''/b/'', jc_b_username = [],
       jc_b_password = [], jc_interval = 900, jc_enabled = True, jc_window_start = [], jc_window_end = []\<rparr>,
     sj_state = ''abcdef'', sj_last_run = 0, sj_last_status = [], sj_created = new_year, sj_updated = new_year\<rparr>"

definition card_rows :: "job_row list" where
  "card_rows = [\<lparr>jr_id = ''j'', jr_user = ''u'', jr_config = sj_config card_job, jr_state = ''abcdef'',
     jr_last_run = [], jr_last_status = [], jr_created = stamp new_year, jr_updated = stamp new_year\<rparr>]"

lemma card_job_stored: "SyncJobByID (sj_id card_job) card_rows = Inr card_job"
proof -
  have "parseTime [] = 0" by (simp add: parseTime_def go_parse_def LayoutRFC3339_def num4_def)
  moreover have "parseTime (stamp new_year) = new_year"
    by (simp add: parseTime_stamp new_year_plain) (simp add: unix_secs_def new_year_def)
  ultimately show ?thesis
    by (simp add: SyncJobByID_def select_one_def card_rows_def card_job_def scanSyncJob_def)
qed

lemma vanished_run_is_blocked_witness:
  "\<exists>job' msg. fst (runLocked card_env card_job (0, card_rows)) = 1 \<and>
     SyncJobByID ''j'' (snd (runLocked card_env card_job (0, card_rows))) = Inr job' \<and>
     sj_state job' = ''abcdef'' \<and> sj_last_status job' = ''blocked: '' @ msg"
proof -
  have u: "\<exists>u. url_parse ''/a/'' = Some u" "\<exists>u. url_parse ''/b/'' = Some u"
  proof -
    have "url_parse ''/a/'' \<noteq> None" "url_parse ''/b/'' \<noteq> None" by code_simp+
    then show "\<exists>u. url_parse ''/a/'' = Some u" "\<exists>u. url_parse ''/b/'' = Some u" by auto
  qed
  then obtain a b opts where b: "buildSync card_env (sj_config card_job) = Inr (a, b, opts)"
    "opt_direction opts = AToB" "opt_uid opts \<noteq> None" "coll_list a 0 = (Inr [], 1)"
    by (auto simp: buildSync_def connect_both_def card_env_def card_job_def NewCardDAVCollection_def
        kind_options_def as_collection_def List_def empty_client_def)
  have items: "job_items card_env card_job = map (\<lambda>c. ([c], zero_item_state)) ''abcdef''"
    by (simp add: job_items_def card_env_def card_job_def)
  have "sj_id card_job = ''j''" by (simp add: card_job_def)
  then show ?thesis
    using vanished_run_is_blocked [OF card_job_stored b, of "''abcdef''"] items
    by (auto simp: map_keys_def card_env_def)
qed

end
