(* ===== verification/Go_Flow.thy ===== *)
theory Go_Flow
  imports Prelude
begin

text \<open>
  Functions with an early return over a state: a handler that has written its response, or a method
  that returns an error, stops; what it did to the state stays. \<open>andthen\<close> is the sequence of two such
  steps, \<open>attempt\<close> a call whose error the caller looks at. The frame rules (\<open>spares\<close>) say which part
  of the state a step leaves alone; they are collected in \<open>flow_frame\<close>.
\<close>

type_synonym ('s, 'e, 'a) flow = "'s \<Rightarrow> ('e + 'a) \<times> 's"

named_theorems flow_frame \<open>one rule per step: the part of the state it leaves alone\<close>
named_theorems flow_run \<open>equations that run a step on a state\<close>

definition pass :: "'a \<Rightarrow> ('s, 'e, 'a) flow" where
  "pass x s = (Inr x, s)"

definition stop :: "'e \<Rightarrow> ('s, 'e, 'a) flow" where
  "stop e s = (Inl e, s)"

definition andthen :: "('s, 'e, 'a) flow \<Rightarrow> ('a \<Rightarrow> ('s, 'e, 'b) flow) \<Rightarrow> ('s, 'e, 'b) flow" where
  "andthen m k s = (case m s of (Inl e, s') \<Rightarrow> (Inl e, s') | (Inr x, s') \<Rightarrow> k x s')"

text \<open>Reading the state, changing it, returning a result as it is, looking at the result of a call.\<close>

definition peek :: "('s \<Rightarrow> 'a) \<Rightarrow> ('s, 'e, 'a) flow" where
  "peek f s = (Inr (f s), s)"

definition modify :: "('s \<Rightarrow> 's) \<Rightarrow> ('s, 'e, unit) flow" where
  "modify f s = (Inr (), f s)"

definition yields :: "'e + 'a \<Rightarrow> ('s, 'e, 'a) flow" where
  "yields r s = (r, s)"

definition attempt :: "('s, 'e, 'a) flow \<Rightarrow> ('s, 'f, 'e + 'a) flow" where
  "attempt m s = (case m s of (r, s') \<Rightarrow> (Inr r, s'))"

text \<open>A method that returns only an error.\<close>

definition returns_err :: "('s \<Rightarrow> 'e option \<times> 's) \<Rightarrow> ('s, 'e, unit) flow" where
  "returns_err f s = (case f s of (None, s') \<Rightarrow> (Inr (), s') | (Some e, s') \<Rightarrow> (Inl e, s'))"


text \<open>A library whose calls are kept, with their results, in a log.\<close>

definition logged :: "('c \<Rightarrow> 'w \<Rightarrow> 'r \<times> 'w) \<Rightarrow> 'c \<Rightarrow> ('c \<times> 'r) list \<times> 'w \<Rightarrow> 'r \<times> ('c \<times> 'r) list \<times> 'w" where
  "logged call c lw = (case call c (snd lw) of (r, w) \<Rightarrow> (r, fst lw @ [(c, r)], w))"


section \<open>Laws\<close>

lemma flow_basic [flow_run]:
  "pass x s = (Inr x, s)" "stop e s = (Inl e, s)" "peek f s = (Inr (f s), s)"
  "modify g s = (Inr (), g s)" "yields r s = (r, s)"
  by (simp_all add: pass_def stop_def peek_def modify_def yields_def)

lemma andthen_pass [simp]: "andthen (pass x) k = k x"
  by (simp add: andthen_def pass_def fun_eq_iff)

lemma andthen_stop [simp]: "andthen (stop e) k = stop e"
  by (simp add: andthen_def stop_def fun_eq_iff)

lemma andthen_peek: "andthen (peek f) k s = k (f s) s"
  by (simp add: andthen_def peek_def)

lemma andthen_modify: "andthen (modify g) k s = k () (g s)"
  by (simp add: andthen_def modify_def)

lemma andthen_yields: "andthen (yields r) k s = (case r of Inl e \<Rightarrow> (Inl e, s) | Inr x \<Rightarrow> k x s)"
  by (simp add: andthen_def yields_def split: sum.split)

lemma andthen_attempt: "andthen (attempt m) k s = (case m s of (r, s') \<Rightarrow> k r s')"
  by (simp add: andthen_def attempt_def split: prod.split)

lemmas andthen_run [flow_run] = andthen_peek andthen_modify andthen_yields andthen_attempt

lemma andthen_assoc: "andthen (andthen m f) g = andthen m (\<lambda>x. andthen (f x) g)"
  by (simp add: andthen_def fun_eq_iff split: prod.split sum.split)

lemma andthen_ok: "m s = (Inr x, s') \<Longrightarrow> andthen m k s = k x s'"
  by (simp add: andthen_def)

lemma andthen_err: "m s = (Inl e, s') \<Longrightarrow> andthen m k s = (Inl e, s')"
  by (simp add: andthen_def)

lemma andthen_Inr:
  "andthen m k s = (Inr y, s'') \<longleftrightarrow> (\<exists>x s'. m s = (Inr x, s') \<and> k x s' = (Inr y, s''))"
  by (auto simp: andthen_def split: prod.splits sum.splits)


section \<open>What a step leaves alone\<close>

definition spares :: "('s \<Rightarrow> 'x) \<Rightarrow> ('s, 'e, 'a) flow \<Rightarrow> bool" where
  "spares f m \<longleftrightarrow> (\<forall>s. f (snd (m s)) = f s)"

lemma sparesI: "(\<And>s. f (snd (m s)) = f s) \<Longrightarrow> spares f m"
  by (simp add: spares_def)

lemma sparesD: "spares f m \<Longrightarrow> f (snd (m s)) = f s"
  by (simp add: spares_def)

lemma spares_run: "spares f m \<Longrightarrow> m s = (r, s') \<Longrightarrow> f s' = f s"
  by (metis snd_conv sparesD)

lemma spares_basic [flow_frame]:
  "spares f (pass x)" "spares f (stop e)" "spares f (peek h)" "spares f (yields r)"
  by (simp_all add: spares_def pass_def stop_def peek_def yields_def)

lemma spares_andthen [flow_frame]:
  "spares f m \<Longrightarrow> (\<And>x. spares f (k x)) \<Longrightarrow> spares f (andthen m k)"
  by (auto simp: spares_def andthen_def split: prod.split sum.split) (metis snd_conv)+

lemma spares_modify: "(\<And>s. f (g s) = f s) \<Longrightarrow> spares f (modify g)"
  by (simp add: spares_def modify_def)

lemma spares_attempt [flow_frame]: "spares f m \<Longrightarrow> spares f (attempt m)"
  by (auto simp: spares_def attempt_def split: prod.split) (metis snd_conv)+

lemma spares_returns_err: "(\<And>s. f (snd (g s)) = f s) \<Longrightarrow> spares f (returns_err g)"
  by (auto simp: spares_def returns_err_def split: prod.split option.split) (metis snd_conv)+

lemma spares_if [flow_frame]:
  "(b \<Longrightarrow> spares f m) \<Longrightarrow> (\<not> b \<Longrightarrow> spares f n) \<Longrightarrow> spares f (if b then m else n)"
  by simp

lemma spares_option [flow_frame]:
  "spares f m \<Longrightarrow> (\<And>x. spares f (k x)) \<Longrightarrow> spares f (case r of None \<Rightarrow> m | Some x \<Rightarrow> k x)"
  by (cases r) auto

lemma spares_sum [flow_frame]:
  "(\<And>e. spares f (m e)) \<Longrightarrow> (\<And>x. spares f (k x)) \<Longrightarrow>
     spares f (case r of Inl e \<Rightarrow> m e | Inr x \<Rightarrow> k x)"
  by (cases r) auto

lemma spares_prod [flow_frame]:
  "(\<And>x y. spares f (k x y)) \<Longrightarrow> spares f (case p of (x, y) \<Rightarrow> k x y)"
  by (cases p) auto

lemma spares_let [flow_frame]: "(\<And>x. spares f (k x)) \<Longrightarrow> spares f (let x = v in k x)"
  by simp

end
