(* ===== verification/Store_Users.thy ===== *)
theory Store_Users
  imports Store_Feeds
begin

text \<open>
  \<^verbatim>\<open>internal/store\<close>: the accounts and what belongs to them, i.e. the tables of users, sessions,
  password resets and audit entries. Constraints of the schema (primary keys, the partial unique
  indexes of \<^verbatim>\<open>users\<close>, the \<^verbatim>\<open>kind\<close> check) are the error branches of the inserts; a nullable column is
  an option.
\<close>


section \<open>Users\<close>

record user =
  us_id :: string
  us_kind :: string
  us_email :: "string option"
  us_password :: "string option"
  us_subject :: "string option"
  us_secret :: "string option"
  us_admin :: bool
  us_created :: go_time
  us_avatar :: string

record user_row =
  ur_id :: string
  ur_kind :: string
  ur_email :: "string option"
  ur_password :: "string option"
  ur_subject :: "string option"
  ur_secret :: "string option"
  ur_admin :: int
  ur_created :: string
  ur_avatar :: string

definition boolToInt :: "bool \<Rightarrow> int" where
  "boolToInt b = (if b then 1 else 0)"

definition scanUser :: "user_row \<Rightarrow> user" where
  "scanUser r = \<lparr>us_id = ur_id r, us_kind = ur_kind r, us_email = ur_email r, us_password = ur_password r,
     us_subject = ur_subject r, us_secret = ur_secret r, us_admin = (ur_admin r \<noteq> 0),
     us_created = parseTime (ur_created r), us_avatar = ur_avatar r\<rparr>"

definition user_values :: "user \<Rightarrow> user_row" where
  "user_values u = \<lparr>ur_id = us_id u, ur_kind = us_kind u, ur_email = us_email u, ur_password = us_password u,
     ur_subject = us_subject u, ur_secret = us_secret u, ur_admin = boolToInt (us_admin u),
     ur_created = stamp (us_created u), ur_avatar = us_avatar u\<rparr>"

text \<open>A unique index over a nullable column: only two values conflict.\<close>

definition same_value :: "string option \<Rightarrow> string option \<Rightarrow> bool" where
  "same_value a b \<longleftrightarrow> a \<noteq> None \<and> a = b"

definition user_clash :: "user_row \<Rightarrow> user_row \<Rightarrow> bool" where
  "user_clash r q \<longleftrightarrow> ur_id r = ur_id q \<or> same_value (ur_email r) (ur_email q) \<or>
     same_value (ur_subject r) (ur_subject q) \<or> same_value (ur_secret r) (ur_secret q)"

definition user_kinds :: "string list" where
  "user_kinds = [''password'', ''oidc'', ''secret'']"

definition insert_user :: "user \<Rightarrow> user_row list \<Rightarrow> go_error option \<times> user_row list" where
  "insert_user u rows =
     (if us_kind u \<notin> set user_kinds \<or> list_ex (user_clash (user_values u)) rows
      then (Some (wrapf ''create user: '' constraint_failed), rows)
      else (None, rows @ [user_values u]))"

definition with_created :: "go_time \<Rightarrow> user \<Rightarrow> user" where
  "with_created now u = (if time_is_zero (us_created u) then u\<lparr>us_created := now\<rparr> else u)"

text \<open>Both inserts also fill in fields of the caller's user (\<^verbatim>\<open>CreatedAt\<close>, \<^verbatim>\<open>IsAdmin\<close>), so they return it.\<close>

definition CreateUser :: "go_time \<Rightarrow> user \<Rightarrow> user_row list \<Rightarrow> (go_error option \<times> user) \<times> user_row list" where
  "CreateUser now u rows =
     (let u = with_created now u in
      case insert_user u rows of (e, rows') \<Rightarrow> ((e, u), rows'))"

definition CreateUserBootstrapAdmin ::
  "go_time \<Rightarrow> user \<Rightarrow> user_row list \<Rightarrow> (go_error option \<times> user) \<times> user_row list" where
  "CreateUserBootstrapAdmin now u rows =
     (let u = with_created now u;
          count = length rows;
          u = u\<lparr>us_admin := (count = 0)\<rparr>
      in case insert_user u rows of (e, rows') \<Rightarrow> ((e, u), rows'))"

definition userBy :: "(user_row \<Rightarrow> bool) \<Rightarrow> user_row list \<Rightarrow> user result" where
  "userBy p rows = (case select_one p rows of Inl e \<Rightarrow> Inl e | Inr r \<Rightarrow> Inr (scanUser r))"

definition UserByID :: "string \<Rightarrow> user_row list \<Rightarrow> user result" where
  "UserByID uid = userBy (\<lambda>r. ur_id r = uid)"

definition UserByEmail :: "string \<Rightarrow> user_row list \<Rightarrow> user result" where
  "UserByEmail email = userBy (\<lambda>r. ur_email r = Some email)"

definition UserByOIDCSubject :: "string \<Rightarrow> user_row list \<Rightarrow> user result" where
  "UserByOIDCSubject subject = userBy (\<lambda>r. ur_subject r = Some subject)"

definition UpdateUserAvatarAndAdmin :: "string \<Rightarrow> string \<Rightarrow> bool \<Rightarrow> user_row list \<Rightarrow> user_row list" where
  "UpdateUserAvatarAndAdmin uid avatar admin rows =
     snd (update_where (\<lambda>r. ur_id r = uid) (\<lambda>r. r\<lparr>ur_avatar := avatar, ur_admin := boolToInt admin\<rparr>) rows)"

definition UpdateUserPassword :: "string \<Rightarrow> string \<Rightarrow> user_row list \<Rightarrow> go_error option \<times> user_row list" where
  "UpdateUserPassword uid hash rows =
     (case update_where (\<lambda>r. ur_id r = uid) (\<lambda>r. r\<lparr>ur_password := Some hash\<rparr>) rows of
        (n, rows') \<Rightarrow> (checkAffected n, rows'))"


section \<open>Sessions\<close>

record session =
  se_id :: string
  se_user :: string
  se_created :: go_time
  se_expires :: go_time

record session_row =
  sr_id :: string
  sr_user :: string
  sr_created :: string
  sr_expires :: string

definition CreateSession :: "go_time \<Rightarrow> session \<Rightarrow> session_row list \<Rightarrow> go_error option \<times> session_row list" where
  "CreateSession now se rows =
     (if list_ex (\<lambda>r. sr_id r = se_id se) rows
      then (Some (wrapf ''create session: '' constraint_failed), rows)
      else (None, rows @ [\<lparr>sr_id = se_id se, sr_user = se_user se,
              sr_created = stamp (if time_is_zero (se_created se) then now else se_created se),
              sr_expires = stamp (se_expires se)\<rparr>]))"

definition SessionByID :: "string \<Rightarrow> session_row list \<Rightarrow> session result" where
  "SessionByID sid rows =
     (case select_one (\<lambda>r. sr_id r = sid) rows of
        Inl e \<Rightarrow> Inl e
      | Inr r \<Rightarrow> Inr \<lparr>se_id = sr_id r, se_user = sr_user r, se_created = parseTime (sr_created r),
                      se_expires = parseTime (sr_expires r)\<rparr>)"

definition DeleteSession :: "string \<Rightarrow> session_row list \<Rightarrow> session_row list" where
  "DeleteSession sid rows = snd (delete_where (\<lambda>r. sr_id r = sid) rows)"

definition DeleteExpiredSessions :: "go_time \<Rightarrow> session_row list \<Rightarrow> nat \<times> session_row list" where
  "DeleteExpiredSessions now = delete_where (\<lambda>r. sr_expires r \<le> stamp now)"


section \<open>Password resets\<close>

record password_reset =
  pw_hash :: string
  pw_user :: string
  pw_expires :: go_time

record reset_row =
  pr_hash :: string
  pr_user :: string
  pr_expires :: string

definition CreatePasswordReset :: "password_reset \<Rightarrow> reset_row list \<Rightarrow> go_error option \<times> reset_row list" where
  "CreatePasswordReset p rows =
     (if list_ex (\<lambda>r. pr_hash r = pw_hash p) rows
      then (Some (wrapf ''create password reset: '' constraint_failed), rows)
      else (None, rows @ [\<lparr>pr_hash = pw_hash p, pr_user = pw_user p, pr_expires = stamp (pw_expires p)\<rparr>]))"

definition PasswordResetByTokenHash :: "string \<Rightarrow> reset_row list \<Rightarrow> password_reset result" where
  "PasswordResetByTokenHash h rows =
     (case select_one (\<lambda>r. pr_hash r = h) rows of
        Inl e \<Rightarrow> Inl e
      | Inr r \<Rightarrow> Inr \<lparr>pw_hash = pr_hash r, pw_user = pr_user r, pw_expires = parseTime (pr_expires r)\<rparr>)"

definition DeletePasswordReset :: "string \<Rightarrow> reset_row list \<Rightarrow> reset_row list" where
  "DeletePasswordReset h rows = snd (delete_where (\<lambda>r. pr_hash r = h) rows)"

definition DeleteExpiredPasswordResets :: "go_time \<Rightarrow> reset_row list \<Rightarrow> nat \<times> reset_row list" where
  "DeleteExpiredPasswordResets now = delete_where (\<lambda>r. pr_expires r \<le> stamp now)"


section \<open>The audit log\<close>

record audit_entry =
  ae_id :: int
  ae_user :: string
  ae_email :: string
  ae_action :: string
  ae_target :: string
  ae_detail :: string
  ae_created :: go_time

record audit_row =
  ar_id :: int
  ar_user :: string
  ar_email :: string
  ar_action :: string
  ar_target :: string
  ar_detail :: string
  ar_created :: string

text \<open>\<^verbatim>\<open>AUTOINCREMENT\<close>: one more than the largest id there ever was; rows are only added.\<close>

definition AddAuditEntry :: "go_time \<Rightarrow> audit_entry \<Rightarrow> audit_row list \<Rightarrow> audit_row list" where
  "AddAuditEntry now e rows =
     rows @ [\<lparr>ar_id = int (length rows) + 1, ar_user = ae_user e, ar_email = ae_email e,
       ar_action = ae_action e, ar_target = ae_target e, ar_detail = ae_detail e,
       ar_created = stamp (if time_is_zero (ae_created e) then now else ae_created e)\<rparr>]"

definition scan_audit :: "audit_row \<Rightarrow> audit_entry" where
  "scan_audit r = \<lparr>ae_id = ar_id r, ae_user = ar_user r, ae_email = ar_email r, ae_action = ar_action r,
     ae_target = ar_target r, ae_detail = ar_detail r, ae_created = parseTime (ar_created r)\<rparr>"

definition ListAuditEntries :: "int \<Rightarrow> audit_row list \<Rightarrow> audit_entry list" where
  "ListAuditEntries limit rows =
     (let limit = (if limit \<le> 0 \<or> limit > 1000 then 200 else limit)
      in map scan_audit (take (nat limit) (rev (sort_key ar_id rows))))"

text \<open>\<^verbatim>\<open>audit.Logger.Record\<close>: nothing for an anonymous request, otherwise an entry with the user's
  email.\<close>

definition Record :: "go_time \<Rightarrow> user option \<Rightarrow> string \<Rightarrow> string \<Rightarrow> string \<Rightarrow> audit_row list \<Rightarrow> audit_row list" where
  "Record now u action target detail rows =
     (case u of
        None \<Rightarrow> rows
      | Some u \<Rightarrow> AddAuditEntry now \<lparr>ae_id = 0, ae_user = us_id u,
          ae_email = (case us_email u of None \<Rightarrow> [] | Some e \<Rightarrow> e), ae_action = action, ae_target = target,
          ae_detail = detail, ae_created = 0\<rparr> rows)"


section \<open>Accounts stay apart\<close>

inductive users_step :: "user_row list \<Rightarrow> user_row list \<Rightarrow> bool" where
  step_create: "CreateUser now u rows = (r, rows') \<Longrightarrow> users_step rows rows'"
| step_bootstrap: "CreateUserBootstrapAdmin now u rows = (r, rows') \<Longrightarrow> users_step rows rows'"
| step_avatar: "users_step rows (UpdateUserAvatarAndAdmin uid avatar admin rows)"
| step_password: "UpdateUserPassword uid hash rows = (r, rows') \<Longrightarrow> users_step rows rows'"

inductive users_reachable :: "user_row list \<Rightarrow> bool" where
  users_none: "users_reachable []"
| users_more: "users_reachable rows \<Longrightarrow> users_step rows rows' \<Longrightarrow> users_reachable rows'"

definition users_apart :: "user_row list \<Rightarrow> bool" where
  "users_apart rows \<longleftrightarrow> sorted_wrt (\<lambda>r q. \<not> user_clash r q) rows \<and>
     list_all (\<lambda>r. ur_kind r \<in> set user_kinds) rows"

lemma same_value_sym: "same_value a b = same_value b a"
  by (auto simp: same_value_def)

lemma user_clash_sym: "user_clash r q \<longleftrightarrow> user_clash q r"
  unfolding user_clash_def by (auto simp: same_value_sym)

lemma insert_user_apart: "users_apart rows \<Longrightarrow> users_apart (snd (insert_user u rows))"
  by (auto simp: users_apart_def insert_user_def sorted_wrt_append list_ex_iff user_clash_sym
      user_values_def [of u])

lemma users_apart_map:
  assumes "\<And>r. ur_id (f r) = ur_id r \<and> ur_email (f r) = ur_email r \<and> ur_subject (f r) = ur_subject r \<and>
      ur_secret (f r) = ur_secret r \<and> ur_kind (f r) = ur_kind r"
  shows "users_apart (map f rows) = users_apart rows"
  using assms by (simp add: users_apart_def sorted_wrt_map user_clash_def list_all_iff)

lemma users_step_apart: "users_step rows rows' \<Longrightarrow> users_apart rows \<Longrightarrow> users_apart rows'"
proof (induction rule: users_step.induct)
  case (step_create now u rows r rows')
  then show ?case
    using insert_user_apart [of rows "with_created now u"]
    by (auto simp: CreateUser_def Let_def split: prod.splits)
next
  case (step_bootstrap now u rows r rows')
  then show ?case
    using insert_user_apart [of rows "(with_created now u)\<lparr>us_admin := (length rows = 0)\<rparr>"]
    by (auto simp: CreateUserBootstrapAdmin_def Let_def split: prod.splits)
next
  case (step_avatar rows uid avatar admin)
  then show ?case by (auto simp: UpdateUserAvatarAndAdmin_def update_where_def users_apart_map)
next
  case (step_password uid hash rows r rows')
  then show ?case
    by (auto simp: UpdateUserPassword_def update_where_def users_apart_map split: prod.splits)
qed

lemma sorted_wrt_clash: "users_apart rows \<Longrightarrow> r \<in> set rows \<Longrightarrow> q \<in> set rows \<Longrightarrow> user_clash r q \<Longrightarrow> r = q"
  unfolding users_apart_def
  by (induction rows) (auto simp: user_clash_sym)

lemma users_reachable_apart: "users_reachable rows \<Longrightarrow> users_apart rows"
proof (induction rule: users_reachable.induct)
  case users_none
  show ?case by (simp add: users_apart_def)
next
  case (users_more rows rows')
  then show ?case by (blast intro: users_step_apart)
qed

text \<open>An account is identified by its id, its email, its OIDC subject and its secret alike: in a
  reachable table no two accounts share one of them, and every account has one of the three kinds.\<close>

theorem user_identities_unique:
  assumes "users_reachable rows" and "r \<in> set rows" and "q \<in> set rows" and "user_clash r q"
  shows "r = q \<and> ur_kind r \<in> {''password'', ''oidc'', ''secret''}"
  using sorted_wrt_clash [OF users_reachable_apart [OF assms(1)] assms(2-4)]
    users_reachable_apart [OF assms(1)] assms(2)
  by (auto simp: users_apart_def list_all_iff user_kinds_def)


section \<open>The first account is the admin\<close>

text \<open>The ways accounts come to be without group rules: registration and OIDC sign-up
  (\<^verbatim>\<open>CreateUserBootstrapAdmin\<close>), anonymous visitors (\<^verbatim>\<open>CreateUser\<close> of a user that is no admin), password
  changes.\<close>

inductive accounts :: "user_row list \<Rightarrow> bool" where
  accounts_none: "accounts []"
| accounts_register: "accounts rows \<Longrightarrow> CreateUserBootstrapAdmin now u rows = (r, rows') \<Longrightarrow> accounts rows'"
| accounts_anonymous: "accounts rows \<Longrightarrow> \<not> us_admin u \<Longrightarrow> CreateUser now u rows = (r, rows') \<Longrightarrow> accounts rows'"
| accounts_password: "accounts rows \<Longrightarrow> UpdateUserPassword uid hash rows = (r, rows') \<Longrightarrow> accounts rows'"

lemma insert_user_cases:
  obtains e where "insert_user u rows = (Some e, rows)"
  | "insert_user u rows = (None, rows @ [user_values u])"
  by (cases "us_kind u \<notin> set user_kinds \<or> list_ex (user_clash (user_values u)) rows")
    (simp_all only: insert_user_def if_True if_False simp_thms)

lemma with_created_admin [simp]: "us_admin (with_created now u) = us_admin u"
  by (simp add: with_created_def)

lemma user_values_admin [simp]: "ur_admin (user_values u) = boolToInt (us_admin u)"
  by (simp add: user_values_def)

lemma tl_snoc: "tl (xs @ [x]) = (if xs = [] then [] else tl xs @ [x])"
  by simp

lemma accounts_admin: "accounts rows \<Longrightarrow> list_all (\<lambda>r. ur_admin r = 0) (tl rows)"
proof (induction rule: accounts.induct)
  case (accounts_register rows now u r rows')
  then show ?case
    by (cases rule: insert_user_cases [of "(with_created now u)\<lparr>us_admin := (length rows = 0)\<rparr>" rows])
      (auto simp: CreateUserBootstrapAdmin_def Let_def tl_snoc boolToInt_def)
next
  case (accounts_anonymous rows u now r rows')
  then show ?case
    by (cases rule: insert_user_cases [of "with_created now u" rows])
      (auto simp: CreateUser_def Let_def tl_snoc boolToInt_def)
next
  case (accounts_password rows uid hash r rows')
  then show ?case
    by (auto simp: UpdateUserPassword_def update_where_def list_all_iff simp flip: map_tl)
qed simp

text \<open>Without group rules there is at most one admin, the oldest account: no later account is ever
  an admin, and a registration makes one exactly when the table is empty, so none at all once an
  anonymous visitor came first.\<close>

theorem only_first_account_admin:
  assumes "accounts rows" and "CreateUserBootstrapAdmin now u rows = ((e, u'), rows')"
  shows "list_all (\<lambda>r. ur_admin r = 0) (tl rows') \<and> (us_admin u' \<longleftrightarrow> rows = []) \<and>
    (e = None \<longrightarrow> rows' = rows @ [user_values u'])"
  using accounts_admin [OF accounts_register [OF assms]] assms(2)
  by (cases rule: insert_user_cases [of "(with_created now u)\<lparr>us_admin := (length rows = 0)\<rparr>" rows])
    (auto simp: CreateUserBootstrapAdmin_def Let_def)


section \<open>Concrete inputs\<close>

definition sample_user :: "string \<Rightarrow> string \<Rightarrow> user" where
  "sample_user uid email = \<lparr>us_id = uid, us_kind = ''password'', us_email = Some email, us_password = Some ''h'',
     us_subject = None, us_secret = None, us_admin = False, us_created = 0, us_avatar = []\<rparr>"

definition sample_users :: "user_row list" where
  "sample_users = [user_values (sample_user ''u1'' ''a@x''\<lparr>us_admin := True, us_created := 5\<rparr>)]"

lemma sample_users_created:
  "CreateUserBootstrapAdmin 5 (sample_user ''u1'' ''a@x'') [] =
     ((None, sample_user ''u1'' ''a@x''\<lparr>us_admin := True, us_created := 5\<rparr>), sample_users)"
  by (simp add: CreateUserBootstrapAdmin_def with_created_def time_is_zero_def insert_user_def user_kinds_def
      sample_users_def sample_user_def Let_def)

lemma sample_users_accounts: "accounts sample_users"
  using accounts_register [OF accounts_none sample_users_created] .

lemma user_identities_unique_witness:
  "hd sample_users = hd sample_users \<and> ur_kind (hd sample_users) \<in> {''password'', ''oidc'', ''secret''}"
  using user_identities_unique [OF users_more [OF users_none step_bootstrap [OF sample_users_created]],
      of "hd sample_users" "hd sample_users"]
  by (simp add: sample_users_def user_clash_def)

lemma only_first_account_admin_witness:
  "\<not> us_admin (snd (fst (CreateUserBootstrapAdmin 9 (sample_user ''u2'' ''b@x'') sample_users)))"
  using only_first_account_admin [OF sample_users_accounts, of 9 "sample_user ''u2'' ''b@x''"]
  by (cases "CreateUserBootstrapAdmin 9 (sample_user ''u2'' ''b@x'') sample_users")
    (auto simp: sample_users_def)

end
