(* ===== verification/Config.thy ===== *)
theory Config
  imports Go_URL Go_Time
begin

text \<open>
  \<^verbatim>\<open>internal/config/config.go\<close>: reading the environment and validating the result. The environment
  is a function (an unset variable reads as the empty string, as \<^verbatim>\<open>os.Getenv\<close> does).
  \<^verbatim>\<open>time.ParseDuration\<close>, whose fractions go through floating point, and the Unicode part of
  \<^verbatim>\<open>strings.ToLower\<close> are the parameters \<open>parse_lib\<close>.
\<close>


section \<open>The configuration\<close>

definition AccessPublic :: string where "AccessPublic = ''public''"
definition AccessAuth :: string where "AccessAuth = ''auth''"
definition AccessBoth :: string where "AccessBoth = ''both''"
definition SMTPStartTLS :: string where "SMTPStartTLS = ''starttls''"
definition SMTPTLS :: string where "SMTPTLS = ''tls''"
definition SMTPNone :: string where "SMTPNone = ''none''"

datatype log_level = LevelDebug | LevelInfo | LevelWarn | LevelError

record oidc_config =
  oc_issuer :: string
  oc_client_id :: string
  oc_client_secret :: string
  oc_scopes :: "string list"
  oc_display_name :: string
  oc_admin_groups :: "string list"
  oc_user_groups :: "string list"
  oc_group_claim :: string
  oc_only :: bool
  oc_post_logout :: string

record smtp_config =
  sm_host :: string
  sm_port :: int
  sm_username :: string
  sm_password :: string
  sm_from :: string
  sm_encryption :: string

record config =
  cg_secret_key :: string
  cg_base_url :: string
  cg_db_path :: string
  cg_listen_addr :: string
  cg_log_level :: log_level
  cg_access_mode :: string
  cg_allow_registration :: bool
  cg_allow_private :: bool
  cg_notify_interval :: go_duration
  cg_sync_tick :: go_duration
  cg_accent_color :: string
  cg_background :: bool
  cg_oidc :: oidc_config
  cg_smtp :: smtp_config

definition oidc_enabled :: "oidc_config \<Rightarrow> bool" where
  "oidc_enabled oc \<longleftrightarrow> oc_issuer oc \<noteq> [] \<and> oc_client_id oc \<noteq> []"

definition smtp_enabled :: "smtp_config \<Rightarrow> bool" where
  "smtp_enabled sm \<longleftrightarrow> sm_host sm \<noteq> []"


section \<open>Reading the environment\<close>

type_synonym environment = "string \<Rightarrow> string"

record parse_lib =
  pl_duration :: "string \<Rightarrow> go_duration option"
  pl_lower :: "string \<Rightarrow> string"

definition to_lower :: "parse_lib \<Rightarrow> string \<Rightarrow> string" where
  "to_lower pl = go_to_lower (pl_lower pl)"

definition envDefault :: "environment \<Rightarrow> string \<Rightarrow> string \<Rightarrow> string" where
  "envDefault env key def = (if env key \<noteq> [] then env key else def)"

text \<open>\<^verbatim>\<open>strconv.ParseBool\<close> and \<^verbatim>\<open>strconv.Atoi\<close>.\<close>

definition parse_bool :: "string \<Rightarrow> bool option" where
  "parse_bool s =
     (if s \<in> set [''1'', ''t'', ''T'', ''true'', ''TRUE'', ''True''] then Some True
      else if s \<in> set [''0'', ''f'', ''F'', ''false'', ''FALSE'', ''False''] then Some False
      else None)"

definition atoi_digits :: "string \<Rightarrow> int option" where
  "atoi_digits s = (if s \<noteq> [] \<and> list_all is_digit s then Some (int (digits_val s)) else None)"

definition atoi :: "string \<Rightarrow> int option" where
  "atoi s =
     (case (case s of
              CHR ''-'' # t \<Rightarrow> map_option uminus (atoi_digits t)
            | CHR ''+'' # t \<Rightarrow> atoi_digits t
            | _ \<Rightarrow> atoi_digits s) of
        None \<Rightarrow> None
      | Some n \<Rightarrow> if in_int64 n then Some n else None)"

definition envBool :: "environment \<Rightarrow> string \<Rightarrow> bool \<Rightarrow> bool" where
  "envBool env key def =
     (let v = env key in
      if v = [] then def else case parse_bool v of None \<Rightarrow> def | Some b \<Rightarrow> b)"

definition envInt :: "environment \<Rightarrow> string \<Rightarrow> int \<Rightarrow> int" where
  "envInt env key def =
     (let v = env key in
      if v = [] then def else case atoi v of None \<Rightarrow> def | Some n \<Rightarrow> n)"

definition envDuration :: "parse_lib \<Rightarrow> environment \<Rightarrow> string \<Rightarrow> go_duration \<Rightarrow> go_duration" where
  "envDuration pl env key def =
     (let v = env key in
      if v = [] then def
      else case pl_duration pl v of None \<Rightarrow> def | Some d \<Rightarrow> if d \<le> 0 then def else d)"

text \<open>\<^verbatim>\<open>strings.Fields\<close>: the maximal runs without white space; the accumulator is the current run.\<close>

fun fields_from :: "string \<Rightarrow> nat \<Rightarrow> string \<Rightarrow> string list" where
  "fields_from cur skip [] = (if cur = [] then [] else [rev cur])"
| "fields_from cur (Suc n) (c # s) = fields_from cur n s"
| "fields_from cur 0 (c # s) =
     (case leading_space space_runes (c # s) of
        None \<Rightarrow> fields_from (c # cur) 0 s
      | Some r \<Rightarrow> (if cur = [] then [] else [rev cur]) @ fields_from [] (length r - 1) s)"

definition go_fields :: "string \<Rightarrow> string list" where
  "go_fields s = fields_from [] 0 s"

definition envFields :: "environment \<Rightarrow> string \<Rightarrow> string list \<Rightarrow> string list" where
  "envFields env key def =
     (let v = go_trim_space (env key) in if v = [] then def else go_fields v)"

definition envComma :: "environment \<Rightarrow> string \<Rightarrow> string list" where
  "envComma env key =
     (let v = go_trim_space (env key) in
      if v = [] then []
      else filter (\<lambda>s. s \<noteq> []) (map go_trim_space (split_char CHR '','' v)))"

definition envHexColor :: "parse_lib \<Rightarrow> environment \<Rightarrow> string \<Rightarrow> string" where
  "envHexColor pl env key =
     (let v = go_trim_space (env key) in
      if v = [] then []
      else let v = (if \<not> has_prefix v ''#'' then ''#'' @ v else v)
           in if length v \<noteq> 4 \<and> length v \<noteq> 7 then [] else to_lower pl v)"

definition parseLogLevel :: "parse_lib \<Rightarrow> string \<Rightarrow> log_level result" where
  "parseLogLevel pl s =
     (let l = to_lower pl s in
      if l = ''debug'' then Inr LevelDebug
      else if l = ''info'' then Inr LevelInfo
      else if l = ''warn'' \<or> l = ''warning'' then Inr LevelWarn
      else if l = ''error'' then Inr LevelError
      else Inl (ErrMsg [Lit ''TIDYDAV_LOG_LEVEL must be debug, info, warn or error, got '', Quo s]))"


section \<open>Loading\<close>

definition absolute_url :: "string \<Rightarrow> bool" where
  "absolute_url s = (case url_parse s of None \<Rightarrow> False | Some u \<Rightarrow> url_scheme u \<noteq> [] \<and> url_host u \<noteq> [])"

definition validate :: "config \<Rightarrow> go_error option" where
  "validate c =
     (if cg_secret_key c = [] then Some (ErrNew ''TIDYDAV_SECRET_KEY is required'')
      else if cg_base_url c = [] then Some (ErrNew ''TIDYDAV_BASE_URL is required'')
      else if \<not> absolute_url (cg_base_url c) then
        Some (ErrMsg [Lit ''TIDYDAV_BASE_URL must be an absolute URL (e.g. https://dav.example.com), got '',
          Quo (cg_base_url c)])
      else if cg_access_mode c \<notin> {AccessPublic, AccessAuth, AccessBoth} then
        Some (ErrMsg [Lit ''TIDYDAV_ACCESS_MODE must be public, auth or both, got '', Quo (cg_access_mode c)])
      else if sm_encryption (cg_smtp c) \<notin> {SMTPStartTLS, SMTPTLS, SMTPNone} then
        Some (ErrMsg [Lit ''TIDYDAV_SMTP_ENCRYPTION must be starttls, tls or none, got '',
          Quo (sm_encryption (cg_smtp c))])
      else if oc_only (cg_oidc c) \<and> \<not> oidc_enabled (cg_oidc c) then
        Some (ErrNew ''TIDYDAV_OIDC_ONLY requires TIDYDAV_OIDC_ISSUER_URL and TIDYDAV_OIDC_CLIENT_ID'')
      else None)"

definition load_oidc :: "environment \<Rightarrow> oidc_config" where
  "load_oidc env = \<lparr>
     oc_issuer = trim_right_char CHR ''/'' (env ''TIDYDAV_OIDC_ISSUER_URL''),
     oc_client_id = env ''TIDYDAV_OIDC_CLIENT_ID'',
     oc_client_secret = env ''TIDYDAV_OIDC_CLIENT_SECRET'',
     oc_scopes = envFields env ''TIDYDAV_OIDC_SCOPES'' [''openid'', ''profile'', ''email''],
     oc_display_name = envDefault env ''TIDYDAV_OIDC_DISPLAY_NAME'' ''SSO'',
     oc_admin_groups = envComma env ''TIDYDAV_OIDC_ADMIN_GROUPS'',
     oc_user_groups = envComma env ''TIDYDAV_OIDC_USER_GROUPS'',
     oc_group_claim = envDefault env ''TIDYDAV_OIDC_GROUP_CLAIM'' ''groups'',
     oc_only = envBool env ''TIDYDAV_OIDC_ONLY'' False,
     oc_post_logout = go_trim_space (env ''TIDYDAV_OIDC_POST_LOGOUT_REDIRECT_URI'')\<rparr>"

definition load_smtp :: "parse_lib \<Rightarrow> environment \<Rightarrow> smtp_config" where
  "load_smtp pl env = \<lparr>
     sm_host = env ''TIDYDAV_SMTP_HOST'',
     sm_port = envInt env ''TIDYDAV_SMTP_PORT'' 587,
     sm_username = env ''TIDYDAV_SMTP_USERNAME'',
     sm_password = env ''TIDYDAV_SMTP_PASSWORD'',
     sm_from = env ''TIDYDAV_SMTP_FROM'',
     sm_encryption = to_lower pl (envDefault env ''TIDYDAV_SMTP_ENCRYPTION'' SMTPStartTLS)\<rparr>"

definition Load :: "parse_lib \<Rightarrow> environment \<Rightarrow> config result" where
  "Load pl env =
     (case parseLogLevel pl (envDefault env ''TIDYDAV_LOG_LEVEL'' ''info'') of
        Inl e \<Rightarrow> Inl e
      | Inr level \<Rightarrow>
          (let cfg = \<lparr>
             cg_secret_key = env ''TIDYDAV_SECRET_KEY'',
             cg_base_url = trim_right_char CHR ''/'' (env ''TIDYDAV_BASE_URL''),
             cg_db_path = envDefault env ''TIDYDAV_DB_PATH'' ''/data/tidydav.db'',
             cg_listen_addr = envDefault env ''TIDYDAV_LISTEN_ADDR'' '':8080'',
             cg_log_level = level,
             cg_access_mode = to_lower pl (envDefault env ''TIDYDAV_ACCESS_MODE'' AccessAuth),
             cg_allow_registration = envBool env ''TIDYDAV_ALLOW_REGISTRATION'' True,
             cg_allow_private = envBool env ''TIDYDAV_ALLOW_PRIVATE_TARGETS'' True,
             cg_notify_interval = envDuration pl env ''TIDYDAV_NOTIFY_INTERVAL'' (15 * minute),
             cg_sync_tick = envDuration pl env ''TIDYDAV_SYNC_TICK'' minute,
             cg_accent_color = envHexColor pl env ''TIDYDAV_ACCENT_COLOR'',
             cg_background = envBool env ''TIDYDAV_BACKGROUND_ANIMATION'' True,
             cg_oidc = load_oidc env,
             cg_smtp = load_smtp pl env\<rparr>
           in case validate cfg of Some e \<Rightarrow> Inl e | None \<Rightarrow> Inr cfg))"


section \<open>Facts\<close>

lemma envDuration_pos: "0 < def \<Longrightarrow> 0 < envDuration pl env key def"
  by (auto simp: envDuration_def Let_def split: option.split)

lemma envComma_trimmed: "[] \<notin> set (envComma env key)"
  by (auto simp: envComma_def Let_def)

lemma envInt_in: "in_int64 def \<Longrightarrow> in_int64 (envInt env key def)"
  by (auto simp: envInt_def Let_def atoi_def split: option.splits if_splits)

lemma trim_right_char_end: "trim_right_char c s \<noteq> [] \<Longrightarrow> last (trim_right_char c s) \<noteq> c"
  using hd_dropWhile [of "\<lambda>x. x = c" "rev s"] by (simp add: trim_right_char_def last_rev)

lemma validate_ok:
  "validate c = None \<longleftrightarrow>
     cg_secret_key c \<noteq> [] \<and> cg_base_url c \<noteq> [] \<and> absolute_url (cg_base_url c) \<and>
     cg_access_mode c \<in> {AccessPublic, AccessAuth, AccessBoth} \<and>
     sm_encryption (cg_smtp c) \<in> {SMTPStartTLS, SMTPTLS, SMTPNone} \<and>
     (oc_only (cg_oidc c) \<longrightarrow> oidc_enabled (cg_oidc c))"
  by (simp add: validate_def)

lemma Load_cases:
  assumes "Load pl env = Inr c"
  shows "validate c = None \<and> cg_base_url c = trim_right_char CHR ''/'' (env ''TIDYDAV_BASE_URL'') \<and>
    cg_notify_interval c = envDuration pl env ''TIDYDAV_NOTIFY_INTERVAL'' (15 * minute) \<and>
    cg_sync_tick c = envDuration pl env ''TIDYDAV_SYNC_TICK'' minute \<and>
    cg_oidc c = load_oidc env \<and> cg_smtp c = load_smtp pl env"
  using assms by (auto simp: Load_def Let_def split: sum.splits option.splits)

text \<open>The accent colour is only measured, not read: any three or six characters pass for a colour.\<close>

lemma accent_color_not_hex: "envHexColor pl (\<lambda>_. ''no!'') key = ''#no!''"
proof -
  have "go_trim_space ''no!'' = ''no!''"
    by (rule go_trim_space_plain) (simp_all add: starts_plain_def plain_char_def)
  then show ?thesis
    by (simp add: envHexColor_def has_prefix_def to_lower_def go_to_lower_def is_ascii_def lower_char_def)
qed

lemma load_smtp_port: "in_int64 (sm_port (load_smtp pl env))"
  using envInt_in [of 587] by (simp add: load_smtp_def in_int64_def)

lemma load_oidc_groups:
  "[] \<notin> set (oc_admin_groups (load_oidc env)) \<union> set (oc_user_groups (load_oidc env))"
  by (simp add: load_oidc_def envComma_trimmed)

text \<open>A configuration that loads is usable everywhere: the secret is set, the base URL is absolute
  and has no trailing slash, access mode and mail encryption are known values, the two timers are
  positive, the mail port fits an \<^verbatim>\<open>int\<close>, no group name is empty, and a login restricted to OIDC has a
  provider.\<close>

theorem Load_valid:
  assumes "Load pl env = Inr c"
  shows "cg_secret_key c \<noteq> [] \<and> absolute_url (cg_base_url c) \<and> last (cg_base_url c) \<noteq> CHR ''/'' \<and>
    cg_access_mode c \<in> {AccessPublic, AccessAuth, AccessBoth} \<and>
    sm_encryption (cg_smtp c) \<in> {SMTPStartTLS, SMTPTLS, SMTPNone} \<and>
    0 < cg_notify_interval c \<and> 0 < cg_sync_tick c \<and> in_int64 (sm_port (cg_smtp c)) \<and>
    [] \<notin> set (oc_admin_groups (cg_oidc c)) \<union> set (oc_user_groups (cg_oidc c)) \<and>
    (oc_only (cg_oidc c) \<longrightarrow> oidc_enabled (cg_oidc c))"
proof -
  note L = Load_cases [OF assms]
  have base: "cg_base_url c \<noteq> []" using L unfolding validate_ok by blast
  have "last (cg_base_url c) \<noteq> CHR ''/''" using L base trim_right_char_end by metis
  moreover have "in_int64 (sm_port (cg_smtp c))" using L load_smtp_port by simp
  moreover have "[] \<notin> set (oc_admin_groups (cg_oidc c)) \<union> set (oc_user_groups (cg_oidc c))"
    using L load_oidc_groups by simp
  moreover have "0 < cg_notify_interval c" "0 < cg_sync_tick c" using L by (simp_all add: envDuration_pos)
  ultimately show ?thesis using L unfolding validate_ok by blast
qed


section \<open>Concrete inputs\<close>

definition sample_env :: environment where
  "sample_env key = (if key = ''TIDYDAV_SECRET_KEY'' then ''k''
     else if key = ''TIDYDAV_BASE_URL'' then ''https://dav.example.com/'' else [])"

definition sample_parse :: parse_lib where
  "sample_parse = \<lparr>pl_duration = (\<lambda>_. None), pl_lower = (\<lambda>s. s)\<rparr>"

lemma sample_absolute: "absolute_url ''https://dav.example.com''"
  by code_simp

lemma sample_env_loads: "case Load sample_parse sample_env of Inl _ \<Rightarrow> False | Inr c \<Rightarrow> cg_base_url c = ''https://dav.example.com''"
proof -
  have base: "trim_right_char CHR ''/'' (sample_env ''TIDYDAV_BASE_URL'') = ''https://dav.example.com''"
    by (simp add: sample_env_def trim_right_char_def)
  have other: "sample_env ''TIDYDAV_SECRET_KEY'' = ''k''"
    "key \<noteq> ''TIDYDAV_SECRET_KEY'' \<Longrightarrow> key \<noteq> ''TIDYDAV_BASE_URL'' \<Longrightarrow> sample_env key = []" for key
    by (simp_all add: sample_env_def)
  have lower: "to_lower sample_parse s = map lower_char s" if "list_all is_ascii s" for s
    using that by (simp add: to_lower_def go_to_lower_def)
  have "to_lower sample_parse ''info'' = ''info''" "to_lower sample_parse ''auth'' = ''auth''"
    "to_lower sample_parse ''starttls'' = ''starttls''"
    by (simp_all add: lower is_ascii_def lower_char_def)
  then show ?thesis
    by (simp add: Load_def parseLogLevel_def envDefault_def other base validate_def sample_absolute
        AccessAuth_def AccessPublic_def AccessBoth_def SMTPStartTLS_def load_smtp_def load_oidc_def envBool_def)
qed

lemma Load_valid_witness:
  "case Load sample_parse sample_env of Inl _ \<Rightarrow> False | Inr c \<Rightarrow> 0 < cg_sync_tick c \<and> absolute_url (cg_base_url c)"
  using Load_valid [of sample_parse sample_env] sample_env_loads by (auto split: sum.splits)

end
