(* ===== verification/Outbound.thy ===== *)
theory Outbound
  imports Prelude "HOL-Library.Word"
begin

unbundle bit_operations_syntax

text \<open>
  \<^verbatim>\<open>internal/outbound/outbound.go\<close>: the addresses user-configured requests may connect to. A
  \<^verbatim>\<open>net.IP\<close> is its bytes (4 or 16 of them); the resolver, the dialer and \<^verbatim>\<open>net.SplitHostPort\<close> are the
  parameters \<open>dial_env\<close>. The masking of URLs and errors (\<^verbatim>\<open>RedactURL\<close>, \<^verbatim>\<open>RedactError\<close>) is in \<open>Redact\<close>.
\<close>


section \<open>Addresses\<close>

type_synonym ip = "8 word list"

text \<open>The classification of \<^verbatim>\<open>net.IP\<close>; \<open>to4\<close> also recognises an IPv4 address in its 16-byte form.\<close>

definition to4 :: "ip \<Rightarrow> ip option" where
  "to4 ip =
     (if length ip = 4 then Some ip
      else if length ip = 16 \<and> take 12 ip = replicate 10 0 @ [0xff, 0xff] then Some (drop 12 ip)
      else None)"

definition ip_equal :: "ip \<Rightarrow> ip \<Rightarrow> bool" where
  "ip_equal a b =
     (if length a = length b then a = b
      else case (to4 a, to4 b) of (Some x, Some y) \<Rightarrow> x = y | _ \<Rightarrow> False)"

definition IsLoopback :: "ip \<Rightarrow> bool" where
  "IsLoopback ip =
     (case to4 ip of
        Some v \<Rightarrow> v ! 0 = 127
      | None \<Rightarrow> ip_equal ip (replicate 15 0 @ [1]))"

definition IsPrivate :: "ip \<Rightarrow> bool" where
  "IsPrivate ip =
     (case to4 ip of
        Some v \<Rightarrow> v ! 0 = 10 \<or> (v ! 0 = 172 \<and> v ! 1 AND 0xf0 = 16) \<or> (v ! 0 = 192 \<and> v ! 1 = 168)
      | None \<Rightarrow> length ip = 16 \<and> ip ! 0 AND 0xfe = 0xfc)"

definition IsUnspecified :: "ip \<Rightarrow> bool" where
  "IsUnspecified ip \<longleftrightarrow> ip_equal ip (replicate 4 0) \<or> ip_equal ip (replicate 16 0)"

definition IsMulticast :: "ip \<Rightarrow> bool" where
  "IsMulticast ip =
     (case to4 ip of Some v \<Rightarrow> v ! 0 AND 0xf0 = 0xe0 | None \<Rightarrow> length ip = 16 \<and> ip ! 0 = 0xff)"

definition IsLinkLocalMulticast :: "ip \<Rightarrow> bool" where
  "IsLinkLocalMulticast ip =
     (case to4 ip of
        Some v \<Rightarrow> v ! 0 = 224 \<and> v ! 1 = 0 \<and> v ! 2 = 0
      | None \<Rightarrow> length ip = 16 \<and> ip ! 0 = 0xff \<and> ip ! 1 AND 0x0f = 0x02)"

definition IsLinkLocalUnicast :: "ip \<Rightarrow> bool" where
  "IsLinkLocalUnicast ip =
     (case to4 ip of
        Some v \<Rightarrow> v ! 0 = 169 \<and> v ! 1 = 254
      | None \<Rightarrow> length ip = 16 \<and> ip ! 0 = 0xfe \<and> ip ! 1 AND 0xc0 = 0x80)"

text \<open>\<^verbatim>\<open>net.IPNet.Contains\<close> for the network 100.64.0.0/10.\<close>

definition cgnat_contains :: "ip \<Rightarrow> bool" where
  "cgnat_contains ip =
     (let x = (case to4 ip of Some v \<Rightarrow> v | None \<Rightarrow> ip)
      in length x = 4 \<and>
         map2 (\<lambda>a m. a AND m) x [0xff, 0xc0, 0, 0] = map2 (\<lambda>a m. a AND m) [100, 64, 0, 0] [0xff, 0xc0, 0, 0])"

definition IsBlockedIP :: "ip \<Rightarrow> bool" where
  "IsBlockedIP ip \<longleftrightarrow> IsLoopback ip \<or> IsPrivate ip \<or> IsLinkLocalUnicast ip \<or> IsLinkLocalMulticast ip \<or>
     IsUnspecified ip \<or> IsMulticast ip \<or> cgnat_contains ip"


section \<open>Dialing\<close>

record ('w, 'c) dial_env =
  di_split :: "string \<Rightarrow> (string \<times> string) result"
  di_lookup :: "string \<Rightarrow> 'w \<Rightarrow> ip list result \<times> 'w"
  di_text :: "ip \<Rightarrow> string"
  di_dial :: "string \<Rightarrow> ip \<Rightarrow> string \<Rightarrow> 'w \<Rightarrow> 'c result \<times> 'w"

text \<open>The loop over the resolved addresses, then the dial of the first. Indexing an empty list
  panics, which is the result \<open>None\<close>.\<close>

definition DialContext ::
  "('w, 'c) dial_env \<Rightarrow> string \<Rightarrow> string \<Rightarrow> 'w \<Rightarrow> 'c result option \<times> 'w" where
  "DialContext env network addr w =
     (case di_split env addr of
        Inl e \<Rightarrow> (Some (Inl e), w)
      | Inr (host, port) \<Rightarrow>
          (case di_lookup env host w of
             (Inl e, w) \<Rightarrow> (Some (Inl e), w)
           | (Inr ips, w) \<Rightarrow>
               (case List.find IsBlockedIP ips of
                  Some ip \<Rightarrow>
                    (Some (Inl (ErrMsg [Lit (''refusing to connect to non-public address '' @ di_text env ip)])), w)
                | None \<Rightarrow>
                    (case ips of
                       [] \<Rightarrow> (None, w)
                     | ip # _ \<Rightarrow> (case di_dial env network ip port w of (r, w) \<Rightarrow> (Some r, w))))))"

text \<open>\<^verbatim>\<open>Client\<close>: with private targets allowed the default transport dials whatever it resolves.\<close>

definition dial_of :: "('w, 'c) dial_env \<Rightarrow> bool \<Rightarrow> (string \<Rightarrow> string \<Rightarrow> 'w \<Rightarrow> 'c result option \<times> 'w) \<Rightarrow>
    string \<Rightarrow> string \<Rightarrow> 'w \<Rightarrow> 'c result option \<times> 'w" where
  "dial_of env allowPrivate default_dial = (if allowPrivate then default_dial else DialContext env)"


section \<open>What is blocked\<close>

lemma all_bytes:
  fixes x :: "8 word"
  assumes "list_all (\<lambda>n. P (word_of_nat n :: 8 word)) [0..<256]"
  shows "P x"
proof -
  have "unat x < 256" using unsigned_less [of x, where 'a = nat] by simp
  then have "unat x \<in> set [0..<256]" by simp
  then have "P (word_of_nat (unat x))" using assms unfolding list_all_iff by blast
  then show ?thesis by simp
qed

lemma mask_f0: "(x AND 0xf0 = (16 :: 8 word)) = (16 \<le> x \<and> x \<le> 31)"
  by (rule all_bytes [of "\<lambda>x. (x AND 0xf0 = 16) = (16 \<le> x \<and> x \<le> 31)"]) (simp add: upt_rec word_le_nat_alt)

lemma mask_multicast: "(x AND 0xf0 = (0xe0 :: 8 word)) = (224 \<le> x \<and> x \<le> 239)"
  by (rule all_bytes [of "\<lambda>x. (x AND 0xf0 = 0xe0) = (224 \<le> x \<and> x \<le> 239)"]) (simp add: upt_rec word_le_nat_alt)

lemma mask_c0: "(x AND 0xc0 = (64 :: 8 word)) = (64 \<le> x \<and> x \<le> 127)"
  by (rule all_bytes [of "\<lambda>x. (x AND 0xc0 = 64) = (64 \<le> x \<and> x \<le> 127)"]) (simp add: upt_rec word_le_nat_alt)

lemmas byte_masks = mask_f0 mask_multicast mask_c0

text \<open>The 16-byte form of an IPv4 address.\<close>

definition mapped :: "ip \<Rightarrow> ip" where
  "mapped v = replicate 10 0 @ [0xff, 0xff] @ v"

lemma zeros:
  "replicate 4 (0 :: 8 word) = [0, 0, 0, 0]" "replicate 10 (0 :: 8 word) = [0, 0, 0, 0, 0, 0, 0, 0, 0, 0]"
  "replicate 16 (0 :: 8 word) = [0, 0, 0, 0, 0, 0, 0, 0, 0, 0, 0, 0, 0, 0, 0, 0]"
  by (simp_all add: eval_nat_numeral)

lemma to4_simps [simp]: "to4 [a, b, c, d] = Some [a, b, c, d]" "to4 (mapped [a, b, c, d]) = Some [a, b, c, d]"
  by (simp_all add: to4_def mapped_def zeros)

lemma ip_equal_mapped:
  "ip_equal (mapped [a, b, c, d]) [0, 0, 0, 0] = ([a, b, c, d] = [0, 0, 0, 0])"
  "\<not> ip_equal (mapped [a, b, c, d]) [0, 0, 0, 0, 0, 0, 0, 0, 0, 0, 0, 0, 0, 0, 0, 0]"
  "ip_equal [a, b, c, d] [0, 0, 0, 0] = ([a, b, c, d] = [0, 0, 0, 0])"
  "\<not> ip_equal [a, b, c, d] [0, 0, 0, 0, 0, 0, 0, 0, 0, 0, 0, 0, 0, 0, 0, 0]"
  by (simp_all add: ip_equal_def mapped_def to4_def zeros)

definition blocked_v4 :: "ip \<Rightarrow> bool" where
  "blocked_v4 v \<longleftrightarrow> v ! 0 = 127 \<or> v ! 0 = 10 \<or> (v ! 0 = 172 \<and> 16 \<le> v ! 1 \<and> v ! 1 \<le> 31) \<or>
     (v ! 0 = 192 \<and> v ! 1 = 168) \<or> (v ! 0 = 169 \<and> v ! 1 = 254) \<or> (224 \<le> v ! 0 \<and> v ! 0 \<le> 239) \<or>
     v = [0, 0, 0, 0] \<or> (v ! 0 = 100 \<and> 64 \<le> v ! 1 \<and> v ! 1 \<le> 127)"

lemmas ip_classes = IsLoopback_def IsPrivate_def IsLinkLocalUnicast_def IsLinkLocalMulticast_def
  IsUnspecified_def IsMulticast_def cgnat_contains_def

lemma and_255 [simp]: "(a :: 8 word) AND 255 = a"
proof -
  have "(255 :: 8 word) = - 1" by simp
  then show ?thesis by (simp only: and.right_neutral)
qed

lemma IsBlockedIP_v4: "IsBlockedIP [a, b, c, d] = blocked_v4 [a, b, c, d]"
  unfolding IsBlockedIP_def blocked_v4_def ip_classes zeros
  by (simp add: ip_equal_mapped byte_masks) auto

lemma IsBlockedIP_mapped: "IsBlockedIP (mapped [a, b, c, d]) = blocked_v4 [a, b, c, d]"
  unfolding IsBlockedIP_def blocked_v4_def ip_classes zeros
  by (simp add: ip_equal_mapped byte_masks) auto

lemma DialContext_public:
  assumes "\<And>ip w. \<not> IsBlockedIP ip \<Longrightarrow> dial network ip port w = dial' network ip port w"
    and "di_split env addr = Inr (host, port)"
  shows "DialContext (env\<lparr>di_dial := dial\<rparr>) network addr w = DialContext (env\<lparr>di_dial := dial'\<rparr>) network addr w"
proof (cases "di_lookup env host w")
  case (Pair r w')
  show ?thesis
  proof (cases "\<exists>ip ips. r = Inr (ip # ips) \<and> List.find IsBlockedIP (ip # ips) = None")
    case True
    then obtain ip ips where "r = Inr (ip # ips)" "List.find IsBlockedIP (ip # ips) = None" by blast
    moreover from this have "\<not> IsBlockedIP ip" by (auto split: if_splits)
    ultimately show ?thesis using Pair assms by (simp add: DialContext_def)
  next
    case False
    with Pair assms(2) show ?thesis
      by (auto simp: DialContext_def split: sum.split option.split list.split)
  qed
qed

text \<open>With private targets disallowed no blocked address is ever dialed: the outcome of a dial does
  not depend on what the dialer would do with a blocked address, whatever the resolver answers, and an
  IPv4 address is blocked in its 4-byte and in its 16-byte form alike, exactly when it is loopback,
  private, link-local, multicast, unspecified or carrier-grade NAT space.\<close>

theorem private_targets_never_dialed:
  assumes "\<And>ip port w. \<not> IsBlockedIP ip \<Longrightarrow> dial network ip port w = dial' network ip port w"
  shows "dial_of (env\<lparr>di_dial := dial\<rparr>) False def network addr w =
      dial_of (env\<lparr>di_dial := dial'\<rparr>) False def network addr w \<and>
    IsBlockedIP [a, b, c, d] = blocked_v4 [a, b, c, d] \<and> IsBlockedIP (mapped [a, b, c, d]) = blocked_v4 [a, b, c, d]"
proof (cases "di_split env addr")
  case (Inl e)
  then show ?thesis by (simp add: dial_of_def DialContext_def IsBlockedIP_v4 IsBlockedIP_mapped)
next
  case (Inr hp)
  then obtain host port where "di_split env addr = Inr (host, port)" by (cases hp) simp
  with DialContext_public [of dial network port dial' env addr host w] assms
  show ?thesis by (simp add: dial_of_def IsBlockedIP_v4 IsBlockedIP_mapped)
qed


section \<open>Concrete inputs\<close>

definition rebinding :: "(unit, ip) dial_env" where
  "rebinding = \<lparr>di_split = (\<lambda>a. Inr (a, ''80'')), di_lookup = (\<lambda>h w. (Inr [[8, 8, 8, 8], mapped [10, 0, 0, 1]], w)),
     di_text = (\<lambda>ip. ''10.0.0.1''), di_dial = (\<lambda>n ip port w. (Inr ip, w))\<rparr>"

lemma private_targets_never_dialed_witness:
  "dial_of (rebinding\<lparr>di_dial := \<lambda>n ip port w. if IsBlockedIP ip then (Inr [], w) else (Inr ip, w)\<rparr>) False
     (\<lambda>n a w. (None, w)) ''tcp'' ''cal.example'' () =
   dial_of (rebinding\<lparr>di_dial := \<lambda>n ip port w. (Inr ip, w)\<rparr>) False
     (\<lambda>n a w. (None, w)) ''tcp'' ''cal.example'' ()"
  using private_targets_never_dialed [of "\<lambda>n ip port w. if IsBlockedIP ip then (Inr [], w) else (Inr ip, w)" "''tcp''"
      "\<lambda>n ip port w. (Inr ip, w)" rebinding "\<lambda>n a w. (None, w)" "''cal.example''" "()" 0 0 0 0]
  by simp

end
