(* ===== verification/Mail.thy ===== *)
theory Mail
  imports Go_Flow Go_Strings Config
begin

text \<open>
  \<^verbatim>\<open>internal/mail/mail.go\<close>: sending one message over SMTP. What \<^verbatim>\<open>net\<close>, \<^verbatim>\<open>crypto/tls\<close> and \<^verbatim>\<open>net/smtp\<close>
  do is one parameter, \<open>call\<close>: each use of them is a value of \<open>smtp_call\<close>, and \<open>call\<close> says whether it
  fails and what it does to the outside world \<open>'w\<close>. Timeouts are among its failures. Theorems about
  the order of the calls run the same code on a world that also keeps the calls made so far (\<open>logged\<close>).
\<close>


section \<open>The calls\<close>

datatype smtp_call =
    DialTLS string string
  | Dial string
  | NewClient string
  | StartTLS string
  | PlainAuth string string string
  | MailFrom string
  | RcptTo string
  | DataStart
  | DataWrite bytes
  | DataClose
  | Quit
  | CloseClient

type_synonym 'w smtp_lib = "smtp_call \<Rightarrow> 'w \<Rightarrow> go_error option \<times> 'w"

text \<open>\<^verbatim>\<open>net.JoinHostPort\<close>.\<close>

definition join_host_port :: "string \<Rightarrow> string \<Rightarrow> string" where
  "join_host_port host port =
     (if CHR '':'' \<in> set host then ''['' @ host @ '']:'' @ port else host @ '':'' @ port)"

definition crlf_text :: string where
  "crlf_text = [CHR 0x0D, CHR 0x0A]"

definition mail_headers :: "string \<Rightarrow> string \<Rightarrow> string \<Rightarrow> string list" where
  "mail_headers from to subject =
     [''From: '' @ from, ''To: '' @ to, ''Subject: '' @ subject, ''MIME-Version: 1.0'',
      ''Content-Type: text/plain; charset=utf-8'']"

definition buildMessage :: "string \<Rightarrow> string \<Rightarrow> string \<Rightarrow> string \<Rightarrow> bytes" where
  "buildMessage from to subject body =
     concat (map (\<lambda>h. h @ crlf_text) (mail_headers from to subject)) @ crlf_text @ body"


section \<open>Sending\<close>

definition smtp_step :: "'w smtp_lib \<Rightarrow> smtp_call \<Rightarrow> string \<Rightarrow> ('w, go_error, unit) flow" where
  "smtp_step call c msg w = (case call c w of (None, w') \<Rightarrow> (Inr (), w') | (Some e, w') \<Rightarrow> (Inl (wrapf msg e), w'))"

definition smtp_connect :: "'w smtp_lib \<Rightarrow> smtp_config \<Rightarrow> ('w, go_error, unit) flow" where
  "smtp_connect call cfg =
     (let addr = join_host_port (sm_host cfg) (itoa (sm_port cfg)) in
      if sm_encryption cfg = SMTPTLS then
        andthen (smtp_step call (DialTLS addr (sm_host cfg)) ''mail: tls dial: '') (\<lambda>_.
          smtp_step call (NewClient (sm_host cfg)) ''mail: connect: '')
      else
        andthen (smtp_step call (Dial addr) ''mail: dial: '') (\<lambda>_.
        andthen (smtp_step call (NewClient (sm_host cfg)) ''mail: connect: '') (\<lambda>_.
          if sm_encryption cfg = SMTPStartTLS then smtp_step call (StartTLS (sm_host cfg)) ''mail: connect: ''
          else pass ())))"

text \<open>The dialogue, up to the \<^verbatim>\<open>Quit\<close> whose error is returned as it is.\<close>

definition dialogue :: "'w smtp_lib \<Rightarrow> smtp_config \<Rightarrow> string \<Rightarrow> bytes \<Rightarrow> ('w, go_error, unit) flow" where
  "dialogue call cfg to msg =
     andthen (if sm_username cfg \<noteq> [] then
         smtp_step call (PlainAuth (sm_username cfg) (sm_password cfg) (sm_host cfg)) ''mail: auth: '' else pass ()) (\<lambda>_.
     andthen (smtp_step call (MailFrom (sm_from cfg)) ''mail: from: '') (\<lambda>_.
     andthen (smtp_step call (RcptTo to) ''mail: rcpt: '') (\<lambda>_.
     andthen (smtp_step call DataStart ''mail: data: '') (\<lambda>_.
     andthen (smtp_step call (DataWrite msg) ''mail: write: '') (\<lambda>_.
     andthen (smtp_step call DataClose ''mail: close data: '') (\<lambda>_.
       returns_err (call Quit)))))))"

text \<open>\<^verbatim>\<open>defer client.Close()\<close>: whatever the dialogue returned, the client is closed.\<close>

definition closing :: "'w smtp_lib \<Rightarrow> ('w, go_error, unit) flow \<Rightarrow> ('w, go_error, unit) flow" where
  "closing call m w = (case m w of (r, w') \<Rightarrow> (r, snd (call CloseClient w')))"

definition smtp_send ::
  "'w smtp_lib \<Rightarrow> smtp_config \<Rightarrow> string \<Rightarrow> string \<Rightarrow> string \<Rightarrow> ('w, go_error, unit) flow" where
  "smtp_send call cfg to subject body =
     andthen (smtp_connect call cfg) (\<lambda>_.
       closing call (dialogue call cfg to (buildMessage (sm_from cfg) to subject body)))"

text \<open>\<^verbatim>\<open>NewFromConfig\<close> picks the mailer; the one without SMTP does nothing.\<close>

datatype mailer = NoMailer | SMTPMailer smtp_config

definition mail_from_config :: "smtp_config \<Rightarrow> mailer" where
  "mail_from_config cfg = (if \<not> smtp_enabled cfg then NoMailer else SMTPMailer cfg)"

definition mail_enabled :: "mailer \<Rightarrow> bool" where
  "mail_enabled m = (case m of NoMailer \<Rightarrow> False | SMTPMailer _ \<Rightarrow> True)"

definition mail_send :: "'w smtp_lib \<Rightarrow> mailer \<Rightarrow> string \<Rightarrow> string \<Rightarrow> string \<Rightarrow> ('w, go_error, unit) flow" where
  "mail_send call m to subject body =
     (case m of NoMailer \<Rightarrow> pass () | SMTPMailer cfg \<Rightarrow> smtp_send call cfg to subject body)"


section \<open>The log of calls\<close>

type_synonym call_log = "(smtp_call \<times> go_error option) list"

text \<open>A connection is protected once TLS was dialled or negotiated; what must not go out before that.\<close>

fun protects :: "smtp_call \<Rightarrow> bool" where
  "protects (DialTLS _ _) = True"
| "protects (StartTLS _) = True"
| "protects _ = False"

fun confidential :: "smtp_call \<Rightarrow> bool" where
  "confidential (PlainAuth _ _ _) = True"
| "confidential (MailFrom _) = True"
| "confidential (RcptTo _) = True"
| "confidential (DataWrite _) = True"
| "confidential _ = False"

fun kept_safe :: "bool \<Rightarrow> call_log \<Rightarrow> bool" where
  "kept_safe safe [] = True"
| "kept_safe safe ((c, r) # log) =
     ((confidential c \<longrightarrow> safe) \<and> kept_safe (safe \<or> (protects c \<and> r = None)) log)"

definition is_safe :: "call_log \<Rightarrow> bool" where
  "is_safe log \<longleftrightarrow> list_ex (\<lambda>(c, r). protects c \<and> r = None) log"

lemma kept_safe_append:
  "kept_safe safe (a @ b) \<longleftrightarrow> kept_safe safe a \<and> kept_safe (safe \<or> is_safe a) b"
  by (induction a arbitrary: safe) (auto simp: is_safe_def disj_ac)

lemma is_safe_append: "is_safe (a @ b) \<longleftrightarrow> is_safe a \<or> is_safe b"
  by (simp add: is_safe_def)


lemma kept_safe_True [simp]: "kept_safe True log"
  by (induction log) auto

definition extends_log :: "(call_log \<times> 'w, go_error, 'a) flow \<Rightarrow> bool" where
  "extends_log m \<longleftrightarrow> (\<forall>lw. \<exists>l. fst (snd (m lw)) = fst lw @ l)"

lemma extends_logE:
  assumes "extends_log m"
  obtains l where "fst (snd (m lw)) = fst lw @ l"
  using assms by (metis extends_log_def)

lemma extends_step: "extends_log (smtp_step (logged call) c msg)"
  by (auto simp: extends_log_def smtp_step_def logged_def split: prod.split option.split)

lemma extends_quit: "extends_log (returns_err (logged call c))"
  by (auto simp: extends_log_def returns_err_def logged_def split: prod.split option.split)

lemma extends_pass: "extends_log (pass x)"
  by (simp add: extends_log_def pass_def)

lemma extends_andthen:
  assumes "extends_log m" and "\<And>x. extends_log (k x)"
  shows "extends_log (andthen m k)"
  unfolding extends_log_def
proof
  fix lw
  obtain l where l: "fst (snd (m lw)) = fst lw @ l" using assms(1) by (rule extends_logE)
  obtain r lw' where m: "m lw = (r, lw')" by (cases "m lw")
  show "\<exists>l. fst (snd (andthen m k lw)) = fst lw @ l"
  proof (cases r)
    case (Inl e)
    with l m show ?thesis by (simp add: andthen_def)
  next
    case (Inr x)
    obtain l' where "fst (snd (k x lw')) = fst lw' @ l'" using assms(2) by (rule extends_logE)
    with l m Inr show ?thesis by (simp add: andthen_def)
  qed
qed

lemma extends_if: "extends_log m \<Longrightarrow> extends_log n \<Longrightarrow> extends_log (if b then m else n)"
  by simp

lemmas extends_flow = extends_step extends_quit extends_pass extends_andthen extends_if

lemma extends_dialogue: "extends_log (dialogue (logged call) cfg to msg)"
  unfolding dialogue_def by (intro extends_flow)

lemma extends_closing:
  assumes "extends_log m"
  shows "extends_log (closing (logged call) m)"
  unfolding extends_log_def
proof
  fix lw
  obtain l where "fst (snd (m lw)) = fst lw @ l" using assms by (rule extends_logE)
  then show "\<exists>l. fst (snd (closing (logged call) m lw)) = fst lw @ l"
    by (auto simp: closing_def logged_def split: prod.split)
qed

lemma connect_log:
  assumes "sm_encryption cfg \<in> {SMTPStartTLS, SMTPTLS}"
    and "smtp_connect (logged call) cfg ([], w) = (r, l, w')"
  shows "kept_safe False l" and "r = Inr () \<Longrightarrow> is_safe l"
  using assms
  by (auto simp: smtp_connect_def andthen_def smtp_step_def logged_def is_safe_def Let_def
      split: prod.splits option.splits if_splits)

text \<open>C23: with TLS or STARTTLS configured nothing confidential goes out in the clear: whatever the server
  does, account, password, addresses and message are sent only after TLS was established.\<close>

theorem mail_only_over_tls:
  assumes "sm_encryption cfg \<in> {SMTPStartTLS, SMTPTLS}"
  shows "kept_safe False (fst (snd (smtp_send (logged call) cfg to subject body ([], w))))"
proof -
  obtain r l w' where c: "smtp_connect (logged call) cfg ([], w) = (r, l, w')" by (metis prod_cases3)
  note connect = connect_log [OF assms c]
  show ?thesis
  proof (cases r)
    case (Inl e)
    with c connect(1) show ?thesis by (simp add: smtp_send_def andthen_def)
  next
    case (Inr x)
    let ?rest = "closing (logged call) (dialogue (logged call) cfg to (buildMessage (sm_from cfg) to subject body))"
    have "extends_log ?rest" by (rule extends_closing [OF extends_dialogue])
    then obtain l' where "fst (snd (?rest (l, w'))) = fst (l, w') @ l'" by (rule extends_logE)
    with c Inr connect show ?thesis by (simp add: smtp_send_def andthen_def kept_safe_append)
  qed
qed


section \<open>The message\<close>

definition one_line :: "string \<Rightarrow> bool" where
  "one_line s \<longleftrightarrow> CHR 0x0D \<notin> set s \<and> CHR 0x0A \<notin> set s"

text \<open>\<^verbatim>\<open>net/smtp\<close> refuses addresses with line breaks (\<^verbatim>\<open>validateLine\<close>).\<close>

definition refuses_line_breaks :: "'w smtp_lib \<Rightarrow> bool" where
  "refuses_line_breaks call \<longleftrightarrow>
     (\<forall>a w. \<not> one_line a \<longrightarrow> fst (call (MailFrom a) w) \<noteq> None \<and> fst (call (RcptTo a) w) \<noteq> None)"

definition writes :: "call_log \<Rightarrow> bytes set" where
  "writes log = {m. \<exists>r. (DataWrite m, r) \<in> set log}"

lemma connect_writes: "smtp_connect (logged call) cfg ([], w) = (r, l, w') \<Longrightarrow> writes l = {}"
  by (auto simp: smtp_connect_def andthen_def smtp_step_def pass_def logged_def writes_def Let_def
      split: prod.splits option.splits if_splits)

lemma refuses_line_breaksD:
  assumes "refuses_line_breaks call"
  shows "call (MailFrom a) w = (None, w') \<Longrightarrow> one_line a" "call (RcptTo a) w = (None, w') \<Longrightarrow> one_line a"
  using assms unfolding refuses_line_breaks_def by (metis fst_conv)+

lemma dialogue_writes:
  assumes "refuses_line_breaks call" and "writes l = {}"
    and "m \<in> writes (fst (snd (dialogue (logged call) cfg to msg (l, w))))"
  shows "m = msg \<and> one_line (sm_from cfg) \<and> one_line to"
proof -
  have "m = msg \<and> (\<exists>w1 w2 w3. call (MailFrom (sm_from cfg)) w1 = (None, w2) \<and> call (RcptTo to) w2 = (None, w3))"
    using assms(2,3)
    by (auto simp: dialogue_def andthen_def smtp_step_def returns_err_def pass_def logged_def writes_def
        split: prod.splits option.splits if_splits) blast+
  then show ?thesis using refuses_line_breaksD [OF assms(1)] by blast
qed

lemma writes_append: "writes (a @ b) = writes a \<union> writes b"
  by (auto simp: writes_def)

text \<open>No address smuggles headers into a mail: what is written is the five header lines, each on one
  line, an empty line and the body, with the given subject of one line.\<close>

theorem mail_headers_fixed:
  assumes "refuses_line_breaks call" and "one_line subject"
    and "m \<in> writes (fst (snd (smtp_send (logged call) cfg to subject body ([], w))))"
  shows "m = concat (map (\<lambda>h. h @ crlf_text) (mail_headers (sm_from cfg) to subject)) @ crlf_text @ body \<and>
    list_all one_line (mail_headers (sm_from cfg) to subject)"
proof -
  obtain r l w' where c: "smtp_connect (logged call) cfg ([], w) = (r, l, w')" by (metis prod_cases3)
  let ?d = "dialogue (logged call) cfg to (buildMessage (sm_from cfg) to subject body)"
  have "m \<in> writes (fst (snd (?d (l, w'))))"
  proof (cases r)
    case (Inl e)
    with c connect_writes [OF c] assms(3) show ?thesis by (simp add: smtp_send_def andthen_def)
  next
    case (Inr x)
    obtain r2 l2 w2 where d: "?d (l, w') = (r2, l2, w2)" by (metis prod_cases3)
    with c Inr assms(3) show ?thesis
      by (auto simp: smtp_send_def andthen_def closing_def logged_def writes_append split: prod.splits)
        (simp add: writes_def)
  qed
  from dialogue_writes [OF assms(1) connect_writes [OF c] this] assms(2)
  show ?thesis by (simp add: buildMessage_def mail_headers_def one_line_def)
qed


section \<open>The outcome\<close>

text \<open>The calls in order until one fails.\<close>

fun run_calls :: "'w smtp_lib \<Rightarrow> smtp_call list \<Rightarrow> 'w \<Rightarrow> (smtp_call \<times> go_error) option \<times> 'w" where
  "run_calls call [] w = (None, w)"
| "run_calls call (c # cs) w =
     (case call c w of (None, w') \<Rightarrow> run_calls call cs w' | (Some e, w') \<Rightarrow> (Some (c, e), w'))"

definition connect_calls :: "smtp_config \<Rightarrow> smtp_call list" where
  "connect_calls cfg =
     (let addr = join_host_port (sm_host cfg) (itoa (sm_port cfg)); host = sm_host cfg in
      if sm_encryption cfg = SMTPTLS then [DialTLS addr host, NewClient host]
      else [Dial addr, NewClient host] @ (if sm_encryption cfg = SMTPStartTLS then [StartTLS host] else []))"

definition dialogue_calls :: "smtp_config \<Rightarrow> string \<Rightarrow> bytes \<Rightarrow> smtp_call list" where
  "dialogue_calls cfg to msg =
     (if sm_username cfg \<noteq> [] then [PlainAuth (sm_username cfg) (sm_password cfg) (sm_host cfg)] else []) @
     [MailFrom (sm_from cfg), RcptTo to, DataStart, DataWrite msg, DataClose, Quit]"

definition follows :: "'w smtp_lib \<Rightarrow> ('w, go_error, unit) flow \<Rightarrow> smtp_call list \<Rightarrow> bool" where
  "follows call m cs \<longleftrightarrow>
     (\<forall>w. case run_calls call cs w of
        (None, w') \<Rightarrow> m w = (Inr (), w')
      | (Some _, w') \<Rightarrow> \<exists>e. m w = (Inl e, w'))"

lemma followsI:
  assumes "\<And>w w'. run_calls call cs w = (None, w') \<Longrightarrow> m w = (Inr (), w')"
    and "\<And>w c w'. run_calls call cs w = (Some c, w') \<Longrightarrow> \<exists>e. m w = (Inl e, w')"
  shows "follows call m cs"
  using assms by (auto simp: follows_def split: prod.split option.split)

lemma follows_done: "follows call m cs \<Longrightarrow> run_calls call cs w = (None, w') \<Longrightarrow> m w = (Inr (), w')"
  unfolding follows_def by (drule spec [of _ w]) simp

lemma follows_failed: "follows call m cs \<Longrightarrow> run_calls call cs w = (Some c, w') \<Longrightarrow> \<exists>e. m w = (Inl e, w')"
  unfolding follows_def by (drule spec [of _ w]) (cases c, simp)

lemma follows_pass: "follows call (pass ()) []"
  by (simp add: follows_def pass_def)

lemma follows_last: "follows call (returns_err (call c)) [c]" "follows call (smtp_step call c msg) [c]"
  by (auto simp: follows_def returns_err_def smtp_step_def split: prod.split option.split)

lemma follows_step: "follows call (k ()) cs \<Longrightarrow> follows call (andthen (smtp_step call c msg) k) (c # cs)"
  by (rule followsI) (auto simp: andthen_def smtp_step_def dest: follows_done follows_failed split: prod.splits option.splits)

lemmas follows_flow = follows_pass follows_last follows_step

lemma connect_follows: "follows call (smtp_connect call cfg) (connect_calls cfg)"
  by (auto simp: smtp_connect_def connect_calls_def Let_def intro!: follows_flow)

lemma dialogue_follows: "follows call (dialogue call cfg to msg) (dialogue_calls cfg to msg)"
  by (auto simp: dialogue_def dialogue_calls_def intro!: follows_flow)

text \<open>The mail is sent exactly when every call of the plan succeeds; the first failure ends the dialogue,
  and the client is closed once the connection stands.\<close>

lemma smtp_send_run:
  assumes "run_calls call (connect_calls cfg) w = (x, w')"
  shows "x = Some ce \<Longrightarrow> \<exists>e. smtp_send call cfg to subject body w = (Inl e, w')"
    and "x = None \<Longrightarrow>
      run_calls call (dialogue_calls cfg to (buildMessage (sm_from cfg) to subject body)) w' = (y, w'') \<Longrightarrow>
      \<exists>r. smtp_send call cfg to subject body w = (r, snd (call CloseClient w'')) \<and> (r = Inr ()) = (y = None)"
proof -
  assume "x = Some ce"
  with assms have "\<exists>e. smtp_connect call cfg w = (Inl e, w')" by (auto intro: follows_failed [OF connect_follows])
  then show "\<exists>e. smtp_send call cfg to subject body w = (Inl e, w')" by (auto simp: smtp_send_def andthen_def)
next
  let ?m = "buildMessage (sm_from cfg) to subject body"
  assume "x = None" and d: "run_calls call (dialogue_calls cfg to ?m) w' = (y, w'')"
  with assms have c: "smtp_connect call cfg w = (Inr (), w')" by (auto intro: follows_done [OF connect_follows])
  have "\<exists>r. dialogue call cfg to ?m w' = (r, w'') \<and> (r = Inr ()) = (y = None)"
  proof (cases y)
    case None
    with d have "dialogue call cfg to ?m w' = (Inr (), w'')" by (auto intro: follows_done [OF dialogue_follows])
    with None show ?thesis by simp
  next
    case (Some c)
    with d have "\<exists>e. dialogue call cfg to ?m w' = (Inl e, w'')" by (auto intro: follows_failed [OF dialogue_follows])
    with Some show ?thesis by auto
  qed
  with c show "\<exists>r. smtp_send call cfg to subject body w = (r, snd (call CloseClient w'')) \<and> (r = Inr ()) = (y = None)"
    by (auto simp: smtp_send_def andthen_def closing_def)
qed

text \<open>A failing STARTTLS leaves the dialled connection open: the client is never closed.\<close>

lemma failed_starttls_not_closed:
  assumes "sm_encryption cfg = SMTPStartTLS"
    and "\<And>c w. call c w = ((case c of StartTLS _ \<Rightarrow> Some (ErrNew ''x509'') | _ \<Rightarrow> None), w)"
  shows "CloseClient \<notin> fst ` set (fst (snd (smtp_send (logged call) cfg to subject body ([], w))))"
  using assms
  by (simp add: smtp_send_def smtp_connect_def andthen_def smtp_step_def logged_def SMTPStartTLS_def SMTPTLS_def Let_def)


section \<open>Concrete inputs\<close>

definition sample_smtp :: smtp_config where
  "sample_smtp = \<lparr>sm_host = ''mail.example.com'', sm_port = 587, sm_username = ''u'', sm_password = ''p'',
     sm_from = ''dav@example.com'', sm_encryption = SMTPStartTLS\<rparr>"

definition obliging :: "unit smtp_lib" where
  "obliging c w = (case c of
     MailFrom a \<Rightarrow> (if one_line a then None else Some (ErrNew ''smtp: A line must not contain CR or LF''), w)
   | RcptTo a \<Rightarrow> (if one_line a then None else Some (ErrNew ''smtp: A line must not contain CR or LF''), w)
   | _ \<Rightarrow> (None, w))"

lemma mail_only_over_tls_witness:
  "kept_safe False (fst (snd (smtp_send (logged obliging) sample_smtp ''a@x'' ''s'' ''b'' ([], ()))))"
  by (rule mail_only_over_tls) (simp add: sample_smtp_def)

lemma mail_headers_fixed_witness:
  "\<exists>m\<in>writes (fst (snd (smtp_send (logged obliging) sample_smtp ''a@x'' ''s'' ''b'' ([], ())))).
     m = buildMessage ''dav@example.com'' ''a@x'' ''s'' ''b''"
proof -
  let ?m = "buildMessage ''dav@example.com'' ''a@x'' ''s'' ''b''"
  have w: "?m \<in> writes (fst (snd (smtp_send (logged obliging) sample_smtp ''a@x'' ''s'' ''b'' ([], ()))))"
    by (simp add: smtp_send_def smtp_connect_def dialogue_def closing_def returns_err_def andthen_def smtp_step_def
        pass_def logged_def obliging_def sample_smtp_def one_line_def SMTPStartTLS_def SMTPTLS_def writes_def Let_def)
  have "refuses_line_breaks obliging" by (auto simp: refuses_line_breaks_def obliging_def)
  from mail_headers_fixed [OF this _ w] w show ?thesis by (auto simp: one_line_def)
qed

end
