(* ===== verification/Auth.thy ===== *)
theory Auth
  imports Go_Flow Config Mail Store_Users "HOL-Library.Word"
begin

unbundle bit_operations_syntax

text \<open>
  \<^verbatim>\<open>internal/auth\<close>: accounts, sessions, password resets, anonymous visitors and OIDC sign-in. The state
  is the tables the service works on and the outside world (clock, randomness, the mail server, the
  identity provider); methods are functions with an early return over it. \<^verbatim>\<open>bcrypt\<close>, SHA-256, the
  random source, the SMTP library and the OIDC client are the parameters \<open>auth_env\<close>.
\<close>


section \<open>State and parameters\<close>

definition ErrInvalidCredentials :: go_error where "ErrInvalidCredentials = ErrNew ''auth: invalid credentials''"
definition ErrRegistrationClosed :: go_error where "ErrRegistrationClosed = ErrNew ''auth: registration is disabled''"
definition ErrEmailTaken :: go_error where "ErrEmailTaken = ErrNew ''auth: email already registered''"
definition ErrAnonymousDisabled :: go_error where "ErrAnonymousDisabled = ErrNew ''auth: anonymous access is disabled''"
definition ErrOIDCNotConfigured :: go_error where "ErrOIDCNotConfigured = ErrNew ''auth: oidc is not configured''"
definition ErrGroupNotAllowed :: go_error where "ErrGroupNotAllowed = ErrNew ''auth: user is not in an allowed group''"
definition ErrInvalidResetToken :: go_error where "ErrInvalidResetToken = ErrNew ''auth: invalid or expired reset token''"

definition sessionCookieName :: string where "sessionCookieName = ''tidydav_session''"
definition sessionTTL :: go_duration where "sessionTTL = 30 * 24 * hour"
definition resetTTL :: go_duration where "resetTTL = hour"

record 'w auth_state =
  au_users :: "user_row list"
  au_sessions :: "session_row list"
  au_resets :: "reset_row list"
  au_world :: 'w

text \<open>The claims of an ID token, as JSON decodes them; a verified token is its subject and its claims.\<close>

datatype claim_value = ClaimText string | ClaimList "claim_value list" | ClaimTexts "string list" | ClaimOther

type_synonym claims = "string \<Rightarrow> claim_value option"

record 'w oidc_provider =
  op_auth_url :: "string \<Rightarrow> string \<Rightarrow> string"
  op_end_session :: string
  op_exchange :: "string \<Rightarrow> string \<Rightarrow> 'w \<Rightarrow> string option result \<times> 'w"
  op_verify :: "string \<Rightarrow> 'w \<Rightarrow> (string \<times> claims result) result \<times> 'w"

record 'w auth_env =
  av_cfg :: config
  av_now :: "'w \<Rightarrow> go_time"
  av_rand :: "nat \<Rightarrow> 'w \<Rightarrow> bytes result \<times> 'w"
  av_sha :: "bytes \<Rightarrow> bytes"
  av_bcrypt :: "bytes \<Rightarrow> 'w \<Rightarrow> bytes result \<times> 'w"
  av_bcrypt_ok :: "bytes \<Rightarrow> bytes \<Rightarrow> bool"
  av_lower :: "string \<Rightarrow> string"
  av_smtp :: "'w smtp_lib"
  av_oidc :: "'w oidc_provider option"

type_synonym ('w, 'x, 'a) auth_flow = "(('w, 'x) auth_state_scheme, go_error, 'a) flow"

definition lower_text :: "'w auth_env \<Rightarrow> string \<Rightarrow> string" where
  "lower_text env = go_to_lower (av_lower env)"

text \<open>A call of the outside world, the clock, and the inserts that return the user they completed.\<close>

definition outside :: "('w \<Rightarrow> 'a result \<times> 'w) \<Rightarrow> ('w, 'x, 'a) auth_flow" where
  "outside f s = (case f (au_world s) of (r, w) \<Rightarrow> (r, s\<lparr>au_world := w\<rparr>))"

definition clock :: "'w auth_env \<Rightarrow> ('w, 'x, go_time) auth_flow" where
  "clock env = peek (\<lambda>s. av_now env (au_world s))"

definition storing ::
  "(go_time \<Rightarrow> user \<Rightarrow> user_row list \<Rightarrow> (go_error option \<times> user) \<times> user_row list) \<Rightarrow>
     'w auth_env \<Rightarrow> user \<Rightarrow> ('w, 'x, user) auth_flow" where
  "storing f env u s =
     (case f (av_now env (au_world s)) u (au_users s) of
        ((None, u'), rows) \<Rightarrow> (Inr u', s\<lparr>au_users := rows\<rparr>)
      | ((Some e, u'), rows) \<Rightarrow> (Inl e, s\<lparr>au_users := rows\<rparr>))"

definition OIDCEnabled :: "'w auth_env \<Rightarrow> bool" where
  "OIDCEnabled env \<longleftrightarrow> av_oidc env \<noteq> None"

definition RegistrationEnabled :: "'w auth_env \<Rightarrow> bool" where
  "RegistrationEnabled env =
     (if oc_only (cg_oidc (av_cfg env)) then False
      else cg_allow_registration (av_cfg env) \<and> cg_access_mode (av_cfg env) \<noteq> AccessPublic)"

definition OIDCOnly :: "'w auth_env \<Rightarrow> bool" where
  "OIDCOnly env = oc_only (cg_oidc (av_cfg env))"

definition OIDCDisplayName :: "'w auth_env \<Rightarrow> string" where
  "OIDCDisplayName env = oc_display_name (cg_oidc (av_cfg env))"

definition anonymousAllowed :: "'w auth_env \<Rightarrow> bool" where
  "anonymousAllowed env \<longleftrightarrow>
     cg_access_mode (av_cfg env) = AccessPublic \<or> cg_access_mode (av_cfg env) = AccessBoth"


section \<open>Random identifiers\<close>

definition set_bits :: "nat \<Rightarrow> nat \<Rightarrow> char \<Rightarrow> char" where
  "set_bits keep put c = char_of (((of_char c :: nat) AND keep) OR put)"

definition uuid_bytes :: "bytes \<Rightarrow> bytes" where
  "uuid_bytes b = (let b = b[6 := set_bits 0x0f 0x40 (b ! 6)] in b[8 := set_bits 0x3f 0x80 (b ! 8)])"

definition uuid_text :: "bytes \<Rightarrow> string" where
  "uuid_text b = hex_encode (take 4 b) @ ''-'' @ hex_encode (take 2 (drop 4 b)) @ ''-'' @
     hex_encode (take 2 (drop 6 b)) @ ''-'' @ hex_encode (take 2 (drop 8 b)) @ ''-'' @
     hex_encode (take 6 (drop 10 b))"

definition wrapping :: "string \<Rightarrow> ('s, go_error, 'a) flow \<Rightarrow> ('s, go_error, 'a) flow" where
  "wrapping msg m s = (case m s of (Inl e, s') \<Rightarrow> (Inl (wrapf msg e), s') | (Inr x, s') \<Rightarrow> (Inr x, s'))"

definition newUUIDv4 :: "'w auth_env \<Rightarrow> ('w, 'x, string) auth_flow" where
  "newUUIDv4 env =
     andthen (wrapping ''generate uuid: '' (outside (av_rand env 16))) (\<lambda>b. pass (uuid_text (uuid_bytes b)))"

definition hashSecret :: "'w auth_env \<Rightarrow> string \<Rightarrow> string" where
  "hashSecret env secret = hex_encode (av_sha env secret)"

definition newSessionToken :: "'w auth_env \<Rightarrow> ('w, 'x, string) auth_flow" where
  "newSessionToken env =
     andthen (wrapping ''generate session token: '' (outside (av_rand env 32))) (\<lambda>b. pass (hex_encode b))"


section \<open>Passwords\<close>

definition hashPassword :: "'w auth_env \<Rightarrow> string \<Rightarrow> ('w, 'x, string) auth_flow" where
  "hashPassword env password = wrapping ''hash password: '' (outside (av_bcrypt env password))"

definition checkPassword :: "'w auth_env \<Rightarrow> string \<Rightarrow> string \<Rightarrow> bool" where
  "checkPassword env hash password = av_bcrypt_ok env hash password"

definition new_user :: "string \<Rightarrow> string \<Rightarrow> user" where
  "new_user uid kind = \<lparr>us_id = uid, us_kind = kind, us_email = None, us_password = None, us_subject = None,
     us_secret = None, us_admin = False, us_created = 0, us_avatar = []\<rparr>"

definition Register :: "'w auth_env \<Rightarrow> string \<Rightarrow> string \<Rightarrow> ('w, 'x, user) auth_flow" where
  "Register env email0 password =
     (if \<not> RegistrationEnabled env then stop ErrRegistrationClosed
      else let email = go_trim_space (lower_text env email0) in
      if email = [] \<or> password = [] then stop ErrInvalidCredentials
      else andthen (peek (\<lambda>s. UserByEmail email (au_users s))) (\<lambda>found.
        case found of
          Inr _ \<Rightarrow> stop ErrEmailTaken
        | Inl e \<Rightarrow>
            if \<not> err_is e ErrNotFound then stop e
            else andthen (hashPassword env password) (\<lambda>hash.
                 andthen (newUUIDv4 env) (\<lambda>uid.
                 storing CreateUserBootstrapAdmin env
                   ((new_user uid ''password'')\<lparr>us_email := Some email, us_password := Some hash\<rparr>)))))"

definition Authenticate :: "'w auth_env \<Rightarrow> string \<Rightarrow> string \<Rightarrow> ('w, 'x, user) auth_flow" where
  "Authenticate env email0 password =
     (let email = go_trim_space (lower_text env email0) in
      andthen (peek (\<lambda>s. UserByEmail email (au_users s))) (\<lambda>found.
        case found of
          Inl e \<Rightarrow> if err_is e ErrNotFound then stop ErrInvalidCredentials else stop e
        | Inr u \<Rightarrow>
            (case us_password u of
               None \<Rightarrow> stop ErrInvalidCredentials
             | Some hash \<Rightarrow>
                 if \<not> checkPassword env hash password then stop ErrInvalidCredentials else pass u)))"


section \<open>Sessions\<close>

datatype same_site = SameSiteDefault | SameSiteLax

record cookie =
  ck_name :: string
  ck_value :: string
  ck_path :: string
  ck_http_only :: bool
  ck_secure :: bool
  ck_same_site :: same_site
  ck_expires :: "go_time option"
  ck_max_age :: int

text \<open>The cookies of a request in order; \<^verbatim>\<open>r.Cookie\<close> is the first of that name.\<close>

type_synonym cookies = "(string \<times> string) list"

definition sessionCookie :: "'w auth_env \<Rightarrow> string \<Rightarrow> go_time \<Rightarrow> cookie" where
  "sessionCookie env v expires =
     \<lparr>ck_name = sessionCookieName, ck_value = v, ck_path = ''/'', ck_http_only = True,
      ck_secure = has_prefix (cg_base_url (av_cfg env)) ''https://'', ck_same_site = SameSiteLax,
      ck_expires = Some expires, ck_max_age = (if v = [] then - 1 else 0)\<rparr>"

definition StartSession :: "'w auth_env \<Rightarrow> user \<Rightarrow> ('w, 'x, cookie) auth_flow" where
  "StartSession env u =
     andthen (newSessionToken env) (\<lambda>token.
     andthen (clock env) (\<lambda>now.
       let sess = \<lparr>se_id = token, se_user = us_id u, se_created = now, se_expires = time_add now sessionTTL\<rparr> in
     andthen (returns_err (\<lambda>s. case CreateSession now sess (au_sessions s) of
                (e, rows) \<Rightarrow> (e, s\<lparr>au_sessions := rows\<rparr>))) (\<lambda>_.
       pass (sessionCookie env token (se_expires sess)))))"

definition drop_session :: "string \<Rightarrow> ('w, 'x) auth_state_scheme \<Rightarrow> ('w, 'x) auth_state_scheme" where
  "drop_session sid s = s\<lparr>au_sessions := DeleteSession sid (au_sessions s)\<rparr>"

definition UserFromRequest :: "'w auth_env \<Rightarrow> cookies \<Rightarrow> ('w, 'x, user) auth_flow" where
  "UserFromRequest env cks =
     (case map_of cks sessionCookieName of
        None \<Rightarrow> stop ErrNotFound
      | Some sid \<Rightarrow>
          andthen (\<lambda>s. (SessionByID sid (au_sessions s), s)) (\<lambda>sess.
          andthen (clock env) (\<lambda>now.
            if time_after now (se_expires sess) then
              andthen (modify (drop_session (se_id sess))) (\<lambda>_. stop ErrNotFound)
            else (\<lambda>s. (UserByID (se_user sess) (au_users s), s)))))"

definition Logout :: "'w auth_env \<Rightarrow> cookies \<Rightarrow> ('w, 'x, cookie) auth_flow" where
  "Logout env cks =
     andthen (case map_of cks sessionCookieName of
                None \<Rightarrow> pass ()
              | Some sid \<Rightarrow> modify (drop_session sid)) (\<lambda>_.
       pass (sessionCookie env [] (62135596800 * second)))"


section \<open>Password resets\<close>

definition MailEnabled :: "'w auth_env \<Rightarrow> bool" where
  "MailEnabled env = mail_enabled (mail_from_config (cg_smtp (av_cfg env)))"

definition mailer_send :: "'w auth_env \<Rightarrow> string \<Rightarrow> string \<Rightarrow> string \<Rightarrow> ('w, 'x, unit) auth_flow" where
  "mailer_send env to subject body =
     outside (mail_send (av_smtp env) (mail_from_config (cg_smtp (av_cfg env))) to subject body)"

definition reset_body :: "string \<Rightarrow> string" where
  "reset_body link = ''Reset your TidyDAV password by opening this link:'' @ [CHR 0x0A, CHR 0x0A] @ link @
     [CHR 0x0A, CHR 0x0A] @
     ''The link expires in 1 hour. If you didn't request a reset, ignore this email.''"

definition RequestPasswordReset :: "'w auth_env \<Rightarrow> string \<Rightarrow> ('w, 'x, unit) auth_flow" where
  "RequestPasswordReset env email0 =
     (let email = go_trim_space (lower_text env email0) in
      andthen (peek (\<lambda>s. UserByEmail email (au_users s))) (\<lambda>found.
        case found of
          Inl e \<Rightarrow> if err_is e ErrNotFound then pass () else stop e
        | Inr u \<Rightarrow>
            if us_password u = None then pass ()
            else andthen (newUUIDv4 env) (\<lambda>token.
                 andthen (clock env) (\<lambda>now.
                 andthen (returns_err (\<lambda>s.
                   case CreatePasswordReset \<lparr>pw_hash = hashSecret env token, pw_user = us_id u,
                          pw_expires = time_add now resetTTL\<rparr> (au_resets s) of
                     (e, rows) \<Rightarrow> (e, s\<lparr>au_resets := rows\<rparr>))) (\<lambda>_.
                 mailer_send env email ''Reset your TidyDAV password''
                   (reset_body (cg_base_url (av_cfg env) @ ''/reset?token='' @ token)))))))"

definition drop_reset :: "string \<Rightarrow> ('w, 'x) auth_state_scheme \<Rightarrow> ('w, 'x) auth_state_scheme" where
  "drop_reset h s = s\<lparr>au_resets := DeletePasswordReset h (au_resets s)\<rparr>"

definition ConfirmPasswordReset :: "'w auth_env \<Rightarrow> string \<Rightarrow> string \<Rightarrow> ('w, 'x, unit) auth_flow" where
  "ConfirmPasswordReset env token newPassword =
     (if go_trim_space newPassword = [] then stop ErrInvalidCredentials
      else andthen (peek (\<lambda>s. PasswordResetByTokenHash (hashSecret env token) (au_resets s))) (\<lambda>found.
        case found of
          Inl e \<Rightarrow> if err_is e ErrNotFound then stop ErrInvalidResetToken else stop e
        | Inr pr \<Rightarrow>
            andthen (clock env) (\<lambda>now.
              if time_after now (pw_expires pr) then
                andthen (modify (drop_reset (pw_hash pr))) (\<lambda>_. stop ErrInvalidResetToken)
              else
                andthen (hashPassword env newPassword) (\<lambda>hash.
                andthen (returns_err (\<lambda>s. case UpdateUserPassword (pw_user pr) hash (au_users s) of
                           (e, rows) \<Rightarrow> (e, s\<lparr>au_users := rows\<rparr>))) (\<lambda>_.
                modify (drop_reset (pw_hash pr)))))))"


section \<open>Anonymous visitors\<close>

definition CreateSecretUser :: "'w auth_env \<Rightarrow> ('w, 'x, user \<times> string) auth_flow" where
  "CreateSecretUser env =
     (if \<not> anonymousAllowed env then stop ErrAnonymousDisabled
      else andthen (newUUIDv4 env) (\<lambda>secret.
           andthen (newUUIDv4 env) (\<lambda>uid.
           andthen (storing CreateUser env ((new_user uid ''secret'')\<lparr>us_secret := Some (hashSecret env secret)\<rparr>)) (\<lambda>u.
             pass (u, secret)))))"


section \<open>OIDC\<close>

definition OIDCAuthCodeURL :: "'w auth_env \<Rightarrow> string \<Rightarrow> string \<Rightarrow> string result" where
  "OIDCAuthCodeURL env state verifier =
     (case av_oidc env of None \<Rightarrow> Inl ErrOIDCNotConfigured | Some p \<Rightarrow> Inr (op_auth_url p state verifier))"

definition OIDCEndSessionURL :: "'w auth_env \<Rightarrow> string" where
  "OIDCEndSessionURL env = (case av_oidc env of None \<Rightarrow> [] | Some p \<Rightarrow> op_end_session p)"

fun hasGroupOverlap :: "string list \<Rightarrow> string list \<Rightarrow> bool" where
  "hasGroupOverlap userGroups [] = False"
| "hasGroupOverlap userGroups (r # required) =
     (if list_ex (\<lambda>u. r = u) userGroups then True else hasGroupOverlap userGroups required)"

definition groupsCheck :: "'w auth_env \<Rightarrow> string list \<Rightarrow> bool \<times> bool" where
  "groupsCheck env userGroups =
     (let oc = cg_oidc (av_cfg env) in
      if oc_admin_groups oc = [] \<and> oc_user_groups oc = [] then (False, True)
      else if hasGroupOverlap userGroups (oc_admin_groups oc) then (True, True)
      else if oc_user_groups oc \<noteq> [] then (False, hasGroupOverlap userGroups (oc_user_groups oc))
      else (False, True))"

definition claim_text :: "claims \<Rightarrow> string \<Rightarrow> string" where
  "claim_text raw key = (case raw key of Some (ClaimText t) \<Rightarrow> t | _ \<Rightarrow> [])"

definition claim_groups :: "claims \<Rightarrow> string \<Rightarrow> string list" where
  "claim_groups raw key =
     (case raw key of
        Some (ClaimList vs) \<Rightarrow> List.map_filter (\<lambda>v. case v of ClaimText t \<Rightarrow> Some t | _ \<Rightarrow> None) vs
      | Some (ClaimTexts ts) \<Rightarrow> ts
      | _ \<Rightarrow> [])"

definition groups_configured :: "'w auth_env \<Rightarrow> bool" where
  "groups_configured env \<longleftrightarrow>
     oc_admin_groups (cg_oidc (av_cfg env)) \<noteq> [] \<or> oc_user_groups (cg_oidc (av_cfg env)) \<noteq> []"

definition upsertOIDCUser ::
  "'w auth_env \<Rightarrow> string \<Rightarrow> string \<Rightarrow> string \<Rightarrow> bool \<Rightarrow> ('w, 'x, user) auth_flow" where
  "upsertOIDCUser env subject email avatar groupAdmin =
     andthen (peek (\<lambda>s. UserByOIDCSubject subject (au_users s))) (\<lambda>found.
       case found of
         Inr u \<Rightarrow>
           (let newAdmin = (if groups_configured env then groupAdmin else us_admin u) in
            andthen (modify (\<lambda>s. s\<lparr>au_users := UpdateUserAvatarAndAdmin (us_id u) avatar newAdmin (au_users s)\<rparr>)) (\<lambda>_.
              pass (u\<lparr>us_avatar := avatar, us_admin := newAdmin\<rparr>)))
       | Inl e \<Rightarrow>
           if \<not> err_is e ErrNotFound then stop e
           else andthen (newUUIDv4 env) (\<lambda>uid.
             let u = (new_user uid ''oidc'')\<lparr>us_subject := Some subject, us_avatar := avatar, us_admin := groupAdmin,
                       us_email := (if email \<noteq> [] then Some (lower_text env email) else None)\<rparr>
             in if groups_configured env then storing CreateUser env u
                else storing CreateUserBootstrapAdmin env u))"

definition OIDCExchange :: "'w auth_env \<Rightarrow> string \<Rightarrow> string \<Rightarrow> ('w, 'x, user) auth_flow" where
  "OIDCExchange env code verifier =
     (case av_oidc env of
        None \<Rightarrow> stop ErrOIDCNotConfigured
      | Some p \<Rightarrow>
          andthen (wrapping ''oidc exchange: '' (outside (op_exchange p code verifier))) (\<lambda>idt.
            case idt of
              None \<Rightarrow> stop (ErrNew ''oidc: response had no id_token'')
            | Some rawID \<Rightarrow>
                andthen (wrapping ''verify id token: '' (outside (op_verify p rawID))) (\<lambda>(subject, decoded).
                  let groupClaim = (if oc_group_claim (cg_oidc (av_cfg env)) = [] then ''groups''
                                    else oc_group_claim (cg_oidc (av_cfg env)))
                  in case decoded of
                       Inl e \<Rightarrow> stop (wrapf ''parse id token claims: '' e)
                     | Inr raw \<Rightarrow>
                         (case groupsCheck env (claim_groups raw groupClaim) of
                            (isAdmin, allowed) \<Rightarrow>
                              if \<not> allowed then stop ErrGroupNotAllowed
                              else upsertOIDCUser env subject (claim_text raw ''email'') (claim_text raw ''picture'') isAdmin))))"

end
