(* ===== verification/Auth_Props.thy ===== *)
theory Auth_Props
  imports Auth
begin

text \<open>
  What makes \<^verbatim>\<open>internal/auth\<close> correct: the life of a session, the single use of a reset token, who may
  authenticate, what the identity provider decides, and the shape of the identifiers.
\<close>


section \<open>Frames\<close>

lemma spares_outside [flow_frame]:
  "(\<And>s w. f (s\<lparr>au_world := w\<rparr>) = f s) \<Longrightarrow> spares f (outside g)"
  by (auto intro!: sparesI simp: outside_def split: prod.split)

lemma spares_wrapping [flow_frame]: "spares f m \<Longrightarrow> spares f (wrapping msg m)"
  by (auto simp: spares_def wrapping_def split: prod.split sum.split) (metis snd_conv)+

lemma spares_clock [flow_frame]: "spares f (clock env)"
  by (simp add: clock_def flow_frame)

lemma newUUIDv4_frame: "spares au_users (newUUIDv4 env)" "spares au_sessions (newUUIDv4 env)"
  "spares au_resets (newUUIDv4 env)"
  by (auto simp: newUUIDv4_def intro!: flow_frame)

lemma newSessionToken_frame: "spares au_users (newSessionToken env)"
  "spares au_sessions (newSessionToken env)" "spares au_resets (newSessionToken env)"
  by (auto simp: newSessionToken_def intro!: flow_frame)

lemma hashPassword_frame: "spares au_users (hashPassword env p)" "spares au_sessions (hashPassword env p)"
  "spares au_resets (hashPassword env p)"
  by (auto simp: hashPassword_def intro!: flow_frame)

lemmas token_frames [flow_frame] = newUUIDv4_frame newSessionToken_frame hashPassword_frame


section \<open>Sessions\<close>

definition to_sec :: "go_time \<Rightarrow> go_time" where
  "to_sec t = unix_secs t * 1000000000"

lemma SessionByID_new:
  assumes "CreateSession now se rows = (None, rows')"
  shows "SessionByID (se_id se) rows' = Inr \<lparr>se_id = se_id se, se_user = se_user se,
    se_created = parseTime (stamp (if time_is_zero (se_created se) then now else se_created se)),
    se_expires = parseTime (stamp (se_expires se))\<rparr>"
  using assms
  by (auto simp: CreateSession_def SessionByID_def select_one_def find_append_new split: if_splits)

lemma SessionByID_dropped: "SessionByID sid (DeleteSession sid rows) = Inl ErrNotFound"
proof -
  have "List.find (\<lambda>r. sr_id r = sid) (filter (\<lambda>r. sr_id r \<noteq> sid) rows) = None"
    by (auto simp: find_None_iff)
  then show ?thesis by (simp add: SessionByID_def DeleteSession_def delete_where_def select_one_def)
qed

lemma StartSession_stores:
  assumes "StartSession env u s = (Inr c, s')"
  obtains now where "av_now env (au_world s') = now"
    "SessionByID (ck_value c) (au_sessions s') = Inr \<lparr>se_id = ck_value c, se_user = us_id u,
       se_created = parseTime (stamp now), se_expires = parseTime (stamp (time_add now sessionTTL))\<rparr>"
proof -
  obtain token s1 where t: "newSessionToken env s = (Inr token, s1)"
    using assms by (auto simp: StartSession_def andthen_Inr)
  let ?now = "av_now env (au_world s1)"
  let ?se = "\<lparr>se_id = token, se_user = us_id u, se_created = ?now, se_expires = time_add ?now sessionTTL\<rparr>"
  obtain rows where rows: "CreateSession ?now ?se (au_sessions s1) = (None, rows)" "s' = s1\<lparr>au_sessions := rows\<rparr>"
      "c = sessionCookie env token (time_add ?now sessionTTL)"
    using assms t
    by (auto simp: StartSession_def andthen_Inr clock_def flow_run Let_def returns_err_def
        split: prod.splits option.splits)
  with SessionByID_new [OF rows(1)] that [of ?now] show ?thesis
    by (auto simp: sessionCookie_def)
qed

definition session_end :: "'w auth_env \<Rightarrow> 'w \<Rightarrow> go_time" where
  "session_end env w = to_sec (time_add (av_now env w) sessionTTL)"

lemma UserFromRequest_run:
  assumes "map_of cks sessionCookieName = Some sid" and "SessionByID sid (au_sessions t) = Inr se"
  shows "UserFromRequest env cks t =
    (if time_after (av_now env (au_world t)) (se_expires se) then (Inl ErrNotFound, drop_session (se_id se) t)
     else (UserByID (se_user se) (au_users t), t))"
  using assms by (simp add: UserFromRequest_def andthen_def clock_def peek_def modify_def stop_def)

lemma UserFromRequest_unknown:
  "map_of cks sessionCookieName = Some sid \<Longrightarrow> SessionByID sid (au_sessions t) = Inl e \<Longrightarrow>
     UserFromRequest env cks t = (Inl e, t)"
  by (simp add: UserFromRequest_def andthen_def)

lemma Logout_run:
  "map_of cks sessionCookieName = Some sid \<Longrightarrow> snd (Logout env cks t) = drop_session sid t"
  by (simp add: Logout_def andthen_def modify_def pass_def)



section \<open>Password resets\<close>

lemma find_reset_dropped: "PasswordResetByTokenHash h (DeletePasswordReset h rows) = Inl ErrNotFound"
proof -
  have "List.find (\<lambda>r. pr_hash r = h) (filter (\<lambda>r. pr_hash r \<noteq> h) rows) = None"
    by (auto simp: find_None_iff)
  then show ?thesis
    by (simp add: PasswordResetByTokenHash_def DeletePasswordReset_def delete_where_def select_one_def)
qed

lemma reset_hash: "PasswordResetByTokenHash h rows = Inr pr \<Longrightarrow> pw_hash pr = h"
  by (auto simp: PasswordResetByTokenHash_def select_one_def find_Some_iff split: sum.splits option.splits)

lemma UpdateUserPassword_ok:
  "UpdateUserPassword uid hash rows = (None, rows') \<Longrightarrow>
     rows' = map (\<lambda>r. if ur_id r = uid then r\<lparr>ur_password := Some hash\<rparr> else r) rows \<and> (\<exists>r\<in>set rows. ur_id r = uid)"
  by (auto simp: UpdateUserPassword_def update_where_def checkAffected_def filter_empty_conv split: if_splits)

lemma ConfirmPasswordReset_cases:
  assumes "ConfirmPasswordReset env token pw s = (Inr (), s')"
  obtains pr hash w where
    "PasswordResetByTokenHash (hashSecret env token) (au_resets s) = Inr pr"
    "\<not> time_after (av_now env (au_world s)) (pw_expires pr)"
    "av_bcrypt env pw (au_world s) = (Inr hash, w)"
    "au_users s' = map (\<lambda>r. if ur_id r = pw_user pr then r\<lparr>ur_password := Some hash\<rparr> else r) (au_users s)"
    "\<exists>r\<in>set (au_users s). ur_id r = pw_user pr"
    "au_resets s' = DeletePasswordReset (hashSecret env token) (au_resets s)"
    "au_sessions s' = au_sessions s"
proof -
  obtain pr where pr: "PasswordResetByTokenHash (hashSecret env token) (au_resets s) = Inr pr"
    using assms
    by (auto simp: ConfirmPasswordReset_def flow_run split: if_splits sum.splits)
  have run: "(if time_after (av_now env (au_world s)) (pw_expires pr)
      then andthen (modify (drop_reset (pw_hash pr))) (\<lambda>_. stop ErrInvalidResetToken)
      else andthen (hashPassword env pw) (\<lambda>hash.
           andthen (returns_err (\<lambda>s. case UpdateUserPassword (pw_user pr) hash (au_users s) of
             (e, rows) \<Rightarrow> (e, s\<lparr>au_users := rows\<rparr>))) (\<lambda>_.
           modify (drop_reset (pw_hash pr))))) s = (Inr (), s')"
    using assms pr by (simp add: ConfirmPasswordReset_def flow_run clock_def split: if_splits)
  then have live: "\<not> time_after (av_now env (au_world s)) (pw_expires pr)"
    by (auto simp: flow_run split: if_splits)
  with run obtain hash s1 where h: "hashPassword env pw s = (Inr hash, s1)"
    by (auto simp: andthen_Inr)
  then obtain w where w: "av_bcrypt env pw (au_world s) = (Inr hash, w)" "s1 = s\<lparr>au_world := w\<rparr>"
    by (auto simp: hashPassword_def wrapping_def outside_def split: prod.splits sum.splits)
  with run live h obtain rows where
    "UpdateUserPassword (pw_user pr) hash (au_users s) = (None, rows)"
    "s' = drop_reset (pw_hash pr) (s1\<lparr>au_users := rows\<rparr>)"
    by (auto simp: andthen_Inr flow_run returns_err_def split: prod.splits option.splits)
  with pr live w that show ?thesis
    using UpdateUserPassword_ok reset_hash [OF pr] by (simp add: drop_reset_def)
qed


lemma find_map_same: "(\<And>x. p (f x) = p x) \<Longrightarrow> List.find p (map f xs) = map_option f (List.find p xs)"
  by (induction xs) auto

definition set_password :: "string \<Rightarrow> string \<Rightarrow> user_row \<Rightarrow> user_row" where
  "set_password uid hash r = (if ur_id r = uid then r\<lparr>ur_password := Some hash\<rparr> else r)"

lemma UserByEmail_set_password:
  "UserByEmail email (map (set_password uid hash) rows) =
     (case UserByEmail email rows of
        Inl e \<Rightarrow> Inl e
      | Inr u \<Rightarrow> Inr (if us_id u = uid then u\<lparr>us_password := Some hash\<rparr> else u))"
proof -
  have "ur_email (set_password uid hash r) = ur_email r" for r by (simp add: set_password_def)
  then show ?thesis
    by (auto simp: UserByEmail_def userBy_def select_one_def find_map_same set_password_def scanUser_def
        split: option.splits)
qed

lemma Authenticate_run:
  "Authenticate env email password s =
     (case UserByEmail (go_trim_space (lower_text env email)) (au_users s) of
        Inl e \<Rightarrow> (Inl (if err_is e ErrNotFound then ErrInvalidCredentials else e), s)
      | Inr u \<Rightarrow> ((case us_password u of
            None \<Rightarrow> Inl ErrInvalidCredentials
          | Some hash \<Rightarrow> if av_bcrypt_ok env hash password then Inr u else Inl ErrInvalidCredentials), s))"
  by (simp add: Authenticate_def flow_run checkPassword_def Let_def split: sum.split option.split)

lemma ConfirmPasswordReset_spent:
  "go_trim_space pw \<noteq> [] \<Longrightarrow> PasswordResetByTokenHash (hashSecret env token) (au_resets t) = Inl ErrNotFound \<Longrightarrow>
     ConfirmPasswordReset env token pw t = (Inl ErrInvalidResetToken, t)"
  by (simp add: ConfirmPasswordReset_def flow_run ErrNotFound_def)



section \<open>Sign-in through the identity provider\<close>

lemma hasGroupOverlap_iff: "hasGroupOverlap userGroups required \<longleftrightarrow> set userGroups \<inter> set required \<noteq> {}"
  by (induction required) (auto simp: list_ex_iff)

lemma groupsCheck_spec:
  "groupsCheck env gs =
     (let oc = cg_oidc (av_cfg env); admin = (set gs \<inter> set (oc_admin_groups oc) \<noteq> {}) in
      (admin, admin \<or> oc_user_groups oc = [] \<or> set gs \<inter> set (oc_user_groups oc) \<noteq> {}))"
  by (auto simp: groupsCheck_def hasGroupOverlap_iff Let_def)

lemma stored_admin [simp]: "us_admin (scanUser (user_values u)) = us_admin u" "us_id (scanUser (user_values u)) = us_id u"
  "us_avatar (scanUser (user_values u)) = us_avatar u" "ur_subject (user_values u) = us_subject u"
  by (simp_all add: scanUser_def user_values_def boolToInt_def)

lemma with_created_same [simp]: "us_subject (with_created now u) = us_subject u"
  "us_avatar (with_created now u) = us_avatar u" "us_id (with_created now u) = us_id u"
  by (simp_all add: with_created_def)

lemma storing_CreateUser:
  assumes "storing CreateUser env u s = (Inr u', s')"
  shows "us_admin u' = us_admin u \<and> us_subject u' = us_subject u \<and> au_users s' = au_users s @ [user_values u']"
  using assms
  by (cases rule: insert_user_cases [of "with_created (av_now env (au_world s)) u" "au_users s"])
    (auto simp: storing_def CreateUser_def Let_def)

lemma storing_Bootstrap:
  assumes "storing CreateUserBootstrapAdmin env u s = (Inr u', s')"
  shows "us_subject u' = us_subject u \<and> au_users s' = au_users s @ [user_values u']"
  using assms
  by (cases rule: insert_user_cases
        [of "(with_created (av_now env (au_world s)) u)\<lparr>us_admin := (length (au_users s) = 0)\<rparr>" "au_users s"])
    (auto simp: storing_def CreateUserBootstrapAdmin_def Let_def)

definition signed_in :: "'w auth_env \<Rightarrow> string \<Rightarrow> bool \<Rightarrow> user \<Rightarrow> user_row list \<Rightarrow> bool" where
  "signed_in env subject admin u rows \<longleftrightarrow> us_subject u = Some subject \<and>
     (groups_configured env \<longrightarrow> us_admin u = admin) \<and>
     (case UserByOIDCSubject subject rows of
        Inl _ \<Rightarrow> False
      | Inr v \<Rightarrow> us_id v = us_id u \<and> us_admin v = us_admin u \<and> us_avatar v = us_avatar u)"

lemma upsert_existing:
  assumes "UserByOIDCSubject subject rows = Inr v"
  shows "UserByOIDCSubject subject (UpdateUserAvatarAndAdmin (us_id v) avatar admin rows) =
    Inr (v\<lparr>us_avatar := avatar, us_admin := admin\<rparr>) \<and> us_subject v = Some subject"
proof -
  define f :: "user_row \<Rightarrow> user_row" where "f = (\<lambda>r. if ur_id r = us_id v then r\<lparr>ur_avatar := avatar, ur_admin := boolToInt admin\<rparr> else r)"
  have p: "(ur_subject (f r) = Some subject) = (ur_subject r = Some subject)" for r by (simp add: f_def)
  obtain r where r: "List.find (\<lambda>r. ur_subject r = Some subject) rows = Some r" "v = scanUser r"
    using assms by (auto simp: UserByOIDCSubject_def userBy_def select_one_def split: option.splits)
  then have "ur_subject r = Some subject" by (auto simp: find_Some_iff)
  moreover have "List.find (\<lambda>r. ur_subject r = Some subject) (map f rows) = Some (f r)"
    using find_map_same [of "\<lambda>r. ur_subject r = Some subject" f rows] p r(1) by simp
  moreover have "UpdateUserAvatarAndAdmin (us_id v) avatar admin rows = map f rows"
    by (simp add: UpdateUserAvatarAndAdmin_def update_where_def f_def)
  moreover have "scanUser (f r) = v\<lparr>us_avatar := avatar, us_admin := admin\<rparr>"
    using r(2) by (simp add: f_def scanUser_def boolToInt_def)
  ultimately show ?thesis
    using r(2) by (simp add: UserByOIDCSubject_def userBy_def select_one_def scanUser_def)
qed

lemma UserByOIDCSubject_new:
  assumes "UserByOIDCSubject subject rows = Inl e" and "us_subject u = Some subject"
  shows "UserByOIDCSubject subject (rows @ [user_values u]) = Inr (scanUser (user_values u))"
proof -
  have "List.find (\<lambda>r. ur_subject r = Some subject) rows = None"
    using assms(1) by (auto simp: UserByOIDCSubject_def userBy_def select_one_def split: option.splits)
  then have "\<not> list_ex (\<lambda>r. ur_subject r = Some subject) rows"
    by (auto simp: find_None_iff list_ex_iff)
  then show ?thesis
    using assms(2) by (simp add: UserByOIDCSubject_def userBy_def select_one_def find_append_new)
qed

lemma upsert_signed_in:
  assumes "upsertOIDCUser env subject email avatar admin s = (Inr u, s')"
  shows "signed_in env subject admin u (au_users s')"
proof (cases "UserByOIDCSubject subject (au_users s)")
  case (Inr v)
  let ?na = "if groups_configured env then admin else us_admin v"
  have "u = v\<lparr>us_avatar := avatar, us_admin := ?na\<rparr>"
    "au_users s' = UpdateUserAvatarAndAdmin (us_id v) avatar ?na (au_users s)"
    using assms Inr by (auto simp: upsertOIDCUser_def flow_run Let_def)
  with upsert_existing [OF Inr, of avatar ?na] show ?thesis by (simp add: signed_in_def)
next
  case (Inl e)
  define nu where "nu = (\<lambda>uid. (new_user uid ''oidc'')\<lparr>us_subject := Some subject, us_avatar := avatar,
    us_admin := admin, us_email := (if email \<noteq> [] then Some (lower_text env email) else None)\<rparr>)"
  have run: "andthen (newUUIDv4 env) (\<lambda>uid. if groups_configured env then storing CreateUser env (nu uid)
      else storing CreateUserBootstrapAdmin env (nu uid)) s = (Inr u, s')"
    using assms Inl unfolding nu_def
    by (cases "email = []") (simp_all add: upsertOIDCUser_def flow_run Let_def split: if_splits)
  then obtain uid s1 where s1: "newUUIDv4 env s = (Inr uid, s1)"
    "(if groups_configured env then storing CreateUser env (nu uid)
      else storing CreateUserBootstrapAdmin env (nu uid)) s1 = (Inr u, s')"
    by (auto simp: andthen_Inr)
  have same: "au_users s1 = au_users s" using spares_run [OF newUUIDv4_frame(1) s1(1)] .
  have "us_subject (nu uid) = Some subject" "us_admin (nu uid) = admin" by (simp_all add: nu_def)
  with s1(2) same have "us_subject u = Some subject" "groups_configured env \<longrightarrow> us_admin u = admin"
    "au_users s' = au_users s @ [user_values u]"
    by (auto split: if_splits dest: storing_CreateUser storing_Bootstrap)
  then show ?thesis using UserByOIDCSubject_new [OF Inl] by (simp add: signed_in_def)
qed


lemma OIDCExchange_run:
  assumes "av_oidc env = Some p" and "op_exchange p code verifier (au_world s) = (Inr (Some rawID), w)"
    and "op_verify p rawID w = (Inr (subject, Inr raw), w')"
    and "key = (if oc_group_claim (cg_oidc (av_cfg env)) = [] then ''groups'' else oc_group_claim (cg_oidc (av_cfg env)))"
  shows "OIDCExchange env code verifier s =
    (case groupsCheck env (claim_groups raw key) of
       (isAdmin, allowed) \<Rightarrow>
         if \<not> allowed then (Inl ErrGroupNotAllowed, s\<lparr>au_world := w'\<rparr>)
         else upsertOIDCUser env subject (claim_text raw ''email'') (claim_text raw ''picture'') isAdmin (s\<lparr>au_world := w'\<rparr>))"
  using assms
  by (simp add: OIDCExchange_def andthen_def wrapping_def outside_def stop_def Let_def split: prod.split)



section \<open>Identifiers\<close>



text \<open>The two bytes that carry the version and the variant.\<close>

definition hex_pair :: "char \<Rightarrow> char \<times> char" where
  "hex_pair c = (hex_digit (of_char c div 16), hex_digit (of_char c))"

lemma or_div_16: "((m AND 15) OR 64) div 16 = (4 :: nat)" "((m AND 63) OR 128) div 16 = 8 + m div 16 mod (4 :: nat)"
proof -
  have "drop_bit 4 ((m AND 15) OR 64) = (4 :: nat)" by (simp add: drop_bit_or drop_bit_and)
  then show "((m AND 15) OR 64) div 16 = (4 :: nat)" by (simp add: drop_bit_eq_div)
  have three: "k AND 3 = k mod 4" for k :: nat
    using take_bit_eq_mask [of 2 k] by (simp add: take_bit_eq_mod mask_eq_exp_minus_1)
  have "drop_bit 4 ((m AND 63) OR 128) = (m div 16 mod 4) OR (8 :: nat)"
    by (simp add: drop_bit_or drop_bit_and drop_bit_eq_div [of 4 m] three)
  moreover have "k OR 8 = 8 + k" if "k < 4" for k :: nat
  proof -
    from that have "k = 0 \<or> k = 1 \<or> k = 2 \<or> k = 3" by linarith
    then show ?thesis by auto
  qed
  ultimately show "((m AND 63) OR 128) div 16 = 8 + m div 16 mod (4 :: nat)"
    by (simp add: drop_bit_eq_div)
qed

lemma octet_high: "(x :: nat) mod 256 div 16 = x div 16 mod 16"
  using mod_mult2_eq [of x 16 16] by simp

lemma version_byte: "fst (hex_pair (set_bits 0x0f 0x40 c)) = CHR ''4''"
  by (simp add: hex_pair_def set_bits_def hex_digit_def octet_high or_div_16)

lemma variant_byte: "fst (hex_pair (set_bits 0x3f 0x80 c)) \<in> set ''89ab''"
proof -
  have "(of_char c :: nat) div 16 mod 4 \<in> {0, 1, 2, 3}" by (simp add: less_Suc_eq_0_disj) linarith
  then show ?thesis
    by (auto simp: hex_pair_def set_bits_def hex_digit_def octet_high or_div_16)
qed

lemma hex_digit_in: "hex_digit n \<in> set ''0123456789abcdef''"
  unfolding hex_digit_def by (rule nth_mem) simp

lemma four_hex: "CHR ''4'' \<in> set ''0123456789abcdef''"
  by simp

lemma hex_pair_in: "fst (hex_pair c) \<in> set ''0123456789abcdef''" "snd (hex_pair c) \<in> set ''0123456789abcdef''"
  by (simp_all only: hex_pair_def fst_conv snd_conv hex_digit_in)

lemma hex_encode_Cons: "hex_encode (c # bs) = fst (hex_pair c) # snd (hex_pair c) # hex_encode bs"
  by (simp add: hex_encode_def hex_pair_def)

lemma hex_encode_Nil: "hex_encode [] = []"
  by (simp add: hex_encode_def)

lemma length_16:
  assumes "length b = 16"
  obtains b0 b1 b2 b3 b4 b5 b6 b7 b8 b9 ba bb bc bd be bf
  where "b = [b0, b1, b2, b3, b4, b5, b6, b7, b8, b9, ba, bb, bc, bd, be, bf]"
  using assms by (auto simp: eval_nat_numeral length_Suc_conv)

definition dash_at :: "nat \<Rightarrow> bool" where
  "dash_at i \<longleftrightarrow> i \<in> {8, 13, 18, 23}"

text \<open>The identifiers are RFC 4122 version 4 UUIDs: 36 characters, dashes at 8, 13, 18 and 23, the
  version digit 4 and the variant digit 8, 9, a or b in their places, lower-case hex digits elsewhere.\<close>

theorem newUUIDv4_format:
  assumes "length b = 16"
  shows "length (uuid_text (uuid_bytes b)) = 36 \<and>
    list_all (\<lambda>i. if dash_at i then uuid_text (uuid_bytes b) ! i = CHR ''-''
        else uuid_text (uuid_bytes b) ! i \<in> set ''0123456789abcdef'') [0..<36] \<and>
    uuid_text (uuid_bytes b) ! 14 = CHR ''4'' \<and> uuid_text (uuid_bytes b) ! 19 \<in> set ''89ab''"
proof -
  obtain b0 b1 b2 b3 b4 b5 b6 b7 b8 b9 ba bb bc bd be bf where
    b: "b = [b0, b1, b2, b3, b4, b5, b6, b7, b8, b9, ba, bb, bc, bd, be, bf]"
    using assms by (rule length_16)
  let ?m = "set_bits 0x0f 0x40 b6" and ?n = "set_bits 0x3f 0x80 b8"
  have "uuid_bytes b = [b0, b1, b2, b3, b4, b5, ?m, b7, ?n, b9, ba, bb, bc, bd, be, bf]"
    by (simp add: uuid_bytes_def b)
  then have "uuid_text (uuid_bytes b) =
      hex_encode [b0, b1, b2, b3] @ ''-'' @ hex_encode [b4, b5] @ ''-'' @ hex_encode [?m, b7] @ ''-'' @
      hex_encode [?n, b9] @ ''-'' @ hex_encode [ba, bb, bc, bd, be, bf]"
    by (simp add: uuid_text_def)
  then show ?thesis
    using version_byte [of b6] variant_byte [of b8] four_hex
    by (simp only: hex_encode_Cons hex_encode_Nil append.simps)
      (simp add: upt_rec dash_at_def hex_pair_in del: set_simps list.set)
qed



section \<open>Concrete inputs\<close>

definition sample_auth_config :: config where
  "sample_auth_config = \<lparr>cg_secret_key = ''k'', cg_base_url = ''https://dav.example.com'', cg_db_path = [],
     cg_listen_addr = [], cg_log_level = LevelInfo, cg_access_mode = ''both'', cg_allow_registration = True,
     cg_allow_private = False, cg_notify_interval = 1, cg_sync_tick = 1, cg_accent_color = [], cg_background = True,
     cg_oidc = \<lparr>oc_issuer = ''i'', oc_client_id = ''c'', oc_client_secret = [], oc_scopes = [], oc_display_name = [],
       oc_admin_groups = [''admins''], oc_user_groups = [''staff''], oc_group_claim = [], oc_only = False,
       oc_post_logout = []\<rparr>,
     cg_smtp = \<lparr>sm_host = [], sm_port = 587, sm_username = [], sm_password = [], sm_from = [],
       sm_encryption = ''starttls''\<rparr>\<rparr>"

text \<open>A deterministic outside world: the clock stands still, the random source repeats a byte, hashing
  keeps the text, and the provider knows one member of the group \<^verbatim>\<open>staff\<close>.\<close>

definition sample_provider :: "'w oidc_provider" where
  "sample_provider = \<lparr>op_auth_url = (\<lambda>s v. s), op_end_session = [],
     op_exchange = (\<lambda>c v w. (Inr (Some ''token''), w)),
     op_verify = (\<lambda>t w. (Inr (''sub'', Inr (\<lambda>k. if k = ''groups'' then Some (ClaimList [ClaimText ''staff'']) else None)), w))\<rparr>"

definition sample_auth :: "go_time \<Rightarrow> 'w auth_env" where
  "sample_auth now = \<lparr>av_cfg = sample_auth_config, av_now = (\<lambda>_. now), av_rand = (\<lambda>n w. (Inr (replicate n CHR ''r''), w)),
     av_sha = (\<lambda>b. b), av_bcrypt = (\<lambda>p w. (Inr p, w)), av_bcrypt_ok = (\<lambda>h p. h = p), av_lower = (\<lambda>s. s),
     av_smtp = (\<lambda>c w. (None, w)), av_oidc = Some sample_provider\<rparr>"

abbreviation unit_auth :: "go_time \<Rightarrow> unit auth_env" where
  "unit_auth \<equiv> sample_auth"

definition sample_state :: "unit auth_state" where
  "sample_state = \<lparr>au_users = sample_users, au_sessions = [], au_resets = [], au_world = ()\<rparr>"

lemma newUUIDv4_format_witness: "uuid_text (uuid_bytes (replicate 16 CHR ''r'')) ! 14 = CHR ''4''"
  using newUUIDv4_format [of "replicate 16 CHR ''r''"] by simp

lemma sample_sign_in: "case fst (OIDCExchange (unit_auth 0) ''code'' ''v'' sample_state) of Inl _ \<Rightarrow> False | Inr u \<Rightarrow> True"
proof -
  have fresh: "uuid_text b \<noteq> ''u1''" for b
    by (simp add: uuid_text_def append_eq_Cons_conv hex_encode_Nil hex_encode_def)
  have run: "OIDCExchange (unit_auth 0) ''code'' ''v'' sample_state =
      upsertOIDCUser (unit_auth 0) ''sub'' [] [] False (sample_state\<lparr>au_world := ()\<rparr>)"
    using OIDCExchange_run [of "unit_auth 0" sample_provider "''code''" "''v''" sample_state "''token''" "()" "''sub''"
        "\<lambda>k. if k = ''groups'' then Some (ClaimList [ClaimText ''staff'']) else None" "()" "''groups''"]
    by (simp add: sample_auth_def sample_provider_def sample_auth_config_def claim_groups_def claim_text_def
        List.map_filter_def groupsCheck_def)
  show ?thesis
    unfolding run
    by (simp add: upsertOIDCUser_def andthen_def peek_def UserByOIDCSubject_def userBy_def select_one_def
        sample_state_def sample_users_def user_values_def sample_user_def newUUIDv4_def wrapping_def outside_def
        pass_def sample_auth_def sample_auth_config_def groups_configured_def storing_def CreateUser_def
        insert_user_def user_clash_def same_value_def user_kinds_def new_user_def with_created_def fresh Let_def)
qed


lemma sample_session:
  "StartSession (unit_auth new_year) (sample_user ''u1'' ''a@x'') sample_state =
     (Inr (sessionCookie (unit_auth new_year) (hex_encode (replicate 32 CHR ''r'')) (time_add new_year sessionTTL)),
      sample_state\<lparr>au_sessions := [\<lparr>sr_id = hex_encode (replicate 32 CHR ''r''), sr_user = ''u1'',
        sr_created = stamp new_year, sr_expires = stamp (time_add new_year sessionTTL)\<rparr>]\<rparr>)"
  by (simp add: StartSession_def newSessionToken_def andthen_def wrapping_def outside_def clock_def peek_def pass_def
      sample_auth_def returns_err_def CreateSession_def sample_state_def sample_user_def sessionCookie_def
      time_is_zero_def new_year_def Let_def)

lemma sample_year_plain: "plain_year (time_add new_year sessionTTL)"
  by code_simp


text \<open>A pending reset of the sample user, for the token \<^verbatim>\<open>t\<close>.\<close>

definition sample_reset_state :: "unit auth_state" where
  "sample_reset_state = sample_state\<lparr>au_resets := [\<lparr>pr_hash = hex_encode ''t'', pr_user = ''u1'',
     pr_expires = stamp (new_year + second)\<rparr>]\<rparr>"

lemma sample_reset_confirms: "\<exists>s'. ConfirmPasswordReset (unit_auth new_year) ''t'' ''new'' sample_reset_state = (Inr (), s')"
proof -
  have plain: "go_trim_space ''new'' \<noteq> []"
    by (subst go_trim_space_plain) (simp_all add: starts_plain_def plain_char_def)
  have live: "\<not> time_after new_year (parseTime (stamp (new_year + second)))"
    using new_year_plain(2) by (simp add: parseTime_stamp time_after_def unix_secs_def new_year_def)
  show ?thesis
    using plain live
    by (simp add: ConfirmPasswordReset_def andthen_def peek_def clock_def modify_def hashPassword_def wrapping_def
        outside_def returns_err_def PasswordResetByTokenHash_def select_one_def hashSecret_def sample_reset_state_def
        sample_auth_def UpdateUserPassword_def update_where_def checkAffected_def sample_state_def sample_users_def
        user_values_def sample_user_def)
qed


end
