(* ===== verification/Server_Core.thy ===== *)
theory Server_Core
  imports Auth Feed Notify Davsync Dav_Preview
begin

text \<open>
  \<^verbatim>\<open>internal/server\<close>, common parts: the application state the handlers share (\<^verbatim>\<open>app.App\<close> over the tables
  of the store), requests and responses, and the guards every handler starts with. A handler is a
  function with an early return: the response it wrote when it returned early, or the one at its end.
  Bodies stay values; JSON text, the routing of \<^verbatim>\<open>net/http\<close> and logging are not modelled.
\<close>


section \<open>State\<close>

record 'w app_state = "'w auth_state" +
  ap_feeds :: "feed_row list"
  ap_jobs :: "job_row list"
  ap_audit :: "audit_row list"
  ap_cache :: "cache_row list"
  ap_running :: running


section \<open>Requests and responses\<close>

record request =
  rq_cookies :: cookies
  rq_path :: "string \<Rightarrow> string"
  rq_query :: "string \<Rightarrow> string"
  rq_header :: "string \<Rightarrow> string"
  rq_basic :: "(string \<times> string) option"
  rq_body :: bytes

record user_response =
  uo_id :: string
  uo_email :: "string option"
  uo_kind :: string
  uo_admin :: bool
  uo_avatar :: string

record session_response =
  so_authenticated :: bool
  so_user :: "user_response option"
  so_access_mode :: string
  so_oidc_enabled :: bool
  so_oidc_display_name :: string
  so_oidc_only :: bool
  so_registration_enabled :: bool
  so_mail_enabled :: bool
  so_accent_color :: string
  so_background :: bool

record feed_source_dto =
  sd_url :: string
  sd_username :: string
  sd_password :: string
  sd_has_password :: bool
  sd_clear_password :: bool
  sd_last_fetched :: string

record notifications_response =
  no_webhook_url :: string
  no_ntfy_server :: string
  no_ntfy_topic :: string
  no_gotify_server :: string
  no_gotify_token_set :: bool
  no_triggers :: "string list"
  no_stale_hours :: int

record feed_response =
  fo_id :: string
  fo_name :: string
  fo_secret :: string
  fo_ics_url :: string
  fo_sources :: "feed_source_dto list"
  fo_rules :: bytes
  fo_ttl :: int
  fo_basic_user :: string
  fo_basic_enabled :: bool
  fo_notifications :: notifications_response
  fo_last_served :: string
  fo_serve_count :: int
  fo_created :: string
  fo_updated :: string

record job_response =
  jo_id :: string
  jo_name :: string
  jo_kind :: string
  jo_direction :: string
  jo_conflict :: string
  jo_a_url :: string
  jo_a_username :: string
  jo_a_password_set :: bool
  jo_b_url :: string
  jo_b_username :: string
  jo_b_password_set :: bool
  jo_interval :: int
  jo_enabled :: bool
  jo_window_start :: string
  jo_window_end :: string
  jo_last_run :: string
  jo_last_status :: string
  jo_created :: string
  jo_updated :: string

record audit_dto =
  ao_id :: int
  ao_email :: string
  ao_action :: string
  ao_target :: string
  ao_detail :: string
  ao_created :: string

datatype payload =
    NoBody
  | PlainNotFound
  | ErrorBody string
  | HealthBody string string
  | SessionBody session_response
  | SecretBody string "user_response option"
  | FeedBody feed_response
  | FeedsBody "feed_response list"
  | PreviewBody "event_summary list" "event_summary list"
  | CheckBody bool nat string
  | AuditBody "audit_dto list"
  | JobBody job_response
  | JobsBody "job_response list"
  | SyncPreviewBody "preview_entry list" "preview_entry list" "preview_entry list"
  | CalendarBody bytes

record response =
  rs_status :: int
  rs_headers :: "(string \<times> string) list"
  rs_cookies :: "cookie list"
  rs_body :: payload

definition writeJSON :: "int \<Rightarrow> payload \<Rightarrow> response" where
  "writeJSON status v = \<lparr>rs_status = status, rs_headers = [(''Content-Type'', ''application/json'')],
     rs_cookies = [], rs_body = v\<rparr>"

definition writeError :: "int \<Rightarrow> string \<Rightarrow> response" where
  "writeError status msg = writeJSON status (ErrorBody msg)"

definition write_status :: "int \<Rightarrow> response" where
  "write_status status = \<lparr>rs_status = status, rs_headers = [], rs_cookies = [], rs_body = NoBody\<rparr>"

definition serverError :: response where
  "serverError = writeError 500 ''internal server error''"

text \<open>\<^verbatim>\<open>http.NotFound\<close> and \<^verbatim>\<open>http.Redirect\<close>.\<close>

definition not_found :: response where
  "not_found = \<lparr>rs_status = 404, rs_headers = [(''Content-Type'', ''text/plain; charset=utf-8'')], rs_cookies = [],
     rs_body = PlainNotFound\<rparr>"

definition redirect :: "string \<Rightarrow> response" where
  "redirect url = \<lparr>rs_status = 302, rs_headers = [(''Location'', url)], rs_cookies = [], rs_body = NoBody\<rparr>"

definition with_cookies :: "cookie list \<Rightarrow> response \<Rightarrow> response" where
  "with_cookies cks r = r\<lparr>rs_cookies := cks\<rparr>"


section \<open>Handlers\<close>

type_synonym ('w, 'a) handler = "('w app_state, response, 'a) flow"

definition answer :: "('w, response) handler \<Rightarrow> 'w app_state \<Rightarrow> response \<times> 'w app_state" where
  "answer h s = (case h s of (Inl r, s') \<Rightarrow> (r, s') | (Inr r, s') \<Rightarrow> (r, s'))"

text \<open>A method whose error becomes a response; a decoded request body (\<^verbatim>\<open>decodeJSON\<close>, whose
  \<^verbatim>\<open>encoding/json\<close> part is the argument).\<close>

definition or_respond :: "('s, go_error, 'a) flow \<Rightarrow> (go_error \<Rightarrow> response) \<Rightarrow> ('s, response, 'a) flow" where
  "or_respond m f s = (case m s of (Inl e, s') \<Rightarrow> (Inl (f e), s') | (Inr x, s') \<Rightarrow> (Inr x, s'))"

definition decodeJSON :: "(bytes \<Rightarrow> 'q result) \<Rightarrow> request \<Rightarrow> ('s, response, 'q) flow" where
  "decodeJSON decode rq =
     (case decode (rq_body rq) of Inl _ \<Rightarrow> stop (writeError 400 ''invalid request body'') | Inr q \<Rightarrow> pass q)"

definition requireUser :: "'w auth_env \<Rightarrow> request \<Rightarrow> ('w, user) handler" where
  "requireUser env rq = or_respond (UserFromRequest env (rq_cookies rq))
     (\<lambda>_. writeError 401 ''authentication required'')"

definition requireAdmin :: "'w auth_env \<Rightarrow> request \<Rightarrow> ('w, user) handler" where
  "requireAdmin env rq =
     andthen (requireUser env rq) (\<lambda>u.
       if \<not> us_admin u then stop (writeError 403 ''admin access required'') else pass u)"

definition randomToken :: "'w auth_env \<Rightarrow> ('w, 'x, string) auth_flow" where
  "randomToken env = andthen (outside (av_rand env 16)) (\<lambda>b. pass (hex_encode b))"

definition audit :: "'w auth_env \<Rightarrow> user \<Rightarrow> string \<Rightarrow> string \<Rightarrow> string \<Rightarrow> ('w, unit) handler" where
  "audit env u action target detail =
     modify (\<lambda>s. s\<lparr>ap_audit := Record (av_now env (au_world s)) (Some u) action target detail (ap_audit s)\<rparr>)"

definition toUserResponse :: "user option \<Rightarrow> user_response option" where
  "toUserResponse u =
     (case u of
        None \<Rightarrow> None
      | Some u \<Rightarrow> Some \<lparr>uo_id = us_id u, uo_email = us_email u, uo_kind = us_kind u, uo_admin = us_admin u,
                        uo_avatar = us_avatar u\<rparr>)"

definition sessionPayload :: "'w auth_env \<Rightarrow> user option \<Rightarrow> session_response" where
  "sessionPayload env u =
     \<lparr>so_authenticated = (u \<noteq> None), so_user = toUserResponse u, so_access_mode = cg_access_mode (av_cfg env),
      so_oidc_enabled = OIDCEnabled env, so_oidc_display_name = OIDCDisplayName env, so_oidc_only = OIDCOnly env,
      so_registration_enabled = RegistrationEnabled env, so_mail_enabled = MailEnabled env,
      so_accent_color = cg_accent_color (av_cfg env), so_background = cg_background (av_cfg env)\<rparr>"

text \<open>An answer that starts a session: the cookie goes out with it.\<close>

definition signed_in_as :: "'w auth_env \<Rightarrow> user \<Rightarrow> response \<Rightarrow> ('w, response) handler" where
  "signed_in_as env u r =
     andthen (or_respond (StartSession env u) (\<lambda>_. serverError)) (\<lambda>ck. pass (with_cookies [ck] r))"

end
