(* ===== verification/Server_Auth.thy ===== *)
theory Server_Auth
  imports Server_Core
begin

text \<open>
  \<^verbatim>\<open>internal/server/handlers.go\<close>: the handlers for sessions, accounts and OIDC sign-in, and the public
  calendar endpoint with its conditional GET. The PKCE verifier of \<^verbatim>\<open>oauth2\<close> and the query editing of
  \<^verbatim>\<open>net/url\<close> in the logout link are arguments.
\<close>

definition oidcStateCookie :: string where "oidcStateCookie = ''tidydav_oidc_state''"
definition oidcVerifierCookie :: string where "oidcVerifierCookie = ''tidydav_oidc_verifier''"

record credentials =
  cr_email :: string
  cr_password :: string

record reset_confirm =
  rc_token :: string
  rc_password :: string

definition handleHealth :: "string \<Rightarrow> ('w, response) handler" where
  "handleHealth version = pass (writeJSON 200 (HealthBody ''ok'' version))"

definition handleSession :: "'w auth_env \<Rightarrow> request \<Rightarrow> ('w, response) handler" where
  "handleSession env rq =
     andthen (attempt (UserFromRequest env (rq_cookies rq))) (\<lambda>u.
       pass (writeJSON 200 (SessionBody (sessionPayload env (case u of Inl _ \<Rightarrow> None | Inr u \<Rightarrow> Some u)))))"

definition register_error :: "go_error \<Rightarrow> response" where
  "register_error e =
     (if err_is e ErrRegistrationClosed then writeError 403 ''registration is disabled''
      else if err_is e ErrEmailTaken then writeError 409 ''email already registered''
      else if err_is e ErrInvalidCredentials then writeError 400 ''email and password are required''
      else serverError)"

definition handleRegister :: "'w auth_env \<Rightarrow> (bytes \<Rightarrow> credentials result) \<Rightarrow> request \<Rightarrow> ('w, response) handler" where
  "handleRegister env decode rq =
     andthen (decodeJSON decode rq) (\<lambda>q.
     andthen (or_respond (Register env (cr_email q) (cr_password q)) register_error) (\<lambda>u.
       signed_in_as env u (writeJSON 201 (SessionBody (sessionPayload env (Some u))))))"

definition handleLogin :: "'w auth_env \<Rightarrow> (bytes \<Rightarrow> credentials result) \<Rightarrow> request \<Rightarrow> ('w, response) handler" where
  "handleLogin env decode rq =
     (if OIDCOnly env then stop (writeError 403 ''password login is disabled; use OIDC'')
      else andthen (decodeJSON decode rq) (\<lambda>q.
        andthen (or_respond (Authenticate env (cr_email q) (cr_password q))
          (\<lambda>e. if err_is e ErrInvalidCredentials then writeError 401 ''invalid email or password'' else serverError)) (\<lambda>u.
          signed_in_as env u (writeJSON 200 (SessionBody (sessionPayload env (Some u)))))))"

definition handleLogout :: "'w auth_env \<Rightarrow> request \<Rightarrow> ('w, response) handler" where
  "handleLogout env rq =
     andthen (or_respond (Logout env (rq_cookies rq)) (\<lambda>_. serverError)) (\<lambda>ck. pass (with_cookies [ck] (write_status 204)))"

definition handleSecret :: "'w auth_env \<Rightarrow> ('w, response) handler" where
  "handleSecret env =
     andthen (or_respond (CreateSecretUser env)
       (\<lambda>e. if err_is e ErrAnonymousDisabled then writeError 403 ''anonymous access is disabled'' else serverError)) (\<lambda>(u, secret).
       signed_in_as env u (writeJSON 200 (SecretBody secret (toUserResponse (Some u)))))"


section \<open>OIDC\<close>

definition secureCookies :: "Config.config \<Rightarrow> bool" where
  "secureCookies cfg = has_prefix (cg_base_url cfg) ''https://''"

definition oidc_cookie :: "'w auth_env \<Rightarrow> string \<Rightarrow> string \<Rightarrow> cookie" where
  "oidc_cookie env name v =
     \<lparr>ck_name = name, ck_value = v, ck_path = ''/'', ck_http_only = True, ck_secure = secureCookies (av_cfg env),
      ck_same_site = SameSiteLax, ck_expires = None, ck_max_age = 600\<rparr>"

definition cleared_cookie :: "string \<Rightarrow> cookie" where
  "cleared_cookie name =
     \<lparr>ck_name = name, ck_value = [], ck_path = ''/'', ck_http_only = False, ck_secure = False,
      ck_same_site = SameSiteDefault, ck_expires = None, ck_max_age = - 1\<rparr>"

definition handleOIDCLogin :: "'w auth_env \<Rightarrow> ('w \<Rightarrow> string \<times> 'w) \<Rightarrow> ('w, response) handler" where
  "handleOIDCLogin env generateVerifier =
     andthen (or_respond (randomToken env) (\<lambda>_. serverError)) (\<lambda>state.
     andthen (or_respond (outside (\<lambda>w. case generateVerifier w of (v, w') \<Rightarrow> (Inr v, w'))) (\<lambda>_. serverError)) (\<lambda>verifier.
       case OIDCAuthCodeURL env state verifier of
         Inl e \<Rightarrow> stop (if err_is e ErrOIDCNotConfigured then writeError 404 ''oidc is not configured'' else serverError)
       | Inr authURL \<Rightarrow>
           pass (with_cookies [oidc_cookie env oidcStateCookie state, oidc_cookie env oidcVerifierCookie verifier]
             (redirect authURL))))"

definition handleOIDCCallback :: "'w auth_env \<Rightarrow> request \<Rightarrow> ('w, response) handler" where
  "handleOIDCCallback env rq =
     (case map_of (rq_cookies rq) oidcStateCookie of
        None \<Rightarrow> stop (writeError 400 ''invalid oauth state'')
      | Some state \<Rightarrow>
          if state = [] \<or> state \<noteq> rq_query rq ''state'' then stop (writeError 400 ''invalid oauth state'')
          else case map_of (rq_cookies rq) oidcVerifierCookie of
            None \<Rightarrow> stop (writeError 400 ''missing pkce verifier'')
          | Some verifier \<Rightarrow>
              if verifier = [] then stop (writeError 400 ''missing pkce verifier'')
              else if rq_query rq ''code'' = [] then stop (writeError 400 ''missing authorization code'')
              else andthen (or_respond (OIDCExchange env (rq_query rq ''code'') verifier)
                  (\<lambda>e. if err_is e ErrGroupNotAllowed then writeError 403 ''your account is not in an allowed group''
                       else serverError)) (\<lambda>u.
                andthen (or_respond (StartSession env u) (\<lambda>_. serverError)) (\<lambda>ck.
                  pass (with_cookies [ck, cleared_cookie oidcStateCookie, cleared_cookie oidcVerifierCookie]
                    (redirect ''/''))))
     )"

definition handleOIDCLogout ::
  "'w auth_env \<Rightarrow> (string \<Rightarrow> string \<Rightarrow> string \<Rightarrow> string) \<Rightarrow> request \<Rightarrow> ('w, response) handler" where
  "handleOIDCLogout env with_query rq =
     andthen (or_respond (Logout env (rq_cookies rq)) (\<lambda>_. serverError)) (\<lambda>ck.
       pass (with_cookies [ck]
         (let endSession = OIDCEndSessionURL env in
          if endSession = [] then redirect ''/''
          else if url_parse endSession = None then redirect ''/''
          else let target = (if oc_post_logout (cg_oidc (av_cfg env)) = [] then cg_base_url (av_cfg env) @ ''/''
                             else oc_post_logout (cg_oidc (av_cfg env)))
               in redirect (with_query endSession (oc_client_id (cg_oidc (av_cfg env))) target))))"


section \<open>Password resets\<close>

definition handleResetRequest :: "'w auth_env \<Rightarrow> (bytes \<Rightarrow> string result) \<Rightarrow> request \<Rightarrow> ('w, response) handler" where
  "handleResetRequest env decode rq =
     andthen (decodeJSON decode rq) (\<lambda>email.
     andthen (attempt (RequestPasswordReset env email)) (\<lambda>_. pass (write_status 204)))"

definition handleResetConfirm :: "'w auth_env \<Rightarrow> (bytes \<Rightarrow> reset_confirm result) \<Rightarrow> request \<Rightarrow> ('w, response) handler" where
  "handleResetConfirm env decode rq =
     andthen (decodeJSON decode rq) (\<lambda>q.
     andthen (or_respond (ConfirmPasswordReset env (rc_token q) (rc_password q))
       (\<lambda>e. if err_is e ErrInvalidResetToken then writeError 400 ''invalid or expired reset link''
            else if err_is e ErrInvalidCredentials then writeError 400 ''a new password is required''
            else serverError)) (\<lambda>_.
       pass (write_status 204)))"


section \<open>The public calendar\<close>

definition entityTag :: "(bytes \<Rightarrow> bytes) \<Rightarrow> bytes \<Rightarrow> string" where
  "entityTag sha body = [CHR 0x22] @ hex_encode (take 16 (sha body)) @ [CHR 0x22]"

definition etagMatches :: "string \<Rightarrow> string \<Rightarrow> bool" where
  "etagMatches header etag =
     (let header = go_trim_space header in
      if header = [] then False
      else if header = ''*'' then True
      else let etag = trim_prefix etag ''W/''
           in list_ex (\<lambda>candidate. trim_prefix (go_trim_space candidate) ''W/'' = etag) (split_char CHR '','' header))"

definition validBasicAuth :: "'w auth_env \<Rightarrow> request \<Rightarrow> feed \<Rightarrow> bool" where
  "validBasicAuth env rq f =
     (case rq_basic rq of
        None \<Rightarrow> False
      | Some (user, pw) \<Rightarrow> if user \<noteq> fd_basic_user f then False else av_bcrypt_ok env (fd_basic_hash f) pw)"

definition rendering :: "('w \<times> cache_row list \<Rightarrow> 'a result \<times> 'w \<times> cache_row list) \<Rightarrow> ('w app_state, go_error, 'a) flow" where
  "rendering f s = (case f (au_world s, ap_cache s) of (r, w, c) \<Rightarrow> (r, s\<lparr>au_world := w, ap_cache := c\<rparr>))"

definition markServed :: "'w auth_env \<Rightarrow> string \<Rightarrow> ('w, unit) handler" where
  "markServed env fid = modify (\<lambda>s. s\<lparr>ap_feeds := MarkFeedServed (av_now env (au_world s)) fid (ap_feeds s)\<rparr>)"

definition calendar_headers :: "string \<Rightarrow> (string \<times> string) list" where
  "calendar_headers etag = [(''Content-Type'', ''text/calendar; charset=utf-8''), (''Cache-Control'', ''no-cache''), (''ETag'', etag)]"

definition calendar_response :: "string \<Rightarrow> string \<Rightarrow> bytes \<Rightarrow> response" where
  "calendar_response header etag body =
     (if etagMatches header etag
      then \<lparr>rs_status = 304, rs_headers = calendar_headers etag, rs_cookies = [], rs_body = NoBody\<rparr>
      else \<lparr>rs_status = 200, rs_headers = calendar_headers etag, rs_cookies = [], rs_body = CalendarBody body\<rparr>)"

definition handleICS ::
  "'w auth_env \<Rightarrow> json_lib \<Rightarrow> ('w, cache_row list, 're, 'l) feed_env \<Rightarrow> request \<Rightarrow> ('w, response) handler" where
  "handleICS env js feeds rq =
     andthen (or_respond (\<lambda>s. (FeedBySecret js (rq_path rq ''secret'') (ap_feeds s), s))
       (\<lambda>e. if err_is e ErrNotFound then not_found else serverError)) (\<lambda>f.
       if fd_basic_hash f \<noteq> [] \<and> \<not> validBasicAuth env rq f then
         stop ((writeError 401 ''authentication required'')
           \<lparr>rs_headers := [(''WWW-Authenticate'', ''Basic realm='' @ [CHR 0x22] @ ''TidyDAV'' @ [CHR 0x22]),
              (''Content-Type'', ''application/json'')]\<rparr>)
       else andthen (or_respond (rendering (Render feeds f)) (\<lambda>_. writeError 502 ''feed could not be rendered'')) (\<lambda>body.
         let r = calendar_response (rq_header rq ''If-None-Match'') (entityTag (av_sha env) body) body in
         andthen (markServed env (fd_id f)) (\<lambda>_. pass r)))"

end
