(* ===== verification/Server_Feeds.thy ===== *)
theory Server_Feeds
  imports Server_Auth
begin

text \<open>
  \<^verbatim>\<open>internal/server/feeds.go\<close> and \<^verbatim>\<open>internal/server/notifications.go\<close>: the handlers of the feed API, the
  merging of write-only secrets into an update, and the response shapes that must not carry them. The
  JSON decoders and encoders are fields of \<open>server_env\<close>.
\<close>


section \<open>Requests and environment\<close>

record notifications_dto =
  nd_webhook_url :: string
  nd_ntfy_server :: string
  nd_ntfy_topic :: string
  nd_gotify_server :: string
  nd_gotify_token :: string
  nd_triggers :: "string list"
  nd_stale_hours :: int

record feed_request =
  fq_id :: string
  fq_name :: string
  fq_sources :: "feed_source_dto list"
  fq_rules :: bytes
  fq_ttl :: int
  fq_basic_user :: string
  fq_basic_password :: string
  fq_notifications :: "notifications_dto option"

record source_check =
  sq_id :: string
  sq_url :: string
  sq_username :: string
  sq_password :: string

record notify_test =
  nt_id :: string
  nt_channel :: string
  nt_webhook_url :: string
  nt_ntfy_server :: string
  nt_ntfy_topic :: string
  nt_gotify_server :: string
  nt_gotify_token :: string

record ('w, 're, 'l, 'v) server_env =
  sv_auth :: "'w auth_env"
  sv_json :: json_lib
  sv_feed :: "('w, cache_row list, 're, 'l) feed_env"
  sv_run :: "('w, 'l, 'v) runner_env"
  sv_body :: "('l, 'v) body_lib"
  sv_notify :: "'w notify_env"
  sv_decode_feed :: "bytes \<Rightarrow> feed_request result"
  sv_decode_check :: "bytes \<Rightarrow> source_check result"
  sv_decode_test :: "bytes \<Rightarrow> notify_test result"
  sv_notif_marshal :: "feed_notifications \<Rightarrow> bytes result"
  sv_notif_unmarshal :: "bytes \<Rightarrow> go_error option \<times> feed_notifications"

abbreviation error_string :: "('w, 're, 'l, 'v) server_env \<Rightarrow> go_error \<Rightarrow> string" where
  "error_string env \<equiv> error_text (sv_run env)"

abbreviation now_of :: "('w, 're, 'l, 'v) server_env \<Rightarrow> 'w app_state \<Rightarrow> go_time" where
  "now_of env s \<equiv> av_now (sv_auth env) (au_world s)"


section \<open>Notifications\<close>

definition empty_notifications :: feed_notifications where
  "empty_notifications = \<lparr>fn_webhook_url = [], fn_ntfy_server = [], fn_ntfy_topic = [], fn_gotify_server = [],
     fn_gotify_token = [], fn_triggers = [], fn_stale_hours = 0\<rparr>"

definition parseNotifications :: "('w, 're, 'l, 'v) server_env \<Rightarrow> bytes \<Rightarrow> feed_notifications" where
  "parseNotifications env raw = (if raw \<noteq> [] then snd (sv_notif_unmarshal env raw) else empty_notifications)"

definition requested_notifications :: "notifications_dto \<Rightarrow> feed_notifications" where
  "requested_notifications q = \<lparr>fn_webhook_url = go_trim_space (nd_webhook_url q),
     fn_ntfy_server = go_trim_space (nd_ntfy_server q), fn_ntfy_topic = go_trim_space (nd_ntfy_topic q),
     fn_gotify_server = go_trim_space (nd_gotify_server q), fn_gotify_token = nd_gotify_token q,
     fn_triggers = nd_triggers q, fn_stale_hours = (if nd_stale_hours q < 0 then 0 else nd_stale_hours q)\<rparr>"

definition merged_notifications ::
  "('w, 're, 'l, 'v) server_env \<Rightarrow> notifications_dto \<Rightarrow> feed option \<Rightarrow> feed_notifications" where
  "merged_notifications env q existing =
     (let n = requested_notifications q in
      case existing of
        Some f \<Rightarrow>
          if fn_gotify_token n = [] \<and> fn_gotify_server n \<noteq> [] then
            (let prev = parseNotifications env (fd_notifications f)
             in if fn_gotify_token prev \<noteq> [] then n\<lparr>fn_gotify_token := fn_gotify_token prev\<rparr> else n)
          else n
      | None \<Rightarrow> n)"

definition buildNotifications ::
  "('w, 're, 'l, 'v) server_env \<Rightarrow> notifications_dto option \<Rightarrow> feed option \<Rightarrow> bytes result" where
  "buildNotifications env q existing =
     (case q of
        None \<Rightarrow>
          (case existing of
             Some f \<Rightarrow> if fd_notifications f \<noteq> [] then Inr (fd_notifications f) else Inr ''{}''
           | None \<Rightarrow> Inr ''{}'')
      | Some q \<Rightarrow> sv_notif_marshal env (merged_notifications env q existing))"

definition toNotificationsResponse :: "('w, 're, 'l, 'v) server_env \<Rightarrow> bytes \<Rightarrow> notifications_response" where
  "toNotificationsResponse env raw =
     (let n = parseNotifications env raw in
      \<lparr>no_webhook_url = fn_webhook_url n, no_ntfy_server = fn_ntfy_server n, no_ntfy_topic = fn_ntfy_topic n,
       no_gotify_server = fn_gotify_server n, no_gotify_token_set = (fn_gotify_token n \<noteq> []),
       no_triggers = fn_triggers n, no_stale_hours = fn_stale_hours n\<rparr>)"


section \<open>Request helpers\<close>

definition rulesOrDefault :: "bytes \<Rightarrow> bytes" where
  "rulesOrDefault raw = (if raw = [] then ''[]'' else raw)"

definition normalizeTTL :: "int \<Rightarrow> int" where
  "normalizeTTL ttl = (if ttl < 0 then 0 else ttl)"

definition toStoreSources :: "feed_source_dto list \<Rightarrow> feed_source list" where
  "toStoreSources = map (\<lambda>d. \<lparr>fs_url = go_trim_space (sd_url d), fs_username = sd_username d, fs_password = sd_password d\<rparr>)"

definition http_url :: "string \<Rightarrow> bool" where
  "http_url raw =
     (case url_parse raw of
        None \<Rightarrow> False
      | Some u \<Rightarrow> (url_scheme u = ''http'' \<or> url_scheme u = ''https'') \<and> url_host u \<noteq> [])"

definition validateRules :: "('w, 're, 'l, 'v) server_env \<Rightarrow> bytes \<Rightarrow> response option" where
  "validateRules env raw =
     (if raw = [] then None
      else case ve_rules (sv_feed env) raw of
        Inl _ \<Rightarrow> Some (writeError 400 ''rules must be a JSON array'')
      | Inr configs \<Rightarrow>
          (case BuildPipeline (ve_pipe (sv_feed env)) configs of
             Inl e \<Rightarrow> Some (writeError 400 (error_string env e))
           | Inr _ \<Rightarrow> None))"

definition validateFeedRequest :: "('w, 're, 'l, 'v) server_env \<Rightarrow> feed_request \<Rightarrow> response option" where
  "validateFeedRequest env q =
     (if go_trim_space (fq_name q) = [] then Some (writeError 400 ''name is required'')
      else if \<not> list_all (\<lambda>src. http_url (sd_url src)) (fq_sources q) then
        Some (writeError 400 ''each source needs a valid http(s) URL'')
      else validateRules env (fq_rules q))"

definition refuse :: "response option \<Rightarrow> ('w, unit) handler" where
  "refuse r = (case r of None \<Rightarrow> pass () | Some r \<Rightarrow> stop r)"

definition resolveBasicAuth ::
  "'w auth_env \<Rightarrow> string \<Rightarrow> string \<Rightarrow> feed option \<Rightarrow> ('w, 'x, string \<times> string) auth_flow" where
  "resolveBasicAuth env user0 password existing =
     (let user = go_trim_space user0 in
      if user = [] then
        (if password \<noteq> [] then stop (ErrNew ''basic auth needs a username as well as a password'')
         else pass ([], []))
      else if password \<noteq> [] then andthen (outside (av_bcrypt env password)) (\<lambda>h. pass (user, h))
      else case existing of
        Some f \<Rightarrow>
          if fd_basic_hash f \<noteq> [] then pass (user, fd_basic_hash f)
          else stop (ErrNew ''basic auth password is required'')
      | None \<Rightarrow> stop (ErrNew ''basic auth password is required''))"

text \<open>The stored passwords by URL (the last one of a URL counts), and one source of the update.\<close>

definition stored_passwords :: "feed_source list \<Rightarrow> (string, string) go_map" where
  "stored_passwords sources =
     fold (\<lambda>src m. if fs_password src \<noteq> [] then map_put (fs_url src) (fs_password src) m else m) sources []"

definition preserve_source ::
  "(string, string) go_map \<Rightarrow> feed_source list \<Rightarrow> feed_source_dto list \<Rightarrow> nat \<Rightarrow> feed_source \<Rightarrow> feed_source" where
  "preserve_source byURL old dtos i src =
     (if i < length dtos \<and> sd_clear_password (dtos ! i) then src
      else if fs_password src \<noteq> [] then src
      else case map_get byURL (fs_url src) of
        Some pw \<Rightarrow> src\<lparr>fs_password := pw\<rparr>
      | None \<Rightarrow>
          if i < length old \<and> fs_password (old ! i) \<noteq> [] then src\<lparr>fs_password := fs_password (old ! i)\<rparr>
          else src)"

definition preserveSourceSecrets ::
  "feed_source list \<Rightarrow> feed_source_dto list \<Rightarrow> feed option \<Rightarrow> feed_source list" where
  "preserveSourceSecrets sources dtos existing =
     (case existing of
        None \<Rightarrow> sources
      | Some f \<Rightarrow>
          map (\<lambda>(i, src). preserve_source (stored_passwords (fd_sources f)) (fd_sources f) dtos i src)
            (List.enumerate 0 sources))"


section \<open>Responses\<close>

definition source_dto :: "cache_row list \<Rightarrow> feed_source \<Rightarrow> feed_source_dto" where
  "source_dto cache src =
     (let fetched = CachedFeedFetchedAt (fs_url src) cache in
      \<lparr>sd_url = fs_url src, sd_username = fs_username src, sd_password = [],
       sd_has_password = (fs_password src \<noteq> []), sd_clear_password = False, sd_last_fetched = formatTime fetched\<rparr>)"

definition toFeedResponse :: "('w, 're, 'l, 'v) server_env \<Rightarrow> cache_row list \<Rightarrow> feed \<Rightarrow> feed_response" where
  "toFeedResponse env cache f =
     \<lparr>fo_id = fd_id f, fo_name = fd_name f, fo_secret = fd_secret f,
      fo_ics_url = cg_base_url (av_cfg (sv_auth env)) @ ''/ics/'' @ fd_secret f,
      fo_sources = map (source_dto cache) (fd_sources f), fo_rules = rulesOrDefault (fd_rules f), fo_ttl = fd_ttl f,
      fo_basic_user = fd_basic_user f, fo_basic_enabled = (fd_basic_hash f \<noteq> []),
      fo_notifications = toNotificationsResponse env (fd_notifications f),
      fo_last_served = formatTime (fd_last_served f), fo_serve_count = fd_serve_count f,
      fo_created = stamp (fd_created f), fo_updated = stamp (fd_updated f)\<rparr>"

definition feed_answer :: "('w, 're, 'l, 'v) server_env \<Rightarrow> int \<Rightarrow> feed \<Rightarrow> ('w, response) handler" where
  "feed_answer env status f = peek (\<lambda>s. writeJSON status (FeedBody (toFeedResponse env (ap_cache s) f)))"


section \<open>Reading and writing the feed table\<close>

definition ownedFeed :: "('w, 're, 'l, 'v) server_env \<Rightarrow> request \<Rightarrow> user \<Rightarrow> ('w, feed) handler" where
  "ownedFeed env rq u s =
     (case FeedByID (sv_json env) (rq_path rq ''id'') (ap_feeds s) of
        Inl e \<Rightarrow> (Inl (if err_is e ErrNotFound then not_found else serverError), s)
      | Inr f \<Rightarrow> if fd_user f \<noteq> us_id u then (Inl not_found, s) else (Inr f, s))"

text \<open>The two writes also set the times of the caller's feed.\<close>

definition create_feed :: "('w, 're, 'l, 'v) server_env \<Rightarrow> feed \<Rightarrow> ('w app_state, go_error, feed) flow" where
  "create_feed env f s =
     (let now = now_of env s;
          f' = f\<lparr>fd_created := (if time_is_zero (fd_created f) then now else fd_created f), fd_updated := now\<rparr>
      in case CreateFeed (sv_json env) now f (ap_feeds s) of
           (None, rows) \<Rightarrow> (Inr f', s\<lparr>ap_feeds := rows\<rparr>)
         | (Some e, rows) \<Rightarrow> (Inl e, s\<lparr>ap_feeds := rows\<rparr>))"

definition update_feed :: "('w, 're, 'l, 'v) server_env \<Rightarrow> feed \<Rightarrow> ('w app_state, go_error, feed) flow" where
  "update_feed env f s =
     (let now = now_of env s
      in case UpdateFeed (sv_json env) now f (ap_feeds s) of
           (None, rows) \<Rightarrow> (Inr (f\<lparr>fd_updated := now\<rparr>), s\<lparr>ap_feeds := rows\<rparr>)
         | (Some e, rows) \<Rightarrow> (Inl e, s\<lparr>ap_feeds := rows\<rparr>))"


section \<open>Handlers\<close>

definition handleListFeeds :: "('w, 're, 'l, 'v) server_env \<Rightarrow> request \<Rightarrow> ('w, response) handler" where
  "handleListFeeds env rq =
     andthen (requireUser (sv_auth env) rq) (\<lambda>u.
     andthen (or_respond (\<lambda>s. (FeedsByUser (sv_json env) (us_id u) (ap_feeds s), s)) (\<lambda>_. serverError)) (\<lambda>feeds.
       peek (\<lambda>s. writeJSON 200 (FeedsBody (map (toFeedResponse env (ap_cache s)) feeds)))))"

definition new_feed :: "user \<Rightarrow> string \<Rightarrow> feed_source list \<Rightarrow> bytes \<Rightarrow> int \<Rightarrow> feed" where
  "new_feed u fid sources rules ttl =
     \<lparr>fd_id = fid, fd_user = us_id u, fd_name = [], fd_secret = [], fd_sources = sources, fd_rules = rules,
      fd_ttl = ttl, fd_basic_user = [], fd_basic_hash = [], fd_notifications = [], fd_last_served = 0,
      fd_serve_count = 0, fd_created = 0, fd_updated = 0\<rparr>"

definition handleCreateFeed :: "('w, 're, 'l, 'v) server_env \<Rightarrow> request \<Rightarrow> ('w, response) handler" where
  "handleCreateFeed env rq =
     andthen (requireUser (sv_auth env) rq) (\<lambda>u.
     andthen (decodeJSON (sv_decode_feed env) rq) (\<lambda>q.
     andthen (refuse (validateFeedRequest env q)) (\<lambda>_.
     andthen (or_respond (resolveBasicAuth (sv_auth env) (fq_basic_user q) (fq_basic_password q) None)
       (\<lambda>e. writeError 400 (error_string env e))) (\<lambda>(user, hash).
     andthen (or_respond (randomToken (sv_auth env)) (\<lambda>_. serverError)) (\<lambda>fid.
     andthen (or_respond (randomToken (sv_auth env)) (\<lambda>_. serverError)) (\<lambda>secret.
     andthen (or_respond (yields (buildNotifications env (fq_notifications q) None)) (\<lambda>_. serverError)) (\<lambda>notifications.
       let f = (new_feed u fid (toStoreSources (fq_sources q)) (rulesOrDefault (fq_rules q)) (normalizeTTL (fq_ttl q)))
             \<lparr>fd_name := go_trim_space (fq_name q), fd_secret := secret, fd_basic_user := user, fd_basic_hash := hash,
              fd_notifications := notifications\<rparr> in
     andthen (or_respond (create_feed env f) (\<lambda>_. serverError)) (\<lambda>f.
     andthen (audit (sv_auth env) u ''feed.create'' (fd_id f) (fd_name f)) (\<lambda>_.
       feed_answer env 201 f)))))))))"

definition handleGetFeed :: "('w, 're, 'l, 'v) server_env \<Rightarrow> request \<Rightarrow> ('w, response) handler" where
  "handleGetFeed env rq =
     andthen (requireUser (sv_auth env) rq) (\<lambda>u.
     andthen (ownedFeed env rq u) (\<lambda>f. feed_answer env 200 f))"

definition updated_feed ::
  "feed \<Rightarrow> feed_request \<Rightarrow> string \<Rightarrow> string \<Rightarrow> feed" where
  "updated_feed existing q user hash =
     existing\<lparr>fd_name := go_trim_space (fq_name q),
       fd_sources := preserveSourceSecrets (toStoreSources (fq_sources q)) (fq_sources q) (Some existing),
       fd_rules := rulesOrDefault (fq_rules q), fd_ttl := normalizeTTL (fq_ttl q),
       fd_basic_user := user, fd_basic_hash := hash\<rparr>"

definition handleUpdateFeed :: "('w, 're, 'l, 'v) server_env \<Rightarrow> request \<Rightarrow> ('w, response) handler" where
  "handleUpdateFeed env rq =
     andthen (requireUser (sv_auth env) rq) (\<lambda>u.
     andthen (ownedFeed env rq u) (\<lambda>existing.
     andthen (decodeJSON (sv_decode_feed env) rq) (\<lambda>q.
     andthen (refuse (validateFeedRequest env q)) (\<lambda>_.
     andthen (or_respond (resolveBasicAuth (sv_auth env) (fq_basic_user q) (fq_basic_password q) (Some existing))
       (\<lambda>e. writeError 400 (error_string env e))) (\<lambda>(user, hash).
       let f = updated_feed existing q user hash in
     andthen (or_respond (yields (buildNotifications env (fq_notifications q) (Some f))) (\<lambda>_. serverError)) (\<lambda>notifications.
     andthen (or_respond (update_feed env (f\<lparr>fd_notifications := notifications\<rparr>)) (\<lambda>_. serverError)) (\<lambda>f.
     andthen (audit (sv_auth env) u ''feed.update'' (fd_id f) (fd_name f)) (\<lambda>_.
       feed_answer env 200 f))))))))"

definition handleRotateFeedSecret :: "('w, 're, 'l, 'v) server_env \<Rightarrow> request \<Rightarrow> ('w, response) handler" where
  "handleRotateFeedSecret env rq =
     andthen (requireUser (sv_auth env) rq) (\<lambda>u.
     andthen (ownedFeed env rq u) (\<lambda>f.
     andthen (or_respond (randomToken (sv_auth env)) (\<lambda>_. serverError)) (\<lambda>secret.
     andthen (or_respond (update_feed env (f\<lparr>fd_secret := secret\<rparr>)) (\<lambda>_. serverError)) (\<lambda>f.
     andthen (audit (sv_auth env) u ''feed.rotate-secret'' (fd_id f) (fd_name f)) (\<lambda>_.
       feed_answer env 200 f)))))"

definition handleDeleteFeed :: "('w, 're, 'l, 'v) server_env \<Rightarrow> request \<Rightarrow> ('w, response) handler" where
  "handleDeleteFeed env rq =
     andthen (requireUser (sv_auth env) rq) (\<lambda>u.
     andthen (or_respond (returns_err (\<lambda>s. case DeleteFeed (rq_path rq ''id'') (us_id u) (ap_feeds s) of
         (e, rows) \<Rightarrow> (e, s\<lparr>ap_feeds := rows\<rparr>)))
       (\<lambda>e. if err_is e ErrNotFound then not_found else serverError)) (\<lambda>_.
     andthen (audit (sv_auth env) u ''feed.delete'' (rq_path rq ''id'') []) (\<lambda>_.
       pass (write_status 204))))"

definition preview_answer :: "('w, 're, 'l, 'v) server_env \<Rightarrow> feed \<Rightarrow> ('w, response) handler" where
  "preview_answer env f =
     andthen (or_respond (rendering (Preview (sv_feed env) f))
       (\<lambda>e. writeError 502 (''preview failed: '' @ error_string env e))) (\<lambda>(original, transformed).
       pass (writeJSON 200 (PreviewBody original transformed)))"

text \<open>A stored feed that the user owns, looked up on the side: failures are ignored.\<close>

definition own_feed :: "('w, 're, 'l, 'v) server_env \<Rightarrow> user \<Rightarrow> string \<Rightarrow> 'w app_state \<Rightarrow> feed option" where
  "own_feed env u fid s =
     (if fid = [] then None
      else case FeedByID (sv_json env) fid (ap_feeds s) of
        Inl _ \<Rightarrow> None
      | Inr f \<Rightarrow> if fd_user f = us_id u then Some f else None)"

definition handlePreviewFeed :: "('w, 're, 'l, 'v) server_env \<Rightarrow> request \<Rightarrow> ('w, response) handler" where
  "handlePreviewFeed env rq =
     andthen (requireUser (sv_auth env) rq) (\<lambda>u.
     andthen (decodeJSON (sv_decode_feed env) rq) (\<lambda>q.
     andthen (refuse (validateRules env (fq_rules q))) (\<lambda>_.
     andthen (peek (own_feed env u (fq_id q))) (\<lambda>existing.
       preview_answer env
         (new_feed u ''preview'' (preserveSourceSecrets (toStoreSources (fq_sources q)) (fq_sources q) existing)
           (rulesOrDefault (fq_rules q)) (normalizeTTL (fq_ttl q)))))))"

definition handlePreviewSavedFeed :: "('w, 're, 'l, 'v) server_env \<Rightarrow> request \<Rightarrow> ('w, response) handler" where
  "handlePreviewSavedFeed env rq =
     andthen (requireUser (sv_auth env) rq) (\<lambda>u.
     andthen (ownedFeed env rq u) (\<lambda>f. preview_answer env f))"

definition check_password :: "source_check \<Rightarrow> feed option \<Rightarrow> string" where
  "check_password q existing =
     (if sq_password q \<noteq> [] then sq_password q
      else case existing of
        None \<Rightarrow> []
      | Some f \<Rightarrow>
          (case List.find (\<lambda>src. fs_url src = go_trim_space (sq_url q) \<and> fs_password src \<noteq> []) (fd_sources f) of
             None \<Rightarrow> []
           | Some src \<Rightarrow> fs_password src))"

definition handleCheckSource :: "('w, 're, 'l, 'v) server_env \<Rightarrow> request \<Rightarrow> ('w, response) handler" where
  "handleCheckSource env rq =
     andthen (requireUser (sv_auth env) rq) (\<lambda>u.
     andthen (decodeJSON (sv_decode_check env) rq) (\<lambda>q.
       if \<not> http_url (go_trim_space (sq_url q)) then
         stop (writeJSON 200 (CheckBody False 0 ''needs a valid http(s) URL''))
       else andthen (peek (own_feed env u (sq_id q))) (\<lambda>existing.
         andthen (or_respond (rendering (CheckSource (sv_feed env) (go_trim_space (sq_url q)) (sq_username q)
             (check_password q existing)))
           (\<lambda>e. writeJSON 200 (CheckBody False 0 (error_string env e)))) (\<lambda>events.
           pass (writeJSON 200 (CheckBody True events []))))))"

definition test_token :: "('w, 're, 'l, 'v) server_env \<Rightarrow> notify_test \<Rightarrow> feed option \<Rightarrow> string" where
  "test_token env q existing =
     (if nt_gotify_token q \<noteq> [] then nt_gotify_token q
      else case existing of
        None \<Rightarrow> []
      | Some f \<Rightarrow>
          (case sv_notif_unmarshal env (fd_notifications f) of (None, fn) \<Rightarrow> fn_gotify_token fn | (Some _, _) \<Rightarrow> []))"

definition test_target :: "('w, 're, 'l, 'v) server_env \<Rightarrow> notify_test \<Rightarrow> feed option \<Rightarrow> response + target" where
  "test_target env q existing =
     (if nt_channel q = ''webhook'' then
        (if go_trim_space (nt_webhook_url q) = [] then Inl (writeError 400 ''webhook URL is required'')
         else Inr (Webhook (go_trim_space (nt_webhook_url q))))
      else if nt_channel q = ''ntfy'' then
        (if nt_ntfy_server q = [] \<or> nt_ntfy_topic q = [] then Inl (writeError 400 ''ntfy server and topic are required'')
         else Inr (NewNtfyNotifier (nt_ntfy_server q) (nt_ntfy_topic q)))
      else if nt_channel q = ''gotify'' then
        (let token = test_token env q existing in
         if nt_gotify_server q = [] \<or> token = [] then Inl (writeError 400 ''gotify server and token are required'')
         else Inr (NewGotifyNotifier (nt_gotify_server q) token))
      else Inl (writeError 400 ''channel must be webhook, ntfy or gotify''))"

definition test_event :: "go_time \<Rightarrow> event" where
  "test_event now = \<lparr>ev_feed = ''TidyDAV'', ev_rule = ''test'', ev_summary = ''TidyDAV test notification'',
     ev_message = ''If you can read this, the channel is configured correctly.'', ev_time = now\<rparr>"

definition handleNotifyTest :: "('w, 're, 'l, 'v) server_env \<Rightarrow> request \<Rightarrow> ('w, response) handler" where
  "handleNotifyTest env rq =
     andthen (requireUser (sv_auth env) rq) (\<lambda>u.
     andthen (decodeJSON (sv_decode_test env) rq) (\<lambda>q.
     andthen (peek (own_feed env u (nt_id q))) (\<lambda>existing.
     andthen (yields (test_target env q existing)) (\<lambda>t.
     andthen (or_respond (returns_err (\<lambda>s. case Notify (sv_notify env) t (test_event (now_of env s)) (au_world s) of
         (e, w) \<Rightarrow> (e, s\<lparr>au_world := w\<rparr>)))
       (\<lambda>e. writeError 502 (''test failed: '' @ error_string env e))) (\<lambda>_.
       pass (write_status 204))))))"

definition audit_response :: "audit_entry \<Rightarrow> audit_dto" where
  "audit_response e = \<lparr>ao_id = ae_id e, ao_email = ae_email e, ao_action = ae_action e, ao_target = ae_target e,
     ao_detail = ae_detail e, ao_created = stamp (ae_created e)\<rparr>"

definition handleListAudit :: "('w, 're, 'l, 'v) server_env \<Rightarrow> request \<Rightarrow> ('w, response) handler" where
  "handleListAudit env rq =
     andthen (requireAdmin (sv_auth env) rq) (\<lambda>_.
       peek (\<lambda>s. writeJSON 200 (AuditBody (map audit_response (ListAuditEntries 200 (ap_audit s))))))"

end
