(* ===== verification/Server_Jobs.thy ===== *)
theory Server_Jobs
  imports Server_Feeds
begin

text \<open>
  \<^verbatim>\<open>internal/server/syncjobs.go\<close>: the handlers of the sync job API: validation, the merge of
  write-only passwords into an update, manual runs through the runner, and the merge preview.
\<close>


section \<open>Requests\<close>

record job_request =
  jq_name :: string
  jq_kind :: string
  jq_direction :: string
  jq_conflict :: string
  jq_a_url :: string
  jq_a_username :: string
  jq_a_password :: string
  jq_b_url :: string
  jq_b_username :: string
  jq_b_password :: string
  jq_interval :: int
  jq_enabled :: bool
  jq_window_start :: string
  jq_window_end :: string

record preview_request =
  pq_id :: string
  pq_kind :: string
  pq_direction :: string
  pq_a_url :: string
  pq_a_username :: string
  pq_a_password :: string
  pq_b_url :: string
  pq_b_username :: string
  pq_b_password :: string
  pq_conflict :: string
  pq_window_start :: string
  pq_window_end :: string
  pq_week_start :: string

definition invalid_range :: "('w, 're, 'l, 'v) server_env \<Rightarrow> string \<Rightarrow> go_error \<Rightarrow> response" where
  "invalid_range env what e = writeError 400 (what @ error_string env e)"

definition validateSyncJobRequest :: "('w, 're, 'l, 'v) server_env \<Rightarrow> job_request \<Rightarrow> response option" where
  "validateSyncJobRequest env q =
     (if go_trim_space (jq_name q) = [] then Some (writeError 400 ''name is required'')
      else if jq_kind q \<notin> {''caldav'', ''carddav''} then Some (writeError 400 ''kind must be caldav or carddav'')
      else if jq_direction q \<notin> {''a-to-b'', ''b-to-a'', ''bidirectional''} then Some (writeError 400 ''invalid direction'')
      else if jq_conflict q \<notin> {[], ''newest-wins'', ''source-wins''} then Some (writeError 400 ''invalid conflict policy'')
      else if \<not> list_all http_url [jq_a_url q, jq_b_url q] then
        Some (writeError 400 ''both endpoints need a valid http(s) URL'')
      else case ParseWindow (go_trim_space (jq_window_start q)) (go_trim_space (jq_window_end q)) of
        Inl e \<Rightarrow> Some (invalid_range env ''invalid date range: '' e)
      | Inr _ \<Rightarrow> None)"

definition kept :: "string \<Rightarrow> string \<Rightarrow> string" where
  "kept given stored = (if given = [] then stored else given)"

definition jobFromRequest :: "string \<Rightarrow> string \<Rightarrow> job_request \<Rightarrow> sync_job option \<Rightarrow> sync_job" where
  "jobFromRequest jid user q existing =
     (let stored = (\<lambda>sel. case existing of None \<Rightarrow> [] | Some j \<Rightarrow> sel (sj_config j)) in
      \<lparr>sj_id = jid, sj_user = user,
       sj_config = \<lparr>jc_name = go_trim_space (jq_name q), jc_kind = jq_kind q, jc_direction = jq_direction q,
         jc_conflict = (if jq_conflict q = [] then ''newest-wins'' else jq_conflict q),
         jc_a_url = go_trim_space (jq_a_url q), jc_a_username = jq_a_username q,
         jc_a_password = kept (jq_a_password q) (stored jc_a_password),
         jc_b_url = go_trim_space (jq_b_url q), jc_b_username = jq_b_username q,
         jc_b_password = kept (jq_b_password q) (stored jc_b_password),
         jc_interval = (if jq_interval q \<le> 0 then 900 else jq_interval q), jc_enabled = jq_enabled q,
         jc_window_start = go_trim_space (jq_window_start q), jc_window_end = go_trim_space (jq_window_end q)\<rparr>,
       sj_state = [], sj_last_run = 0, sj_last_status = [], sj_created = 0, sj_updated = 0\<rparr>)"

definition toSyncJobResponse :: "sync_job \<Rightarrow> job_response" where
  "toSyncJobResponse j =
     (let c = sj_config j in
      \<lparr>jo_id = sj_id j, jo_name = jc_name c, jo_kind = jc_kind c, jo_direction = jc_direction c,
       jo_conflict = jc_conflict c, jo_a_url = jc_a_url c, jo_a_username = jc_a_username c,
       jo_a_password_set = (jc_a_password c \<noteq> []), jo_b_url = jc_b_url c, jo_b_username = jc_b_username c,
       jo_b_password_set = (jc_b_password c \<noteq> []), jo_interval = jc_interval c, jo_enabled = jc_enabled c,
       jo_window_start = jc_window_start c, jo_window_end = jc_window_end c,
       jo_last_run = formatTime (sj_last_run j), jo_last_status = sj_last_status j,
       jo_created = stamp (sj_created j), jo_updated = stamp (sj_updated j)\<rparr>)"


section \<open>The job table\<close>

definition ownedSyncJob :: "request \<Rightarrow> user \<Rightarrow> ('w, sync_job) handler" where
  "ownedSyncJob rq u s =
     (case SyncJobByID (rq_path rq ''id'') (ap_jobs s) of
        Inl e \<Rightarrow> (Inl (if err_is e ErrNotFound then not_found else serverError), s)
      | Inr j \<Rightarrow> if sj_user j \<noteq> us_id u then (Inl not_found, s) else (Inr j, s))"

definition create_job :: "('w, 're, 'l, 'v) server_env \<Rightarrow> sync_job \<Rightarrow> ('w app_state, go_error, sync_job) flow" where
  "create_job env j s =
     (let now = now_of env s;
          j' = j\<lparr>sj_created := (if time_is_zero (sj_created j) then now else sj_created j), sj_updated := now\<rparr>
      in case CreateSyncJob now j (ap_jobs s) of
           (None, rows) \<Rightarrow> (Inr j', s\<lparr>ap_jobs := rows\<rparr>)
         | (Some e, rows) \<Rightarrow> (Inl e, s\<lparr>ap_jobs := rows\<rparr>))"

definition update_job :: "('w, 're, 'l, 'v) server_env \<Rightarrow> sync_job \<Rightarrow> ('w app_state, go_error, sync_job) flow" where
  "update_job env j s =
     (let now = now_of env s in
      case UpdateSyncJob now j (ap_jobs s) of
        (None, rows) \<Rightarrow> (Inr (j\<lparr>sj_updated := now\<rparr>), s\<lparr>ap_jobs := rows\<rparr>)
      | (Some e, rows) \<Rightarrow> (Inl e, s\<lparr>ap_jobs := rows\<rparr>))"

text \<open>Reload the job to answer with the run metadata; a failing reload answers with what is at hand.\<close>

definition reloaded :: "sync_job \<Rightarrow> ('w, sync_job) handler" where
  "reloaded j = peek (\<lambda>s. case SyncJobByID (sj_id j) (ap_jobs s) of Inl _ \<Rightarrow> j | Inr j' \<Rightarrow> j')"

definition job_answer :: "int \<Rightarrow> sync_job \<Rightarrow> ('w, response) handler" where
  "job_answer status j = pass (writeJSON status (JobBody (toSyncJobResponse j)))"


section \<open>Handlers\<close>

text \<open>The request of the two writing handlers: decoded and valid.\<close>

definition valid_job_request ::
  "('w, 're, 'l, 'v) server_env \<Rightarrow> (bytes \<Rightarrow> job_request result) \<Rightarrow> request \<Rightarrow> ('w, job_request) handler" where
  "valid_job_request env decode rq =
     andthen (decodeJSON decode rq) (\<lambda>q. andthen (refuse (validateSyncJobRequest env q)) (\<lambda>_. pass q))"

definition handleListSyncJobs :: "('w, 're, 'l, 'v) server_env \<Rightarrow> request \<Rightarrow> ('w, response) handler" where
  "handleListSyncJobs env rq =
     andthen (requireUser (sv_auth env) rq) (\<lambda>u.
       peek (\<lambda>s. writeJSON 200 (JobsBody (map toSyncJobResponse (SyncJobsByUser (us_id u) (ap_jobs s))))))"

definition handleCreateSyncJob ::
  "('w, 're, 'l, 'v) server_env \<Rightarrow> (bytes \<Rightarrow> job_request result) \<Rightarrow> request \<Rightarrow> ('w, response) handler" where
  "handleCreateSyncJob env decode rq =
     andthen (requireUser (sv_auth env) rq) (\<lambda>u.
     andthen (valid_job_request env decode rq) (\<lambda>q.
     andthen (or_respond (randomToken (sv_auth env)) (\<lambda>_. serverError)) (\<lambda>jid.
     andthen (or_respond (create_job env (jobFromRequest jid (us_id u) q None)) (\<lambda>_. serverError)) (\<lambda>j.
     andthen (audit (sv_auth env) u ''sync.create'' (sj_id j) (jc_name (sj_config j))) (\<lambda>_.
       job_answer 201 j)))))"

definition handleGetSyncJob :: "('w, 're, 'l, 'v) server_env \<Rightarrow> request \<Rightarrow> ('w, response) handler" where
  "handleGetSyncJob env rq =
     andthen (requireUser (sv_auth env) rq) (\<lambda>u. andthen (ownedSyncJob rq u) (\<lambda>j. job_answer 200 j))"

definition handleUpdateSyncJob ::
  "('w, 're, 'l, 'v) server_env \<Rightarrow> (bytes \<Rightarrow> job_request result) \<Rightarrow> request \<Rightarrow> ('w, response) handler" where
  "handleUpdateSyncJob env decode rq =
     andthen (requireUser (sv_auth env) rq) (\<lambda>u.
     andthen (ownedSyncJob rq u) (\<lambda>existing.
     andthen (valid_job_request env decode rq) (\<lambda>q.
     andthen (or_respond (update_job env (jobFromRequest (sj_id existing) (us_id u) q (Some existing))) (\<lambda>_. serverError)) (\<lambda>j.
     andthen (audit (sv_auth env) u ''sync.update'' (sj_id j) (jc_name (sj_config j))) (\<lambda>_.
     andthen (reloaded j) (\<lambda>j. job_answer 200 j))))))"

definition handleDeleteSyncJob :: "('w, 're, 'l, 'v) server_env \<Rightarrow> request \<Rightarrow> ('w, response) handler" where
  "handleDeleteSyncJob env rq =
     andthen (requireUser (sv_auth env) rq) (\<lambda>u.
     andthen (or_respond (returns_err (\<lambda>s. case DeleteSyncJob (rq_path rq ''id'') (us_id u) (ap_jobs s) of
         (e, rows) \<Rightarrow> (e, s\<lparr>ap_jobs := rows\<rparr>)))
       (\<lambda>e. if err_is e ErrNotFound then not_found else serverError)) (\<lambda>_.
     andthen (audit (sv_auth env) u ''sync.delete'' (rq_path rq ''id'') []) (\<lambda>_.
       pass (write_status 204))))"

text \<open>A manual run goes through the table of running jobs, as a scheduled one does.\<close>

definition run_now :: "('w, 're, 'l, 'v) server_env \<Rightarrow> sync_job \<Rightarrow> ('w app_state, go_error, unit) flow" where
  "run_now env j =
     returns_err (\<lambda>s. case RunOne (runLocked (sv_run env) j) (sj_id j) (ap_running s, au_world s, ap_jobs s) of
        (e, running, w, rows) \<Rightarrow> (e, s\<lparr>ap_running := running, au_world := w, ap_jobs := rows\<rparr>))"

definition handleRunSyncJob :: "('w, 're, 'l, 'v) server_env \<Rightarrow> request \<Rightarrow> ('w, response) handler" where
  "handleRunSyncJob env rq =
     andthen (requireUser (sv_auth env) rq) (\<lambda>u.
     andthen (ownedSyncJob rq u) (\<lambda>j.
     andthen (or_respond (run_now env j) (\<lambda>_. writeError 409 ''a run of this job is already in progress'')) (\<lambda>_.
     andthen (reloaded j) (\<lambda>j. job_answer 200 j))))"

definition handleResetSyncJobState :: "('w, 're, 'l, 'v) server_env \<Rightarrow> request \<Rightarrow> ('w, response) handler" where
  "handleResetSyncJobState env rq =
     andthen (requireUser (sv_auth env) rq) (\<lambda>u.
     andthen (ownedSyncJob rq u) (\<lambda>j.
     andthen (or_respond (returns_err (\<lambda>s. case ResetSyncJobState (now_of env s) (sj_id j) (us_id u) (ap_jobs s) of
         (e, rows) \<Rightarrow> (e, s\<lparr>ap_jobs := rows\<rparr>))) (\<lambda>_. serverError)) (\<lambda>_.
     andthen (audit (sv_auth env) u ''sync.reset_state'' (sj_id j) (jc_name (sj_config j))) (\<lambda>_.
     andthen (reloaded j) (\<lambda>j. job_answer 200 j)))))"


section \<open>Merge preview\<close>

definition buildPreviewCollections ::
  "('w, 're, 'l, 'v) server_env \<Rightarrow> string \<Rightarrow> string \<times> string \<times> string \<Rightarrow> string \<times> string \<times> string \<Rightarrow>
     ('w collection \<times> 'w collection) result" where
  "buildPreviewCollections env kind ea eb =
     (case (ea, eb) of ((aURL, aUser, aPass), (bURL, bUser, bPass)) \<Rightarrow>
        (let run = sv_run env in
         if kind = ''carddav'' then
           (case NewCardDAVCollection (ru_vcard run) (ru_carddav run) (ru_url_error run) (go_trim_space aURL) aUser aPass of
              Inl e \<Rightarrow> Inl e
            | Inr a \<Rightarrow>
                (case NewCardDAVCollection (ru_vcard run) (ru_carddav run) (ru_url_error run) (go_trim_space bURL) bUser bPass of
                   Inl e \<Rightarrow> Inl e
                 | Inr b \<Rightarrow> Inr (as_collection a, as_collection b)))
         else
           (case NewCalDAVCollection (ru_ical run) (ru_caldav run) (ru_url_error run) (go_trim_space aURL) aUser aPass of
              Inl e \<Rightarrow> Inl e
            | Inr a \<Rightarrow>
                (case NewCalDAVCollection (ru_ical run) (ru_caldav run) (ru_url_error run) (go_trim_space bURL) bUser bPass of
                   Inl e \<Rightarrow> Inl e
                 | Inr b \<Rightarrow> Inr (as_collection a, as_collection b)))))"

definition preview_options :: "('w, 're, 'l, 'v) server_env \<Rightarrow> string \<Rightarrow> string \<Rightarrow> string \<Rightarrow> options" where
  "preview_options env kind direction conflict =
     (let run = sv_run env; o0 = kind_options direction conflict in
      if kind = ''carddav'' then
        o0\<lparr>opt_uid := Some (ContactUID (ru_vcard run)), opt_modified := Some (ContactModified (ru_vcard run))\<rparr>
      else o0\<lparr>opt_uid := Some (CalendarUID (ru_ical run)),
              opt_modified := Some (CalendarModified (ru_ical run) (ru_utc run))\<rparr>)"

text \<open>The week that starts on the given date.\<close>

definition week_window :: "string \<Rightarrow> (go_time \<times> go_time) result" where
  "week_window week =
     (case ParseWindow week [] of
        Inl e \<Rightarrow> Inl e
      | Inr (start, _) \<Rightarrow> Inr (start, time_add start (7 * 24 * hour)))"

definition preview_window ::
  "('w, 're, 'l, 'v) server_env \<Rightarrow> preview_request \<Rightarrow> response + (go_time \<times> go_time)" where
  "preview_window env q =
     (if pq_kind q \<noteq> ''caldav'' then Inr (0, 0)
      else let ws = go_trim_space (pq_week_start q) in
        if ws \<noteq> [] then
          (case week_window ws of Inl e \<Rightarrow> Inl (invalid_range env ''invalid week: '' e) | Inr w \<Rightarrow> Inr w)
        else case ParseWindow (go_trim_space (pq_window_start q)) (go_trim_space (pq_window_end q)) of
          Inl e \<Rightarrow> Inl (invalid_range env ''invalid date range: '' e)
        | Inr w \<Rightarrow> Inr w)"

definition validate_preview :: "preview_request \<Rightarrow> response option" where
  "validate_preview q =
     (if pq_kind q \<noteq> ''caldav'' \<and> pq_kind q \<noteq> ''carddav'' then Some (writeError 400 ''kind must be caldav or carddav'')
      else if pq_direction q \<notin> {AToB, BToA, Bidirectional} then Some (writeError 400 ''invalid direction'')
      else if \<not> list_all http_url [pq_a_url q, pq_b_url q] then
        Some (writeError 400 ''both endpoints need a valid http(s) URL'')
      else if pq_conflict q \<notin> {NewestWins, SourceWins, []} then Some (writeError 400 ''invalid conflict policy'')
      else None)"

definition own_job :: "user \<Rightarrow> string \<Rightarrow> 'w app_state \<Rightarrow> sync_job option" where
  "own_job u jid s =
     (if jid = [] then None
      else case SyncJobByID jid (ap_jobs s) of
        Inl _ \<Rightarrow> None
      | Inr j \<Rightarrow> if sj_user j = us_id u then Some j else None)"

definition merge_answer ::
  "('w, 're, 'l, 'v) server_env \<Rightarrow> string \<Rightarrow> options \<Rightarrow> string \<times> string \<times> string \<Rightarrow> string \<times> string \<times> string \<Rightarrow>
     ('w, response) handler" where
  "merge_answer env kind opts ea eb =
     andthen (or_respond (yields (buildPreviewCollections env kind ea eb)) (\<lambda>e. writeError 400 (error_string env e))) (\<lambda>(a, b).
     andthen (or_respond (outside (PreviewMerge (ru_dav (sv_run env)) (sv_body env) a b opts kind))
       (\<lambda>e. writeError 502 (''preview failed: '' @ error_string env e))) (\<lambda>(aOut, bOut, merged).
       pass (writeJSON 200 (SyncPreviewBody aOut bOut merged))))"

definition handleSyncPreview ::
  "('w, 're, 'l, 'v) server_env \<Rightarrow> (bytes \<Rightarrow> preview_request result) \<Rightarrow> request \<Rightarrow> ('w, response) handler" where
  "handleSyncPreview env decode rq =
     andthen (requireUser (sv_auth env) rq) (\<lambda>u.
     andthen (decodeJSON decode rq) (\<lambda>q.
     andthen (refuse (validate_preview q)) (\<lambda>_.
     andthen (yields (preview_window env q)) (\<lambda>(start, stop').
     andthen (peek (own_job u (pq_id q))) (\<lambda>existing.
       let stored = (\<lambda>sel. case existing of None \<Rightarrow> [] | Some j \<Rightarrow> sel (sj_config j)) in
       merge_answer env (pq_kind q)
         ((preview_options env (pq_kind q) (pq_direction q) (pq_conflict q))
           \<lparr>opt_window_start := start, opt_window_end := stop'\<rparr>)
         (pq_a_url q, pq_a_username q, kept (pq_a_password q) (stored jc_a_password))
         (pq_b_url q, pq_b_username q, kept (pq_b_password q) (stored jc_b_password)))))))"

definition saved_window ::
  "('w, 're, 'l, 'v) server_env \<Rightarrow> job_config \<Rightarrow> string \<Rightarrow> response + (go_time \<times> go_time)" where
  "saved_window env c week0 =
     (if jc_kind c = ''carddav'' then Inr (0, 0)
      else let week = go_trim_space week0 in
        if week \<noteq> [] then
          (case week_window week of Inl e \<Rightarrow> Inl (invalid_range env ''invalid week: '' e) | Inr w \<Rightarrow> Inr w)
        else case ParseWindow (jc_window_start c) (jc_window_end c) of Inl _ \<Rightarrow> Inr (0, 0) | Inr w \<Rightarrow> Inr w)"

definition handlePreviewSavedSyncJob :: "('w, 're, 'l, 'v) server_env \<Rightarrow> request \<Rightarrow> ('w, response) handler" where
  "handlePreviewSavedSyncJob env rq =
     andthen (requireUser (sv_auth env) rq) (\<lambda>u.
     andthen (ownedSyncJob rq u) (\<lambda>j.
       let c = sj_config j in
     andthen (yields (saved_window env c (rq_query rq ''week''))) (\<lambda>(start, stop').
       merge_answer env (jc_kind c)
         ((preview_options env (jc_kind c) (jc_direction c) (jc_conflict c))
           \<lparr>opt_window_start := start, opt_window_end := stop'\<rparr>)
         (jc_a_url c, jc_a_username c, jc_a_password c) (jc_b_url c, jc_b_username c, jc_b_password c))))"

end
