(* ===== verification/Server_Routes.thy ===== *)
theory Server_Routes
  imports Server_Jobs
begin

text \<open>
  \<^verbatim>\<open>internal/server/routes.go\<close>: the table of routes, one constructor per registered pattern, with the
  handler behind it. Which pattern a path matches is \<^verbatim>\<open>net/http\<close>'s business; the parsed path values are
  part of the request. The frame rules at the end say which tables each handler leaves alone.
\<close>


section \<open>The routes\<close>

datatype route =
    Health
  | GetSession
  | ListFeeds | NewFeed | PreviewFeed | SourceCheck | NotifyTest
  | GetFeed | PreviewSavedFeed | RotateSecret | PutFeed | RemoveFeed
  | AuditLog
  | ListJobs | NewJob | SyncPreview | RunJob | ResetJob | GetJob | PreviewSavedJob | PutJob | RemoveJob
  | RegisterUser | LoginUser | LogoutUser | SecretUser | ResetRequest | ResetConfirm
  | OIDCLogin | OIDCCallback | OIDCLogout
  | PublicCalendar

definition pattern :: "route \<Rightarrow> string" where
  "pattern r = (case r of
     Health \<Rightarrow> ''GET /health''
   | GetSession \<Rightarrow> ''GET /api/session''
   | ListFeeds \<Rightarrow> ''GET /api/feeds''
   | NewFeed \<Rightarrow> ''POST /api/feeds''
   | PreviewFeed \<Rightarrow> ''POST /api/feeds/preview''
   | SourceCheck \<Rightarrow> ''POST /api/feeds/source-check''
   | NotifyTest \<Rightarrow> ''POST /api/notify/test''
   | GetFeed \<Rightarrow> ''GET /api/feeds/{id}''
   | PreviewSavedFeed \<Rightarrow> ''GET /api/feeds/{id}/preview''
   | RotateSecret \<Rightarrow> ''POST /api/feeds/{id}/rotate-secret''
   | PutFeed \<Rightarrow> ''PUT /api/feeds/{id}''
   | RemoveFeed \<Rightarrow> ''DELETE /api/feeds/{id}''
   | AuditLog \<Rightarrow> ''GET /api/audit''
   | ListJobs \<Rightarrow> ''GET /api/sync''
   | NewJob \<Rightarrow> ''POST /api/sync''
   | SyncPreview \<Rightarrow> ''POST /api/sync/preview''
   | RunJob \<Rightarrow> ''POST /api/sync/{id}/run''
   | ResetJob \<Rightarrow> ''POST /api/sync/{id}/reset''
   | GetJob \<Rightarrow> ''GET /api/sync/{id}''
   | PreviewSavedJob \<Rightarrow> ''GET /api/sync/{id}/preview''
   | PutJob \<Rightarrow> ''PUT /api/sync/{id}''
   | RemoveJob \<Rightarrow> ''DELETE /api/sync/{id}''
   | RegisterUser \<Rightarrow> ''POST /auth/register''
   | LoginUser \<Rightarrow> ''POST /auth/login''
   | LogoutUser \<Rightarrow> ''POST /auth/logout''
   | SecretUser \<Rightarrow> ''POST /auth/secret''
   | ResetRequest \<Rightarrow> ''POST /auth/reset/request''
   | ResetConfirm \<Rightarrow> ''POST /auth/reset/confirm''
   | OIDCLogin \<Rightarrow> ''GET /auth/oidc/login''
   | OIDCCallback \<Rightarrow> ''GET /auth/oidc/callback''
   | OIDCLogout \<Rightarrow> ''GET /auth/oidc/logout''
   | PublicCalendar \<Rightarrow> ''GET /ics/{secret}'')"

record 'w decoders =
  de_credentials :: "bytes \<Rightarrow> credentials result"
  de_reset_request :: "bytes \<Rightarrow> string result"
  de_reset_confirm :: "bytes \<Rightarrow> reset_confirm result"
  de_job :: "bytes \<Rightarrow> job_request result"
  de_sync_preview :: "bytes \<Rightarrow> preview_request result"
  de_verifier :: "'w \<Rightarrow> string \<times> 'w"
  de_logout_query :: "string \<Rightarrow> string \<Rightarrow> string \<Rightarrow> string"
  de_version :: string

definition handler_of ::
  "('w, 're, 'l, 'v) server_env \<Rightarrow> 'w decoders \<Rightarrow> route \<Rightarrow> request \<Rightarrow> ('w, response) handler" where
  "handler_of env de r rq = (case r of
     Health \<Rightarrow> handleHealth (de_version de)
   | GetSession \<Rightarrow> handleSession (sv_auth env) rq
   | ListFeeds \<Rightarrow> handleListFeeds env rq
   | NewFeed \<Rightarrow> handleCreateFeed env rq
   | PreviewFeed \<Rightarrow> handlePreviewFeed env rq
   | SourceCheck \<Rightarrow> handleCheckSource env rq
   | NotifyTest \<Rightarrow> handleNotifyTest env rq
   | GetFeed \<Rightarrow> handleGetFeed env rq
   | PreviewSavedFeed \<Rightarrow> handlePreviewSavedFeed env rq
   | RotateSecret \<Rightarrow> handleRotateFeedSecret env rq
   | PutFeed \<Rightarrow> handleUpdateFeed env rq
   | RemoveFeed \<Rightarrow> handleDeleteFeed env rq
   | AuditLog \<Rightarrow> handleListAudit env rq
   | ListJobs \<Rightarrow> handleListSyncJobs env rq
   | NewJob \<Rightarrow> handleCreateSyncJob env (de_job de) rq
   | SyncPreview \<Rightarrow> handleSyncPreview env (de_sync_preview de) rq
   | RunJob \<Rightarrow> handleRunSyncJob env rq
   | ResetJob \<Rightarrow> handleResetSyncJobState env rq
   | GetJob \<Rightarrow> handleGetSyncJob env rq
   | PreviewSavedJob \<Rightarrow> handlePreviewSavedSyncJob env rq
   | PutJob \<Rightarrow> handleUpdateSyncJob env (de_job de) rq
   | RemoveJob \<Rightarrow> handleDeleteSyncJob env rq
   | RegisterUser \<Rightarrow> handleRegister (sv_auth env) (de_credentials de) rq
   | LoginUser \<Rightarrow> handleLogin (sv_auth env) (de_credentials de) rq
   | LogoutUser \<Rightarrow> handleLogout (sv_auth env) rq
   | SecretUser \<Rightarrow> handleSecret (sv_auth env)
   | ResetRequest \<Rightarrow> handleResetRequest (sv_auth env) (de_reset_request de) rq
   | ResetConfirm \<Rightarrow> handleResetConfirm (sv_auth env) (de_reset_confirm de) rq
   | OIDCLogin \<Rightarrow> handleOIDCLogin (sv_auth env) (de_verifier de)
   | OIDCCallback \<Rightarrow> handleOIDCCallback (sv_auth env) rq
   | OIDCLogout \<Rightarrow> handleOIDCLogout (sv_auth env) (de_logout_query de) rq
   | PublicCalendar \<Rightarrow> handleICS (sv_auth env) (sv_json env) (sv_feed env) rq)"

definition serve ::
  "('w, 're, 'l, 'v) server_env \<Rightarrow> 'w decoders \<Rightarrow> route \<Rightarrow> request \<Rightarrow> 'w app_state \<Rightarrow> response \<times> 'w app_state" where
  "serve env de r rq = answer (handler_of env de r rq)"

text \<open>The routes under \<^verbatim>\<open>/api\<close> that act for a user.\<close>

definition user_routes :: "route list" where
  "user_routes = [ListFeeds, NewFeed, PreviewFeed, SourceCheck, NotifyTest, GetFeed, PreviewSavedFeed,
     RotateSecret, PutFeed, RemoveFeed, AuditLog, ListJobs, NewJob, SyncPreview, RunJob, ResetJob, GetJob,
     PreviewSavedJob, PutJob, RemoveJob]"


section \<open>Every one of them starts with the session\<close>

lemma requireUser_refused:
  "UserFromRequest env (rq_cookies rq) s = (Inl e, s') \<Longrightarrow>
     andthen (requireUser env rq) k s = (Inl (writeError 401 ''authentication required''), s')"
  by (simp add: andthen_def requireUser_def or_respond_def)

lemma requireUser_granted:
  "UserFromRequest env (rq_cookies rq) s = (Inr u, s') \<Longrightarrow> andthen (requireUser env rq) k s = k u s'"
  by (simp add: andthen_def requireUser_def or_respond_def)

lemma requireAdmin_refused:
  "UserFromRequest env (rq_cookies rq) s = (Inl e, s') \<Longrightarrow>
     andthen (requireAdmin env rq) k s = (Inl (writeError 401 ''authentication required''), s')"
  by (simp add: andthen_def requireAdmin_def requireUser_def or_respond_def)

lemmas user_handlers = handleListFeeds_def handleCreateFeed_def handlePreviewFeed_def handleCheckSource_def
  handleNotifyTest_def handleGetFeed_def handlePreviewSavedFeed_def handleRotateFeedSecret_def
  handleUpdateFeed_def handleDeleteFeed_def handleListAudit_def handleListSyncJobs_def handleCreateSyncJob_def
  handleSyncPreview_def handleRunSyncJob_def handleResetSyncJobState_def handleGetSyncJob_def
  handlePreviewSavedSyncJob_def handleUpdateSyncJob_def handleDeleteSyncJob_def

lemma drop_session_frame [simp]: "au_users (drop_session sid s) = au_users s" "ap_feeds (drop_session sid s) = ap_feeds s"
  "ap_jobs (drop_session sid s) = ap_jobs s" "ap_audit (drop_session sid s) = ap_audit s"
  "ap_cache (drop_session sid s) = ap_cache s" "au_world (drop_session sid s) = au_world s"
  by (simp_all add: drop_session_def)

lemma UserFromRequest_state:
  "UserFromRequest env cks s = (r, s') \<Longrightarrow> s' = s \<or> (\<exists>sid e. s' = drop_session sid s \<and> r = Inl e)"
  by (auto simp: UserFromRequest_def andthen_def clock_def peek_def stop_def modify_def
      split: option.splits sum.splits if_splits)

lemma refused_route:
  assumes "r \<in> set user_routes" and "UserFromRequest (sv_auth env) (rq_cookies rq) s = (Inl e, s')"
  shows "answer (handler_of env de r rq) s = (writeError 401 ''authentication required'', s')"
  using assms
  by (auto simp: user_routes_def handler_of_def user_handlers answer_def requireUser_refused [OF assms(2)]
      requireAdmin_refused [OF assms(2)])

text \<open>C17: without a live session the API does nothing: every route that acts for a user answers 401, the
  audit log answers 403 to a user who is no admin, and no table, no upstream and no clock is touched,
  except that the row of an expired session is dropped.\<close>

theorem api_needs_session:
  assumes "r \<in> set user_routes" and "UserFromRequest (sv_auth env) (rq_cookies rq) s = (Inl e, s')"
  shows "serve env de r rq s = (writeError 401 ''authentication required'', s') \<and>
    (s' = s \<or> (\<exists>sid. s' = drop_session sid s)) \<and>
    (\<forall>u t. UserFromRequest (sv_auth env) (rq_cookies rq) t = (Inr u, t) \<and> \<not> us_admin u \<longrightarrow>
       serve env de AuditLog rq t = (writeError 403 ''admin access required'', t))"
proof -
  have "answer (handler_of env de r rq) s = (writeError 401 ''authentication required'', s')"
    by (rule refused_route [OF assms])
  moreover have "serve env de AuditLog rq t = (writeError 403 ''admin access required'', t)"
    if "UserFromRequest (sv_auth env) (rq_cookies rq) t = (Inr u, t)" "\<not> us_admin u" for u t
    using that by (simp add: serve_def handler_of_def handleListAudit_def requireAdmin_def andthen_assoc
        requireUser_granted answer_def stop_def)
  ultimately show ?thesis using UserFromRequest_state [OF assms(2)] by (auto simp: serve_def)
qed



section \<open>Concrete inputs\<close>

definition anonymous :: request where
  "anonymous = \<lparr>rq_cookies = [], rq_path = (\<lambda>_. []), rq_query = (\<lambda>_. []), rq_header = (\<lambda>_. []),
     rq_basic = None, rq_body = []\<rparr>"

lemma api_needs_session_witness:
  "\<forall>env de s. serve env de ListFeeds anonymous s = (writeError 401 ''authentication required'', s)"
proof (intro allI)
  fix env :: "('w, 're, 'l, 'v) server_env" and de :: "'w decoders" and s :: "'w app_state"
  have "UserFromRequest (sv_auth env) (rq_cookies anonymous) s = (Inl ErrNotFound, s)"
    by (simp add: anonymous_def UserFromRequest_def stop_def)
  from api_needs_session [OF _ this, of ListFeeds de] show
    "serve env de ListFeeds anonymous s = (writeError 401 ''authentication required'', s)"
    by (simp add: user_routes_def)
qed

end
