(* ===== verification/Server_Samples.thy ===== *)
theory Server_Samples
  imports Server_Routes Auth_Props Feed_Props Davsync_Props
begin

text \<open>
  Concrete inputs for the server's theorems: one signed-in user with one calendar, a world that counts
  requests, and libraries that accept everything.
\<close>

definition sample_server :: "(nat, string, unit, bytes) server_env" where
  "sample_server = \<lparr>sv_auth = sample_auth new_year, sv_json = sample_json, sv_feed = sample_feed_env,
     sv_run = card_env,
     sv_body = \<lparr>bl_ical = pe_ical merge_pipe, bl_tz = pe_tz merge_pipe, bl_utc = (), bl_vcard = ru_vcard card_env\<rparr>,
     sv_notify = \<lparr>ne_do = (\<lambda>q w. (Inr 200, w + 1)), ne_json_event = (\<lambda>_. Inr []), ne_json_map = (\<lambda>_. Inr []),
       ne_url_error = ErrNew, ne_error = (\<lambda>e. []), ne_url_inner = (\<lambda>e. None)\<rparr>,
     sv_decode_feed = (\<lambda>_. Inl (ErrNew ''EOF'')), sv_decode_check = (\<lambda>_. Inl (ErrNew ''EOF'')),
     sv_decode_test = (\<lambda>_. Inl (ErrNew ''EOF'')), sv_notif_marshal = (\<lambda>_. Inr ''{}''),
     sv_notif_unmarshal = (\<lambda>_. (None, empty_notifications))\<rparr>"

definition sample_decoders :: "nat decoders" where
  "sample_decoders = \<lparr>de_credentials = (\<lambda>_. Inl (ErrNew ''EOF'')), de_reset_request = (\<lambda>_. Inl (ErrNew ''EOF'')),
     de_reset_confirm = (\<lambda>_. Inl (ErrNew ''EOF'')), de_job = (\<lambda>_. Inl (ErrNew ''EOF'')),
     de_sync_preview = (\<lambda>_. Inl (ErrNew ''EOF'')), de_verifier = (\<lambda>w. (''v'', w)), de_logout_query = (\<lambda>u _ _. u),
     de_version = ''1''\<rparr>"

definition empty_feed_row :: feed_row where
  "empty_feed_row = \<lparr>w_id = ''f1'', w_user = ''u1'', w_name = ''Work'', w_secret = ''s3cret'', w_sources = [],
     w_rules = ''[]'', w_ttl = 900, w_basic_user = [], w_basic_hash = [], w_notifications = ''{}'', w_served = [],
     w_count = 0, w_created = stamp new_year, w_updated = stamp new_year\<rparr>"

definition empty_feed :: feed where
  "empty_feed = \<lparr>fd_id = ''f1'', fd_user = ''u1'', fd_name = ''Work'', fd_secret = ''s3cret'', fd_sources = [],
     fd_rules = ''[]'', fd_ttl = 900, fd_basic_user = [], fd_basic_hash = [], fd_notifications = ''{}'',
     fd_last_served = parseTime [], fd_serve_count = 0, fd_created = parseTime (stamp new_year),
     fd_updated = parseTime (stamp new_year)\<rparr>"

definition sample_app :: "nat app_state" where
  "sample_app = \<lparr>au_users = sample_users,
     au_sessions = [\<lparr>sr_id = ''tok'', sr_user = ''u1'', sr_created = stamp new_year, sr_expires = stamp (new_year + second)\<rparr>],
     au_resets = [], au_world = 0, ap_feeds = [empty_feed_row], ap_jobs = [], ap_audit = [], ap_cache = [],
     ap_running = []\<rparr>"

definition sample_request :: request where
  "sample_request = \<lparr>rq_cookies = [(sessionCookieName, ''tok'')],
     rq_path = (\<lambda>k. if k = ''secret'' then ''s3cret'' else ''f1''), rq_query = (\<lambda>_. []), rq_header = (\<lambda>_. []),
     rq_basic = None, rq_body = []\<rparr>"

lemma sample_signed_in:
  "UserFromRequest (sv_auth sample_server) (rq_cookies sample_request) (sample_app\<lparr>ap_feeds := rows\<rparr>) =
     (Inr (scanUser (hd sample_users)), sample_app\<lparr>ap_feeds := rows\<rparr>)"
  "us_id (scanUser (hd sample_users)) = ''u1''"
proof -
  have live: "\<not> time_after new_year (parseTime (stamp (new_year + second)))"
    using new_year_plain(2) by (simp add: parseTime_stamp time_after_def unix_secs_def new_year_def)
  show "us_id (scanUser (hd sample_users)) = ''u1''"
    by (simp add: sample_users_def sample_user_def)
  show "UserFromRequest (sv_auth sample_server) (rq_cookies sample_request) (sample_app\<lparr>ap_feeds := rows\<rparr>) =
     (Inr (scanUser (hd sample_users)), sample_app\<lparr>ap_feeds := rows\<rparr>)"
    using live
    by (simp add: UserFromRequest_def andthen_def clock_def peek_def sample_request_def sample_app_def sample_server_def
        sample_auth_def SessionByID_def select_one_def UserByID_def userBy_def sample_users_def sample_user_def
        user_values_def)
qed

text \<open>The same with a second calendar, of another user.\<close>

definition other_feed_row :: feed_row where
  "other_feed_row = empty_feed_row\<lparr>w_id := ''f2'', w_user := ''u2'', w_secret := ''other''\<rparr>"

definition shared_app :: "nat app_state" where
  "shared_app = sample_app\<lparr>ap_feeds := [empty_feed_row, other_feed_row]\<rparr>"

lemma sample_feed_found: "FeedByID sample_json ''f1'' [empty_feed_row] = Inr empty_feed"
  "FeedBySecret sample_json ''s3cret'' [empty_feed_row] = Inr empty_feed"
  by (simp_all add: FeedByID_def FeedBySecret_def feedBy_def empty_feed_row_def empty_feed_def scanFeed_def)

end
