(* ===== verification/Server_Props.thy ===== *)
theory Server_Props
  imports Server_Samples
begin

text \<open>
  What the server promises its users: one user's requests cannot touch another user's data, stored
  secrets go in and never come out, an edit that sends back what was read changes nothing, and what
  validation lets through is what the sync runner accepts.
\<close>


section \<open>Frames of the building blocks\<close>

lemma spares_or_respond [flow_frame]: "spares f m \<Longrightarrow> spares f (or_respond m g)"
  by (auto simp: spares_def or_respond_def split: prod.split sum.split) (metis snd_conv)+

lemma spares_read [flow_frame]: "spares f (\<lambda>s. (g s, s))"
  by (simp add: spares_def)

lemma spares_decodeJSON [flow_frame]: "spares f (decodeJSON d rq)"
  by (simp add: decodeJSON_def flow_frame)

lemma spares_refuse [flow_frame]: "spares f (refuse r)"
  by (simp add: refuse_def flow_frame)

lemma spares_outside_app [flow_frame]:
  "(\<And>s w. f (s\<lparr>au_world := w\<rparr>) = f s) \<Longrightarrow> spares f (outside g)"
  by (auto intro!: sparesI simp: outside_def split: prod.split)

lemma spares_rendering [flow_frame]:
  "(\<And>s w c. f (s\<lparr>au_world := w, ap_cache := c\<rparr>) = f s) \<Longrightarrow> spares f (rendering g)"
  by (auto intro!: sparesI simp: rendering_def split: prod.split)

lemma spares_audit [flow_frame]:
  "(\<And>s rows. f (s\<lparr>ap_audit := rows\<rparr>) = f s) \<Longrightarrow> spares f (audit env u a t d)"
  by (auto intro!: spares_modify simp: audit_def)

lemma spares_randomToken [flow_frame]:
  "(\<And>s w. f (s\<lparr>au_world := w\<rparr>) = f s) \<Longrightarrow> spares f (randomToken env)"
  unfolding randomToken_def by (intro flow_frame) auto

lemma spares_resolveBasicAuth [flow_frame]:
  "(\<And>s w. f (s\<lparr>au_world := w\<rparr>) = f s) \<Longrightarrow> spares f (resolveBasicAuth env u p ex)"
  unfolding resolveBasicAuth_def Let_def by (intro flow_frame) auto

lemma spares_answers [flow_frame]: "spares f (feed_answer env st x)" "spares f (job_answer st j)"
  "spares f (reloaded j)"
  by (simp_all add: feed_answer_def job_answer_def reloaded_def flow_frame)

lemma spares_valid_job [flow_frame]: "spares f (valid_job_request env d rq)"
  unfolding valid_job_request_def by (intro flow_frame)

lemma spares_preview_answer [flow_frame]:
  "(\<And>s w c. f (s\<lparr>au_world := w, ap_cache := c\<rparr>) = f s) \<Longrightarrow> spares f (preview_answer env x)"
  unfolding preview_answer_def by (intro flow_frame) auto

lemma spares_merge_answer [flow_frame]:
  "(\<And>s w. f (s\<lparr>au_world := w\<rparr>) = f s) \<Longrightarrow> spares f (merge_answer env k opts ea eb)"
  unfolding merge_answer_def by (intro flow_frame) auto


section \<open>Ownership\<close>

text \<open>What the code learns from a guard: the feed or job it goes on with is the user's own.\<close>

lemma spares_ownedFeed [flow_frame]:
  assumes "\<And>x. fd_user x = us_id u \<Longrightarrow> spares f (k x)"
  shows "spares f (andthen (ownedFeed env rq u) k)"
proof (rule sparesI)
  fix s
  show "f (snd (andthen (ownedFeed env rq u) k s)) = f s"
    using assms by (auto simp: andthen_def ownedFeed_def sparesD split: sum.split)
qed

lemma spares_ownedSyncJob [flow_frame]:
  assumes "\<And>x. sj_user x = us_id u \<Longrightarrow> spares f (k x)"
  shows "spares f (andthen (ownedSyncJob rq u) k)"
proof (rule sparesI)
  fix s
  show "f (snd (andthen (ownedSyncJob rq u) k s)) = f s"
    using assms by (auto simp: andthen_def ownedSyncJob_def sparesD split: sum.split)
qed

lemma update_where_others:
  "(\<And>r. q r \<Longrightarrow> \<not> p r) \<Longrightarrow> (\<And>r. q (g r) = q r) \<Longrightarrow> filter q (snd (update_where p g rows)) = filter q rows"
  by (induction rows) (auto simp: update_where_def)

lemma delete_where_others:
  "(\<And>r. q r \<Longrightarrow> \<not> p r) \<Longrightarrow> filter q (snd (delete_where p rows)) = filter q rows"
  by (induction rows) (auto simp: delete_where_def)

definition others :: "string \<Rightarrow> 'w app_state \<Rightarrow> feed_row list \<times> user_row list \<times> session_row list \<times> reset_row list" where
  "others uid s = (filter (\<lambda>r. w_user r \<noteq> uid) (ap_feeds s), au_users s, au_sessions s, au_resets s)"

lemma others_cong [simp]:
  "others uid (s\<lparr>au_world := w\<rparr>) = others uid s"
  "others uid (s\<lparr>ap_audit := rows\<rparr>) = others uid s" "others uid (s\<lparr>ap_cache := c\<rparr>) = others uid s"
  "others uid (s\<lparr>ap_jobs := js\<rparr>) = others uid s" "others uid (s\<lparr>ap_running := m\<rparr>) = others uid s"
  by (simp_all add: others_def)

lemma UpdateFeed_rows:
  obtains "snd (UpdateFeed js now x rows) = rows"
  | g where "\<And>r. w_user (g r) = w_user r"
      "snd (UpdateFeed js now x rows) = snd (update_where (owned (fd_id x) (fd_user x)) g rows)"
proof (cases "marshalSources js (fd_sources x)")
  case (Inl e)
  with that(1) show ?thesis by (simp add: UpdateFeed_def)
next
  case (Inr sources)
  let ?g = "\<lambda>r. r\<lparr>w_name := fd_name x, w_secret := fd_secret x, w_sources := sources,
      w_rules := rulesOrEmpty (fd_rules x), w_ttl := fd_ttl x,
      w_basic_user := fd_basic_user x, w_basic_hash := fd_basic_hash x,
      w_notifications := notifOrEmpty (fd_notifications x), w_updated := stamp now\<rparr>"
  show ?thesis
  proof (cases "list_ex (owned (fd_id x) (fd_user x)) rows \<and>
      list_ex (\<lambda>r. \<not> owned (fd_id x) (fd_user x) r \<and> w_secret r = fd_secret x) rows")
    case True
    with Inr that(1) show ?thesis by (simp add: UpdateFeed_def)
  next
    case False
    with Inr have "snd (UpdateFeed js now x rows) = snd (update_where (owned (fd_id x) (fd_user x)) ?g rows)"
      by (simp only: UpdateFeed_def sum.case if_False case_prod_unfold snd_conv)
    with that(2) [of ?g] show ?thesis by simp
  qed
qed

lemma others_UpdateFeed:
  assumes "fd_user x = uid"
  shows "filter (\<lambda>r. w_user r \<noteq> uid) (snd (UpdateFeed js now x rows)) = filter (\<lambda>r. w_user r \<noteq> uid) rows"
proof (cases rule: UpdateFeed_rows [of js now x rows])
  case 1
  then show ?thesis by simp
next
  case (2 g)
  then show ?thesis
    using assms update_where_others [of "\<lambda>r. w_user r \<noteq> uid" "owned (fd_id x) (fd_user x)" g rows]
    by (auto simp: owned_def)
qed

lemma others_CreateFeed:
  assumes "fd_user x = uid"
  shows "filter (\<lambda>r. w_user r \<noteq> uid) (snd (CreateFeed js now x rows)) = filter (\<lambda>r. w_user r \<noteq> uid) rows"
  using assms by (auto simp: CreateFeed_def split: sum.split)

lemma others_DeleteFeed:
  "filter (\<lambda>r. w_user r \<noteq> uid) (snd (DeleteFeed i uid rows)) = filter (\<lambda>r. w_user r \<noteq> uid) rows"
  using delete_where_others [of "\<lambda>r. w_user r \<noteq> uid" "owned i uid" rows]
  by (auto simp: DeleteFeed_def owned_def split: prod.split)

lemma spares_create_feed [flow_frame]: "fd_user x = uid \<Longrightarrow> spares (others uid) (create_feed env x)"
  using others_CreateFeed [of x uid]
  by (auto intro!: sparesI simp: create_feed_def Let_def others_def split: prod.split option.split) (metis snd_conv)+

lemma spares_update_feed [flow_frame]: "fd_user x = uid \<Longrightarrow> spares (others uid) (update_feed env x)"
  using others_UpdateFeed [of x uid]
  by (auto intro!: sparesI simp: update_feed_def Let_def others_def split: prod.split option.split) (metis snd_conv)+

lemma spares_delete_feed [flow_frame]:
  "spares (others uid) (returns_err (\<lambda>s. case DeleteFeed i uid (ap_feeds s) of (e, rows) \<Rightarrow> (e, s\<lparr>ap_feeds := rows\<rparr>)))"
  using others_DeleteFeed [of uid i]
  by (auto intro!: spares_returns_err simp: others_def split: prod.split) (metis snd_conv)+

text \<open>A step that writes only the job table, or calls the outside world.\<close>

lemma spares_job_steps [flow_frame]:
  "spares (others uid) (create_job env j)" "spares (others uid) (update_job env j)"
  "spares (others uid) (run_now env j)"
  "spares (others uid) (returns_err (\<lambda>s. case d s of (e, rows) \<Rightarrow> (e, s\<lparr>ap_jobs := rows\<rparr>)))"
  "spares (others uid) (returns_err (\<lambda>s. case n s of (e, w) \<Rightarrow> (e, s\<lparr>au_world := w\<rparr>)))"
  by (auto intro!: sparesI simp: create_job_def update_job_def run_now_def returns_err_def Let_def
      split: prod.split option.split)



text \<open>What a route does once the session is checked.\<close>

lemma new_feed_user [simp]: "fd_user (new_feed u fid ss rules ttl) = us_id u"
  by (simp add: new_feed_def)

lemma updated_feed_user [simp]: "fd_user (updated_feed x q user hash) = fd_user x"
  by (simp add: updated_feed_def)

lemma user_route_spares:
  assumes "r \<in> set user_routes" and "UserFromRequest (sv_auth env) (rq_cookies rq) s = (Inr u, s)"
  shows "others (us_id u) (snd (handler_of env de r rq s)) = others (us_id u) s"
proof -
  note run = requireUser_granted [OF assms(2)]
  have admin: "andthen (requireAdmin (sv_auth env) rq) k s =
      andthen (if \<not> us_admin u then stop (writeError 403 ''admin access required'') else pass u) k s" for k
    by (simp add: requireAdmin_def andthen_assoc run)
  show ?thesis
    using assms(1) unfolding user_routes_def list.set insert_iff empty_iff simp_thms
    by - (elim disjE; simp only: handler_of_def route.case user_handlers run admin Let_def; rule sparesD;
        (rule spares_ownedFeed spares_ownedSyncJob | rule flow_frame | simp)+)
qed


section \<open>Other users' jobs\<close>

definition others_jobs :: "string \<Rightarrow> 'w app_state \<Rightarrow> job_row list" where
  "others_jobs uid s = filter (\<lambda>r. jr_user r \<noteq> uid) (ap_jobs s)"

lemma others_jobs_cong [simp]:
  "others_jobs uid (s\<lparr>au_world := w\<rparr>) = others_jobs uid s"
  "others_jobs uid (s\<lparr>ap_audit := rows\<rparr>) = others_jobs uid s" "others_jobs uid (s\<lparr>ap_cache := c\<rparr>) = others_jobs uid s"
  "others_jobs uid (s\<lparr>ap_feeds := fs\<rparr>) = others_jobs uid s" "others_jobs uid (s\<lparr>ap_running := m\<rparr>) = others_jobs uid s"
  by (simp_all add: others_jobs_def)

lemma spares_feed_steps [flow_frame]:
  "spares (others_jobs uid) (create_feed env x)" "spares (others_jobs uid) (update_feed env x)"
  "spares (others_jobs uid) (returns_err (\<lambda>s. case d s of (e, rows) \<Rightarrow> (e, s\<lparr>ap_feeds := rows\<rparr>)))"
  "spares (others_jobs uid) (returns_err (\<lambda>s. case n s of (e, w) \<Rightarrow> (e, s\<lparr>au_world := w\<rparr>)))"
  by (auto intro!: sparesI simp: create_feed_def update_feed_def returns_err_def Let_def
      split: prod.split option.split)

lemma others_job_update:
  assumes "\<And>r. jr_user (g r) = jr_user r"
  shows "filter (\<lambda>r. jr_user r \<noteq> uid) (snd (update_where (job_of i uid) g rows)) = filter (\<lambda>r. jr_user r \<noteq> uid) rows"
  using assms update_where_others [of "\<lambda>r. jr_user r \<noteq> uid" "job_of i uid" g rows] by (auto simp: job_of_def)

lemma spares_create_job_row [flow_frame]: "sj_user j = uid \<Longrightarrow> spares (others_jobs uid) (create_job env j)"
  by (auto intro!: sparesI simp: create_job_def CreateSyncJob_def Let_def others_jobs_def split: prod.split option.split)

lemma others_job_writes:
  "sj_user j = uid \<Longrightarrow> filter (\<lambda>r. jr_user r \<noteq> uid) (snd (UpdateSyncJob now j rows)) = filter (\<lambda>r. jr_user r \<noteq> uid) rows"
  "filter (\<lambda>r. jr_user r \<noteq> uid) (snd (ResetSyncJobState now i uid rows)) = filter (\<lambda>r. jr_user r \<noteq> uid) rows"
  "filter (\<lambda>r. jr_user r \<noteq> uid) (snd (DeleteSyncJob i uid rows)) = filter (\<lambda>r. jr_user r \<noteq> uid) rows"
  using delete_where_others [of "\<lambda>r. jr_user r \<noteq> uid" "job_of i uid" rows]
  by (simp_all add: UpdateSyncJob_def ResetSyncJobState_def DeleteSyncJob_def case_prod_unfold others_job_update job_of_def)

lemma spares_update_job_row [flow_frame]:
  assumes "sj_user j = uid"
  shows "spares (others_jobs uid) (update_job env j)"
proof (rule sparesI)
  fix s
  show "others_jobs uid (snd (update_job env j s)) = others_jobs uid s"
    using others_job_writes(1) [OF assms, of "now_of env s" "ap_jobs s"]
    by (auto simp: update_job_def others_jobs_def Let_def split: prod.split option.split)
qed

lemma spares_owner_writes [flow_frame]:
  "spares (others_jobs uid) (returns_err (\<lambda>s. case ResetSyncJobState (now_of env s) i uid (ap_jobs s) of
     (e, rows) \<Rightarrow> (e, s\<lparr>ap_jobs := rows\<rparr>)))"
  "spares (others_jobs uid) (returns_err (\<lambda>s. case DeleteSyncJob i uid (ap_jobs s) of
     (e, rows) \<Rightarrow> (e, s\<lparr>ap_jobs := rows\<rparr>)))"
  using others_job_writes(2,3) [of uid]
  by (auto intro!: spares_returns_err simp: others_jobs_def case_prod_unfold)

text \<open>A manual run writes the run columns by id alone; ids are unique, so only the user's job is hit.\<close>

lemma runLocked_rows:
  obtains now state t st where "snd (runLocked env j (w, rows)) = UpdateSyncJobRun now (sj_id j) state t st rows"
proof -
  have "\<exists>now state t st. snd (runLocked env j (w, rows)) = UpdateSyncJobRun now (sj_id j) state t st rows"
    by (auto simp: runLocked_def finish_def Let_def split: sum.split prod.split)
  with that show ?thesis by blast
qed

lemma others_runLocked:
  assumes "distinct (map jr_id rows)" and "r \<in> set rows" and "jr_id r = sj_id j" and "jr_user r = uid"
  shows "filter (\<lambda>r. jr_user r \<noteq> uid) (snd (runLocked env j (w, rows))) = filter (\<lambda>r. jr_user r \<noteq> uid) rows"
proof -
  obtain now state t st where run: "snd (runLocked env j (w, rows)) = UpdateSyncJobRun now (sj_id j) state t st rows"
    by (rule runLocked_rows)
  have "jr_id q = sj_id j \<Longrightarrow> q \<in> set rows \<Longrightarrow> jr_user q = uid" for q
    using assms by (metis eq_key_imp_eq_value distinct_map inj_onD)
  then show ?thesis
    unfolding run UpdateSyncJobRun_def update_where_def
    by (induction rows) auto
qed


lemma run_now_others:
  assumes "distinct (map jr_id (ap_jobs s))" and "SyncJobByID (sj_id j) (ap_jobs s) = Inr j" and "sj_user j = uid"
  shows "others_jobs uid (snd (run_now env j s)) = others_jobs uid s"
proof -
  obtain r where r: "r \<in> set (ap_jobs s)" "jr_id r = sj_id j" "jr_user r = uid"
    using assms(2,3)
    by (auto simp: SyncJobByID_def select_one_def scanSyncJob_def find_Some_iff split: sum.splits option.splits)
      (metis nth_mem)
  from others_runLocked [OF assms(1) r, of "sv_run env" "au_world s"] show ?thesis
    by (auto simp: run_now_def returns_err_def RunOne_def others_jobs_def split: prod.split option.split bool.split)
qed

lemma SyncJobByID_id: "SyncJobByID i rows = Inr j \<Longrightarrow> sj_id j = i"
  by (auto simp: SyncJobByID_def select_one_def scanSyncJob_def find_Some_iff split: sum.splits option.splits)

lemma run_job_others:
  assumes "distinct (map jr_id (ap_jobs s))"
  shows "others_jobs (us_id u) (snd (andthen (ownedSyncJob rq u) (\<lambda>j. andthen (or_respond (run_now env j) g)
     (\<lambda>_. andthen (reloaded j) (job_answer 200))) s)) = others_jobs (us_id u) s"
proof (cases "ownedSyncJob rq u s")
  case (Pair res s1)
  show ?thesis
  proof (cases res)
    case (Inl e)
    with Pair show ?thesis by (auto simp: andthen_def ownedSyncJob_def split: sum.splits if_splits)
  next
    case (Inr j)
    with Pair have j: "SyncJobByID (rq_path rq ''id'') (ap_jobs s) = Inr j" "sj_user j = us_id u" "s1 = s"
      by (auto simp: ownedSyncJob_def split: sum.splits if_splits)
    then have own: "others_jobs (us_id u) (snd (run_now env j s)) = others_jobs (us_id u) s"
      using run_now_others [OF assms, of j "us_id u"] SyncJobByID_id [OF j(1)] by simp
    have "others_jobs (us_id u) (snd (andthen (reloaded j) (job_answer 200) s')) = others_jobs (us_id u) s'" for s' :: "'a app_state"
      by (rule sparesD) (intro flow_frame)
    with own Pair Inr j(3) show ?thesis
      by (auto simp: andthen_def [of "ownedSyncJob rq u"] andthen_def [of "or_respond _ _"] or_respond_def
          split: prod.splits sum.splits)
  qed
qed

lemma user_route_spares_jobs:
  assumes "r \<in> set user_routes" and "UserFromRequest (sv_auth env) (rq_cookies rq) s = (Inr u, s)"
    and "distinct (map jr_id (ap_jobs s))"
  shows "others_jobs (us_id u) (snd (handler_of env de r rq s)) = others_jobs (us_id u) s"
proof (cases "r = RunJob")
  case True
  then show ?thesis
    using run_job_others [OF assms(3), of u rq env]
    by (simp add: handler_of_def handleRunSyncJob_def requireUser_granted [OF assms(2)])
next
  case False
  note run = requireUser_granted [OF assms(2)]
  have admin: "andthen (requireAdmin (sv_auth env) rq) k s =
      andthen (if \<not> us_admin u then stop (writeError 403 ''admin access required'') else pass u) k s" for k
    by (simp add: requireAdmin_def andthen_assoc run)
  have user: "sj_user (jobFromRequest i (us_id u) q ex) = us_id u" for i q ex by (simp add: jobFromRequest_def Let_def)
  show ?thesis
    using assms(1) False unfolding user_routes_def list.set insert_iff empty_iff simp_thms
    by - (elim disjE; (simp only: )?; simp only: handler_of_def route.case user_handlers run admin Let_def; rule sparesD;
        (rule spares_ownedFeed spares_ownedSyncJob | rule flow_frame | simp add: user)+)
qed


text \<open>A signed-in user's request stays with that user: whatever route it takes and however it ends,
  the feeds and sync jobs of everybody else, all accounts, sessions and pending resets are afterwards
  what they were (job ids being unique, as the table's primary key has it).\<close>

theorem requests_stay_with_their_user:
  assumes "r \<in> set user_routes" and "UserFromRequest (sv_auth env) (rq_cookies rq) s = (Inr u, s0)"
    and "distinct (map jr_id (ap_jobs s))" and "serve env de r rq s = (resp, s')"
  shows "filter (\<lambda>r. w_user r \<noteq> us_id u) (ap_feeds s') = filter (\<lambda>r. w_user r \<noteq> us_id u) (ap_feeds s) \<and>
    filter (\<lambda>r. jr_user r \<noteq> us_id u) (ap_jobs s') = filter (\<lambda>r. jr_user r \<noteq> us_id u) (ap_jobs s) \<and>
    au_users s' = au_users s \<and> au_sessions s' = au_sessions s \<and> au_resets s' = au_resets s"
proof -
  have live: "UserFromRequest (sv_auth env) (rq_cookies rq) s = (Inr u, s)"
    using UserFromRequest_state [OF assms(2)] assms(2) by auto
  have "s' = snd (handler_of env de r rq s)"
    using assms(4) by (auto simp: serve_def answer_def split: prod.splits sum.splits)
  with user_route_spares [OF assms(1) live] user_route_spares_jobs [OF assms(1) live assms(3)]
  show ?thesis by (simp add: others_def others_jobs_def)
qed


section \<open>Secrets go in and never come out\<close>

text \<open>Two feeds (two jobs) that differ in the stored secrets only, and not in whether there is one.\<close>

definition same_but_secrets :: "('w, 're, 'l, 'v) server_env \<Rightarrow> feed \<Rightarrow> feed \<Rightarrow> bool" where
  "same_but_secrets env f g \<longleftrightarrow>
     g = f\<lparr>fd_sources := fd_sources g, fd_basic_hash := fd_basic_hash g, fd_notifications := fd_notifications g\<rparr> \<and>
     list_all2 (\<lambda>a b. fs_url a = fs_url b \<and> fs_username a = fs_username b \<and> (fs_password a = []) = (fs_password b = []))
       (fd_sources f) (fd_sources g) \<and>
     (fd_basic_hash f = []) = (fd_basic_hash g = []) \<and>
     (let m = parseNotifications env (fd_notifications f); n = parseNotifications env (fd_notifications g) in
      n = m\<lparr>fn_gotify_token := fn_gotify_token n\<rparr> \<and> (fn_gotify_token m = []) = (fn_gotify_token n = []))"

definition job_same_but_secrets :: "sync_job \<Rightarrow> sync_job \<Rightarrow> bool" where
  "job_same_but_secrets i j \<longleftrightarrow>
     j = i\<lparr>sj_state := sj_state j, sj_config := (sj_config i)\<lparr>jc_a_password := jc_a_password (sj_config j),
            jc_b_password := jc_b_password (sj_config j)\<rparr>\<rparr> \<and>
     (jc_a_password (sj_config i) = []) = (jc_a_password (sj_config j) = []) \<and>
     (jc_b_password (sj_config i) = []) = (jc_b_password (sj_config j) = [])"

lemma source_dtos_hide:
  "list_all2 (\<lambda>a b. fs_url a = fs_url b \<and> fs_username a = fs_username b \<and> (fs_password a = []) = (fs_password b = [])) as bs \<Longrightarrow>
     map (source_dto cache) as = map (source_dto cache) bs"
  by (induction rule: list_all2_induct) (simp_all add: source_dto_def Let_def)

lemma notifications_hide:
  assumes "n = m\<lparr>fn_gotify_token := fn_gotify_token n\<rparr>" and "(fn_gotify_token m = []) = (fn_gotify_token n = [])"
    and "parseNotifications env a = m" and "parseNotifications env b = n"
  shows "toNotificationsResponse env a = toNotificationsResponse env b"
proof -
  have "fn_webhook_url n = fn_webhook_url m" "fn_ntfy_server n = fn_ntfy_server m" "fn_ntfy_topic n = fn_ntfy_topic m"
    "fn_gotify_server n = fn_gotify_server m" "fn_triggers n = fn_triggers m" "fn_stale_hours n = fn_stale_hours m"
    by (subst assms(1), simp)+
  with assms(2-4) show ?thesis by (simp add: toNotificationsResponse_def Let_def)
qed




section \<open>Editing\<close>

text \<open>The request the editor sends back when nothing was changed: what it read, without secrets.\<close>

definition edit_notifications :: "notifications_response \<Rightarrow> notifications_dto" where
  "edit_notifications n = \<lparr>nd_webhook_url = no_webhook_url n, nd_ntfy_server = no_ntfy_server n,
     nd_ntfy_topic = no_ntfy_topic n, nd_gotify_server = no_gotify_server n, nd_gotify_token = [],
     nd_triggers = no_triggers n, nd_stale_hours = no_stale_hours n\<rparr>"

definition edit_of :: "feed_response \<Rightarrow> feed_request" where
  "edit_of r = \<lparr>fq_id = fo_id r, fq_name = fo_name r, fq_sources = fo_sources r, fq_rules = fo_rules r,
     fq_ttl = fo_ttl r, fq_basic_user = fo_basic_user r, fq_basic_password = [],
     fq_notifications = Some (edit_notifications (fo_notifications r))\<rparr>"

text \<open>Feeds as the API stores them: trimmed texts, a hash exactly when there is a user, no token without
  a server.\<close>

definition stored_shape :: "('w, 're, 'l, 'v) server_env \<Rightarrow> feed \<Rightarrow> bool" where
  "stored_shape env f \<longleftrightarrow>
     go_trim_space (fd_name f) = fd_name f \<and> fd_rules f \<noteq> [] \<and> 0 \<le> fd_ttl f \<and>
     list_all (\<lambda>s. go_trim_space (fs_url s) = fs_url s) (fd_sources f) \<and>
     go_trim_space (fd_basic_user f) = fd_basic_user f \<and> (fd_basic_user f = []) = (fd_basic_hash f = []) \<and>
     (let n = parseNotifications env (fd_notifications f) in
      go_trim_space (fn_webhook_url n) = fn_webhook_url n \<and> go_trim_space (fn_ntfy_server n) = fn_ntfy_server n \<and>
      go_trim_space (fn_ntfy_topic n) = fn_ntfy_topic n \<and> go_trim_space (fn_gotify_server n) = fn_gotify_server n \<and>
      (fn_gotify_server n = [] \<longrightarrow> fn_gotify_token n = []) \<and> 0 \<le> fn_stale_hours n)"

lemma stored_passwords_get:
  assumes "distinct (map fs_url ss)"
  shows "map_get (fold (\<lambda>src m. if fs_password src \<noteq> [] then map_put (fs_url src) (fs_password src) m else m) ss m) u =
    (case List.find (\<lambda>s. fs_url s = u \<and> fs_password s \<noteq> []) ss of Some s \<Rightarrow> Some (fs_password s) | None \<Rightarrow> map_get m u)"
  using assms
proof (induction ss arbitrary: m)
  case (Cons a ss)
  have "List.find (\<lambda>s. fs_url s = fs_url a \<and> fs_password s \<noteq> []) ss = None"
    using Cons.prems by (auto simp: find_None_iff) (metis image_eqI)
  with Cons show ?case by (auto split: option.split)
qed simp

lemma find_own_source:
  assumes "distinct (map fs_url ss)" and "s \<in> set ss"
  shows "List.find (\<lambda>x. fs_url x = fs_url s \<and> fs_password x \<noteq> []) ss = (if fs_password s \<noteq> [] then Some s else None)"
  using assms
proof (induction ss)
  case (Cons a ss)
  then show ?case by (auto simp: find_None_iff) (metis image_eqI)+
qed simp

lemma edit_keeps_sources:
  assumes "distinct (map fs_url ss)" and "list_all (\<lambda>s. go_trim_space (fs_url s) = fs_url s) ss" and "fd_sources f = ss"
  shows "preserveSourceSecrets (toStoreSources (map (source_dto cache) ss)) (map (source_dto cache) ss) (Some f) = ss"
proof (rule nth_equalityI)
  show "length (preserveSourceSecrets (toStoreSources (map (source_dto cache) ss)) (map (source_dto cache) ss) (Some f)) = length ss"
    by (simp add: preserveSourceSecrets_def toStoreSources_def)
  fix i
  assume "i < length (preserveSourceSecrets (toStoreSources (map (source_dto cache) ss)) (map (source_dto cache) ss) (Some f))"
  then have i: "i < length ss" by (simp add: preserveSourceSecrets_def toStoreSources_def)
  let ?s = "ss ! i"
  have trim: "go_trim_space (fs_url ?s) = fs_url ?s" using assms(2) i by (simp add: list_all_length)
  have pw: "map_get (stored_passwords ss) (fs_url ?s) = (if fs_password ?s \<noteq> [] then Some (fs_password ?s) else None)"
    using stored_passwords_get [OF assms(1), of "[]" "fs_url ?s"] find_own_source [OF assms(1) nth_mem [OF i]]
    by (simp add: stored_passwords_def)
  show "preserveSourceSecrets (toStoreSources (map (source_dto cache) ss)) (map (source_dto cache) ss) (Some f) ! i = ss ! i"
    using i trim pw assms(3)
    by (simp add: preserveSourceSecrets_def toStoreSources_def nth_enumerate_eq preserve_source_def source_dto_def Let_def)
qed

text \<open>Two sources of one URL with different accounts: the unchanged edit gives the first the password of
  the second.\<close>

definition twin_sources :: "feed_source list" where
  "twin_sources = [\<lparr>fs_url = ''https://x/c'', fs_username = ''a'', fs_password = ''p1''\<rparr>,
     \<lparr>fs_url = ''https://x/c'', fs_username = ''b'', fs_password = ''p2''\<rparr>]"

lemma edit_mixes_twin_passwords:
  assumes "fd_sources f = twin_sources"
  shows "map fs_password (preserveSourceSecrets (map (\<lambda>s. s\<lparr>fs_password := []\<rparr>) twin_sources)
    (map (source_dto []) twin_sources) (Some f)) = [''p2'', ''p2'']"
  by (simp add: preserveSourceSecrets_def assms stored_passwords_def twin_sources_def preserve_source_def
      source_dto_def CachedFeedFetchedAt_def Let_def)



section \<open>Concrete inputs\<close>

lemma requests_stay_with_their_user_witness:
  "filter (\<lambda>r. w_user r \<noteq> ''u1'') (ap_feeds (snd (serve sample_server sample_decoders RemoveFeed sample_request shared_app))) =
     [other_feed_row]"
proof -
  obtain r s' where s: "serve sample_server sample_decoders RemoveFeed sample_request shared_app = (r, s')" by fastforce
  have "filter (\<lambda>r. w_user r \<noteq> us_id (scanUser (hd sample_users))) (ap_feeds s') =
      filter (\<lambda>r. w_user r \<noteq> us_id (scanUser (hd sample_users))) (ap_feeds shared_app)"
    using requests_stay_with_their_user [OF _ _ _ s, of "scanUser (hd sample_users)" shared_app]
      sample_signed_in(1) [of "[empty_feed_row, other_feed_row]"]
    by (simp add: user_routes_def shared_app_def) (simp add: sample_app_def)
  moreover have "filter (\<lambda>r. w_user r \<noteq> ''u1'') (ap_feeds shared_app) = [other_feed_row]"
    by (simp add: shared_app_def empty_feed_row_def other_feed_row_def)
  ultimately show ?thesis by (simp add: s sample_signed_in(2))
qed

definition sourced_feed :: "string \<Rightarrow> feed" where
  "sourced_feed pw = empty_feed\<lparr>fd_sources := [\<lparr>fs_url = ''https://a/c'', fs_username = ''me'', fs_password = pw\<rparr>,
     \<lparr>fs_url = ''https://b/c'', fs_username = [], fs_password = []\<rparr>]\<rparr>"

definition keyed_job :: "string \<Rightarrow> sync_job" where
  "keyed_job pw = card_job\<lparr>sj_config := (sj_config card_job)\<lparr>jc_a_password := pw\<rparr>\<rparr>"


lemma sourced_feed_shape: "stored_shape sample_server (sourced_feed ''p1'')"
proof -
  have "go_trim_space ''Work'' = ''Work''" "go_trim_space ''https://a/c'' = ''https://a/c''"
    "go_trim_space ''https://b/c'' = ''https://b/c''"
    by (rule go_trim_space_plain; simp add: starts_plain_def plain_char_def)+
  then show ?thesis
    by (simp add: stored_shape_def sourced_feed_def empty_feed_def parseNotifications_def sample_server_def
        empty_notifications_def)
qed


end
