(* ===== verification/Server_Checks.thy ===== *)
theory Server_Checks
  imports Server_Props
begin

text \<open>
  Properties that join the server with the components behind it: a validated job is one the runner
  accepts, the tag of a calendar answers the next conditional request, and rotating a secret kills the
  old link.
\<close>


section \<open>Validation and the sync runner\<close>

text \<open>Clients that connect: the constructors of \<^verbatim>\<open>go-webdav\<close> succeed on the endpoint.\<close>

definition endpoint_connects :: "('w, 'l, 'v) runner_env \<Rightarrow> string \<Rightarrow> bool" where
  "endpoint_connects env url \<longleftrightarrow> url_parse url \<noteq> None \<and>
     (\<forall>u p. is_ok (ru_caldav env url u p) \<and> is_ok (ru_carddav env url u p))"

lemma is_ok_cases: "is_ok r \<Longrightarrow> (\<And>x. r = Inr x \<Longrightarrow> P) \<Longrightarrow> P"
  by (cases r) (simp_all add: is_ok_def)

lemma NewCalDAV_ok:
  assumes "endpoint_connects env url"
  shows "\<exists>a. NewCalDAVCollection lib (ru_caldav env) ue url u p = Inr a"
proof -
  have "is_ok (ru_caldav env url u p)" using assms by (simp add: endpoint_connects_def)
  then obtain client where "ru_caldav env url u p = Inr client" by (rule is_ok_cases)
  with assms show ?thesis by (auto simp: endpoint_connects_def NewCalDAVCollection_def)
qed

lemma NewCardDAV_ok:
  assumes "endpoint_connects env url"
  shows "\<exists>a. NewCardDAVCollection lib (ru_carddav env) ue url u p = Inr a"
proof -
  have "is_ok (ru_carddav env url u p)" using assms by (simp add: endpoint_connects_def)
  then obtain client where "ru_carddav env url u p = Inr client" by (rule is_ok_cases)
  with assms show ?thesis by (auto simp: endpoint_connects_def NewCardDAVCollection_def)
qed

lemma connect_both_ok:
  assumes "\<And>u p. \<exists>a. new (jc_a_url c) u p = Inr a" and "\<And>u p. \<exists>a. new (jc_b_url c) u p = Inr a"
  shows "\<exists>a b. connect_both new c opts = Inr (a, b, opts)"
proof -
  obtain a where a: "new (jc_a_url c) (jc_a_username c) (jc_a_password c) = Inr a" using assms(1) by blast
  obtain b where "new (jc_b_url c) (jc_b_username c) (jc_b_password c) = Inr b" using assms(2) by blast
  with a show ?thesis by (simp add: connect_both_def)
qed


lemma validateSyncJobRequest_ok:
  assumes "validateSyncJobRequest env q = None"
  obtains s e where "jq_kind q = ''caldav'' \<or> jq_kind q = ''carddav''"
    "jq_direction q = AToB \<or> jq_direction q = BToA \<or> jq_direction q = Bidirectional"
    "jq_conflict q = [] \<or> jq_conflict q = NewestWins \<or> jq_conflict q = SourceWins"
    "ParseWindow (go_trim_space (jq_window_start q)) (go_trim_space (jq_window_end q)) = Inr (s, e)"
  using assms
  by (auto simp: validateSyncJobRequest_def AToB_def BToA_def Bidirectional_def NewestWins_def SourceWins_def
      split: if_splits sum.splits prod.splits)

lemma buildSync_known:
  assumes "jc_direction c = AToB \<or> jc_direction c = BToA \<or> jc_direction c = Bidirectional"
    and "jc_conflict c = NewestWins \<or> jc_conflict c = SourceWins"
  shows "jc_kind c = ''caldav'' \<Longrightarrow> ParseWindow (jc_window_start c) (jc_window_end c) = Inr (s, e) \<Longrightarrow>
      buildSync env c = connect_both (NewCalDAVCollection (ru_ical env) (ru_caldav env) (ru_url_error env)) c
        ((kind_options (jc_direction c) (jc_conflict c))\<lparr>opt_uid := Some (CalendarUID (ru_ical env)),
           opt_modified := Some (CalendarModified (ru_ical env) (ru_utc env)),
           opt_href_suffix := ''.ics'', opt_window_start := s, opt_window_end := e\<rparr>)"
    and "jc_kind c = ''carddav'' \<Longrightarrow>
      buildSync env c = connect_both (NewCardDAVCollection (ru_vcard env) (ru_carddav env) (ru_url_error env)) c
        ((kind_options (jc_direction c) (jc_conflict c))\<lparr>opt_uid := Some (ContactUID (ru_vcard env)),
           opt_modified := Some (ContactModified (ru_vcard env)), opt_href_suffix := ''.vcf''\<rparr>)"
proof -
  have "\<not> (jc_direction c \<noteq> AToB \<and> jc_direction c \<noteq> BToA \<and> jc_direction c \<noteq> Bidirectional)"
    "\<not> (jc_conflict c \<noteq> NewestWins \<and> jc_conflict c \<noteq> SourceWins \<and> jc_conflict c \<noteq> [])"
    using assms by blast+
  note known = this
  show "jc_kind c = ''caldav'' \<Longrightarrow> ParseWindow (jc_window_start c) (jc_window_end c) = Inr (s, e) \<Longrightarrow>
      buildSync env c = connect_both (NewCalDAVCollection (ru_ical env) (ru_caldav env) (ru_url_error env)) c
        ((kind_options (jc_direction c) (jc_conflict c))\<lparr>opt_uid := Some (CalendarUID (ru_ical env)),
           opt_modified := Some (CalendarModified (ru_ical env) (ru_utc env)),
           opt_href_suffix := ''.ics'', opt_window_start := s, opt_window_end := e\<rparr>)"
    by (simp only: buildSync_def known if_False Let_def) simp
  show "jc_kind c = ''carddav'' \<Longrightarrow>
      buildSync env c = connect_both (NewCardDAVCollection (ru_vcard env) (ru_carddav env) (ru_url_error env)) c
        ((kind_options (jc_direction c) (jc_conflict c))\<lparr>opt_uid := Some (ContactUID (ru_vcard env)),
           opt_modified := Some (ContactModified (ru_vcard env)), opt_href_suffix := ''.vcf''\<rparr>)"
    by (simp only: buildSync_def known if_False Let_def) simp
qed

lemma buildSync_calendars:
  assumes "endpoint_connects env (jc_a_url c)" and "endpoint_connects env (jc_b_url c)" and "jc_kind c = ''caldav''"
    and "jc_direction c = AToB \<or> jc_direction c = BToA \<or> jc_direction c = Bidirectional"
    and "jc_conflict c = NewestWins \<or> jc_conflict c = SourceWins"
    and "ParseWindow (jc_window_start c) (jc_window_end c) = Inr (s, e)"
  shows "\<exists>a b opts. buildSync env c = Inr (a, b, opts) \<and> opt_direction opts = jc_direction c \<and>
    opt_conflict opts = jc_conflict c \<and> opt_uid opts \<noteq> None"
proof -
  let ?opts = "(kind_options (jc_direction c) (jc_conflict c))
    \<lparr>opt_uid := Some (CalendarUID (ru_ical env)), opt_modified := Some (CalendarModified (ru_ical env) (ru_utc env)),
     opt_href_suffix := ''.ics'', opt_window_start := s, opt_window_end := e\<rparr>"
  obtain a b where "connect_both (NewCalDAVCollection (ru_ical env) (ru_caldav env) (ru_url_error env)) c ?opts =
      Inr (a, b, ?opts)"
    using connect_both_ok [of "NewCalDAVCollection (ru_ical env) (ru_caldav env) (ru_url_error env)" c ?opts]
      NewCalDAV_ok [OF assms(1)] NewCalDAV_ok [OF assms(2)] by blast
  then have "buildSync env c = Inr (a, b, ?opts)"
    using buildSync_known(1) [OF assms(4,5), of s e env] assms(3,6) by simp
  then have "buildSync env c = Inr (a, b, ?opts) \<and> opt_direction ?opts = jc_direction c \<and>
      opt_conflict ?opts = jc_conflict c \<and> opt_uid ?opts \<noteq> None"
    by (simp add: kind_options_def)
  then show ?thesis by blast
qed

lemma buildSync_contacts:
  assumes "endpoint_connects env (jc_a_url c)" and "endpoint_connects env (jc_b_url c)" and "jc_kind c = ''carddav''"
    and "jc_direction c = AToB \<or> jc_direction c = BToA \<or> jc_direction c = Bidirectional"
    and "jc_conflict c = NewestWins \<or> jc_conflict c = SourceWins"
  shows "\<exists>a b opts. buildSync env c = Inr (a, b, opts) \<and> opt_direction opts = jc_direction c \<and>
    opt_conflict opts = jc_conflict c \<and> opt_uid opts \<noteq> None"
proof -
  let ?opts = "(kind_options (jc_direction c) (jc_conflict c))
    \<lparr>opt_uid := Some (ContactUID (ru_vcard env)), opt_modified := Some (ContactModified (ru_vcard env)),
     opt_href_suffix := ''.vcf''\<rparr>"
  obtain a b where "connect_both (NewCardDAVCollection (ru_vcard env) (ru_carddav env) (ru_url_error env)) c ?opts =
      Inr (a, b, ?opts)"
    using connect_both_ok [of "NewCardDAVCollection (ru_vcard env) (ru_carddav env) (ru_url_error env)" c ?opts]
      NewCardDAV_ok [OF assms(1)] NewCardDAV_ok [OF assms(2)] by blast
  then have "buildSync env c = Inr (a, b, ?opts)"
    using buildSync_known(2) [OF assms(4,5), of env] assms(3) by simp
  then have "buildSync env c = Inr (a, b, ?opts) \<and> opt_direction ?opts = jc_direction c \<and>
      opt_conflict ?opts = jc_conflict c \<and> opt_uid ?opts \<noteq> None"
    by (simp add: kind_options_def)
  then show ?thesis by blast
qed

text \<open>C29: what the API lets through, the runner runs: a job built from a request that passed validation has
  a known direction, a known conflict policy, a readable window, a positive interval and an identity
  function, so its runs end in no configuration error once its two endpoints accept the connection.\<close>

theorem valid_job_is_runnable:
  assumes "validateSyncJobRequest env q = None" and "c = sj_config (jobFromRequest jid user q existing)"
    and "endpoint_connects (sv_run env) (jc_a_url c)" and "endpoint_connects (sv_run env) (jc_b_url c)"
  shows "\<exists>a b opts. buildSync (sv_run env) c = Inr (a, b, opts) \<and> opt_direction opts = jq_direction q \<and>
    opt_direction opts \<in> {AToB, BToA, Bidirectional} \<and> opt_conflict opts \<in> {NewestWins, SourceWins} \<and>
    opt_uid opts \<noteq> None \<and> 0 < jc_interval c"
proof -
  obtain s e where q: "jq_kind q = ''caldav'' \<or> jq_kind q = ''carddav''"
    "jq_direction q = AToB \<or> jq_direction q = BToA \<or> jq_direction q = Bidirectional"
    "jq_conflict q = [] \<or> jq_conflict q = NewestWins \<or> jq_conflict q = SourceWins"
    "ParseWindow (go_trim_space (jq_window_start q)) (go_trim_space (jq_window_end q)) = Inr (s, e)"
    using assms(1) by (rule validateSyncJobRequest_ok)
  have c: "jc_kind c = jq_kind q" "jc_direction c = jq_direction q"
    "jc_conflict c = (if jq_conflict q = [] then NewestWins else jq_conflict q)"
    "jc_window_start c = go_trim_space (jq_window_start q)" "jc_window_end c = go_trim_space (jq_window_end q)"
    "jc_interval c = (if jq_interval q \<le> 0 then 900 else jq_interval q)"
    by (simp_all add: assms(2) jobFromRequest_def Let_def NewestWins_def)
  have conflict: "jc_conflict c = NewestWins \<or> jc_conflict c = SourceWins" using q(3) c(3) by auto
  have direction: "jc_direction c = AToB \<or> jc_direction c = BToA \<or> jc_direction c = Bidirectional"
    using q(2) c(2) by simp
  have "\<exists>a b opts. buildSync (sv_run env) c = Inr (a, b, opts) \<and> opt_direction opts = jc_direction c \<and>
      opt_conflict opts = jc_conflict c \<and> opt_uid opts \<noteq> None"
    using q(1) assms(3,4) direction conflict buildSync_calendars [of "sv_run env" c s e] buildSync_contacts [of "sv_run env" c] q(4)
    by (auto simp: c(1,4,5))
  moreover have "jc_direction c \<in> {AToB, BToA, Bidirectional}" using q(2) c(2) by simp
  moreover have "jc_conflict c \<in> {NewestWins, SourceWins}" using conflict by simp
  moreover have "0 < jc_interval c" by (simp add: c(6))
  ultimately show ?thesis unfolding c(2) [symmetric] by metis
qed



section \<open>The public calendar\<close>

text \<open>A tag as a client offers it: strong, or weakened by a proxy on the way.\<close>

definition offered :: "(bytes \<Rightarrow> bytes) \<Rightarrow> bool \<times> bytes \<Rightarrow> string" where
  "offered sha wb = (if fst wb then ''W/'' else []) @ entityTag sha (snd wb)"

lemma hex_digit_plain: "plain_char (hex_digit n) \<and> hex_digit n \<noteq> CHR '','' "
proof -
  have "n mod 16 \<in> set [0..<16]" by simp
  then show ?thesis
    unfolding hex_digit_def by (simp add: upt_rec del: set_upt) (auto simp: plain_char_def)
qed

lemma hex_encode_plain: "c \<in> set (hex_encode b) \<Longrightarrow> plain_char c \<and> c \<noteq> CHR '',''"
  using hex_digit_plain by (auto simp: hex_encode_def)

lemma entityTag_inj: "entityTag sha a = entityTag sha b \<longleftrightarrow> take 16 (sha a) = take 16 (sha b)"
  using hex_encode_inj by (auto simp: entityTag_def)

lemma quote_plain: "plain_char CHR 0x22" "plain_char CHR ''W''"
  by (simp_all add: plain_char_def)

lemma offered_trim: "go_trim_space (offered sha wb) = offered sha wb"
  by (rule go_trim_space_plain) (simp_all add: starts_plain_def offered_def entityTag_def quote_plain split: list.split)

lemma offered_no_comma: "CHR '','' \<notin> set (offered sha wb)"
  using hex_encode_plain by (auto simp: offered_def entityTag_def)

lemma trim_prefix_none: "\<not> has_prefix s p \<Longrightarrow> trim_prefix s p = s"
  by (simp add: trim_prefix_def)

lemma strong_tag: "trim_prefix (entityTag sha b) ''W/'' = entityTag sha b"
  by (rule trim_prefix_none) (simp add: entityTag_def has_prefix_def)

lemma offered_tag: "trim_prefix (offered sha wb) ''W/'' = entityTag sha (snd wb)"
  by (cases "fst wb") (simp_all add: offered_def strong_tag, simp add: trim_prefix_def has_prefix_def)

lemma join_offered_ends:
  "starts_plain (go_join (map (offered sha) cs) '','') \<and> starts_plain (rev (go_join (map (offered sha) cs) '',''))"
proof (induction cs rule: induct_list012)
  case (3 a b cs)
  have "starts_plain (offered sha a @ x)" for x
    by (simp add: starts_plain_def offered_def entityTag_def quote_plain)
  moreover have "rev (go_join (map (offered sha) (b # cs)) '','') \<noteq> []"
    by (cases cs) (simp_all add: offered_def entityTag_def)
  ultimately show ?case using 3(2) by (auto simp: starts_plain_def split: list.splits)
qed (simp_all add: starts_plain_def offered_def entityTag_def quote_plain)


lemma etagMatches_offered:
  "etagMatches (go_join (map (offered sha) cs) '','') (entityTag sha body) \<longleftrightarrow>
     (\<exists>wb\<in>set cs. take 16 (sha (snd wb)) = take 16 (sha body))"
proof (cases "cs = []")
  case True
  then show ?thesis by (simp add: etagMatches_def)
next
  case False
  let ?h = "go_join (map (offered sha) cs) '',''"
  have trim: "go_trim_space ?h = ?h" using join_offered_ends by (intro go_trim_space_plain) auto
  have ne: "?h \<noteq> []" "?h \<noteq> ''*''"
    using False by (cases cs; cases "tl cs"; simp add: offered_def entityTag_def)+
  have split: "split_char CHR '','' ?h = map (offered sha) cs"
    using False offered_no_comma by (intro split_join_char) auto
  have "etagMatches ?h (entityTag sha body) =
      list_ex (\<lambda>c. trim_prefix (go_trim_space c) ''W/'' = entityTag sha body) (map (offered sha) cs)"
    using ne by (simp add: etagMatches_def trim split strong_tag Let_def)
  then show ?thesis by (auto simp: list_ex_iff offered_trim offered_tag entityTag_inj)
qed

lemma handleICS_run:
  assumes "FeedBySecret js (rq_path rq ''secret'') (ap_feeds s) = Inr f"
    and "fd_basic_hash f = [] \<or> validBasicAuth env rq f"
    and "Render feeds f (au_world s, ap_cache s) = (Inr body, w, c)"
  shows "answer (handleICS env js feeds rq) s =
    (calendar_response (rq_header rq ''If-None-Match'') (entityTag (av_sha env) body) body,
     s\<lparr>au_world := w, ap_cache := c, ap_feeds := MarkFeedServed (av_now env w) (fd_id f) (ap_feeds s)\<rparr>)"
  using assms
  by (auto simp: handleICS_def andthen_def or_respond_def rendering_def markServed_def modify_def pass_def answer_def Let_def)

lemma handleICS_refused:
  assumes "FeedBySecret js (rq_path rq ''secret'') (ap_feeds s) = Inr f"
    and "fd_basic_hash f \<noteq> []" and "\<not> validBasicAuth env rq f"
  shows "rs_status (fst (answer (handleICS env js feeds rq) s)) = 401 \<and> snd (answer (handleICS env js feeds rq) s) = s"
  using assms by (simp add: handleICS_def andthen_def or_respond_def answer_def stop_def writeError_def writeJSON_def)

text \<open>C27: the calendar endpoint: a protected calendar is refused before anything is fetched; otherwise the
  body is rendered afresh, and a client that offers tags it got before, strong or weakened, gets an
  empty 304 exactly when one of them belongs to a body with the same digest prefix, and the new body
  with the new tag otherwise; either way the visit is counted.\<close>

theorem calendar_conditional_get:
  assumes "FeedBySecret js (rq_path rq ''secret'') (ap_feeds s) = Inr f"
    and "Render feeds f (au_world s, ap_cache s) = (Inr body, w, c)"
    and "rq_header rq ''If-None-Match'' = go_join (map (offered (av_sha env)) tags) '',''"
    and "answer (handleICS env js feeds rq) s = (r, s')"
  shows "if fd_basic_hash f \<noteq> [] \<and> \<not> validBasicAuth env rq f then rs_status r = 401 \<and> s' = s
    else (rs_status r, rs_body r) =
        (if \<exists>wb\<in>set tags. take 16 (av_sha env (snd wb)) = take 16 (av_sha env body) then (304, NoBody)
         else (200, CalendarBody body)) \<and>
      (''ETag'', entityTag (av_sha env) body) \<in> set (rs_headers r) \<and>
      ap_feeds s' = MarkFeedServed (av_now env w) (fd_id f) (ap_feeds s)"
proof (cases "fd_basic_hash f \<noteq> [] \<and> \<not> validBasicAuth env rq f")
  case True
  with handleICS_refused [OF assms(1), of env feeds] assms(4) show ?thesis by simp
next
  case False
  with handleICS_run [OF assms(1) _ assms(2), of env] assms(3,4) show ?thesis
    by (auto simp: calendar_response_def etagMatches_offered calendar_headers_def)
qed


section \<open>Rotating the secret\<close>

lemma find_unique:
  assumes "distinct (map g rows)" and "r \<in> set rows"
  shows "List.find (\<lambda>x. g x = g r) rows = Some r"
  using assms by (induction rows) auto

lemma UpdateFeed_ok:
  assumes "UpdateFeed js now f rows = (None, rows')"
  obtains g where "rows' = map (\<lambda>r. if owned (fd_id f) (fd_user f) r then g r else r) rows"
    "\<And>r. w_secret (g r) = fd_secret f"
proof (cases "marshalSources js (fd_sources f)")
  case (Inl e)
  with assms show ?thesis by (simp add: UpdateFeed_def)
next
  case (Inr sources)
  let ?clash = "list_ex (owned (fd_id f) (fd_user f)) rows \<and>
      list_ex (\<lambda>r. \<not> owned (fd_id f) (fd_user f) r \<and> w_secret r = fd_secret f) rows"
  show ?thesis
  proof (cases ?clash)
    case True
    with assms Inr show ?thesis by (simp only: UpdateFeed_def sum.case if_True prod.inject) simp
  next
    case False
    let ?g = "\<lambda>r. r\<lparr>w_name := fd_name f, w_secret := fd_secret f, w_sources := sources,
      w_rules := rulesOrEmpty (fd_rules f), w_ttl := fd_ttl f,
      w_basic_user := fd_basic_user f, w_basic_hash := fd_basic_hash f,
      w_notifications := notifOrEmpty (fd_notifications f), w_updated := stamp now\<rparr>"
    from assms Inr False have "rows' = map (\<lambda>r. if owned (fd_id f) (fd_user f) r then ?g r else r) rows"
      by (simp only: UpdateFeed_def sum.case if_False update_where_def prod.case prod.inject)
    with that [of ?g] show ?thesis by simp
  qed
qed

lemma FeedByID_row:
  assumes "FeedByID js i rows = Inr f"
  obtains r where "r \<in> set rows" "w_id r = i" "fd_id f = w_id r" "fd_user f = w_user r" "fd_secret f = w_secret r"
proof -
  obtain r where r: "List.find (\<lambda>r. w_id r = i) rows = Some r" "scanFeed js r = Inr f"
    using assms by (auto simp: FeedByID_def feedBy_def split: option.splits sum.splits)
  then have "r \<in> set rows" "w_id r = i" by (auto simp: find_Some_iff)
  moreover have "fd_id f = w_id r" "fd_user f = w_user r" "fd_secret f = w_secret r"
    using r(2) by (auto simp: scanFeed_def Let_def split: if_splits sum.splits)
  ultimately show ?thesis by (rule that)
qed

lemma rotated_row_gone:
  assumes "feeds_wf rows" and "FeedByID js i rows = Inr f" and "UpdateFeed js now (f\<lparr>fd_secret := sec\<rparr>) rows = (None, rows')"
    and "sec \<noteq> fd_secret f"
  shows "FeedBySecret js (fd_secret f) rows' = Inl ErrNotFound"
proof -
  obtain r where r: "r \<in> set rows" "w_id r = i" "fd_id f = w_id r" "fd_user f = w_user r" "fd_secret f = w_secret r"
    by (rule FeedByID_row [OF assms(2)])
  have "w_secret x \<noteq> fd_secret f" if x: "x \<in> set rows'" for x
  proof
    assume same: "w_secret x = fd_secret f"
    obtain g where "rows' = map (\<lambda>r. if owned (fd_id (f\<lparr>fd_secret := sec\<rparr>)) (fd_user (f\<lparr>fd_secret := sec\<rparr>)) r then g r else r) rows"
      "\<And>r. w_secret (g r) = fd_secret (f\<lparr>fd_secret := sec\<rparr>)"
      by (rule UpdateFeed_ok [OF assms(3)]) (rule that)
    with x same assms(4) obtain q where q: "q \<in> set rows" "\<not> owned (fd_id f) (fd_user f) q" "x = q"
      by (auto split: if_splits)
    with same r have "w_secret q = w_secret r" by simp
    with assms(1) q(1) r(1) have "q = r" by (auto simp: feeds_wf_def distinct_map dest: inj_onD)
    with q(2) r show False by (simp add: owned_def)
  qed
  then have "List.find (\<lambda>x. w_secret x = fd_secret f) rows' = None" by (auto simp: find_None_iff)
  then show ?thesis by (simp add: FeedBySecret_def feedBy_def)
qed

lemma randomToken_run:
  "randomToken env s = (res, s1) \<Longrightarrow> s1 = s\<lparr>au_world := au_world s1\<rparr>"
  by (auto simp: randomToken_def andthen_def outside_def pass_def split: prod.splits sum.splits)

lemma status_error [simp]: "rs_status (writeError n msg) = n" "rs_status serverError = 500" "rs_status not_found = 404"
  by (simp_all add: writeError_def writeJSON_def serverError_def not_found_def)

lemma rotate_run:
  assumes "answer (handleRotateFeedSecret env rq) s = (r, s')" and "rs_status r = 200"
  obtains u f sec now where "UserFromRequest (sv_auth env) (rq_cookies rq) s = (Inr u, s)"
    "FeedByID (sv_json env) (rq_path rq ''id'') (ap_feeds s) = Inr f" "fd_user f = us_id u"
    "UpdateFeed (sv_json env) now (f\<lparr>fd_secret := sec\<rparr>) (ap_feeds s) = (None, ap_feeds s')"
    "rs_body r = FeedBody (toFeedResponse env (ap_cache s') (f\<lparr>fd_secret := sec, fd_updated := now\<rparr>))"
proof -
  obtain res s0 where u0: "UserFromRequest (sv_auth env) (rq_cookies rq) s = (res, s0)" by fastforce
  obtain u where u: "UserFromRequest (sv_auth env) (rq_cookies rq) s = (Inr u, s)"
  proof (cases res)
    case (Inl e)
    with u0 assms show ?thesis
      by (auto simp: handleRotateFeedSecret_def requireUser_refused answer_def)
  next
    case (Inr u)
    with u0 UserFromRequest_state [OF u0] that [of u] show ?thesis by auto
  qed
  note run = requireUser_granted [OF u]
  obtain f where f: "FeedByID (sv_json env) (rq_path rq ''id'') (ap_feeds s) = Inr f" "fd_user f = us_id u"
    using assms
    by (auto simp: handleRotateFeedSecret_def run answer_def andthen_def [of "ownedFeed _ _ _"] ownedFeed_def
        split: sum.splits if_splits)
  have own: "ownedFeed env rq u s = (Inr f, s)" using f by (simp add: ownedFeed_def)
  have owned_run: "andthen (ownedFeed env rq u) k s = k f s" for k :: "feed \<Rightarrow> ('a, response) handler"
    using own by (rule andthen_ok)
  obtain tok s1 where tok: "randomToken (sv_auth env) s = (tok, s1)" by fastforce
  have s1: "s1 = s\<lparr>au_world := au_world s1\<rparr>" by (rule randomToken_run [OF tok])
  obtain sec where sec: "tok = Inr sec"
    using assms tok
    by (cases tok) (auto simp: handleRotateFeedSecret_def run answer_def owned_run
        andthen_def [of "or_respond _ _"] or_respond_def)
  have tok_ok: "or_respond (randomToken (sv_auth env)) (\<lambda>_. serverError) s = (Inr sec, s1)"
    using tok sec by (simp add: or_respond_def)
  have token_run: "andthen (or_respond (randomToken (sv_auth env)) (\<lambda>_. serverError)) k s = k sec s1"
    for k :: "string \<Rightarrow> ('a, response) handler"
    using tok_ok by (rule andthen_ok)
  have rest: "(r, s') = answer (andthen (or_respond (update_feed env (f\<lparr>fd_secret := sec\<rparr>)) (\<lambda>_. serverError)) (\<lambda>f.
     andthen (audit (sv_auth env) u ''feed.rotate-secret'' (fd_id f) (fd_name f)) (\<lambda>_. feed_answer env 200 f))) s1"
    using assms(1) by (simp add: handleRotateFeedSecret_def run answer_def owned_run token_run)
  let ?now = "now_of env s1"
  obtain e rows where upd: "UpdateFeed (sv_json env) ?now (f\<lparr>fd_secret := sec\<rparr>) (ap_feeds s1) = (e, rows)" by fastforce
  have "ap_feeds s1 = ap_feeds s" by (subst s1) simp
  moreover have "e = None"
    using rest assms(2) upd
    by (cases e) (auto simp: answer_def andthen_def or_respond_def update_feed_def Let_def)
  moreover from this rest upd have "ap_feeds s' = rows"
    "rs_body r = FeedBody (toFeedResponse env (ap_cache s') (f\<lparr>fd_secret := sec, fd_updated := ?now\<rparr>))"
    by (auto simp: answer_def andthen_def or_respond_def update_feed_def audit_def feed_answer_def modify_def peek_def
        writeJSON_def Let_def)
  ultimately show ?thesis using u f upd that by metis
qed

text \<open>Rotating a secret kills the old link: after a successful rotation the feed's previous secret
  resolves to nothing as soon as the new one differs, the response carries the new secret, and every
  feed of other users is as before.\<close>

theorem rotated_link_is_dead:
  assumes "feeds_wf (ap_feeds s)" and "FeedByID (sv_json env) (rq_path rq ''id'') (ap_feeds s) = Inr f"
    and "answer (handleRotateFeedSecret env rq) s = (r, s')" and "rs_status r = 200"
  shows "\<exists>fr. rs_body r = FeedBody fr \<and> fo_id fr = fd_id f \<and>
    (fo_secret fr \<noteq> fd_secret f \<longrightarrow>
       FeedBySecret (sv_json env) (fd_secret f) (ap_feeds s') = Inl ErrNotFound) \<and>
    filter (\<lambda>x. w_user x \<noteq> fd_user f) (ap_feeds s') = filter (\<lambda>x. w_user x \<noteq> fd_user f) (ap_feeds s)"
proof -
  obtain u sec now where run:
    "UpdateFeed (sv_json env) now (f\<lparr>fd_secret := sec\<rparr>) (ap_feeds s) = (None, ap_feeds s')"
    "rs_body r = FeedBody (toFeedResponse env (ap_cache s') (f\<lparr>fd_secret := sec, fd_updated := now\<rparr>))"
    using rotate_run [OF assms(3,4)] assms(2) by (metis sum.inject(2))
  have "sec \<noteq> fd_secret f \<Longrightarrow> FeedBySecret (sv_json env) (fd_secret f) (ap_feeds s') = Inl ErrNotFound"
    by (rule rotated_row_gone [OF assms(1,2) run(1)])
  with run others_UpdateFeed [of "f\<lparr>fd_secret := sec\<rparr>" "fd_user f" "sv_json env" now "ap_feeds s"]
  show ?thesis by (simp add: toFeedResponse_def)
qed



section \<open>Concrete inputs\<close>

definition open_server :: "(nat, string, unit, bytes) server_env" where
  "open_server = sample_server\<lparr>sv_run := card_env\<lparr>ru_caldav := (\<lambda>_ _ _. Inr
     \<lparr>dc_read_dir = (\<lambda>p n. (Inr [], n + 1)), dc_get = (\<lambda>h n. (Inl (ErrNew ''gone''), n)),
      dc_put = (\<lambda>h v n. (Inl (ErrNew ''read only''), n)), dc_remove_all = (\<lambda>h n. (Inr (), n))\<rparr>)\<rparr>\<rparr>"

definition sample_job_request :: job_request where
  "sample_job_request = \<lparr>jq_name = ''n'', jq_kind = ''caldav'', jq_direction = ''a-to-b'', jq_conflict = [],
     jq_a_url = ''https://a/'', jq_a_username = [], jq_a_password = [], jq_b_url = ''https://b/'', jq_b_username = [],
     jq_b_password = [], jq_interval = 0, jq_enabled = True, jq_window_start = [], jq_window_end = []\<rparr>"

lemma sample_urls: "http_url ''https://a/''" "http_url ''https://b/''"
  "url_parse ''https://a/'' \<noteq> None" "url_parse ''https://b/'' \<noteq> None"
  by code_simp+

lemma sample_job_valid: "validateSyncJobRequest open_server sample_job_request = None"
proof -
  have "go_trim_space ''n'' = ''n''" by (rule go_trim_space_plain) (simp_all add: starts_plain_def plain_char_def)
  moreover have "go_trim_space [] = []" by code_simp
  ultimately show ?thesis
    using sample_urls
    by (simp add: validateSyncJobRequest_def sample_job_request_def ParseWindow_def parseBound_def)
qed

lemma valid_job_is_runnable_witness:
  "\<exists>a b opts. buildSync (sv_run open_server) (sj_config (jobFromRequest ''j'' ''u'' sample_job_request None)) = Inr (a, b, opts) \<and>
     opt_direction opts = AToB"
proof -
  have t: "go_trim_space ''https://a/'' = ''https://a/''" "go_trim_space ''https://b/'' = ''https://b/''"
    by (rule go_trim_space_plain; simp add: starts_plain_def plain_char_def)+
  then have urls: "jc_a_url (sj_config (jobFromRequest ''j'' ''u'' sample_job_request None)) = ''https://a/''"
    "jc_b_url (sj_config (jobFromRequest ''j'' ''u'' sample_job_request None)) = ''https://b/''"
    by (simp_all add: jobFromRequest_def sample_job_request_def Let_def)
  have "endpoint_connects (sv_run open_server) ''https://a/''" "endpoint_connects (sv_run open_server) ''https://b/''"
    using sample_urls by (simp_all add: endpoint_connects_def open_server_def card_env_def is_ok_def)
  then obtain a b opts where
    "buildSync (sv_run open_server) (sj_config (jobFromRequest ''j'' ''u'' sample_job_request None)) = Inr (a, b, opts)"
    "opt_direction opts = jq_direction sample_job_request"
    using valid_job_is_runnable [OF sample_job_valid refl, of "''j''" "''u''" None] unfolding urls by blast
  then show ?thesis by (simp add: sample_job_request_def AToB_def)
qed

lemma sample_render: "\<exists>body. Render sample_feed_env empty_feed (0, []) = (Inr body, 0, [])"
proof -
  have no_rules: "buildPipeline sample_feed_env ''[]'' = Inr []"
    by (simp add: buildPipeline_def sample_feed_env_def BuildPipeline_def)
  have name: "go_trim_space ''Work'' = ''Work''"
    by (rule go_trim_space_plain) (simp_all add: starts_plain_def plain_char_def)
  let ?L = "sample_ical :: unit ical_lib"
  define f where "f = \<lparr>fd_id = [], fd_user = [], fd_name = ''Work'', fd_secret = [], fd_sources = [],
     fd_rules = [], fd_ttl = 900, fd_basic_user = [], fd_basic_hash = [], fd_notifications = [],
     fd_last_served = 0, fd_serve_count = 0, fd_created = 0, fd_updated = 0\<rparr>"
  have "case Serialize ?L (\<lambda>_. None) (newCalendar ?L f) of Inl _ \<Rightarrow> False | Inr _ \<Rightarrow> True"
    unfolding f_def by code_simp
  moreover have "newCalendar ?L f = newCalendar ?L empty_feed"
    by (simp add: newCalendar_def f_def empty_feed_def Let_def)
  ultimately obtain body where b: "Serialize ?L (\<lambda>_. None) (newCalendar ?L empty_feed) = Inr body"
    by (cases "Serialize ?L (\<lambda>_. None) (newCalendar ?L empty_feed)") simp_all
  have lib: "newCalendar (ve_lib sample_feed_env) empty_feed = newCalendar ?L empty_feed"
    by (simp add: newCalendar_def sample_feed_env_def merge_pipe_def sample_ical_def TextProp_def DurationProp_def Let_def)
  have ser: "Serialize (ve_lib sample_feed_env) w c = Serialize ?L w c" for w c
    by (simp add: Serialize_def sample_feed_env_def merge_pipe_def sample_ical_def)
  have no_children: "with_children [] (newCalendar lib f) = newCalendar lib f" "c_children (newCalendar lib f) = []" for lib :: "'l ical_lib" and f
    by (simp_all add: newCalendar_def with_children_def Let_def)
  have tz: "attachTimezones env now tz (newCalendar lib f) = newCalendar lib f" for env :: "(nat, cache_row list, string, unit) feed_env" and now tz f and lib :: "'l ical_lib"
    by (simp add: attachTimezones_def referencedTZIDs_def no_children events_of_def Let_def)
  have r: "fd_rules empty_feed = ''[]''" "fd_sources empty_feed = []" by (simp_all add: empty_feed_def)
  show ?thesis
    by (simp add: Render_def merge_def transform_def r no_rules merge_start_def no_children tz ser lib b)
qed
lemma calendar_conditional_get_witness:
  "\<exists>body r s'. Render sample_feed_env empty_feed (0, []) = (Inr body, 0, []) \<and>
     answer (handleICS (sv_auth sample_server) sample_json sample_feed_env
       (sample_request\<lparr>rq_header := (\<lambda>_. offered id (True, body))\<rparr>)) sample_app = (r, s') \<and> rs_status r = 304"
proof -
  obtain body where b: "Render sample_feed_env empty_feed (0, []) = (Inr body, 0, [])" using sample_render by blast
  let ?rq = "sample_request\<lparr>rq_header := (\<lambda>_. offered id (True, body))\<rparr>"
  obtain r s' where r: "answer (handleICS (sv_auth sample_server) sample_json sample_feed_env ?rq) sample_app = (r, s')"
    by fastforce
  have "rs_status r = 304"
    using calendar_conditional_get [OF _ _ _ r, of empty_feed body 0 "[]" "[(True, body)]"] b sample_feed_found(2)
    by (simp add: sample_app_def sample_request_def empty_feed_def sample_server_def sample_auth_def id_def)
  with b r show ?thesis by blast
qed

lemma sample_rotation:
  "\<exists>r s'. answer (handleRotateFeedSecret sample_server sample_request) sample_app = (r, s') \<and>
     rs_status r = 200 \<and> (\<exists>fr. rs_body r = FeedBody fr \<and> fo_secret fr = hex_encode (replicate 16 CHR ''r''))"
proof -
  have u: "UserFromRequest (sv_auth sample_server) (rq_cookies sample_request) sample_app =
      (Inr (scanUser (hd sample_users)), sample_app)"
    using sample_signed_in(1) [of "ap_feeds sample_app"] by simp
  have own: "ownedFeed sample_server sample_request (scanUser (hd sample_users)) sample_app = (Inr empty_feed, sample_app)"
    using sample_feed_found sample_signed_in(2) by (simp add: ownedFeed_def sample_server_def sample_request_def sample_app_def empty_feed_def)
  have tok: "randomToken (sv_auth sample_server) sample_app = (Inr (hex_encode (replicate 16 CHR ''r'')), sample_app)"
    by (simp add: randomToken_def andthen_def outside_def sample_server_def sample_auth_def sample_app_def pass_def)
  have upd: "\<exists>f t. update_feed sample_server (empty_feed\<lparr>fd_secret := hex_encode (replicate 16 CHR ''r'')\<rparr>) sample_app = (Inr f, t) \<and> fd_secret f = hex_encode (replicate 16 CHR ''r'')"
    by (simp add: update_feed_def UpdateFeed_def marshalSources_def sample_server_def sample_json_def sample_app_def empty_feed_def
       empty_feed_row_def update_where_def checkAffected_def owned_def Let_def)
  then obtain f t where t: "update_feed sample_server (empty_feed\<lparr>fd_secret := hex_encode (replicate 16 CHR ''r'')\<rparr>) sample_app = (Inr f, t)" "fd_secret f = hex_encode (replicate 16 CHR ''r'')" by blast
  show ?thesis
    by (simp only: handleRotateFeedSecret_def requireUser_granted [OF u] answer_def)
      (simp add: andthen_def or_respond_def own tok t audit_def modify_def feed_answer_def peek_def
      writeJSON_def toFeedResponse_def)
qed
lemma rotated_link_is_dead_witness:
  "\<exists>r s'. answer (handleRotateFeedSecret sample_server sample_request) sample_app = (r, s') \<and>
     FeedBySecret sample_json ''s3cret'' (ap_feeds s') = Inl ErrNotFound"
proof -
  obtain r s' fr where r: "answer (handleRotateFeedSecret sample_server sample_request) sample_app = (r, s')" "rs_status r = 200"
    and fr: "rs_body r = FeedBody fr" "fo_secret fr = hex_encode (replicate 16 CHR ''r'')"
    using sample_rotation by blast
  have f: "FeedByID (sv_json sample_server) (rq_path sample_request ''id'') (ap_feeds sample_app) = Inr empty_feed"
    using sample_feed_found by (simp add: sample_server_def sample_request_def sample_app_def)
  have "feeds_wf (ap_feeds sample_app)" by (simp add: feeds_wf_def sample_app_def)
  moreover have "hex_encode (replicate 16 CHR ''r'') \<noteq> fd_secret empty_feed"
    using length_hex_encode [of "replicate 16 CHR ''r''"] by (auto simp: empty_feed_def simp del: length_hex_encode)
  ultimately have "FeedBySecret (sv_json sample_server) (fd_secret empty_feed) (ap_feeds s') = Inl ErrNotFound"
    using rotated_link_is_dead [OF _ f r] fr by auto
  with r show ?thesis by (auto simp: sample_server_def empty_feed_def)
qed

end
