(* ===== verification/Scheduler.thy ===== *)
theory Scheduler
  imports Go_Time
begin

text \<open>
  \<^verbatim>\<open>internal/scheduler/scheduler.go\<close>: one goroutine per registered job. A job's \<^verbatim>\<open>Run\<close> is a task, a sequence
  of atomic actions on the world that may read whether the context is cancelled; the goroutines interleave
  action by action, with each other, with the tickers, with the rest of the process. \<open>loop_step\<close> is one
  step of a loop, \<open>sched_step\<close> of the scheduler, \<open>env_step\<close> what happens around it.
\<close>


section \<open>Jobs\<close>

datatype 'w task =
    Return "go_error option"
  | Act "bool \<Rightarrow> 'w \<Rightarrow> 'w" "bool \<Rightarrow> 'w \<Rightarrow> 'w task"

text \<open>A task run without interruption.\<close>

primrec run_task :: "bool \<Rightarrow> 'w task \<Rightarrow> 'w \<Rightarrow> go_error option \<times> 'w" where
  "run_task c (Return r) = (\<lambda>w. (r, w))"
| "run_task c (Act f k) = (\<lambda>w. run_task c (k c w) (f c w))"

record 'w sched_job =
  jb_name :: string
  jb_interval :: go_duration
  jb_run :: "'w task option"

definition runnable :: "'w sched_job \<Rightarrow> bool" where
  "runnable job \<longleftrightarrow> \<not> (jb_interval job \<le> 0 \<or> Option.is_none (jb_run job))"

definition Add :: "'w sched_job \<Rightarrow> 'w sched_job list \<Rightarrow> 'w sched_job list" where
  "Add job jobs = (if \<not> runnable job then jobs else jobs @ [job])"

definition Len :: "'w sched_job list \<Rightarrow> nat" where
  "Len jobs = length jobs"


section \<open>Loops\<close>

datatype 'w phase = Waiting | Running "'w task" | Returned

text \<open>The channel of a ticker holds at most one tick.\<close>

record 'w loop =
  lo_job :: "'w sched_job"
  lo_phase :: "'w phase"
  lo_tick :: bool

record 'w sched =
  sd_loops :: "'w loop list"
  sd_done :: bool
  sd_log :: "(string \<times> go_error) list"
  sd_world :: 'w

definition Start :: "'w sched_job list \<Rightarrow> 'w \<Rightarrow> 'w sched" where
  "Start jobs w =
     \<lparr>sd_loops = map (\<lambda>j. \<lparr>lo_job = j, lo_phase = Waiting, lo_tick = False\<rparr>) jobs, sd_done = False,
      sd_log = [], sd_world = w\<rparr>"

definition run_of :: "'w sched_job \<Rightarrow> 'w task" where
  "run_of job = (case jb_run job of Some t \<Rightarrow> t | None \<Rightarrow> Return None)"

definition warned :: "'w sched_job \<Rightarrow> go_error option \<Rightarrow> (string \<times> go_error) list" where
  "warned job r = (case r of None \<Rightarrow> [] | Some e \<Rightarrow> [(jb_name job, e)])"

text \<open>With both a tick and the cancellation pending, \<^verbatim>\<open>select\<close> takes either.\<close>

inductive loop_step ::
  "bool \<Rightarrow> 'w loop \<times> 'w \<Rightarrow> (string \<times> go_error) list \<Rightarrow> 'w loop \<times> 'w \<Rightarrow> bool" for c where
  take_done: "c \<Longrightarrow> lo_phase l = Waiting \<Longrightarrow> loop_step c (l, w) [] (l\<lparr>lo_phase := Returned\<rparr>, w)"
| take_tick: "lo_phase l = Waiting \<Longrightarrow> lo_tick l \<Longrightarrow>
    loop_step c (l, w) [] (l\<lparr>lo_phase := Running (run_of (lo_job l)), lo_tick := False\<rparr>, w)"
| act: "lo_phase l = Running (Act f k) \<Longrightarrow>
    loop_step c (l, w) [] (l\<lparr>lo_phase := Running (k c w)\<rparr>, f c w)"
| finish: "lo_phase l = Running (Return r) \<Longrightarrow>
    loop_step c (l, w) (warned (lo_job l) r) (l\<lparr>lo_phase := Waiting\<rparr>, w)"

inductive sched_step :: "'w sched \<Rightarrow> 'w sched \<Rightarrow> bool" where
  step: "i < length (sd_loops s) \<Longrightarrow> loop_step (sd_done s) (sd_loops s ! i, sd_world s) log (l, w) \<Longrightarrow>
    sched_step s (s\<lparr>sd_loops := (sd_loops s)[i := l], sd_log := sd_log s @ log, sd_world := w\<rparr>)"

inductive env_step :: "'w sched \<Rightarrow> 'w sched \<Rightarrow> bool" where
  tick: "i < length (sd_loops s) \<Longrightarrow> lo_phase (sd_loops s ! i) \<noteq> Returned \<Longrightarrow>
    env_step s (s\<lparr>sd_loops := (sd_loops s)[i := (sd_loops s ! i)\<lparr>lo_tick := True\<rparr>]\<rparr>)"
| cancel: "env_step s (s\<lparr>sd_done := True\<rparr>)"
| outside: "env_step s (s\<lparr>sd_world := w\<rparr>)"

inductive_cases loop_stepE: "loop_step c (l, w) log (l', w')"
inductive_cases sched_stepE: "sched_step s t"
inductive_cases env_stepE: "env_step s t"

abbreviation any_step :: "'w sched \<Rightarrow> 'w sched \<Rightarrow> bool" where
  "any_step s t \<equiv> sched_step s t \<or> env_step s t"

abbreviation sched_reach :: "'w sched \<Rightarrow> 'w sched \<Rightarrow> bool" where
  "sched_reach \<equiv> any_step\<^sup>*\<^sup>*"

text \<open>What \<^verbatim>\<open>Stop\<close> waits for.\<close>

definition stopped :: "'w sched \<Rightarrow> bool" where
  "stopped s \<longleftrightarrow> list_all (\<lambda>l. case lo_phase l of Returned \<Rightarrow> True | _ \<Rightarrow> False) (sd_loops s)"

lemma stopped_iff: "stopped s \<longleftrightarrow> (\<forall>l\<in>set (sd_loops s). lo_phase l = Returned)"
  unfolding stopped_def list_all_iff by (intro ball_cong refl) (simp split: phase.split)


section \<open>Until the context is cancelled every job keeps its loop\<close>

definition sched_inv :: "'w sched_job list \<Rightarrow> 'w sched \<Rightarrow> bool" where
  "sched_inv jobs s \<longleftrightarrow> map lo_job (sd_loops s) = jobs \<and> (\<not> sd_done s \<longrightarrow> (\<forall>l\<in>set (sd_loops s). lo_phase l \<noteq> Returned))"

lemma loop_step_job: "loop_step c (l, w) log (l', w') \<Longrightarrow> lo_job l' = lo_job l"
  by (erule loop_stepE) auto

lemma loop_step_returned: "loop_step c (l, w) log (l', w') \<Longrightarrow> \<not> c \<Longrightarrow> lo_phase l' \<noteq> Returned"
  by (erule loop_stepE) auto

lemma map_same_update: "i < length xs \<Longrightarrow> f y = f (xs ! i) \<Longrightarrow> map f (xs[i := y]) = map f xs"
  by (metis length_map list_update_id map_update nth_map)

lemma sched_inv_step: "sched_inv jobs s \<Longrightarrow> sched_step s t \<Longrightarrow> sched_inv jobs t"
  by (erule sched_stepE)
    (auto simp: sched_inv_def map_same_update dest: loop_step_job loop_step_returned dest!: set_update_subset_insert [THEN subsetD])

lemma sched_inv_env: "sched_inv jobs s \<Longrightarrow> env_step s t \<Longrightarrow> sched_inv jobs t"
  by (erule env_stepE)
    (auto simp: sched_inv_def map_same_update dest!: set_update_subset_insert [THEN subsetD])

lemma sched_inv_reach: "sched_reach s t \<Longrightarrow> sched_inv jobs s \<Longrightarrow> sched_inv jobs t"
  by (induction rule: rtranclp_induct) (auto dest: sched_inv_step sched_inv_env)

lemma sched_inv_Start: "sched_inv jobs (Start jobs w)"
  by (auto simp: sched_inv_def Start_def comp_def)

lemma fold_Add: "fold Add js jobs = jobs @ filter runnable js"
  by (induction js arbitrary: jobs) (auto simp: Add_def)

text \<open>Whatever the jobs return and however their actions interleave, until the context is cancelled
  exactly the jobs with a positive interval have a loop, none of them has ended, and a pending tick of an
  idle loop can start its job.\<close>

theorem jobs_survive_failures:
  assumes "sched_reach (Start (fold Add js []) w) s" and "\<not> sd_done s"
  shows "map lo_job (sd_loops s) = filter runnable js \<and>
    (\<forall>i<length (sd_loops s). lo_phase (sd_loops s ! i) \<noteq> Returned \<and>
       (lo_phase (sd_loops s ! i) = Waiting \<and> lo_tick (sd_loops s ! i) \<longrightarrow>
         (\<exists>t. sched_step s t \<and> lo_phase (sd_loops t ! i) = Running (run_of (lo_job (sd_loops s ! i))))))"
proof -
  have inv: "sched_inv (filter runnable js) s"
    using sched_inv_reach [OF assms(1) sched_inv_Start] by (simp add: fold_Add)
  moreover have "\<exists>t. sched_step s t \<and> lo_phase (sd_loops t ! i) = Running (run_of (lo_job (sd_loops s ! i)))"
    if "i < length (sd_loops s)" "lo_phase (sd_loops s ! i) = Waiting" "lo_tick (sd_loops s ! i)" for i
    using step [OF that(1) take_tick [OF that(2,3)]] that(1) by (intro exI conjI) auto
  ultimately show ?thesis using assms(2) by (simp add: sched_inv_def)
qed


section \<open>Shutting down\<close>

definition task_order :: "('w task \<times> 'w task) set" where
  "task_order = {(k c w, Act f k) | c w f k. True}"

lemma wf_task_order: "wf task_order"
  unfolding wf_def
proof (intro allI impI)
  fix P :: "'w task \<Rightarrow> bool" and t
  assume P: "\<forall>t. (\<forall>u. (u, t) \<in> task_order \<longrightarrow> P u) \<longrightarrow> P t"
  show "P t"
  proof (induction t)
    case (Return r)
    have "(u, Return r) \<notin> task_order" for u by (simp add: task_order_def)
    then show ?case using P by blast
  next
    case (Act f k)
    have "P u" if "(u, Act f k) \<in> task_order" for u using that Act by (auto simp: task_order_def)
    then show ?case using P by blast
  qed
qed

fun phase_rank :: "'w phase \<Rightarrow> nat" where
  "phase_rank Returned = 0"
| "phase_rank Waiting = 1"
| "phase_rank (Running _) = 2"

fun phase_task :: "'w phase \<Rightarrow> 'w task" where
  "phase_task (Running t) = t"
| "phase_task _ = Return None"

definition loop_order :: "('w loop \<times> 'w loop) set" where
  "loop_order = inv_image (less_than <*lex*> less_than <*lex*> task_order)
     (\<lambda>l. (of_bool (lo_tick l), phase_rank (lo_phase l), phase_task (lo_phase l)))"

lemma wf_loop_order: "wf loop_order"
  by (simp add: loop_order_def wf_lex_prod wf_task_order)

lemma loop_step_order: "loop_step c (l, w) log (l', w') \<Longrightarrow> (l', l) \<in> loop_order"
  by (erule loop_stepE) (auto simp: loop_order_def task_order_def)

definition sched_order :: "('w sched \<times> 'w sched) set" where
  "sched_order = inv_image (listrel1 loop_order) sd_loops"

lemma wf_sched_order: "wf sched_order"
  by (simp add: sched_order_def wf_listrel1_iff wf_loop_order)

lemma listrel1_nth: "i < length xs \<Longrightarrow> (y, xs ! i) \<in> r \<Longrightarrow> (xs[i := y], xs) \<in> listrel1 r"
  by (metis id_take_nth_drop listrel1I upd_conv_take_nth_drop)

lemma sched_step_order: "sched_step s t \<Longrightarrow> (t, s) \<in> sched_order"
  by (erule sched_stepE) (auto simp: sched_order_def listrel1_nth dest: loop_step_order)

lemma sched_step_done: "sched_step s t \<Longrightarrow> sd_done t = sd_done s"
  by (erule sched_stepE) auto

lemma loop_enabled:
  assumes "c" and "lo_phase l \<noteq> Returned"
  shows "\<exists>log l' w'. loop_step c (l, w) log (l', w')"
proof (cases "lo_phase l")
  case (Running t)
  then show ?thesis by (cases t) (blast intro: act finish)+
qed (use assms in \<open>blast intro: take_done\<close>)+

lemma sched_enabled:
  assumes "sd_done s" and "\<not> stopped s"
  shows "\<exists>t. sched_step s t"
proof -
  from assms(2) obtain i where i: "i < length (sd_loops s)" "lo_phase (sd_loops s ! i) \<noteq> Returned"
    by (auto simp: stopped_iff in_set_conv_nth)
  from loop_enabled [OF assms(1) i(2)] show ?thesis using step [OF i(1)] by blast
qed

lemma sched_can_stop: "sd_done t \<Longrightarrow> \<exists>u. sched_step\<^sup>*\<^sup>* t u \<and> stopped u"
  using wf_sched_order
proof (induction t rule: wf_induct_rule)
  case (less t)
  show ?case
  proof (cases "stopped t")
    case False
    with less.prems obtain t' where "sched_step t t'" using sched_enabled by blast
    with less show ?thesis
      by (meson converse_rtranclp_into_rtranclp sched_step_done sched_step_order)
  qed blast
qed

text \<open>C30: a cancelled scheduler stops. Unless tickers deliver again, no interleaving of its loops runs for
  ever, every run can be continued until all loops have returned, and where no loop can move all have.\<close>

theorem stop_returns:
  assumes "sd_done s" and "sched_step\<^sup>*\<^sup>* s t"
  shows "(\<nexists>run. run 0 = t \<and> (\<forall>n. sched_step (run n) (run (Suc n)))) \<and>
    (\<exists>u. sched_step\<^sup>*\<^sup>* t u \<and> stopped u) \<and>
    ((\<nexists>u. sched_step t u) \<longrightarrow> stopped t)"
proof (intro conjI impI)
  show "\<nexists>run. run 0 = t \<and> (\<forall>n. sched_step (run n) (run (Suc n)))"
    using wf_sched_order [unfolded wf_iff_no_infinite_down_chain] sched_step_order by blast
  have done_t: "sd_done t" using assms(2,1) by (induction rule: rtranclp_induct) (auto simp: sched_step_done)
  then show "stopped t" if "\<nexists>u. sched_step t u" using sched_enabled that by blast
  from done_t show "\<exists>u. sched_step\<^sup>*\<^sup>* t u \<and> stopped u" by (rule sched_can_stop)
qed


section \<open>Concrete inputs\<close>

text \<open>A job that fails, one that the scheduler refuses.\<close>

definition sample_jobs :: "nat sched_job list" where
  "sample_jobs =
     [\<lparr>jb_name = ''fails'', jb_interval = 60 * second,
       jb_run = Some (Act (\<lambda>c w. w + 1) (\<lambda>c w. Return (Some (ErrNew ''boom''))))\<rparr>,
      \<lparr>jb_name = ''off'', jb_interval = 0, jb_run = Some (Return None)\<rparr>]"

definition sample_failed :: "nat sched" where
  "sample_failed = (Start (fold Add sample_jobs []) 0)
     \<lparr>sd_log := [(''fails'', ErrNew ''boom'')], sd_world := 1\<rparr>"

lemma sample_run: "sched_reach (Start (fold Add sample_jobs []) 0) sample_failed"
proof -
  let ?job = "hd sample_jobs"
  define st where "st ph tk lg w =
    \<lparr>sd_loops = [\<lparr>lo_job = ?job, lo_phase = ph, lo_tick = tk\<rparr>], sd_done = False, sd_log = lg, sd_world = (w :: nat)\<rparr>"
    for ph tk lg w
  have start: "Start (fold Add sample_jobs []) 0 = st Waiting False [] 0"
    by (simp add: st_def Start_def sample_jobs_def Add_def runnable_def)
  have e: "env_step (st Waiting False [] 0) (st Waiting True [] 0)"
    using tick [of 0 "st Waiting False [] 0"] by (simp add: st_def)
  have s1: "sched_step (st Waiting True [] 0) (st (Running (run_of ?job)) False [] 0)"
    using step [of 0 "st Waiting True [] 0", OF _ take_tick] by (simp add: st_def)
  have s2: "sched_step (st (Running (run_of ?job)) False [] 0)
      (st (Running (Return (Some (ErrNew ''boom'')))) False [] 1)"
    using step [of 0 "st (Running (run_of ?job)) False [] 0", OF _ act]
    by (simp add: st_def run_of_def sample_jobs_def)
  have s3: "sched_step (st (Running (Return (Some (ErrNew ''boom'')))) False [] 1)
      (st Waiting False [(''fails'', ErrNew ''boom'')] 1)"
    using step [of 0 "st (Running (Return (Some (ErrNew ''boom'')))) False [] 1", OF _ finish]
    by (simp add: st_def warned_def sample_jobs_def)
  have "sched_reach (st Waiting False [] 0) (st Waiting False [(''fails'', ErrNew ''boom'')] 1)"
    by (rule converse_rtranclp_into_rtranclp, rule disjI2, rule e,
      rule converse_rtranclp_into_rtranclp, rule disjI1, rule s1,
      rule converse_rtranclp_into_rtranclp, rule disjI1, rule s2,
      rule converse_rtranclp_into_rtranclp, rule disjI1, rule s3, rule rtranclp.rtrancl_refl)
  then show ?thesis by (simp add: start sample_failed_def) (simp add: st_def)
qed

lemma jobs_survive_failures_witness:
  "map (jb_name \<circ> lo_job) (sd_loops sample_failed) = [''fails''] \<and> lo_phase (sd_loops sample_failed ! 0) \<noteq> Returned"
proof -
  have "\<not> sd_done sample_failed" by (simp add: sample_failed_def Start_def)
  from jobs_survive_failures [OF sample_run this] show ?thesis
    by (simp add: sample_failed_def sample_jobs_def Start_def Add_def runnable_def)
qed

lemma stop_returns_witness:
  "\<exists>u. sched_step\<^sup>*\<^sup>* (sample_failed\<lparr>sd_done := True\<rparr>) u \<and> stopped u"
  using stop_returns [of "sample_failed\<lparr>sd_done := True\<rparr>" "sample_failed\<lparr>sd_done := True\<rparr>"] by simp

end
