(* ===== verification/Middleware.thy ===== *)
theory Middleware
  imports Go_Strings Go_Time Proxy
begin

text \<open>
  \<^verbatim>\<open>internal/server/middleware\<close> and the chain \<^verbatim>\<open>internal/server/server.go\<close> builds: request ids, one log line
  per request, recovery from panics. A response writer is its \<^verbatim>\<open>WriteHeader\<close> method, which is what
  \<^verbatim>\<open>statusRecorder\<close> overrides; the routed handlers are programs over the writer that may write, wait for the
  world, and panic at any point. A handler's outcome is either its return or the value it panicked with.
\<close>


section \<open>Writers and handlers\<close>

datatype outcome = Finished | Panicked string

datatype log_line =
    LogRequest string string int int string
  | LogPanic string string string

record http_request =
  hq_method :: string
  hq_path :: string
  hq_header :: "string \<Rightarrow> string"
  hq_id :: "string option"

record 'w exchange =
  ex_headers :: "string \<rightharpoonup> string"
  ex_status :: "int option"
  ex_body :: bytes
  ex_recorded :: int
  ex_log :: "log_line list"
  ex_world :: 'w

type_synonym 'w writer = "int \<Rightarrow> 'w exchange \<Rightarrow> 'w exchange"
type_synonym 'w http_handler = "'w writer \<Rightarrow> http_request \<Rightarrow> 'w exchange \<Rightarrow> outcome \<times> 'w exchange"

text \<open>The writer \<^verbatim>\<open>net/http\<close> hands out: the first final status wins, 1xx statuses are only informational, a
  body without a status is a 200, and so is a response nothing was written to.\<close>

definition informational :: "int \<Rightarrow> bool" where
  "informational code \<longleftrightarrow> 100 \<le> code \<and> code < 200 \<and> code \<noteq> 101"

definition http_writer :: "'w writer" where
  "http_writer code s =
     (if informational code \<or> \<not> Option.is_none (ex_status s) then s else s\<lparr>ex_status := Some code\<rparr>)"

definition http_write :: "bytes \<Rightarrow> 'w exchange \<Rightarrow> 'w exchange" where
  "http_write b s = (let s' = http_writer 200 s in s'\<lparr>ex_body := ex_body s' @ b\<rparr>)"

definition set_header :: "string \<Rightarrow> string \<Rightarrow> 'w exchange \<Rightarrow> 'w exchange" where
  "set_header k v s = s\<lparr>ex_headers := (ex_headers s)(k \<mapsto> v)\<rparr>"

definition client_status :: "'w exchange \<Rightarrow> int" where
  "client_status s = (case ex_status s of Some c \<Rightarrow> c | None \<Rightarrow> 200)"

datatype 'w program =
    Done
  | Panic string
  | Header string string "'w program"
  | Status int "'w program"
  | Write bytes "'w program"
  | World "'w \<Rightarrow> 'w" "'w \<Rightarrow> 'w program"

primrec run_program :: "'w writer \<Rightarrow> 'w program \<Rightarrow> 'w exchange \<Rightarrow> outcome \<times> 'w exchange" where
  "run_program w Done = (\<lambda>s. (Finished, s))"
| "run_program w (Panic v) = (\<lambda>s. (Panicked v, s))"
| "run_program w (Header k v p) = (\<lambda>s. run_program w p (set_header k v s))"
| "run_program w (Status c p) = (\<lambda>s. run_program w p (w c s))"
| "run_program w (Write b p) = (\<lambda>s. run_program w p (http_write b s))"
| "run_program w (World f k) = (\<lambda>s. run_program w (k (ex_world s)) (s\<lparr>ex_world := f (ex_world s)\<rparr>))"

definition handler_of_program :: "(http_request \<Rightarrow> 'w program) \<Rightarrow> 'w http_handler" where
  "handler_of_program prog w rq = run_program w (prog rq)"


section \<open>The middleware\<close>

type_synonym 'w middleware = "'w http_handler \<Rightarrow> 'w http_handler"

definition Chain :: "'w http_handler \<Rightarrow> 'w middleware list \<Rightarrow> 'w http_handler" where
  "Chain h ms = foldr (\<lambda>m h. m h) ms h"

definition RequestIDFromContext :: "http_request \<Rightarrow> string" where
  "RequestIDFromContext rq = (case hq_id rq of Some i \<Rightarrow> i | None \<Rightarrow> [])"

definition requestIDHeader :: string where
  "requestIDHeader = ''X-Request-ID''"

definition generateID :: "('w \<Rightarrow> bytes option \<times> 'w) \<Rightarrow> 'w \<Rightarrow> string \<times> 'w" where
  "generateID rand w =
     (case rand w of (None, w') \<Rightarrow> (''unknown'', w') | (Some b, w') \<Rightarrow> (hex_encode b, w'))"

definition RequestID :: "('w \<Rightarrow> bytes option \<times> 'w) \<Rightarrow> 'w middleware" where
  "RequestID rand next w rq s =
     (let sent = hq_header rq requestIDHeader;
          (i, s') = (if sent = [] then
              (case generateID rand (ex_world s) of (i, u) \<Rightarrow> (i, s\<lparr>ex_world := u\<rparr>)) else (sent, s))
      in next w (rq\<lparr>hq_id := Some i\<rparr>) (set_header requestIDHeader i s'))"

definition redactPath :: "string \<Rightarrow> string" where
  "redactPath path = (if \<not> has_prefix path ''/ics/'' then path else ''/ics/[redacted]'')"

definition recorder :: "'w writer \<Rightarrow> 'w writer" where
  "recorder w code s = w code (s\<lparr>ex_recorded := code\<rparr>)"

definition Logger :: "('w \<Rightarrow> go_time) \<Rightarrow> 'w middleware" where
  "Logger now next w rq s =
     (let start = now (ex_world s) in
      case next (recorder w) rq (s\<lparr>ex_recorded := 200\<rparr>) of
        (Panicked v, s') \<Rightarrow> (Panicked v, s')
      | (Finished, s') \<Rightarrow>
          (Finished, s'\<lparr>ex_log := ex_log s' @
             [LogRequest (hq_method rq) (redactPath (hq_path rq)) (ex_recorded s')
                (go_quot (time_sub (now (ex_world s')) start) 1000000) (RequestIDFromContext rq)]\<rparr>))"

definition recover_body :: bytes where
  "recover_body = ''{'' @ [CHR 0x22] @ ''error'' @ [CHR 0x22] @ '':'' @ [CHR 0x22] @ ''internal server error'' @
     [CHR 0x22] @ ''}''"

definition Recover :: "'w middleware" where
  "Recover next w rq s =
     (case next w rq s of
        (Finished, s') \<Rightarrow> (Finished, s')
      | (Panicked v, s') \<Rightarrow>
          (let s1 = s'\<lparr>ex_log := ex_log s' @ [LogPanic v (hq_path rq) (RequestIDFromContext rq)]\<rparr>;
               s2 = set_header ''Content-Type'' ''application/json'' s1
           in (Finished, http_write recover_body (w 500 s2))))"

text \<open>\<^verbatim>\<open>server.New\<close>: the routes behind the three of them.\<close>

definition server_handler ::
  "('w \<Rightarrow> bytes option \<times> 'w) \<Rightarrow> ('w \<Rightarrow> go_time) \<Rightarrow> (http_request \<Rightarrow> 'w program) \<Rightarrow> 'w http_handler" where
  "server_handler rand now routes =
     Chain (handler_of_program routes) [RequestID rand, Logger now, Recover]"


section \<open>What programs do to the log and the status\<close>

lemma http_write_simps [simp]:
  "ex_log (http_write b s) = ex_log s" "ex_recorded (http_write b s) = ex_recorded s"
  "ex_status (http_write b s) = (case ex_status s of None \<Rightarrow> Some 200 | Some c \<Rightarrow> Some c)"
  by (auto simp: http_write_def http_writer_def informational_def Let_def split: option.split)

lemma set_header_simps [simp]:
  "ex_log (set_header k v s) = ex_log s" "ex_recorded (set_header k v s) = ex_recorded s"
  "ex_status (set_header k v s) = ex_status s" "ex_world (set_header k v s) = ex_world s"
  by (simp_all add: set_header_def)

lemma recorder_simps [simp]:
  "ex_log (recorder http_writer c s) = ex_log s" "ex_recorded (recorder http_writer c s) = c"
  "ex_status (recorder http_writer c s) =
     (if informational c then ex_status s else case ex_status s of None \<Rightarrow> Some c | Some d \<Rightarrow> Some d)"
  by (auto simp: recorder_def http_writer_def split: option.split)

lemma run_program_log: "ex_log (snd (run_program (recorder http_writer) p s)) = ex_log s"
  by (induction p arbitrary: s) auto

text \<open>A program that sets at most one status, a final one, before its body, and panics only before either.\<close>

primrec orderly :: "bool \<Rightarrow> 'w program \<Rightarrow> 'w \<Rightarrow> bool" where
  "orderly started Done = (\<lambda>w. True)"
| "orderly started (Panic v) = (\<lambda>w. \<not> started)"
| "orderly started (Header k v p) = orderly started p"
| "orderly started (Status c p) = (\<lambda>w. \<not> started \<and> \<not> informational c \<and> orderly True p w)"
| "orderly started (Write b p) = orderly True p"
| "orderly started (World f k) = (\<lambda>w. orderly started (k w) (f w))"

lemma run_orderly:
  assumes "run_program (recorder http_writer) p s = (out, s')" and "orderly started p (ex_world s)"
    and "ex_recorded s = client_status s" and "\<not> started \<longrightarrow> ex_status s = None"
  shows "ex_recorded s' = client_status s' \<and> (out \<noteq> Finished \<longrightarrow> ex_status s' = None)"
  using assms
proof (induction p arbitrary: s started)
  case (Status c p)
  have "ex_world (recorder http_writer c s) = ex_world s"
    by (simp add: recorder_def http_writer_def)
  with Status.prems Status.IH [where s = "recorder http_writer c s" and started = True] show ?case
    by (simp add: client_status_def)
next
  case (Write b p)
  have "ex_world (http_write b s) = ex_world s"
    by (simp add: http_write_def http_writer_def Let_def)
  with Write.prems Write.IH [where s = "http_write b s" and started = True] show ?case
    by (auto simp: client_status_def split: option.splits)
next
  case (Header k v p)
  with Header.IH [where s = "set_header k v s" and started = started] show ?case
    by (simp add: client_status_def)
next
  case (World f k)
  with World.IH [of "k (ex_world s)" "s\<lparr>ex_world := f (ex_world s)\<rparr>" started] show ?case
    by (simp add: client_status_def)
qed (auto simp: client_status_def)


section \<open>One line per request\<close>

definition eight_bytes :: "('w \<Rightarrow> bytes option \<times> 'w) \<Rightarrow> bool" where
  "eight_bytes rand \<longleftrightarrow> (\<forall>w b. fst (rand w) = Some b \<longrightarrow> length b = 8)"

lemma generateID_nonempty: "eight_bytes rand \<Longrightarrow> generateID rand w = (i, w') \<Longrightarrow> i \<noteq> []"
  by (auto simp: generateID_def eight_bytes_def hex_encode_def length_concat split: prod.splits option.splits)
    (metis fst_conv length_0_conv zero_neq_numeral)

text \<open>What \<open>Recover\<close> and \<open>Logger\<close> do around a program.\<close>

definition panic_lines :: "outcome \<Rightarrow> http_request \<Rightarrow> log_line list" where
  "panic_lines out rq =
     (case out of Finished \<Rightarrow> [] | Panicked v \<Rightarrow> [LogPanic v (hq_path rq) (RequestIDFromContext rq)])"

lemma recover_finishes: "fst (Recover next w rq s) = Finished"
  by (simp add: Recover_def Let_def split: prod.split outcome.split)

lemma recover_run:
  assumes "run_program (recorder http_writer) (prog rq) s = (out, s1)"
    and "Recover (handler_of_program prog) (recorder http_writer) rq s = (out2, s2)"
  shows "out2 = Finished \<and> ex_log s2 = ex_log s @ panic_lines out rq \<and>
    (out = Finished \<longrightarrow> s2 = s1) \<and>
    (out \<noteq> Finished \<and> ex_status s1 = None \<longrightarrow> ex_recorded s2 = 500 \<and> client_status s2 = 500)"
proof (cases out)
  case Finished
  with assms run_program_log [of "prog rq" s] show ?thesis
    by (simp add: Recover_def handler_of_program_def panic_lines_def)
next
  case (Panicked v)
  with assms run_program_log [of "prog rq" s] show ?thesis
    by (auto simp: Recover_def handler_of_program_def panic_lines_def Let_def client_status_def informational_def)
qed

lemma recover_status:
  assumes "Recover (handler_of_program prog) (recorder http_writer) rq s = (out, s')"
    and "orderly False (prog rq) (ex_world s)" and "ex_status s = None" and "ex_recorded s = 200"
  shows "ex_recorded s' = client_status s'"
proof -
  obtain o1 s1 where run: "run_program (recorder http_writer) (prog rq) s = (o1, s1)" by fastforce
  have "ex_recorded s1 = client_status s1 \<and> (o1 \<noteq> Finished \<longrightarrow> ex_status s1 = None)"
    using run_orderly [OF run assms(2)] assms(3,4) by (simp add: client_status_def)
  with recover_run [OF run assms(1)] show ?thesis by (cases "o1 = Finished") auto
qed

definition tagged_request :: "('w \<Rightarrow> bytes option \<times> 'w) \<Rightarrow> http_request \<Rightarrow> 'w exchange \<Rightarrow> http_request \<times> 'w exchange" where
  "tagged_request rand rq s =
     (let sent = hq_header rq requestIDHeader in
      if sent = [] then
        (case generateID rand (ex_world s) of
           (i, u) \<Rightarrow> (rq\<lparr>hq_id := Some i\<rparr>, set_header requestIDHeader i (s\<lparr>ex_world := u\<rparr>)))
      else (rq\<lparr>hq_id := Some sent\<rparr>, set_header requestIDHeader sent s))"

lemma RequestID_tagged:
  "RequestID rand next w rq s = (case tagged_request rand rq s of (rq', s') \<Rightarrow> next w rq' s')"
  by (simp add: RequestID_def tagged_request_def Let_def split: prod.split)

lemma tagged_request_facts:
  assumes "tagged_request rand rq s = (rq', s')"
  shows "hq_method rq' = hq_method rq" "hq_path rq' = hq_path rq" "ex_log s' = ex_log s" "ex_status s' = ex_status s"
    and "eight_bytes rand \<Longrightarrow> RequestIDFromContext rq' \<noteq> []"
    and "ex_headers s' requestIDHeader = Some (RequestIDFromContext rq')"
    and "hq_header rq requestIDHeader \<noteq> [] \<Longrightarrow> RequestIDFromContext rq' = hq_header rq requestIDHeader"
  using assms
  by (auto simp: tagged_request_def Let_def RequestIDFromContext_def set_header_def dest: generateID_nonempty
      split: prod.splits if_splits)


lemma redactPath_masks: "redactPath (''/ics/'' @ secret) = ''/ics/[redacted]''"
  using has_prefix_append [of "''/ics/''" secret] by (simp only: redactPath_def if_False simp_thms)

text \<open>\<open>Recover\<close> does not mask the path: a panic while a feed is served logs its secret.\<close>

lemma panic_logs_secret_path:
  assumes "Recover (\<lambda>w rq s. (Panicked ''boom'', s)) http_writer rq s = (out, s')"
    and "hq_path rq = ''/ics/'' @ secret"
  shows "LogPanic ''boom'' (''/ics/'' @ secret) (RequestIDFromContext rq) \<in> set (ex_log s')"
  using assms
  by (auto simp: Recover_def Let_def http_writer_def set_header_def)


section \<open>The chain\<close>

text \<open>The first middleware of the list is the outermost.\<close>

lemma Chain_append: "Chain h (ms @ ns) = Chain (Chain h ns) ms"
  by (simp add: Chain_def)


section \<open>Concrete inputs\<close>

definition sample_request :: http_request where
  "sample_request = \<lparr>hq_method = ''GET'', hq_path = ''/ics/abc'', hq_header = (\<lambda>_. []), hq_id = None\<rparr>"

definition sample_exchange :: "unit exchange" where
  "sample_exchange = \<lparr>ex_headers = Map.empty, ex_status = None, ex_body = [], ex_recorded = 0, ex_log = [],
     ex_world = ()\<rparr>"

definition sample_routes :: "http_request \<Rightarrow> unit program" where
  "sample_routes rq = (if hq_path rq = ''/ics/abc'' then Panic ''boom'' else Status 404 Done)"

definition sample_served :: "outcome \<times> unit exchange" where
  "sample_served =
     server_handler (\<lambda>w. (Some (replicate 8 CHR ''r''), w)) (\<lambda>_. 0) sample_routes http_writer sample_request
       sample_exchange"


end
