(* ===== verification/Migrate.thy ===== *)
theory Migrate
  imports Go_Flow Go_Strings "HOL-Library.Char_ord" "HOL-Library.List_Lexorder" "HOL-Library.Sublist"
begin

text \<open>
  \<^verbatim>\<open>internal/store/migrate.go\<close>: schema migrations. The database is the table \<^verbatim>\<open>schema_migrations\<close> and the
  rest of its contents \<open>'d\<close>; what a script does to the contents is the parameter \<open>ma_script\<close>, and every
  call of the database may fail as \<open>ma_fail\<close> says (it may look at the world and change it). SQLite rolls a
  transaction back whole; a script does not touch \<^verbatim>\<open>schema_migrations\<close>.
\<close>


section \<open>Migrating\<close>

datatype db_call = CreateTable | CountVersion string | Begin | ExecScript string | InsertVersion string | Commit

record dir_entry =
  dn_name :: string
  dn_is_dir :: bool

record ('w, 'd) migrate_env =
  ma_entries :: "dir_entry list result"
  ma_file :: "string \<Rightarrow> string result"
  ma_script :: "string \<Rightarrow> 'd \<Rightarrow> 'd"
  ma_fail :: "db_call \<Rightarrow> 'w \<Rightarrow> go_error option \<times> 'w"
  ma_now :: "'w \<Rightarrow> string"

record ('w, 'd) database =
  db_versions :: "(string \<times> string) list"
  db_data :: 'd
  db_log :: "string list"
  db_world :: 'w

type_synonym ('w, 'd, 'a) db_flow = "(('w, 'd) database, go_error, 'a) flow"

definition db_do :: "('w, 'd) migrate_env \<Rightarrow> db_call \<Rightarrow> ('w, 'd, unit) db_flow" where
  "db_do env c s =
     (case ma_fail env c (db_world s) of
        (None, w) \<Rightarrow> (Inr (), s\<lparr>db_world := w\<rparr>)
      | (Some e, w) \<Rightarrow> (Inl e, s\<lparr>db_world := w\<rparr>))"

definition wrapped :: "string \<Rightarrow> ('w, 'd, 'a) db_flow \<Rightarrow> ('w, 'd, 'a) db_flow" where
  "wrapped msg m s = (case m s of (Inl e, s') \<Rightarrow> (Inl (wrapf msg e), s') | (Inr x, s') \<Rightarrow> (Inr x, s'))"

text \<open>\<^verbatim>\<open>defer tx.Rollback()\<close>: an error undoes what the transaction did.\<close>

definition transaction :: "('w, 'd, 'a) db_flow \<Rightarrow> ('w, 'd, 'a) db_flow" where
  "transaction m s =
     (case m s of
        (Inl e, s') \<Rightarrow> (Inl e, s'\<lparr>db_versions := db_versions s, db_data := db_data s\<rparr>)
      | (Inr x, s') \<Rightarrow> (Inr x, s'))"

definition is_applied :: "string \<Rightarrow> ('w, 'd) database \<Rightarrow> bool" where
  "is_applied name s = list_ex (\<lambda>(v, _). v = name) (db_versions s)"

definition migrationApplied :: "('w, 'd) migrate_env \<Rightarrow> string \<Rightarrow> ('w, 'd, bool) db_flow" where
  "migrationApplied env name =
     andthen (wrapped (''check migration '' @ name @ '': '') (db_do env (CountVersion name))) (\<lambda>_.
       peek (is_applied name))"

text \<open>\<^verbatim>\<open>version\<close> is the primary key.\<close>

definition insert_version :: "('w, 'd) migrate_env \<Rightarrow> string \<Rightarrow> ('w, 'd, unit) db_flow" where
  "insert_version env name =
     andthen (db_do env (InsertVersion name)) (\<lambda>_.
     andthen (peek (is_applied name)) (\<lambda>dup.
       if dup then stop (ErrNew ''UNIQUE constraint failed: schema_migrations.version'')
       else modify (\<lambda>s. s\<lparr>db_versions := db_versions s @ [(name, ma_now env (db_world s))]\<rparr>)))"

definition applyMigration :: "('w, 'd) migrate_env \<Rightarrow> string \<Rightarrow> string \<Rightarrow> ('w, 'd, unit) db_flow" where
  "applyMigration env name script =
     andthen (db_do env Begin) (\<lambda>_. transaction (
       andthen (db_do env (ExecScript script)) (\<lambda>_.
       andthen (modify (\<lambda>s. s\<lparr>db_data := ma_script env script (db_data s)\<rparr>)) (\<lambda>_.
       andthen (insert_version env name) (\<lambda>_.
         db_do env Commit)))))"

definition migration_names :: "dir_entry list \<Rightarrow> string list" where
  "migration_names entries =
     sort (map dn_name (filter (\<lambda>e. \<not> dn_is_dir e \<and> has_suffix (dn_name e) ''.sql'') entries))"

definition migrate_one :: "('w, 'd) migrate_env \<Rightarrow> string \<Rightarrow> ('w, 'd, unit) db_flow" where
  "migrate_one env name =
     andthen (migrationApplied env name) (\<lambda>applied.
       if applied then pass ()
       else andthen (wrapped (''read migration '' @ name @ '': '') (yields (ma_file env name))) (\<lambda>script.
         andthen (wrapped (''apply migration '' @ name @ '': '') (applyMigration env name script)) (\<lambda>_.
           modify (\<lambda>s. s\<lparr>db_log := db_log s @ [name]\<rparr>))))"

fun migrate_all :: "('w, 'd) migrate_env \<Rightarrow> string list \<Rightarrow> ('w, 'd, unit) db_flow" where
  "migrate_all env [] = pass ()"
| "migrate_all env (n # ns) = andthen (migrate_one env n) (\<lambda>_. migrate_all env ns)"

definition Migrate :: "('w, 'd) migrate_env \<Rightarrow> ('w, 'd, unit) db_flow" where
  "Migrate env =
     andthen (wrapped ''create schema_migrations: '' (db_do env CreateTable)) (\<lambda>_.
     andthen (wrapped ''read migrations dir: '' (yields (ma_entries env))) (\<lambda>entries.
       migrate_all env (migration_names entries)))"


section \<open>What one migration does\<close>

definition applied_names :: "('w, 'd) database \<Rightarrow> string list" where
  "applied_names s = map fst (db_versions s)"

lemma is_applied_iff: "is_applied name s \<longleftrightarrow> name \<in> set (applied_names s)"
  by (force simp: is_applied_def applied_names_def list_ex_iff)

text \<open>The contents are those the recorded scripts make, each run once, in the order of the record.\<close>

definition script_text :: "('w, 'd) migrate_env \<Rightarrow> string \<Rightarrow> string" where
  "script_text env name = (case ma_file env name of Inr t \<Rightarrow> t | Inl _ \<Rightarrow> [])"

definition ran :: "('w, 'd) migrate_env \<Rightarrow> string list \<Rightarrow> 'd \<Rightarrow> 'd" where
  "ran env names = fold (\<lambda>n. ma_script env (script_text env n)) names"

definition migrated :: "('w, 'd) migrate_env \<Rightarrow> 'd \<Rightarrow> ('w, 'd) database \<Rightarrow> bool" where
  "migrated env d0 s \<longleftrightarrow> distinct (applied_names s) \<and> db_data s = ran env (applied_names s) d0"

lemma db_do_frame: "db_do env c s = (r, s') \<Longrightarrow> db_versions s' = db_versions s \<and> db_data s' = db_data s"
  by (auto simp: db_do_def split: prod.splits option.splits)

lemma db_do_Inr: "db_do env c s = (Inr (), s') \<Longrightarrow> db_versions s' = db_versions s \<and> db_data s' = db_data s"
  by (rule db_do_frame)

lemma transaction_Inl:
  "transaction m s = (Inl e, s') \<Longrightarrow> db_versions s' = db_versions s \<and> db_data s' = db_data s"
  by (auto simp: transaction_def split: prod.splits sum.splits)

lemma transaction_Inr: "transaction m s = (Inr x, s') \<Longrightarrow> m s = (Inr x, s')"
  by (auto simp: transaction_def split: prod.splits sum.splits)

lemma insert_version_Inr:
  "insert_version env name s = (Inr (), s') \<Longrightarrow>
     name \<notin> set (applied_names s) \<and> applied_names s' = applied_names s @ [name] \<and> db_data s' = db_data s"
  by (auto simp: insert_version_def andthen_Inr peek_def stop_def modify_def is_applied_iff applied_names_def
      dest!: db_do_frame split: if_splits)

lemma applyMigration_Inr:
  assumes "applyMigration env name script s = (Inr (), s')"
  shows "name \<notin> set (applied_names s) \<and> applied_names s' = applied_names s @ [name] \<and>
    db_data s' = ma_script env script (db_data s)"
proof -
  obtain s1 s2 s3 where s1: "db_do env Begin s = (Inr (), s1)" and s2: "db_do env (ExecScript script) s1 = (Inr (), s2)"
    and s3: "insert_version env name (s2\<lparr>db_data := ma_script env script (db_data s2)\<rparr>) = (Inr (), s3)"
    and s4: "db_do env Commit s3 = (Inr (), s')"
    using assms by (auto simp: applyMigration_def andthen_Inr modify_def dest!: transaction_Inr)
  from s1 [THEN db_do_frame] s2 [THEN db_do_frame] s3 [THEN insert_version_Inr] s4 [THEN db_do_frame]
  show ?thesis by (simp add: applied_names_def)
qed

lemma applyMigration_Inl:
  assumes "applyMigration env name script s = (Inl e, s')"
  shows "db_versions s' = db_versions s \<and> db_data s' = db_data s"
proof (cases "db_do env Begin s")
  case (Pair r s1)
  with db_do_frame [OF Pair] assms show ?thesis
    by (cases r) (auto simp: applyMigration_def andthen_def Pair dest!: transaction_Inl)
qed

lemma wrapped_Inr: "wrapped msg m s = (Inr x, s') \<Longrightarrow> m s = (Inr x, s')"
  by (auto simp: wrapped_def split: prod.splits sum.splits)

lemma wrapped_Inl: "wrapped msg m s = (Inl e, s') \<Longrightarrow> \<exists>e'. m s = (Inl e', s')"
  by (auto simp: wrapped_def split: prod.splits sum.splits)

lemma migrationApplied_frame:
  "migrationApplied env name s = (r, s') \<Longrightarrow> db_versions s' = db_versions s \<and> db_data s' = db_data s \<and>
     (\<forall>b. r = Inr b \<longrightarrow> b = (name \<in> set (applied_names s)))"
  by (auto simp: migrationApplied_def andthen_def peek_def is_applied_iff applied_names_def
      dest!: wrapped_Inr wrapped_Inl db_do_frame split: prod.splits sum.splits)

text \<open>One migration that has not run: its script runs and it is recorded, or nothing happens.\<close>

lemma migrate_one_Inr:
  assumes "migrate_one env name s = (Inr (), s')"
  shows "if name \<in> set (applied_names s) then applied_names s' = applied_names s \<and> db_data s' = db_data s
    else applied_names s' = applied_names s @ [name] \<and> db_data s' = ma_script env (script_text env name) (db_data s)"
proof -
  from assms obtain b s1 where a: "migrationApplied env name s = (Inr b, s1)"
    by (auto simp: migrate_one_def andthen_Inr)
  note fr = migrationApplied_frame [OF a]
  show ?thesis
  proof (cases b)
    case True
    with assms a fr have "name \<in> set (applied_names s)" by blast
    with True assms a fr show ?thesis by (simp add: migrate_one_def andthen_def a pass_def applied_names_def split: if_splits)
  next
    case False
    with assms have "andthen (wrapped (''read migration '' @ name @ '': '') (yields (ma_file env name)))
        (\<lambda>script. andthen (wrapped (''apply migration '' @ name @ '': '') (applyMigration env name script))
          (\<lambda>_. modify (\<lambda>s. s\<lparr>db_log := db_log s @ [name]\<rparr>))) s1 = (Inr (), s')"
      by (simp add: migrate_one_def andthen_ok [where m = "migrationApplied env name", OF a])
    then obtain t s2 where "ma_file env name = Inr t" and s2: "applyMigration env name t s1 = (Inr (), s2)"
      and "s' = s2\<lparr>db_log := db_log s2 @ [name]\<rparr>"
      by (auto simp: andthen_Inr yields_def modify_def dest!: wrapped_Inr)
    with False fr applyMigration_Inr [OF s2] show ?thesis by (simp add: applied_names_def script_text_def)
  qed
qed

lemma migrate_one_Inl:
  assumes "migrate_one env name s = (Inl e, s')"
  shows "db_versions s' = db_versions s \<and> db_data s' = db_data s"
proof (cases "migrationApplied env name s")
  case a: (Pair r s1)
  note fr = migrationApplied_frame [OF a]
  show ?thesis
  proof (cases r)
    case (Inl e1)
    with assms a fr show ?thesis by (simp add: migrate_one_def andthen_def)
  next
    case (Inr b)
    with a assms have "(if b then pass () else andthen (wrapped (''read migration '' @ name @ '': '') (yields (ma_file env name)))
        (\<lambda>script. andthen (wrapped (''apply migration '' @ name @ '': '') (applyMigration env name script))
          (\<lambda>_. modify (\<lambda>s. s\<lparr>db_log := db_log s @ [name]\<rparr>)))) s1 = (Inl e, s')"
      by (simp add: migrate_one_def andthen_def)
    then have "db_versions s' = db_versions s1 \<and> db_data s' = db_data s1"
      by (auto simp: andthen_def pass_def yields_def modify_def wrapped_def
          dest: applyMigration_Inl split: if_splits sum.splits prod.splits)
    with fr show ?thesis by simp
  qed
qed


section \<open>What a boot does\<close>

text \<open>The migrations that have not run, in filename order.\<close>

definition todo :: "string list \<Rightarrow> ('w, 'd) database \<Rightarrow> string list" where
  "todo names s = filter (\<lambda>n. n \<notin> set (applied_names s)) names"

definition advances :: "('w, 'd) migrate_env \<Rightarrow> string list \<Rightarrow> ('w, 'd) database \<Rightarrow> ('w, 'd) database \<Rightarrow> bool" where
  "advances env names s s' \<longleftrightarrow> applied_names s' = applied_names s @ names \<and> db_data s' = ran env names (db_data s)"

lemma advances_none: "db_versions s' = db_versions s \<and> db_data s' = db_data s \<Longrightarrow> advances env [] s s'"
  by (simp add: advances_def applied_names_def ran_def)

lemma advances_trans: "advances env a s t \<Longrightarrow> advances env b t u \<Longrightarrow> advances env (a @ b) s u"
  by (simp add: advances_def ran_def)

lemma migrate_one_advances:
  "migrate_one env n s = (Inr (), s') \<Longrightarrow> advances env (todo [n] s) s s'"
  using migrate_one_Inr by (fastforce simp: advances_def todo_def ran_def)

lemma todo_after: "advances env (todo [n] s) s s' \<Longrightarrow> n \<notin> set ns \<Longrightarrow> todo ns s' = todo ns s"
  by (auto simp: todo_def advances_def intro!: filter_cong)

lemma migrate_all_advances:
  assumes "migrate_all env ns s = (r, s')" and "distinct ns"
  shows "\<exists>k. advances env (take k (todo ns s)) s s' \<and> (r = Inr () \<longrightarrow> advances env (todo ns s) s s')"
  using assms
proof (induction ns arbitrary: s)
  case Nil
  then show ?case by (auto simp: pass_def todo_def intro: advances_none)
next
  case (Cons n ns)
  obtain r1 s1 where one: "migrate_one env n s = (r1, s1)" by fastforce
  show ?case
  proof (cases r1)
    case (Inl e)
    with Cons.prems one have "r = Inl e" "s' = s1" by (simp_all add: andthen_def)
    with migrate_one_Inl [of env n s] one Inl show ?thesis
      by (intro exI [of _ 0]) (simp add: advances_none)
  next
    case (Inr x)
    then have adv: "advances env (todo [n] s) s s1" using one migrate_one_advances by fastforce
    from Cons.prems Inr one have rest: "migrate_all env ns s1 = (r, s')" by (simp add: andthen_def)
    from Cons.IH [OF this] Cons.prems(2) obtain k where k: "advances env (take k (todo ns s1)) s1 s'"
      "r = Inr () \<longrightarrow> advances env (todo ns s1) s1 s'" by auto
    have all: "todo (n # ns) s = todo [n] s @ todo ns s1"
      using todo_after [OF adv] Cons.prems(2) by (simp add: todo_def)
    then have "take (length (todo [n] s) + k) (todo (n # ns) s) = todo [n] s @ take k (todo ns s1)" by simp
    with k all show ?thesis
      by (intro exI [of _ "length (todo [n] s) + k"]) (simp add: advances_trans [OF adv])
  qed
qed

definition pending :: "('w, 'd) migrate_env \<Rightarrow> ('w, 'd) database \<Rightarrow> string list" where
  "pending env s = (case ma_entries env of Inl _ \<Rightarrow> [] | Inr es \<Rightarrow> todo (migration_names es) s)"

definition clean_dir :: "('w, 'd) migrate_env \<Rightarrow> bool" where
  "clean_dir env \<longleftrightarrow> (case ma_entries env of Inl _ \<Rightarrow> True | Inr es \<Rightarrow> distinct (map dn_name es))"

lemma distinct_migration_names: "distinct (map dn_name es) \<Longrightarrow> distinct (migration_names es)"
  by (simp add: migration_names_def distinct_map inj_on_def)

lemma pending_facts:
  assumes "clean_dir env"
  shows "distinct (pending env s)" "sorted (pending env s)" "set (pending env s) \<inter> set (applied_names s) = {}"
  using assms distinct_migration_names
  by (auto simp: pending_def todo_def clean_dir_def migration_names_def sorted_filter [where f = "\<lambda>x. x", simplified]
      split: sum.splits)

lemma migrate_advances:
  assumes "Migrate env s = (r, s')" and "clean_dir env"
  shows "\<exists>k. advances env (take k (pending env s)) s s' \<and> (r = Inr () \<longrightarrow> advances env (pending env s) s s')"
proof (cases "\<exists>s1 es. db_do env CreateTable s = (Inr (), s1) \<and> ma_entries env = Inr es")
  case True
  then obtain s1 es where s1: "db_do env CreateTable s = (Inr (), s1)" and es: "ma_entries env = Inr es" by blast
  from s1 [THEN db_do_frame] have same: "advances env [] s s1" "todo ns s1 = todo ns s" for ns
    by (auto simp: advances_none todo_def applied_names_def)
  have "migrate_all env (migration_names es) s1 = (r, s')"
    using assms(1) s1 es by (simp add: Migrate_def andthen_def wrapped_def yields_def)
  from migrate_all_advances [OF this] assms(2) es show ?thesis
    using advances_trans [OF same(1)] same(2) by (fastforce simp: pending_def clean_dir_def distinct_migration_names)
next
  case False
  then have "r \<noteq> Inr () \<and> db_versions s' = db_versions s \<and> db_data s' = db_data s"
    using assms(1) db_do_frame [of env CreateTable s]
    by (auto simp: Migrate_def andthen_def wrapped_def yields_def split: prod.splits sum.splits)
  then show ?thesis by (intro exI [of _ 0]) (simp add: advances_none)
qed

lemma migrated_advances:
  "migrated env d0 s \<Longrightarrow> advances env names s s' \<Longrightarrow> distinct names \<Longrightarrow> set names \<inter> set (applied_names s) = {} \<Longrightarrow>
     migrated env d0 s'"
  by (auto simp: migrated_def advances_def ran_def)


section \<open>Many boots\<close>

text \<open>One boot after the other, each with the files its release embeds; some may fail half way.\<close>

fun boots :: "('w, 'd) migrate_env list \<Rightarrow> ('w, 'd) database \<Rightarrow> ('w, 'd) database" where
  "boots [] s = s"
| "boots (env # envs) s = boots envs (snd (Migrate env s))"

text \<open>Releases agree on the scripts they share, and no directory has a name twice.\<close>

definition same_scripts :: "('w, 'd) migrate_env \<Rightarrow> ('w, 'd) migrate_env \<Rightarrow> bool" where
  "same_scripts env env' \<longleftrightarrow> ma_script env' = ma_script env \<and> ma_file env' = ma_file env \<and> clean_dir env'"

lemma same_scripts_ran: "same_scripts env env' \<Longrightarrow> ran env' = ran env"
  unfolding same_scripts_def ran_def script_text_def by simp

lemma Migrate_migrated:
  assumes "same_scripts env env'" and "migrated env d0 s"
  shows "migrated env d0 (snd (Migrate env' s))"
proof -
  have clean: "clean_dir env'" using assms(1) by (simp add: same_scripts_def)
  obtain k where "advances env' (take k (pending env' s)) s (snd (Migrate env' s))"
    using migrate_advances [OF prod.collapse [symmetric] clean] by blast
  moreover have "migrated env' d0 = migrated env d0"
    unfolding migrated_def same_scripts_ran [OF assms(1)] by simp
  ultimately show ?thesis using assms(2) migrated_advances pending_facts(1,3) [OF clean]
    by (metis Int_commute disjoint_iff distinct_take in_set_takeD)
qed

lemma boots_migrated: "\<forall>e\<in>set envs. same_scripts env e \<Longrightarrow> migrated env d0 s \<Longrightarrow> migrated env d0 (boots envs s)"
  by (induction envs arbitrary: s) (auto intro: Migrate_migrated)

lemma none_pending: "advances env (pending env s) s s' \<Longrightarrow> pending env s' = []"
  by (auto simp: pending_def todo_def advances_def filter_empty_conv split: sum.splits)

text \<open>C31: after any number of boots, failed ones included, each recorded script has run exactly once and in
  the recorded order, and nothing else has; a boot that succeeds has run all the others of its files, in
  filename order, and another one with the same files changes nothing.\<close>

theorem migrations_run_once:
  assumes "\<forall>e\<in>set (env # envs). same_scripts env e" and "migrated env d0 s"
    and "Migrate env (boots envs s) = (Inr (), s')"
  shows "distinct (applied_names s') \<and> db_data s' = ran env (applied_names s') d0 \<and>
    applied_names s' = applied_names (boots envs s) @ pending env (boots envs s) \<and>
    sorted (pending env (boots envs s)) \<and>
    db_data (snd (Migrate env s')) = db_data s' \<and> applied_names (snd (Migrate env s')) = applied_names s'"
proof -
  have clean: "clean_dir env" using assms(1) by (simp add: same_scripts_def)
  have adv: "advances env (pending env (boots envs s)) (boots envs s) s'"
    using migrate_advances [OF assms(3) clean] by auto
  have "migrated env d0 (boots envs s)" by (rule boots_migrated) (use assms in auto)
  then have m: "migrated env d0 s'" using Migrate_migrated [of env env d0 "boots envs s"] assms(1,3) by simp
  obtain k where "advances env (take k (pending env s')) s' (snd (Migrate env s'))"
    using migrate_advances [OF prod.collapse [symmetric] clean] by blast
  with none_pending [OF adv] have "advances env [] s' (snd (Migrate env s'))" by simp
  with m adv pending_facts(2) [OF clean] show ?thesis
    by (simp add: advances_def migrated_def ran_def)
qed


section \<open>Concrete inputs\<close>

definition sample_migrations :: "string list \<Rightarrow> bool \<Rightarrow> (unit, string list) migrate_env" where
  "sample_migrations names broken =
     \<lparr>ma_entries = Inr (map (\<lambda>n. \<lparr>dn_name = n, dn_is_dir = False\<rparr>) names), ma_file = Inr,
      ma_script = (\<lambda>t d. d @ [t]),
      ma_fail = (\<lambda>c w. (if broken \<and> c = Commit then Some (ErrNew ''disk full'') else None, w)),
      ma_now = (\<lambda>_. ''now'')\<rparr>"

definition sample_db :: "(unit, string list) database" where
  "sample_db = \<lparr>db_versions = [], db_data = [], db_log = [], db_world = ()\<rparr>"

definition sample_first :: "(unit, string list) migrate_env" where
  "sample_first = sample_migrations [''0001_a.sql''] False"

definition sample_broken :: "(unit, string list) migrate_env" where
  "sample_broken = sample_migrations [''0001_a.sql'', ''0002_b.sql''] True"

definition sample_second :: "(unit, string list) migrate_env" where
  "sample_second = sample_migrations [''0002_b.sql'', ''0001_a.sql''] False"

lemma migrations_run_once_witness:
  "db_data (snd (Migrate sample_second (boots [sample_first, sample_broken] sample_db))) = [''0001_a.sql'', ''0002_b.sql''] \<and>
   distinct (applied_names (snd (Migrate sample_second (boots [sample_first, sample_broken] sample_db))))"
proof -
  let ?b = "boots [sample_first, sample_broken] sample_db"
  have b: "?b = sample_db\<lparr>db_versions := [(''0001_a.sql'', ''now'')], db_data := [''0001_a.sql''], db_log := [''0001_a.sql'']\<rparr>"
    by code_simp
  have ok: "fst (Migrate sample_second ?b) = Inr ()" unfolding b by code_simp
  have s: "\<forall>e\<in>set [sample_second, sample_first, sample_broken]. same_scripts sample_second e"
    by (simp add: same_scripts_def clean_dir_def sample_first_def sample_broken_def sample_second_def sample_migrations_def)
  have m: "migrated sample_second [] sample_db"
    by (simp add: migrated_def sample_db_def applied_names_def ran_def)
  have "Migrate sample_second ?b = (Inr (), snd (Migrate sample_second ?b))" using ok by (metis prod.collapse)
  note once = migrations_run_once [OF s m this]
  have "db_data (snd (Migrate sample_second ?b)) = [''0001_a.sql'', ''0002_b.sql'']" unfolding b by code_simp
  with once show ?thesis by blast
qed

end
