(* ===== verification/Cleanup.thy ===== *)
theory Cleanup
  imports Scheduler Server_Samples
begin

text \<open>
  The jobs \<^verbatim>\<open>cmd/tidydav/main.go\<close> registers. The hourly cleanup is a task of three deletes on the tables
  the request handlers use at the same time; each may fail (\<open>fails\<close>, for instance once the context is
  cancelled) and the first failure ends it. The notifier and the sync runner come as the tasks of their
  \<^verbatim>\<open>Run\<close> methods.
\<close>


section \<open>The jobs\<close>

definition feedCacheRetention :: go_duration where
  "feedCacheRetention = 30 * 24 * hour"

type_synonym 'w faults = "bool \<Rightarrow> string \<Rightarrow> 'w app_state \<Rightarrow> go_error option"

definition delete_act ::
  "'w faults \<Rightarrow> string \<Rightarrow> ('w app_state \<Rightarrow> 'w app_state) \<Rightarrow> 'w app_state task \<Rightarrow> 'w app_state task" where
  "delete_act fails name f k =
     Act (\<lambda>c s. case fails c name s of None \<Rightarrow> f s | Some e \<Rightarrow> s)
         (\<lambda>c s. case fails c name s of None \<Rightarrow> k | Some e \<Rightarrow> Return (Some e))"

definition purge_sessions :: "('w \<Rightarrow> go_time) \<Rightarrow> 'w app_state \<Rightarrow> 'w app_state" where
  "purge_sessions now s = s\<lparr>au_sessions := snd (DeleteExpiredSessions (now (au_world s)) (au_sessions s))\<rparr>"

definition purge_resets :: "('w \<Rightarrow> go_time) \<Rightarrow> 'w app_state \<Rightarrow> 'w app_state" where
  "purge_resets now s = s\<lparr>au_resets := snd (DeleteExpiredPasswordResets (now (au_world s)) (au_resets s))\<rparr>"

definition prune_cache :: "('w \<Rightarrow> go_time) \<Rightarrow> 'w app_state \<Rightarrow> 'w app_state" where
  "prune_cache now s =
     s\<lparr>ap_cache := snd (DeleteCachedFeedsBefore (time_add (now (au_world s)) (- feedCacheRetention)) (ap_cache s))\<rparr>"

definition cleanup :: "('w \<Rightarrow> go_time) \<Rightarrow> 'w faults \<Rightarrow> 'w app_state task" where
  "cleanup now fails =
     delete_act fails ''sessions'' (purge_sessions now)
    (delete_act fails ''password_resets'' (purge_resets now)
    (delete_act fails ''feed_cache'' (prune_cache now)
    (Return None)))"

definition main_jobs ::
  "Config.config \<Rightarrow> ('w \<Rightarrow> go_time) \<Rightarrow> 'w faults \<Rightarrow> 'w app_state task \<Rightarrow> 'w app_state task \<Rightarrow>
     'w app_state sched_job list" where
  "main_jobs cfg now fails notif sync =
     fold Add
       [\<lparr>jb_name = ''cleanup'', jb_interval = hour, jb_run = Some (cleanup now fails)\<rparr>,
        \<lparr>jb_name = ''notifications'', jb_interval = cg_notify_interval cfg, jb_run = Some notif\<rparr>,
        \<lparr>jb_name = ''dav-sync'', jb_interval = cg_sync_tick cfg, jb_run = Some sync\<rparr>] []"

text \<open>A configuration that loads has all three of them run.\<close>

lemma loaded_jobs:
  assumes "0 < cg_notify_interval cfg" and "0 < cg_sync_tick cfg"
  shows "map jb_name (main_jobs cfg now fails notif sync) = [''cleanup'', ''notifications'', ''dav-sync'']"
  using assms by (simp add: main_jobs_def Add_def runnable_def)


section \<open>What a cleanup may do at any moment\<close>

text \<open>The actions of a task: what one of its steps does to the world it finds.\<close>

inductive task_act :: "'w task \<Rightarrow> 'w \<Rightarrow> 'w \<Rightarrow> bool" where
  now: "task_act (Act f k) w (f c w)"
| later: "task_act (k c v) w w' \<Longrightarrow> task_act (Act f k) w w'"

inductive_cases task_act_ActE: "task_act (Act f k) w w'"
inductive_cases task_act_ReturnE: "task_act (Return r) w w'"

lemma delete_act_acts:
  "task_act (delete_act fails name f k) s s' \<Longrightarrow> s' = s \<or> s' = f s \<or> task_act k s s'"
  unfolding delete_act_def
  by (erule task_act_ActE) (auto split: option.splits elim: task_act_ReturnE)

lemma cleanup_acts:
  "task_act (cleanup now fails) s s' \<Longrightarrow> s' \<in> {s, purge_sessions now s, purge_resets now s, prune_cache now s}"
  unfolding cleanup_def by (auto dest!: delete_act_acts elim: task_act_ReturnE)

lemma find_filter_kept: "List.find p rows = Some r \<Longrightarrow> q r \<Longrightarrow> List.find p (filter q rows) = Some r"
  by (induction rows) (auto split: if_splits)

lemma select_one_kept: "select_one p rows = Inr r \<Longrightarrow> q r \<Longrightarrow> select_one p (filter q rows) = Inr r"
  by (auto simp: select_one_def find_filter_kept split: option.splits)

text \<open>Rows as the store writes them.\<close>

definition stamped :: "string \<Rightarrow> bool" where
  "stamped t \<longleftrightarrow> (\<exists>u. plain_year u \<and> t = stamp u)"

definition well_stamped :: "'w app_state \<Rightarrow> bool" where
  "well_stamped s \<longleftrightarrow> (\<forall>r\<in>set (au_sessions s). stamped (sr_expires r)) \<and>
     (\<forall>r\<in>set (au_resets s). stamped (pr_expires r)) \<and> (\<forall>r\<in>set (ap_cache s). stamped (cr_fetched_at r))"

lemma stamp_expired:
  assumes "plain_year now" and "stamped t" and "t \<le> stamp now"
  shows "parseTime t \<le> now"
  using assms by (auto simp: stamped_def parseTime_stamp stamp_le_iff unix_secs_def)

lemma stamp_older:
  assumes "plain_year now" and "stamped t" and "t < stamp now"
  shows "parseTime t < now"
  using assms by (auto simp: stamped_def parseTime_stamp stamp_less_iff unix_secs_def)

lemma select_one_mem: "select_one p rows = Inr r \<Longrightarrow> r \<in> set rows \<and> p r"
  by (auto simp: select_one_def find_Some_iff split: option.splits)

text \<open>A live session stays; a link that still resets a password stays; a body fetched within the retention
  stays.\<close>

lemma session_kept:
  assumes "plain_year now" and "\<forall>r\<in>set rows. stamped (sr_expires r)"
    and "SessionByID sid rows = Inr se" and "now < se_expires se"
  shows "SessionByID sid (snd (DeleteExpiredSessions now rows)) = Inr se"
proof -
  from assms(3) obtain r where r: "select_one (\<lambda>r. sr_id r = sid) rows = Inr r" "se_expires se = parseTime (sr_expires r)"
    by (auto simp: SessionByID_def split: sum.splits)
  have "\<not> sr_expires r \<le> stamp now"
    using select_one_mem [OF r(1)] stamp_expired [OF assms(1)] assms(2,4) r(2) by fastforce
  with select_one_kept [OF r(1)] r(1) assms(3) show ?thesis
    by (simp add: SessionByID_def DeleteExpiredSessions_def delete_where_def)
qed

lemma reset_kept:
  assumes "plain_year now" and "\<forall>r\<in>set rows. stamped (pr_expires r)"
    and "PasswordResetByTokenHash h rows = Inr pr" and "now < pw_expires pr"
  shows "PasswordResetByTokenHash h (snd (DeleteExpiredPasswordResets now rows)) = Inr pr"
proof -
  from assms(3) obtain r where r: "select_one (\<lambda>r. pr_hash r = h) rows = Inr r" "pw_expires pr = parseTime (pr_expires r)"
    by (auto simp: PasswordResetByTokenHash_def split: sum.splits)
  have "\<not> pr_expires r \<le> stamp now"
    using select_one_mem [OF r(1)] stamp_expired [OF assms(1)] assms(2,4) r(2) by fastforce
  with select_one_kept [OF r(1)] r(1) assms(3) show ?thesis
    by (simp add: PasswordResetByTokenHash_def DeleteExpiredPasswordResets_def delete_where_def)
qed

lemma cached_kept:
  assumes "plain_year cutoff" and "\<forall>r\<in>set rows. stamped (cr_fetched_at r)"
    and "GetCachedFeed key rows = Inr cf" and "cutoff \<le> cf_fetched_at cf"
  shows "GetCachedFeed key (snd (DeleteCachedFeedsBefore cutoff rows)) = Inr cf"
proof -
  from assms(3) obtain r where r: "select_one (\<lambda>r. cr_key r = key) rows = Inr r"
    "cf_fetched_at cf = parseTime (cr_fetched_at r)"
    by (auto simp: GetCachedFeed_def split: sum.splits)
  have "\<not> cr_fetched_at r < stamp cutoff"
    using select_one_mem [OF r(1)] stamp_older [OF assms(1)] assms(2,4) r(2) by fastforce
  with select_one_kept [OF r(1)] r(1) assms(3) show ?thesis
    by (simp add: GetCachedFeed_def DeleteCachedFeedsBefore_def delete_where_def)
qed


section \<open>Nobody notices\<close>

lemma UserFromRequest_live:
  "UserFromRequest env cks s = (Inr u, s') \<Longrightarrow>
     \<exists>sid se. map_of cks sessionCookieName = Some sid \<and> SessionByID sid (au_sessions s) = Inr se \<and>
       av_now env (au_world s) \<le> se_expires se \<and> UserByID (se_user se) (au_users s) = Inr u \<and> s' = s"
  by (auto simp: UserFromRequest_def andthen_def clock_def peek_def stop_def modify_def time_after_def
      split: option.splits sum.splits if_splits)

lemma UserFromRequest_signed_in:
  "map_of cks sessionCookieName = Some sid \<Longrightarrow> SessionByID sid (au_sessions s) = Inr se \<Longrightarrow>
     av_now env (au_world s) \<le> se_expires se \<Longrightarrow> UserByID (se_user se) (au_users s) = Inr u \<Longrightarrow>
     UserFromRequest env cks s = (Inr u, s)"
  by (simp add: UserFromRequest_def andthen_def clock_def peek_def time_after_def)

text \<open>C18: whenever one of its actions happens, the cleanup signs nobody out whose session has not reached its
  expiry, keeps every reset link that still works and every cached body of the last thirty days, and touches
  no user, feed, job or audit row.\<close>

theorem cleanup_keeps_live:
  assumes "task_act (cleanup (av_now env) fails) s s'" and "well_stamped s"
    and "plain_year (av_now env (au_world s))" and "plain_year (av_now env (au_world s) - feedCacheRetention)"
  shows "(\<forall>cks u sid se. UserFromRequest env cks s = (Inr u, s) \<and> map_of cks sessionCookieName = Some sid \<and>
      SessionByID sid (au_sessions s) = Inr se \<and> av_now env (au_world s) < se_expires se \<longrightarrow>
        UserFromRequest env cks s' = (Inr u, s')) \<and>
    (\<forall>h pr. PasswordResetByTokenHash h (au_resets s) = Inr pr \<and> av_now env (au_world s) < pw_expires pr \<longrightarrow>
        PasswordResetByTokenHash h (au_resets s') = Inr pr) \<and>
    (\<forall>key cf. GetCachedFeed key (ap_cache s) = Inr cf \<and>
        av_now env (au_world s) - feedCacheRetention \<le> cf_fetched_at cf \<longrightarrow> GetCachedFeed key (ap_cache s') = Inr cf) \<and>
    au_users s' = au_users s \<and> ap_feeds s' = ap_feeds s \<and> ap_jobs s' = ap_jobs s \<and> ap_audit s' = ap_audit s"
proof -
  let ?now = "av_now env (au_world s)"
  note acts = cleanup_acts [OF assms(1)]
  have same: "au_users s' = au_users s" "ap_feeds s' = ap_feeds s" "ap_jobs s' = ap_jobs s" "ap_audit s' = ap_audit s"
    "au_world s' = au_world s"
    using acts by (auto simp: purge_sessions_def purge_resets_def prune_cache_def)
  have sessions: "SessionByID sid (au_sessions s') = Inr se"
    if "SessionByID sid (au_sessions s) = Inr se" "?now < se_expires se" for sid se
    using acts that session_kept [OF assms(3) _ that] assms(2)
    by (auto simp: purge_sessions_def purge_resets_def prune_cache_def well_stamped_def)
  have "UserFromRequest env cks s' = (Inr u, s')"
    if "UserFromRequest env cks s = (Inr u, s)" "map_of cks sessionCookieName = Some sid"
      "SessionByID sid (au_sessions s) = Inr se" "?now < se_expires se" for cks u sid se
    using UserFromRequest_live [OF that(1)] that(2,3) sessions [OF that(3,4)] that(4) same
    by (auto intro!: UserFromRequest_signed_in)
  moreover have "PasswordResetByTokenHash h (au_resets s') = Inr pr"
    if "PasswordResetByTokenHash h (au_resets s) = Inr pr" "?now < pw_expires pr" for h pr
    using acts that reset_kept [OF assms(3) _ that] assms(2)
    by (auto simp: purge_sessions_def purge_resets_def prune_cache_def well_stamped_def)
  moreover have "GetCachedFeed key (ap_cache s') = Inr cf"
    if "GetCachedFeed key (ap_cache s) = Inr cf" "?now - feedCacheRetention \<le> cf_fetched_at cf" for key cf
    using acts that cached_kept [OF assms(4) _ that] assms(2)
    by (auto simp: purge_sessions_def purge_resets_def prune_cache_def well_stamped_def time_add_def)
  ultimately show ?thesis using same by simp
qed

text \<open>The one instant where they differ: a session is valid up to its expiry, the cleanup deletes it there.\<close>

lemma cleanup_at_expiry:
  "UserFromRequest env [(sessionCookieName, ''s'')] s = (Inr u, s) \<Longrightarrow>
     au_sessions s = [\<lparr>sr_id = ''s'', sr_user = x, sr_created = c, sr_expires = stamp (av_now env (au_world s))\<rparr>] \<Longrightarrow>
     au_sessions (purge_sessions (av_now env) s) = []"
  by (simp add: purge_sessions_def DeleteExpiredSessions_def delete_where_def)


section \<open>Concrete inputs\<close>

lemma sample_purge:
  "task_act (cleanup (av_now (sv_auth sample_server)) (\<lambda>_ _ _. None)) sample_app
     (purge_sessions (av_now (sv_auth sample_server)) sample_app)"
  unfolding cleanup_def delete_act_def
  using task_act.now [of "\<lambda>c s. purge_sessions (av_now (sv_auth sample_server)) s"] by simp

lemma cleanup_keeps_live_witness:
  "UserFromRequest (sv_auth sample_server) (rq_cookies sample_request)
     (purge_sessions (av_now (sv_auth sample_server)) sample_app) =
   (Inr (scanUser (hd sample_users)), purge_sessions (av_now (sv_auth sample_server)) sample_app)"
proof -
  have stamped: "well_stamped sample_app"
    using new_year_plain by (auto simp: well_stamped_def sample_app_def stamped_def)
  have now: "av_now (sv_auth sample_server) (au_world sample_app) = new_year"
    by (simp add: sample_server_def sample_auth_def)
  have retention: "plain_year (new_year - feedCacheRetention)"
    unfolding plain_year_def feedCacheRetention_def new_year_def by code_simp
  let ?s = "\<lparr>se_id = ''tok'', se_user = ''u1'', se_created = parseTime (stamp new_year),
    se_expires = parseTime (stamp (new_year + second))\<rparr>"
  have found: "SessionByID ''tok'' (au_sessions sample_app) = Inr ?s"
    by (simp add: sample_app_def SessionByID_def select_one_def)
  have live: "new_year < se_expires ?s"
    using new_year_plain(2) by (simp add: parseTime_stamp unix_secs_def new_year_def)
  have cookie: "map_of (rq_cookies sample_request) sessionCookieName = Some ''tok''"
    by (simp add: sample_request_def)
  have "sample_app\<lparr>ap_feeds := [empty_feed_row]\<rparr> = sample_app" by (simp add: sample_app_def)
  note signed_in = sample_signed_in(1) [of "[empty_feed_row]", unfolded this]
  note keeps = cleanup_keeps_live [OF sample_purge stamped, unfolded now, OF new_year_plain(1) retention]
  show ?thesis
    by (rule keeps [THEN conjunct1, rule_format]) (intro conjI, rule signed_in, rule cookie, rule found, rule live)
qed

end
