(* ===== verification/Boot.thy ===== *)
theory Boot
  imports Migrate Auth_Props
begin

text \<open>
  From the command line to a serving process: \<^verbatim>\<open>store.Open\<close> and its DSN, \<^verbatim>\<open>auth.New\<close> with OIDC discovery,
  \<^verbatim>\<open>app.New\<close>, \<^verbatim>\<open>run\<close> and the health probe of \<^verbatim>\<open>cmd/tidydav/main.go\<close>. Opening, pinging and closing the
  database, discovery, and the parts of \<^verbatim>\<open>run\<close> that block are calls of the parameter \<open>boot_lib\<close>; the
  number of open database handles is counted, so that leaks show.
\<close>


section \<open>Opening the store\<close>

definition pragmas :: string where
  "pragmas = ''_pragma=busy_timeout(5000)&_pragma=foreign_keys(1)''"

definition buildDSN :: "string \<Rightarrow> string" where
  "buildDSN path =
     (if path = '':memory:'' \<or> path = [] then ''file::memory:?cache=shared&'' @ pragmas
      else ''file:'' @ path @ ''?_pragma=journal_mode(WAL)&'' @ pragmas)"

text \<open>What discovery returns, and what the service keeps of it.\<close>

record discovered =
  di_endpoint :: string
  di_end_session :: "string option"

record oidc_setup =
  os_issuer :: string
  os_audience :: string
  os_client_id :: string
  os_client_secret :: string
  os_endpoint :: string
  os_redirect :: string
  os_scopes :: "string list"
  os_end_session :: string

record auth_setup =
  as_mailer :: mailer
  as_oidc :: "oidc_setup option"

record ('w, 'd) boot_state =
  bo_db :: "('w, 'd) database"
  bo_handles :: nat

record ('w, 'd) boot_lib =
  bl_open :: "string \<Rightarrow> 'w \<Rightarrow> go_error option \<times> 'w"
  bl_ping :: "'w \<Rightarrow> go_error option \<times> 'w"
  bl_close :: "'w \<Rightarrow> go_error option \<times> 'w"
  bl_discover :: "string \<Rightarrow> 'w \<Rightarrow> discovered result \<times> 'w"
  bl_migrations :: "('w, 'd) migrate_env"

type_synonym ('w, 'd, 'a) boot_flow = "(('w, 'd) boot_state, go_error, 'a) flow"

definition on_world :: "('w \<Rightarrow> 'a result \<times> 'w) \<Rightarrow> ('w, 'd, 'a) boot_flow" where
  "on_world f s = (case f (db_world (bo_db s)) of (r, w) \<Rightarrow> (r, s\<lparr>bo_db := (bo_db s)\<lparr>db_world := w\<rparr>\<rparr>))"

definition on_world_err :: "('w \<Rightarrow> go_error option \<times> 'w) \<Rightarrow> ('w, 'd, unit) boot_flow" where
  "on_world_err f = on_world (\<lambda>w. case f w of (None, w') \<Rightarrow> (Inr (), w') | (Some e, w') \<Rightarrow> (Inl e, w'))"

definition on_db :: "('w, 'd, 'a) db_flow \<Rightarrow> ('w, 'd, 'a) boot_flow" where
  "on_db m s = (case m (bo_db s) of (r, d) \<Rightarrow> (r, s\<lparr>bo_db := d\<rparr>))"

definition labelled :: "string \<Rightarrow> ('w, 'd, 'a) boot_flow \<Rightarrow> ('w, 'd, 'a) boot_flow" where
  "labelled msg m s = (case m s of (Inl e, s') \<Rightarrow> (Inl (wrapf msg e), s') | (Inr x, s') \<Rightarrow> (Inr x, s'))"

text \<open>\<^verbatim>\<open>_ = st.Close()\<close> on the way out of an error.\<close>

definition close_store :: "('w, 'd) boot_lib \<Rightarrow> ('w, 'd) boot_state \<Rightarrow> ('w, 'd) boot_state" where
  "close_store lib s =
     (case bl_close lib (db_world (bo_db s)) of
        (_, w) \<Rightarrow> s\<lparr>bo_db := (bo_db s)\<lparr>db_world := w\<rparr>, bo_handles := bo_handles s - 1\<rparr>)"

definition closing_on_error :: "('w, 'd) boot_lib \<Rightarrow> ('w, 'd, 'a) boot_flow \<Rightarrow> ('w, 'd, 'a) boot_flow" where
  "closing_on_error lib m s = (case m s of (Inl e, s') \<Rightarrow> (Inl e, close_store lib s') | (Inr x, s') \<Rightarrow> (Inr x, s'))"

definition Open :: "('w, 'd) boot_lib \<Rightarrow> string \<Rightarrow> ('w, 'd, unit) boot_flow" where
  "Open lib path =
     andthen (labelled ''open sqlite: '' (on_world_err (bl_open lib (buildDSN path)))) (\<lambda>_.
     andthen (modify (\<lambda>s. s\<lparr>bo_handles := bo_handles s + 1\<rparr>)) (\<lambda>_.
       closing_on_error lib (labelled ''ping sqlite: '' (on_world_err (bl_ping lib)))))"


section \<open>Authentication\<close>

definition newOIDCProvider :: "('w, 'd) boot_lib \<Rightarrow> config \<Rightarrow> ('w, 'd, oidc_setup) boot_flow" where
  "newOIDCProvider lib cfg =
     (let oc = cg_oidc cfg in
      andthen (labelled ''oidc discovery: '' (on_world (bl_discover lib (oc_issuer oc)))) (\<lambda>p.
        pass \<lparr>os_issuer = oc_issuer oc, os_audience = oc_client_id oc, os_client_id = oc_client_id oc,
          os_client_secret = oc_client_secret oc, os_endpoint = di_endpoint p,
          os_redirect = cg_base_url cfg @ ''/auth/oidc/callback'', os_scopes = oc_scopes oc,
          os_end_session = (case di_end_session p of Some u \<Rightarrow> u | None \<Rightarrow> [])\<rparr>))"

definition auth_new :: "('w, 'd) boot_lib \<Rightarrow> config \<Rightarrow> ('w, 'd, auth_setup) boot_flow" where
  "auth_new lib cfg =
     (let mailer = mail_from_config (cg_smtp cfg) in
      if oidc_enabled (cg_oidc cfg) then
        andthen (labelled ''init oidc provider: '' (newOIDCProvider lib cfg)) (\<lambda>p.
          pass \<lparr>as_mailer = mailer, as_oidc = Some p\<rparr>)
      else pass \<lparr>as_mailer = mailer, as_oidc = None\<rparr>)"


section \<open>The application\<close>

record app =
  ac_config :: config
  ac_auth :: auth_setup
  ac_allow_private :: bool
  ac_version :: string

definition app_new :: "('w, 'd) boot_lib \<Rightarrow> config \<Rightarrow> string \<Rightarrow> ('w, 'd, app) boot_flow" where
  "app_new lib cfg version =
     andthen (labelled ''open store: '' (Open lib (cg_db_path cfg))) (\<lambda>_.
     andthen (closing_on_error lib (labelled ''run migrations: '' (on_db (Migrate (bl_migrations lib))))) (\<lambda>_.
     andthen (closing_on_error lib (labelled ''init auth: '' (auth_new lib cfg))) (\<lambda>auth.
       pass \<lparr>ac_config = cfg, ac_auth = auth, ac_allow_private = cg_allow_private cfg, ac_version = version\<rparr>)))"

lemma on_world_handles: "on_world f s = (r, s') \<Longrightarrow> bo_handles s' = bo_handles s \<and>
    db_versions (bo_db s') = db_versions (bo_db s) \<and> db_data (bo_db s') = db_data (bo_db s)"
  by (auto simp: on_world_def split: prod.splits)

lemma labelled_run: "labelled msg m s = (r, s') \<Longrightarrow> \<exists>r'. m s = (r', s') \<and> (\<forall>x. r = Inr x \<longleftrightarrow> r' = Inr x)"
  by (auto simp: labelled_def split: prod.splits sum.splits)

lemma labelled_Inr: "labelled msg m s = (Inr x, s') \<Longrightarrow> m s = (Inr x, s')"
  by (auto simp: labelled_def split: prod.splits sum.splits)

lemma close_store_handles [simp]: "bo_handles (close_store lib s) = bo_handles s - 1"
  by (simp add: close_store_def split: prod.split)

lemma closing_handles:
  assumes "closing_on_error lib m s = (r, s')" and "\<And>r t. m s = (r, t) \<Longrightarrow> bo_handles t = bo_handles s"
  shows "bo_handles s' = (case r of Inl _ \<Rightarrow> bo_handles s - 1 | Inr _ \<Rightarrow> bo_handles s)"
  using assms by (auto simp: closing_on_error_def split: prod.splits sum.splits)

lemma labelled_handles:
  "(\<And>r t. m s = (r, t) \<Longrightarrow> bo_handles t = bo_handles s) \<Longrightarrow> labelled msg m s = (r, t) \<Longrightarrow> bo_handles t = bo_handles s"
  by (auto simp: labelled_def split: prod.splits sum.splits)

lemma on_world_err_handles: "on_world_err f s = (r, s') \<Longrightarrow> bo_handles s' = bo_handles s"
  unfolding on_world_err_def by (drule on_world_handles) simp

lemma on_db_handles: "on_db m s = (r, s') \<Longrightarrow> bo_handles s' = bo_handles s"
  by (auto simp: on_db_def split: prod.splits)

lemma Open_handles:
  assumes "Open lib path s = (r, s')"
  shows "bo_handles s' = (case r of Inl _ \<Rightarrow> bo_handles s | Inr _ \<Rightarrow> bo_handles s + 1)"
  using assms
  by (auto simp: Open_def andthen_def modify_def split: prod.splits sum.splits
      dest!: labelled_handles [rotated] closing_handles intro: on_world_err_handles labelled_handles)

lemma newOIDCProvider_handles: "newOIDCProvider lib cfg s = (r, s') \<Longrightarrow> bo_handles s' = bo_handles s"
  by (auto simp: newOIDCProvider_def andthen_def pass_def Let_def split: prod.splits sum.splits
      dest!: labelled_handles [rotated] dest: on_world_handles)

lemma auth_new_handles: "auth_new lib cfg s = (r, s') \<Longrightarrow> bo_handles s' = bo_handles s"
  by (auto simp: auth_new_def andthen_def pass_def Let_def split: prod.splits sum.splits if_splits
      dest!: labelled_handles [rotated] dest: newOIDCProvider_handles)


lemma migrated_pending:
  assumes "closing_on_error lib (labelled msg (on_db (Migrate env))) s = (r, s')" and "r = Inr x" and "clean_dir env"
  shows "pending env (bo_db s') = []"
proof -
  have "on_db (Migrate env) s = (Inr x, s')"
    using assms(1,2) by (auto simp: closing_on_error_def labelled_def split: prod.splits sum.splits)
  then have "Migrate env (bo_db s) = (Inr (), bo_db s')" by (auto simp: on_db_def split: prod.splits)
  from migrate_advances [OF this assms(3)] show ?thesis by (auto dest: none_pending)
qed

lemma auth_new_versions: "auth_new lib cfg s = (r, s') \<Longrightarrow> db_versions (bo_db s') = db_versions (bo_db s)"
  by (auto simp: auth_new_def newOIDCProvider_def labelled_def on_world_def andthen_def pass_def Let_def
      split: prod.splits sum.splits if_splits)

lemma pending_versions: "db_versions s' = db_versions s \<Longrightarrow> pending env s' = pending env s"
  by (simp add: pending_def todo_def applied_names_def split: sum.split)

lemma auth_setup:
  assumes "closing_on_error lib (labelled msg (auth_new lib cfg)) s = (r, s')" and "r = Inr a"
  shows "(as_oidc a \<noteq> None \<longleftrightarrow> oidc_enabled (cg_oidc cfg)) \<and> pending env (bo_db s') = pending env (bo_db s)"
proof -
  have "auth_new lib cfg s = (Inr a, s')"
    using assms by (auto simp: closing_on_error_def labelled_def split: prod.splits sum.splits)
  then have "pending env (bo_db s') = pending env (bo_db s)" "as_oidc a \<noteq> None \<longleftrightarrow> oidc_enabled (cg_oidc cfg)"
    using pending_versions [OF auth_new_versions]
    by (blast, auto simp: auth_new_def andthen_Inr pass_def Let_def split: if_splits)
  then show ?thesis by simp
qed

text \<open>C32: starting up leaks no database handle. When \<^verbatim>\<open>app.New\<close> fails, at whatever step, the handle it
  opened is closed again; when it succeeds exactly one more is open, every migration of the release has
  run, and OIDC is set up exactly when it is configured.\<close>

theorem app_new_no_leak:
  assumes "app_new lib cfg version s = (r, s')" and "clean_dir (bl_migrations lib)"
  shows "case r of
      Inl _ \<Rightarrow> bo_handles s' = bo_handles s
    | Inr a \<Rightarrow> bo_handles s' = bo_handles s + 1 \<and> pending (bl_migrations lib) (bo_db s') = [] \<and>
        (as_oidc (ac_auth a) \<noteq> None \<longleftrightarrow> oidc_enabled (cg_oidc cfg))"
proof -
  let ?open = "labelled ''open store: '' (Open lib (cg_db_path cfg))"
  let ?mig = "closing_on_error lib (labelled ''run migrations: '' (on_db (Migrate (bl_migrations lib))))"
  let ?auth = "closing_on_error lib (labelled ''init auth: '' (auth_new lib cfg))"
  obtain r1 s1 where 1: "?open s = (r1, s1)" by fastforce
  obtain r2 s2 where 2: "?mig s1 = (r2, s2)" by fastforce
  obtain r3 s3 where 3: "?auth s2 = (r3, s3)" by fastforce
  have h1: "bo_handles s1 = (case r1 of Inl _ \<Rightarrow> bo_handles s | Inr _ \<Rightarrow> bo_handles s + 1)"
    using 1 Open_handles [of lib "cg_db_path cfg" s] by (auto simp: labelled_def split: prod.splits sum.splits)
  have h2: "bo_handles s2 = (case r2 of Inl _ \<Rightarrow> bo_handles s1 - 1 | Inr _ \<Rightarrow> bo_handles s1)"
    by (rule closing_handles [OF 2]) (rule labelled_handles, rule on_db_handles)
  have h3: "bo_handles s3 = (case r3 of Inl _ \<Rightarrow> bo_handles s2 - 1 | Inr _ \<Rightarrow> bo_handles s2)"
    by (rule closing_handles [OF 3]) (rule labelled_handles, rule auth_new_handles)
  show ?thesis
  proof (cases r1)
    case (Inl e)
    with assms(1) 1 h1 show ?thesis by (auto simp: app_new_def andthen_def)
  next
    case r1: (Inr x1)
    show ?thesis
    proof (cases r2)
      case (Inl e)
      with assms(1) 1 2 r1 h1 h2 show ?thesis by (auto simp: app_new_def andthen_def)
    next
      case r2: (Inr x2)
      then have p: "pending (bl_migrations lib) (bo_db s2) = []" using migrated_pending [OF 2 _ assms(2)] by simp
      show ?thesis
      proof (cases r3)
        case (Inl e)
        with assms(1) 1 2 3 r1 r2 h1 h2 h3 show ?thesis by (auto simp: app_new_def andthen_def)
      next
        case r3: (Inr auth)
        with auth_setup [OF 3 r3, of "bl_migrations lib"] assms(1) 1 2 3 r1 r2 h1 h2 h3 p show ?thesis
          by (auto simp: app_new_def andthen_def pass_def)
      qed
    qed
  qed
qed


section \<open>The process\<close>

datatype main_call =
    LoadConfig | OpenApp | BuildServer | StartJobs | Serve | Shutdown | StopJobs | CloseApp

type_synonym 'w main_lib = "main_call \<Rightarrow> 'w \<Rightarrow> go_error option \<times> 'w"

definition main_step :: "'w main_lib \<Rightarrow> main_call \<Rightarrow> ('w, go_error, unit) flow" where
  "main_step call c = returns_err (call c)"

definition main_wrap :: "string \<Rightarrow> ('w, go_error, 'a) flow \<Rightarrow> ('w, go_error, 'a) flow" where
  "main_wrap msg m w = (case m w of (Inl e, w') \<Rightarrow> (Inl (wrapf msg e), w') | (Inr x, w') \<Rightarrow> (Inr x, w'))"

text \<open>\<^verbatim>\<open>defer\<close>: the call runs whatever the rest returned.\<close>

definition deferring :: "'w main_lib \<Rightarrow> main_call \<Rightarrow> ('w, go_error, 'a) flow \<Rightarrow> ('w, go_error, 'a) flow" where
  "deferring call c m w = (case m w of (r, w') \<Rightarrow> (r, snd (call c w')))"

text \<open>\<open>Serve\<close> lasts until the signal, or fails with the listener's error.\<close>

definition run_main :: "'w main_lib \<Rightarrow> ('w, go_error, unit) flow" where
  "run_main call =
     andthen (main_wrap ''load config: '' (main_step call LoadConfig)) (\<lambda>_.
     andthen (main_step call OpenApp) (\<lambda>_. deferring call CloseApp (
     andthen (main_step call BuildServer) (\<lambda>_.
     andthen (modify (\<lambda>w. snd (call StartJobs w))) (\<lambda>_. deferring call StopJobs (
     andthen (main_wrap ''server error: '' (main_step call Serve)) (\<lambda>_.
       main_wrap ''graceful shutdown: '' (main_step call Shutdown))))))))"

definition exit_code :: "go_error + unit \<Rightarrow> int" where
  "exit_code r = (case r of Inl _ \<Rightarrow> 1 | Inr _ \<Rightarrow> 0)"

definition main_phases :: "main_call list list" where
  "main_phases =
     [[LoadConfig], [LoadConfig, OpenApp], [LoadConfig, OpenApp, BuildServer, CloseApp],
      [LoadConfig, OpenApp, BuildServer, StartJobs, Serve, StopJobs, CloseApp],
      [LoadConfig, OpenApp, BuildServer, StartJobs, Serve, Shutdown, StopJobs, CloseApp]]"

text \<open>The process comes down in order on every path: an opened store is closed last and once, after the
  scheduler it started has stopped, and the exit code is 0 exactly when loading, opening, building, serving
  and shutting down all succeeded.\<close>

theorem main_comes_down:
  assumes "run_main (logged call) ([], w) = (r, log, w')"
  shows "map fst log \<in> set main_phases \<and>
    (exit_code r = 0 \<longleftrightarrow> map fst log = List.last main_phases \<and>
       (\<forall>(c, e)\<in>set log. c \<in> {LoadConfig, OpenApp, BuildServer, Serve, Shutdown} \<longrightarrow> e = None))"
  using assms
  by (auto simp: run_main_def main_step_def main_wrap_def deferring_def returns_err_def andthen_def modify_def
      logged_def main_phases_def exit_code_def split: prod.splits option.splits)


section \<open>The health probe\<close>

text \<open>\<^verbatim>\<open>net.SplitHostPort\<close>: host and port, or nothing.\<close>

definition split_host_port :: "string \<Rightarrow> (string \<times> string) option" where
  "split_host_port hp =
     (case last_index (CHR '':'') hp of
        None \<Rightarrow> None
      | Some i \<Rightarrow>
          if has_prefix hp ''['' then
            (let e = length (takeWhile (\<lambda>c. c \<noteq> CHR '']'') hp) in
             if e + 1 \<noteq> i \<or> CHR ''['' \<in> set (drop 1 hp) \<or> CHR '']'' \<in> set (drop (e + 1) hp) then None
             else Some (drop 1 (take e hp), drop (i + 1) hp))
          else
            (if CHR '':'' \<in> set (take i hp) \<or> CHR ''['' \<in> set hp \<or> CHR '']'' \<in> set hp then None
             else Some (take i hp, drop (i + 1) hp)))"

definition probe_port :: "string \<Rightarrow> string" where
  "probe_port env =
     (let addr = (if env = [] then '':8080'' else env) in
      case split_host_port addr of
        None \<Rightarrow> ''8080''
      | Some (_, port) \<Rightarrow> if port = [] then ''8080'' else port)"

definition runHealthcheck :: "(string \<Rightarrow> 'w \<Rightarrow> int result \<times> 'w) \<Rightarrow> string \<Rightarrow> 'w \<Rightarrow> int \<times> 'w" where
  "runHealthcheck get env w =
     (case get (''http://127.0.0.1:'' @ probe_port env @ ''/health'') w of
        (Inl _, w') \<Rightarrow> (1, w')
      | (Inr status, w') \<Rightarrow> (if status \<noteq> 200 then 1 else 0, w'))"

lemma probe_ports: "probe_port [] = ''8080''" "probe_port '':9000'' = ''9000''" "probe_port ''[::1]:80'' = ''80''"
  "probe_port ''0.0.0.0:81'' = ''81''" "probe_port ''::1'' = ''8080''"
  by code_simp+


section \<open>Concrete inputs\<close>

definition sample_lib :: "bool \<Rightarrow> (unit, string list) boot_lib" where
  "sample_lib reachable =
     \<lparr>bl_open = (\<lambda>_ w. (None, w)), bl_ping = (\<lambda>w. (None, w)), bl_close = (\<lambda>w. (None, w)),
      bl_discover = (\<lambda>u w. (if reachable then Inr \<lparr>di_endpoint = u, di_end_session = None\<rparr> else Inl (ErrNew ''refused''), w)),
      bl_migrations = sample_second\<rparr>"


text \<open>The provider is down: the store that was opened is closed again. It is up: one handle stays.\<close>

definition sample_start :: "bool \<Rightarrow> (go_error + app) \<times> (unit, string list) boot_state" where
  "sample_start reachable =
     app_new (sample_lib reachable) sample_auth_config ''1'' \<lparr>bo_db = sample_db, bo_handles = 0\<rparr>"

lemma sample_start_runs: "\<not> isl (fst (sample_start True))" "isl (fst (sample_start False))"
  by code_simp+

lemma app_new_no_leak_witness:
  "bo_handles (snd (sample_start True)) = 1 \<and> bo_handles (snd (sample_start False)) = 0"
proof -
  have clean: "clean_dir (bl_migrations (sample_lib b))" for b
    by (simp add: sample_lib_def clean_dir_def sample_second_def sample_migrations_def)
  have run: "case fst (sample_start b) of Inl _ \<Rightarrow> bo_handles (snd (sample_start b)) = 0
    | Inr a \<Rightarrow> bo_handles (snd (sample_start b)) = 1" for b
    using app_new_no_leak [OF _ clean, of b sample_auth_config "''1''" "\<lparr>bo_db = sample_db, bo_handles = 0\<rparr>"
        "fst (sample_start b)" "snd (sample_start b)"]
    by (simp add: sample_start_def split: sum.splits)
  show ?thesis using run [of True] run [of False] sample_start_runs by (auto split: sum.splits)
qed

lemma main_comes_down_witness:
  "map fst (fst (snd (run_main (logged (\<lambda>c w. (None, w + 1))) ([], 0 :: nat)))) = List.last main_phases"
proof -
  obtain r log w' where run: "run_main (logged (\<lambda>c w. (None, w + 1))) ([], 0 :: nat) = (r, log, w')"
    by (metis prod_cases3)
  have "r = Inr ()"
    using run by (simp add: run_main_def main_step_def main_wrap_def deferring_def returns_err_def andthen_def
        modify_def logged_def)
  with main_comes_down [OF run] have "map fst log = List.last main_phases" by (simp add: exit_code_def)
  with run show ?thesis by (simp only: fst_conv snd_conv)
qed

end
