(* ===== verification/Ui.thy ===== *)
theory Ui
  imports Go_URL
begin

text \<open>
  \<^verbatim>\<open>internal/ui/embed.go\<close>: the handler behind \<^verbatim>\<open>/\<close>, which serves the embedded frontend. The files under
  \<^verbatim>\<open>dist\<close> are a parameter (generated by the frontend build), \<^verbatim>\<open>http.FileServer\<close> is one possible answer.
\<close>

record ui_files =
  ui_index :: "bytes option"
  ui_exists :: "string \<Rightarrow> bool"

datatype ui_answer =
    ServedByFileServer string
  | ServedIndex int "(string \<times> string) list" bytes

definition asset_name :: "string \<Rightarrow> string" where
  "asset_name path = trim_prefix (path_clean path) ''/''"

text \<open>\<^verbatim>\<open>Handler\<close> fails when there is no index page to fall back to.\<close>

definition ui_handler :: "ui_files \<Rightarrow> (string \<Rightarrow> ui_answer) option" where
  "ui_handler fs =
     (case ui_index fs of
        None \<Rightarrow> None
      | Some index \<Rightarrow> Some (\<lambda>path.
          let name = asset_name path in
          if name \<noteq> [] \<and> name \<noteq> ''.'' \<and> ui_exists fs name then ServedByFileServer path
          else ServedIndex 200 [(''Content-Type'', ''text/html; charset=utf-8'')] index))"

definition plain_element :: "string \<Rightarrow> bool" where
  "plain_element e \<longleftrightarrow> e \<noteq> [] \<and> e \<noteq> ''.'' \<and> e \<noteq> ''..'' \<and> CHR ''/'' \<notin> set e"

lemma clean_push_plain:
  "list_all plain_element st \<Longrightarrow> CHR ''/'' \<notin> set e \<Longrightarrow> list_all plain_element (clean_push True st e)"
  by (auto simp: clean_push_def plain_element_def list_all_iff dest: in_set_butlastD)

lemma foldl_clean_plain:
  "list_all plain_element st \<Longrightarrow> \<forall>e\<in>set els. CHR ''/'' \<notin> set e \<Longrightarrow>
     list_all plain_element (foldl (clean_push True) st els)"
  by (induction els arbitrary: st) (auto simp: clean_push_plain)

text \<open>The frontend handler stays inside the embedded directory: for a rooted request path, whatever it
  contains, the name it probes has no empty, \<^verbatim>\<open>.\<close> or \<^verbatim>\<open>..\<close> element, a probed name that exists is served
  and everything else gets the index page with status 200.\<close>

theorem ui_stays_inside:
  assumes "ui_handler fs = Some h" and "has_prefix path ''/''"
  shows "(asset_name path = [] \<or> list_all plain_element (split_char (CHR ''/'') (asset_name path))) \<and>
    (h path = ServedByFileServer path \<and> asset_name path \<noteq> [] \<and> ui_exists fs (asset_name path) \<or>
     (\<exists>index. ui_index fs = Some index \<and>
        h path = ServedIndex 200 [(''Content-Type'', ''text/html; charset=utf-8'')] index))"
proof -
  let ?els = "foldl (clean_push True) [] (split_char (CHR ''/'') path)"
  have plain: "list_all plain_element ?els"
    by (rule foldl_clean_plain) (auto dest: split_char_no_sep)
  have "path_clean path = ''/'' @ go_join ?els ''/''"
    using assms(2) by (simp add: path_clean_def Let_def)
  then have name: "asset_name path = go_join ?els ''/''"
    by (simp add: asset_name_def trim_prefix_def has_prefix_def)
  have "asset_name path = [] \<or> list_all plain_element (split_char (CHR ''/'') (asset_name path))"
  proof (cases "?els = []")
    case False
    with plain have "split_char (CHR ''/'') (go_join ?els ''/'') = ?els"
      by (auto simp: plain_element_def list_all_iff intro!: split_join_char)
    with plain show ?thesis by (simp only: name) blast
  qed (simp add: name)
  then show ?thesis using assms(1) by (auto simp: ui_handler_def Let_def split: option.splits if_splits)
qed

definition sample_ui :: ui_files where
  "sample_ui = \<lparr>ui_index = Some ''<html>'', ui_exists = (\<lambda>n. n = ''app.js'')\<rparr>"

lemma ui_stays_inside_witness:
  "map_option (\<lambda>h. h ''/x/../../../app.js'') (ui_handler sample_ui) = Some (ServedByFileServer ''/x/../../../app.js'') \<and>
   list_all plain_element (split_char (CHR ''/'') (asset_name ''/x/../../../app.js''))"
proof -
  obtain h where h: "ui_handler sample_ui = Some h" by (simp add: ui_handler_def sample_ui_def)
  have name: "asset_name ''/x/../../../app.js'' = ''app.js''" by code_simp
  have "has_prefix ''/x/../../../app.js'' ''/''" by code_simp
  note inside = ui_stays_inside [OF h this]
  have "map_option (\<lambda>h. h ''/x/../../../app.js'') (ui_handler sample_ui) = Some (ServedByFileServer ''/x/../../../app.js'')"
    by (simp add: name ui_handler_def sample_ui_def Let_def)
  with inside show ?thesis by (simp add: name)
qed

end
