(* ===== verification/Clients.thy ===== *)
theory Clients
  imports Outbound Config
begin

text \<open>
  The HTTP clients of the program and the guard they carry: \<^verbatim>\<open>outbound.Client\<close> and its uses in
  \<^verbatim>\<open>internal/proxy\<close> (feed sources), \<^verbatim>\<open>internal/dav\<close> (sync endpoints) and \<^verbatim>\<open>internal/notify\<close>
  (notification targets). A client is its timeout, whether it dials through the guard, and the account it
  adds to its requests.
\<close>

record http_client =
  hc_timeout :: go_duration
  hc_guarded :: bool
  hc_basic :: "(string \<times> string) option"

definition Client :: "go_duration \<Rightarrow> bool \<Rightarrow> http_client" where
  "Client timeout allowPrivate =
     (if allowPrivate then \<lparr>hc_timeout = timeout, hc_guarded = False, hc_basic = None\<rparr>
      else \<lparr>hc_timeout = timeout, hc_guarded = True, hc_basic = None\<rparr>)"

definition buildClient :: "bool \<Rightarrow> http_client" where
  "buildClient allowPrivate = Client (30 * second) allowPrivate"

definition newClient :: "bool \<Rightarrow> http_client" where
  "newClient allowPrivate = Client (10 * second) allowPrivate"

definition davHTTPClient :: "string \<Rightarrow> string \<Rightarrow> bool \<Rightarrow> http_client" where
  "davHTTPClient username password allowPrivate =
     (let base = Client (60 * second) allowPrivate in
      if username \<noteq> [] then base\<lparr>hc_basic := Some (username, password)\<rparr> else base)"

text \<open>A connection of a client: every request, redirects included, dials through its transport.\<close>

definition client_dial ::
  "('w, 'c) dial_env \<Rightarrow> (string \<Rightarrow> string \<Rightarrow> 'w \<Rightarrow> 'c result option \<times> 'w) \<Rightarrow> http_client \<Rightarrow>
     string \<Rightarrow> string \<Rightarrow> 'w \<Rightarrow> 'c result option \<times> 'w" where
  "client_dial env default_dial c = dial_of env (\<not> hc_guarded c) default_dial"

text \<open>The clients for addresses a user typed in, of an application with this configuration.\<close>

definition user_clients :: "config \<Rightarrow> string \<Rightarrow> string \<Rightarrow> http_client list" where
  "user_clients cfg username password =
     [buildClient (cg_allow_private cfg), davHTTPClient username password (cg_allow_private cfg),
      newClient (cg_allow_private cfg)]"

lemma Client_guarded: "hc_guarded (Client t a) \<longleftrightarrow> \<not> a" "hc_timeout (Client t a) = t"
  by (simp_all add: Client_def)

lemma davHTTPClient_guarded: "hc_guarded (davHTTPClient u p a) \<longleftrightarrow> \<not> a" "hc_timeout (davHTTPClient u p a) = 60 * second"
  by (simp_all add: davHTTPClient_def Let_def Client_guarded)

lemma user_clients_guarded:
  "c \<in> set (user_clients cfg username password) \<Longrightarrow>
     (hc_guarded c \<longleftrightarrow> \<not> cg_allow_private cfg) \<and> 0 < hc_timeout c"
  by (auto simp: user_clients_def buildClient_def newClient_def Client_guarded davHTTPClient_guarded)

text \<open>C22: with private targets disallowed no client for an address a user typed in, be it a feed source, a sync
  endpoint or a notification target, connects to a non-public one, whatever the resolver answers: what
  dialing such an address would do makes no difference. Every one of these clients has a timeout.\<close>

theorem user_targets_guarded:
  assumes "c \<in> set (user_clients cfg username password)" and "\<not> cg_allow_private cfg"
    and "\<And>ip port w. \<not> IsBlockedIP ip \<Longrightarrow> dial network ip port w = dial' network ip port w"
  shows "client_dial (env\<lparr>di_dial := dial\<rparr>) def c network addr w =
      client_dial (env\<lparr>di_dial := dial'\<rparr>) def c network addr w \<and>
    IsBlockedIP [a1, a2, a3, a4] = blocked_v4 [a1, a2, a3, a4] \<and>
    IsBlockedIP (mapped [a1, a2, a3, a4]) = blocked_v4 [a1, a2, a3, a4] \<and> 0 < hc_timeout c"
proof -
  have "dial_of (env\<lparr>di_dial := dial\<rparr>) False def network addr w = dial_of (env\<lparr>di_dial := dial'\<rparr>) False def network addr w \<and>
    IsBlockedIP [a1, a2, a3, a4] = blocked_v4 [a1, a2, a3, a4] \<and>
    IsBlockedIP (mapped [a1, a2, a3, a4]) = blocked_v4 [a1, a2, a3, a4]"
    by (rule private_targets_never_dialed) (rule assms(3))
  with user_clients_guarded [OF assms(1)] assms(2) show ?thesis by (simp add: client_dial_def)
qed


section \<open>Concrete inputs\<close>

definition closed_config :: "config \<Rightarrow> config" where
  "closed_config cfg = cfg\<lparr>cg_allow_private := False\<rparr>"

lemma user_targets_guarded_witness:
  "\<forall>cfg. client_dial (rebinding\<lparr>di_dial := \<lambda>n ip port w. if IsBlockedIP ip then (Inr [], w) else (Inr ip, w)\<rparr>)
     (\<lambda>n a w. (None, w)) (davHTTPClient ''u'' ''p'' (cg_allow_private (closed_config cfg))) ''tcp'' ''cal.example'' () =
   client_dial (rebinding\<lparr>di_dial := \<lambda>n ip port w. (Inr ip, w)\<rparr>)
     (\<lambda>n a w. (None, w)) (davHTTPClient ''u'' ''p'' (cg_allow_private (closed_config cfg))) ''tcp'' ''cal.example'' ()"
proof
  fix cfg
  have "davHTTPClient ''u'' ''p'' (cg_allow_private (closed_config cfg)) \<in> set (user_clients (closed_config cfg) ''u'' ''p'')"
    "\<not> cg_allow_private (closed_config cfg)"
    by (simp_all add: user_clients_def closed_config_def)
  from user_targets_guarded [OF this, of "\<lambda>n ip port w. if IsBlockedIP ip then (Inr [], w) else (Inr ip, w)" "''tcp''"
      "\<lambda>n ip port w. (Inr ip, w)" rebinding "\<lambda>n a w. (None, w)" "''cal.example''" "()"]
  show "client_dial (rebinding\<lparr>di_dial := \<lambda>n ip port w. if IsBlockedIP ip then (Inr [], w) else (Inr ip, w)\<rparr>)
     (\<lambda>n a w. (None, w)) (davHTTPClient ''u'' ''p'' (cg_allow_private (closed_config cfg))) ''tcp'' ''cal.example'' () =
   client_dial (rebinding\<lparr>di_dial := \<lambda>n ip port w. (Inr ip, w)\<rparr>)
     (\<lambda>n a w. (None, w)) (davHTTPClient ''u'' ''p'' (cg_allow_private (closed_config cfg))) ''tcp'' ''cal.example'' ()"
    by simp
qed

end
