(* ===== verification/Sync_Steps.thy ===== *)
theory Sync_Steps
  imports Server_Props Cleanup
begin

text \<open>
  \<^verbatim>\<open>internal/davsync/runner.go\<close> once more, now step by step: a goroutine of the runner, scheduled or started by
  a request, as a state machine whose steps are the moments it touches what others share: reading the due
  jobs, taking a job, synchronising, recording the outcome, giving the job back. Between two of them anything
  may happen. Run without interruption the machine is \<open>Run\<close> and \<open>RunOne\<close> of \<open>Davsync\<close>.
\<close>


section \<open>The goroutine\<close>

text \<open>Where a goroutine of the runner is. The jobs still to come are those it read at the start.\<close>

datatype run_phase =
    Jobs "sync_job list"
  | Manual sync_job
  | Locked sync_job "sync_job list"
  | Recording sync_job "items option" string "sync_job list"
  | Releasing sync_job "sync_job list"
  | Refused

text \<open>The value returned, for a goroutine that has ended.\<close>

definition returned :: "run_phase \<Rightarrow> go_error option option" where
  "returned ph =
     (case ph of
        Jobs [] \<Rightarrow> Some None
      | Refused \<Rightarrow> Some (Some ErrAlreadyRunning)
      | _ \<Rightarrow> None)"

definition take_job :: "sync_job \<Rightarrow> run_phase \<Rightarrow> run_phase \<Rightarrow> 'w app_state \<Rightarrow> run_phase \<times> 'w app_state" where
  "take_job job run other s =
     (case acquire (sj_id job) (ap_running s) of
        (ok, running) \<Rightarrow> (if ok then run else other, s\<lparr>ap_running := running\<rparr>))"

definition sync_job_now ::
  "('w, 'l, 'v) runner_env \<Rightarrow> sync_job \<Rightarrow> sync_job list \<Rightarrow> 'w app_state \<Rightarrow> run_phase \<times> 'w app_state" where
  "sync_job_now env job rest s =
     (case buildSync env (sj_config job) of
        Inl e \<Rightarrow> (Recording job None (''config error: '' @ error_text env e) rest, s)
      | Inr (a, b, opts) \<Rightarrow>
          (let out = Sync (ru_dav env) a b (job_items env job) opts (au_world s)
           in (Recording job (Some (so_items out)) (runStatus env (so_res out) (so_err out)) rest,
               s\<lparr>au_world := so_world out\<rparr>)))"

definition record_run ::
  "('w, 'l, 'v) runner_env \<Rightarrow> sync_job \<Rightarrow> items option \<Rightarrow> string \<Rightarrow> 'w app_state \<Rightarrow> 'w app_state" where
  "record_run env job state status s =
     (case finish env job state status (au_world s, ap_jobs s) of
        (w, rows) \<Rightarrow> s\<lparr>au_world := w, ap_jobs := rows\<rparr>)"

definition phase_next :: "('w, 'l, 'v) runner_env \<Rightarrow> run_phase \<Rightarrow> 'w app_state \<Rightarrow> run_phase \<times> 'w app_state" where
  "phase_next env ph s =
     (case ph of
        Jobs [] \<Rightarrow> (ph, s)
      | Jobs (job # rest) \<Rightarrow> take_job job (Locked job rest) (Jobs rest) s
      | Manual job \<Rightarrow> take_job job (Locked job []) Refused s
      | Locked job rest \<Rightarrow> sync_job_now env job rest s
      | Recording job state status rest \<Rightarrow> (Releasing job rest, record_run env job state status s)
      | Releasing job rest \<Rightarrow> (Jobs rest, s\<lparr>ap_running := release (sj_id job) (ap_running s)\<rparr>)
      | Refused \<Rightarrow> (ph, s))"

text \<open>The steps a goroutine has before it at most.\<close>

fun steps_left :: "run_phase \<Rightarrow> nat" where
  "steps_left (Jobs jobs) = 4 * length jobs"
| "steps_left (Manual job) = 4"
| "steps_left (Locked job rest) = 3 + 4 * length rest"
| "steps_left (Recording job state status rest) = 2 + 4 * length rest"
| "steps_left (Releasing job rest) = 1 + 4 * length rest"
| "steps_left Refused = 0"

lemma phase_next_less: "returned ph = None \<Longrightarrow> steps_left (fst (phase_next env ph s)) < steps_left ph"
  by (cases ph) (auto simp: returned_def phase_next_def take_job_def sync_job_now_def Let_def
      split: list.splits prod.splits sum.splits if_splits)

text \<open>The goroutine as a task of the scheduler.\<close>

function runner_task :: "('w, 'l, 'v) runner_env \<Rightarrow> run_phase \<Rightarrow> 'w app_state task" where
  "runner_task env ph =
     (case returned ph of
        Some r \<Rightarrow> Return r
      | None \<Rightarrow> Act (\<lambda>_ s. snd (phase_next env ph s)) (\<lambda>_ s. runner_task env (fst (phase_next env ph s))))"
  by pat_completeness auto

termination
  by (relation "measure (\<lambda>(env, ph). steps_left ph)") (auto simp: phase_next_less)

declare runner_task.simps [simp del]

text \<open>\<^verbatim>\<open>Run\<close> reads the enabled jobs and the clock, then works through the jobs that are due.\<close>

definition due_jobs :: "('w, 'l, 'v) runner_env \<Rightarrow> 'w app_state \<Rightarrow> sync_job list" where
  "due_jobs env s = filter (\<lambda>job. due job (ru_now env (au_world s))) (AllEnabledSyncJobs (ap_jobs s))"

definition sync_task :: "('w, 'l, 'v) runner_env \<Rightarrow> 'w app_state task" where
  "sync_task env = Act (\<lambda>_ s. s) (\<lambda>_ s. runner_task env (Jobs (due_jobs env s)))"


section \<open>Without interruption\<close>

definition run_sync :: "('w, 'l, 'v) runner_env \<Rightarrow> 'w app_state \<Rightarrow> 'w app_state" where
  "run_sync env s =
     (case Davsync.Run env (ap_running s, au_world s, ap_jobs s) of
        (m, w, rows) \<Rightarrow> s\<lparr>au_world := w, ap_jobs := rows, ap_running := m\<rparr>)"

definition shared :: "'w app_state \<Rightarrow> running \<times> 'w \<times> job_row list" where
  "shared s = (ap_running s, au_world s, ap_jobs s)"

definition with_shared :: "'w app_state \<Rightarrow> running \<times> 'w \<times> job_row list \<Rightarrow> 'w app_state" where
  "with_shared s x = (case x of (m, w, rows) \<Rightarrow> s\<lparr>au_world := w, ap_jobs := rows, ap_running := m\<rparr>)"

lemma with_shared_shared [simp]: "with_shared s (shared s) = s" "shared (with_shared s x) = x"
    "with_shared (with_shared s x) y = with_shared s y" "with_shared (s\<lparr>ap_running := m\<rparr>) x = with_shared s x"
  by (simp_all add: with_shared_def shared_def split: prod.split)

lemma run_phase_step:
  "returned ph = None \<Longrightarrow> phase_next env ph s = (ph', s') \<Longrightarrow>
     run_task c (runner_task env ph) s = run_task c (runner_task env ph') s'"
  by (simp add: runner_task.simps [of env ph])

lemma run_phase_end: "returned ph = Some r \<Longrightarrow> run_task c (runner_task env ph) s = (r, s)"
  by (simp add: runner_task.simps [of env ph])

lemma run_locked:
  "run_task c (runner_task env (Locked job rest)) s =
     run_task c (runner_task env (Jobs rest))
       (with_shared s (release (sj_id job) (ap_running s), runLocked env job (au_world s, ap_jobs s)))"
proof -
  have rec: "run_task c (runner_task env (Recording job state status rest)) t =
      run_task c (runner_task env (Jobs rest))
        (with_shared t (release (sj_id job) (ap_running t), finish env job state status (au_world t, ap_jobs t)))"
    for state status t
    by (simp add: run_phase_step [of "Recording job state status rest"] run_phase_step [of "Releasing job rest"]
        returned_def phase_next_def record_run_def with_shared_def split: prod.split)
  show ?thesis
  proof (cases "buildSync env (sj_config job)")
    case (Inl e)
    then show ?thesis
      by (simp add: run_phase_step [of "Locked job rest"] returned_def phase_next_def sync_job_now_def rec runLocked_def)
  next
    case (Inr x)
    obtain a b opts where "x = (a, b, opts)" by (cases x)
    with Inr show ?thesis
      by (simp add: run_phase_step [of "Locked job rest"] returned_def phase_next_def sync_job_now_def rec runLocked_def Let_def)
        (simp add: with_shared_def split: prod.split)
  qed
qed

lemma fold_if_filter: "fold (\<lambda>x st. if p x then f x st else st) xs st = fold f (filter p xs) st"
  by (induction xs arbitrary: st) simp_all

lemma run_jobs:
  "run_task c (runner_task env (Jobs jobs)) s =
     (None, with_shared s (fold (\<lambda>job. runJob (runLocked env job) (sj_id job)) jobs (shared s)))"
proof (induction jobs arbitrary: s)
  case Nil
  show ?case by (simp add: run_phase_end returned_def)
next
  case (Cons job jobs)
  obtain ok m where acq: "acquire (sj_id job) (ap_running s) = (ok, m)" by fastforce
  have step: "run_task c (runner_task env (Jobs (job # jobs))) s =
      run_task c (runner_task env (if ok then Locked job jobs else Jobs jobs)) (s\<lparr>ap_running := m\<rparr>)"
    by (rule run_phase_step) (simp_all add: returned_def phase_next_def take_job_def acq)
  have "shared s = (ap_running s, au_world s, ap_jobs s)" "shared (s\<lparr>ap_running := m\<rparr>) = (m, au_world s, ap_jobs s)"
    by (simp_all add: shared_def)
  with acq show ?case
    unfolding step by (cases ok) (simp_all add: Cons.IH run_locked runJob_def)
qed



section \<open>What a step may do\<close>

text \<open>A step writes the table of running jobs, or acts on the world outside, or writes the run columns of
  a job.\<close>

lemma phase_next_writes:
  obtains (running) m where "snd (phase_next env ph s) = s\<lparr>ap_running := m\<rparr>"
  | (world) w where "snd (phase_next env ph s) = s\<lparr>au_world := w\<rparr>"
  | (row) now i state at msg where
      "snd (phase_next env ph s) = s\<lparr>ap_jobs := UpdateSyncJobRun now i state at msg (ap_jobs s)\<rparr>"
proof -
  have took: "\<exists>m. snd (take_job job r q s) = s\<lparr>ap_running := m\<rparr>" for job r q
    by (auto simp: take_job_def split: prod.split)
  have synced: "\<exists>w. snd (sync_job_now env job rest s) = s\<lparr>au_world := w\<rparr>" for job rest
  proof (cases "buildSync env (sj_config job)")
    case (Inl e)
    then have "snd (sync_job_now env job rest s) = s\<lparr>au_world := au_world s\<rparr>" by (simp add: sync_job_now_def)
    then show ?thesis by blast
  qed (auto simp: sync_job_now_def Let_def split: prod.split)
  have recorded: "\<exists>now i state at msg. record_run env job state' status s =
      s\<lparr>ap_jobs := UpdateSyncJobRun now i state at msg (ap_jobs s)\<rparr>" for job state' status
    by (simp add: record_run_def finish_def Let_def) blast
  have idle: "\<exists>m. s = s\<lparr>ap_running := m\<rparr>" by (rule exI [of _ "ap_running s"]) simp
  have "(\<exists>m. snd (phase_next env ph s) = s\<lparr>ap_running := m\<rparr>) \<or> (\<exists>w. snd (phase_next env ph s) = s\<lparr>au_world := w\<rparr>) \<or>
      (\<exists>now i state at msg. snd (phase_next env ph s) = s\<lparr>ap_jobs := UpdateSyncJobRun now i state at msg (ap_jobs s)\<rparr>)"
    using took synced recorded idle by (cases ph) (auto simp: phase_next_def split: list.split)
  then show thesis using running world row by blast
qed

lemma runner_task_acts: "task_act (runner_task env ph) s t \<Longrightarrow> \<exists>ph'. t = snd (phase_next env ph' s)"
proof (induction "runner_task env ph" s t arbitrary: ph rule: task_act.induct)
  case (now f k w c)
  then have "f c w = snd (phase_next env ph w)"
    by (simp add: runner_task.simps [of env ph] split: option.splits)
  then show ?case by blast
next
  case (later k c v w w' f)
  then have "k c v = runner_task env (fst (phase_next env ph v))"
    by (simp add: runner_task.simps [of env ph] split: option.splits)
  with later.hyps(2) show ?case by simp
qed

lemma sync_task_acts: "task_act (sync_task env) s t \<Longrightarrow> t = s \<or> (\<exists>ph. t = snd (phase_next env ph s))"
  unfolding sync_task_def by (erule task_act_ActE) (auto dest: runner_task_acts)


section \<open>At most one goroutine at work on a job\<close>

definition at_work :: "run_phase \<Rightarrow> string option" where
  "at_work ph =
     (case ph of
        Locked job _ \<Rightarrow> Some (sj_id job)
      | Recording job _ _ _ \<Rightarrow> Some (sj_id job)
      | Releasing job _ \<Rightarrow> Some (sj_id job)
      | _ \<Rightarrow> None)"

text \<open>The jobs a list of goroutines is at work on, against the table.\<close>

definition exclusive :: "string option list \<Rightarrow> running \<Rightarrow> bool" where
  "exclusive hs m \<longleftrightarrow> (\<forall>jid. is_running m jid \<longleftrightarrow> Some jid \<in> set hs) \<and>
     (\<forall>i<length hs. \<forall>j<length hs. hs ! i \<noteq> None \<longrightarrow> hs ! i = hs ! j \<longrightarrow> i = j)"

lemma exclusive_acquire:
  assumes "exclusive hs m" and "i < length hs" and "hs ! i = None" and "acquire jid m = (ok, m')"
  shows "exclusive (hs[i := (if ok then Some jid else None)]) m'"
proof (cases ok)
  case False
  with assms(4) have "m' = m" by (simp add: acquire_def split: if_splits)
  with False assms show ?thesis by (metis list_update_id)
next
  case True
  with assms(4) have new: "\<not> is_running m jid" and m': "m' = map_put jid True m"
    by (simp_all add: acquire_def split: if_splits)
  from new assms(1) have fresh: "Some jid \<notin> set hs" by (simp add: exclusive_def)
  have "is_running m' j \<longleftrightarrow> Some j \<in> set (hs[i := Some jid])" for j
  proof -
    have "Some j \<in> set (hs[i := Some jid]) \<longleftrightarrow> j = jid \<or> Some j \<in> set hs"
      using assms(2,3) by (auto simp: in_set_conv_nth nth_list_update [OF assms(2)]) (metis option.distinct(1))
    with assms(1) show ?thesis by (auto simp: m' is_running_put exclusive_def)
  qed
  moreover have "k = l" if kl: "k < length hs" "l < length hs" "hs[i := Some jid] ! k = hs[i := Some jid] ! l"
      "hs[i := Some jid] ! k \<noteq> None" for k l
  proof -
    have other: "hs ! n \<noteq> Some jid" if "n < length hs" for n using fresh nth_mem [OF that] by metis
    show ?thesis
    proof (cases "k = i \<or> l = i")
      case True
      with kl other [of k] other [of l] show ?thesis by (auto simp: nth_list_update [OF assms(2)] split: if_splits)
    next
      case False
      with kl have "hs ! k \<noteq> None" "hs ! k = hs ! l" by simp_all
      with kl(1,2) assms(1) show ?thesis unfolding exclusive_def by blast
    qed
  qed
  ultimately show ?thesis using True by (auto simp: exclusive_def)
qed

lemma exclusive_release:
  assumes "exclusive hs m" and "i < length hs" and "hs ! i = Some jid"
  shows "exclusive (hs[i := None]) (release jid m)"
proof -
  have "Some j \<in> set (hs[i := None]) \<longleftrightarrow> j \<noteq> jid \<and> Some j \<in> set hs" for j
  proof
    assume "Some j \<in> set (hs[i := None])"
    then obtain k where "k < length hs" "k \<noteq> i" "hs ! k = Some j"
      by (auto simp: in_set_conv_nth nth_list_update [OF assms(2)] split: if_splits)
    with assms show "j \<noteq> jid \<and> Some j \<in> set hs" unfolding exclusive_def by (metis nth_mem option.distinct(1))
  next
    assume j: "j \<noteq> jid \<and> Some j \<in> set hs"
    then obtain k where "k < length hs" "hs ! k = Some j" by (auto simp: in_set_conv_nth)
    with j assms(3) have "k \<noteq> i" by auto
    with \<open>k < length hs\<close> \<open>hs ! k = Some j\<close> have "k < length (hs[i := None])" "hs[i := None] ! k = Some j" by simp_all
    then show "Some j \<in> set (hs[i := None])" by (metis nth_mem)
  qed
  with assms(1) show ?thesis
    by (auto simp: exclusive_def is_running_release nth_list_update [OF assms(2)])
qed

lemma exclusive_step:
  assumes "exclusive (map at_work phs) (ap_running s)" and "i < length phs" and "phase_next env (phs ! i) s = (ph', t)"
  shows "exclusive (map at_work (phs[i := ph'])) (ap_running t)"
proof -
  let ?hs = "map at_work phs"
  have i: "i < length ?hs" "?hs ! i = at_work (phs ! i)" using assms(2) by simp_all
  have same: "?hs[i := at_work (phs ! i)] = ?hs" using i by (metis list_update_id)
  have took: "exclusive (?hs[i := at_work ph']) (ap_running t)"
    if take: "take_job job run other s = (ph', t)" "at_work (phs ! i) = None" "at_work run = Some (sj_id job)" "at_work other = None"
    for job run other
  proof -
    obtain ok m where acq: "acquire (sj_id job) (ap_running s) = (ok, m)" by fastforce
    with take have "ap_running t = m" "at_work ph' = (if ok then Some (sj_id job) else None)"
      by (auto simp: take_job_def)
    with exclusive_acquire [OF assms(1) i(1) _ acq] take(2) i(2) show ?thesis by simp
  qed
  have "exclusive (?hs[i := at_work ph']) (ap_running t)"
  proof (cases "phs ! i")
    case (Jobs jobs)
    then show ?thesis using assms(1,3) same took by (cases jobs) (auto simp: phase_next_def at_work_def)
  next
    case (Manual job)
    then show ?thesis using assms(3) took by (auto simp: phase_next_def at_work_def)
  next
    case (Locked job rest)
    with assms(3) have "at_work ph' = at_work (phs ! i)" "ap_running t = ap_running s"
      by (auto simp: phase_next_def sync_job_now_def at_work_def Let_def split: sum.splits)
    with assms(1) same show ?thesis by simp
  next
    case (Recording job state status rest)
    with assms(3) have "at_work ph' = at_work (phs ! i)" "ap_running t = ap_running s"
      by (auto simp: phase_next_def record_run_def at_work_def split: prod.splits)
    with assms(1) same show ?thesis by simp
  next
    case (Releasing job rest)
    with assms(3) exclusive_release [OF assms(1) i(1), of "sj_id job"] i(2) show ?thesis
      by (auto simp: phase_next_def at_work_def)
  next
    case Refused
    with assms(1,3) same show ?thesis by (auto simp: phase_next_def)
  qed
  then show ?thesis by (simp add: map_update)
qed

end
