(* ===== verification/System.thy ===== *)
theory System
  imports Sync_Steps
begin

text \<open>
  The running program as a transition system: requests of any route, the scheduled cleanup, the goroutines of
  the sync runner, and whatever the notifier and the outside world do, in any order, on the one \<open>app_state\<close> they share.
  Each request, each action of a job and each step of a runner is one step. The theorem follows one user through any run in
  which only others act.
\<close>


section \<open>What belongs to a user\<close>

text \<open>Feeds and sync jobs as the user set them up: without the delivery statistics of a feed and without the
  run columns of a job, which public downloads and scheduled runs write.\<close>

definition feed_setup :: "feed_row \<Rightarrow> feed_row" where
  "feed_setup r = r\<lparr>w_served := [], w_count := 0\<rparr>"

definition job_setup :: "job_row \<Rightarrow> job_row" where
  "job_setup r = r\<lparr>jr_state := [], jr_last_run := [], jr_last_status := [], jr_updated := []\<rparr>"

definition setup_of :: "string \<Rightarrow> 'w app_state \<Rightarrow> feed_row list \<times> job_row list" where
  "setup_of v s = (map feed_setup (filter (\<lambda>r. w_user r = v) (ap_feeds s)),
     map job_setup (filter (\<lambda>r. jr_user r = v) (ap_jobs s)))"

lemma setup_of_cong [simp]:
  "setup_of v (s\<lparr>au_world := w\<rparr>) = setup_of v s" "setup_of v (s\<lparr>au_users := us\<rparr>) = setup_of v s"
  "setup_of v (s\<lparr>au_sessions := ss\<rparr>) = setup_of v s" "setup_of v (s\<lparr>au_resets := rs\<rparr>) = setup_of v s"
  "setup_of v (s\<lparr>ap_audit := as\<rparr>) = setup_of v s" "setup_of v (s\<lparr>ap_cache := c\<rparr>) = setup_of v s"
  "setup_of v (s\<lparr>ap_running := m\<rparr>) = setup_of v s"
  by (simp_all add: setup_of_def)


section \<open>Steps of the tables\<close>

lemma map_filter_update:
  "(\<And>r. p r \<Longrightarrow> q r \<Longrightarrow> q (g r) \<and> h (g r) = h r) \<Longrightarrow> (\<And>r. p r \<Longrightarrow> \<not> q r \<Longrightarrow> \<not> q (g r)) \<Longrightarrow>
     map h (filter q (snd (update_where p g rows))) = map h (filter q rows)"
  by (induction rows) (auto simp: update_where_def)

lemma feed_rows_of_others:
  assumes "fd_user x \<noteq> v"
  shows "map feed_setup (filter (\<lambda>r. w_user r = v) (snd (UpdateFeed js now x rows))) =
    map feed_setup (filter (\<lambda>r. w_user r = v) rows)"
  and "map feed_setup (filter (\<lambda>r. w_user r = v) (snd (CreateFeed js now x rows))) =
    map feed_setup (filter (\<lambda>r. w_user r = v) rows)"
proof -
  show "map feed_setup (filter (\<lambda>r. w_user r = v) (snd (UpdateFeed js now x rows))) =
    map feed_setup (filter (\<lambda>r. w_user r = v) rows)"
  proof (cases rule: UpdateFeed_rows [of js now x rows])
    case (2 g)
    with assms show ?thesis by (auto simp: owned_def intro!: map_filter_update)
  qed simp
  show "map feed_setup (filter (\<lambda>r. w_user r = v) (snd (CreateFeed js now x rows))) =
    map feed_setup (filter (\<lambda>r. w_user r = v) rows)"
    using assms by (auto simp: CreateFeed_def split: sum.split)
qed

lemma feed_rows_deleted:
  "u \<noteq> v \<Longrightarrow> filter (\<lambda>r. w_user r = v) (snd (DeleteFeed i u rows)) = filter (\<lambda>r. w_user r = v) rows"
  using delete_where_others [of "\<lambda>r. w_user r = v" "owned i u" rows]
  by (auto simp: DeleteFeed_def owned_def split: prod.split)

lemma feed_rows_served:
  "map feed_setup (filter (\<lambda>r. w_user r = v) (MarkFeedServed now i rows)) = map feed_setup (filter (\<lambda>r. w_user r = v) rows)"
  unfolding MarkFeedServed_def by (rule map_filter_update) (auto simp: feed_setup_def)

lemma job_rows_of_others:
  assumes "u \<noteq> v"
  shows "sj_user j = u \<Longrightarrow> map job_setup (filter (\<lambda>r. jr_user r = v) (snd (CreateSyncJob now j rows))) =
      map job_setup (filter (\<lambda>r. jr_user r = v) rows)"
    and "sj_user j = u \<Longrightarrow> map job_setup (filter (\<lambda>r. jr_user r = v) (snd (UpdateSyncJob now j rows))) =
      map job_setup (filter (\<lambda>r. jr_user r = v) rows)"
    and "map job_setup (filter (\<lambda>r. jr_user r = v) (snd (ResetSyncJobState now i u rows))) =
      map job_setup (filter (\<lambda>r. jr_user r = v) rows)"
    and "filter (\<lambda>r. jr_user r = v) (snd (DeleteSyncJob i u rows)) = filter (\<lambda>r. jr_user r = v) rows"
proof -
  show "sj_user j = u \<Longrightarrow> map job_setup (filter (\<lambda>r. jr_user r = v) (snd (CreateSyncJob now j rows))) =
      map job_setup (filter (\<lambda>r. jr_user r = v) rows)"
    using assms by (auto simp: CreateSyncJob_def)
  show "sj_user j = u \<Longrightarrow> map job_setup (filter (\<lambda>r. jr_user r = v) (snd (UpdateSyncJob now j rows))) =
      map job_setup (filter (\<lambda>r. jr_user r = v) rows)"
    using assms by (auto simp: UpdateSyncJob_def case_prod_unfold job_of_def intro!: map_filter_update)
  show "map job_setup (filter (\<lambda>r. jr_user r = v) (snd (ResetSyncJobState now i u rows))) =
      map job_setup (filter (\<lambda>r. jr_user r = v) rows)"
    by (auto simp: ResetSyncJobState_def case_prod_unfold job_setup_def intro!: map_filter_update)
  show "filter (\<lambda>r. jr_user r = v) (snd (DeleteSyncJob i u rows)) = filter (\<lambda>r. jr_user r = v) rows"
    using assms delete_where_others [of "\<lambda>r. jr_user r = v" "job_of i u" rows]
    by (auto simp: DeleteSyncJob_def job_of_def split: prod.split)
qed

text \<open>A run, manual or scheduled, writes run columns only.\<close>

lemma run_columns_setup:
  "map job_setup (filter (\<lambda>r. jr_user r = v) (UpdateSyncJobRun now i state at msg rows)) =
     map job_setup (filter (\<lambda>r. jr_user r = v) rows)"
  unfolding UpdateSyncJobRun_def by (rule map_filter_update) (auto simp: job_setup_def)

lemma runLocked_setup:
  "map job_setup (filter (\<lambda>r. jr_user r = v) (snd (runLocked env j (w, rows)))) =
     map job_setup (filter (\<lambda>r. jr_user r = v) rows)"
  by (cases rule: runLocked_rows [of env j w rows]) (simp add: run_columns_setup)

lemma phase_next_setup: "setup_of v (snd (phase_next env ph s)) = setup_of v s"
  by (cases rule: phase_next_writes [of env ph s]) (simp_all add: setup_of_def run_columns_setup)


section \<open>Steps of the handlers\<close>

lemma setup_feed_writes [flow_frame]:
  "fd_user x \<noteq> v \<Longrightarrow> spares (setup_of v) (create_feed env x)"
  "fd_user x \<noteq> v \<Longrightarrow> spares (setup_of v) (update_feed env x)"
  "u \<noteq> v \<Longrightarrow> spares (setup_of v)
     (returns_err (\<lambda>s. case DeleteFeed i u (ap_feeds s) of (e, rows) \<Rightarrow> (e, s\<lparr>ap_feeds := rows\<rparr>)))"
  "spares (setup_of v) (markServed aenv i)"
proof -
  show "fd_user x \<noteq> v \<Longrightarrow> spares (setup_of v) (create_feed env x)"
    using feed_rows_of_others(2) [of x v]
    by (auto intro!: sparesI simp: create_feed_def Let_def setup_of_def split: prod.split option.split) (metis snd_conv)+
  show "fd_user x \<noteq> v \<Longrightarrow> spares (setup_of v) (update_feed env x)"
    using feed_rows_of_others(1) [of x v]
    by (auto intro!: sparesI simp: update_feed_def Let_def setup_of_def split: prod.split option.split) (metis snd_conv)+
  show "u \<noteq> v \<Longrightarrow> spares (setup_of v)
     (returns_err (\<lambda>s. case DeleteFeed i u (ap_feeds s) of (e, rows) \<Rightarrow> (e, s\<lparr>ap_feeds := rows\<rparr>)))"
    using feed_rows_deleted [of u v i]
    by (auto intro!: spares_returns_err simp: setup_of_def split: prod.split) (metis snd_conv)
  show "spares (setup_of v) (markServed aenv i)"
    unfolding markServed_def by (rule spares_modify) (simp add: setup_of_def feed_rows_served)
qed

lemma setup_run_now [flow_frame]: "spares (setup_of v) (run_now env j)"
proof (rule sparesI)
  fix s
  show "setup_of v (snd (run_now env j s)) = setup_of v s"
    using runLocked_setup [of v "sv_run env" j "au_world s" "ap_jobs s"]
    by (auto simp: run_now_def returns_err_def RunOne_def setup_of_def split: prod.split option.split bool.split)
qed

lemma setup_job_writes [flow_frame]:
  "sj_user j \<noteq> v \<Longrightarrow> spares (setup_of v) (create_job env j)"
  "sj_user j \<noteq> v \<Longrightarrow> spares (setup_of v) (update_job env j)"
  "u \<noteq> v \<Longrightarrow> spares (setup_of v) (returns_err (\<lambda>s. case ResetSyncJobState (now_of env s) i u (ap_jobs s) of
     (e, rows) \<Rightarrow> (e, s\<lparr>ap_jobs := rows\<rparr>)))"
  "u \<noteq> v \<Longrightarrow> spares (setup_of v) (returns_err (\<lambda>s. case DeleteSyncJob i u (ap_jobs s) of
     (e, rows) \<Rightarrow> (e, s\<lparr>ap_jobs := rows\<rparr>)))"
proof -
  show "sj_user j \<noteq> v \<Longrightarrow> spares (setup_of v) (create_job env j)"
    using job_rows_of_others(1) [of "sj_user j" v j]
    by (auto intro!: sparesI simp: create_job_def Let_def setup_of_def split: prod.split option.split) (metis snd_conv)+
  show "sj_user j \<noteq> v \<Longrightarrow> spares (setup_of v) (update_job env j)"
    using job_rows_of_others(2) [of "sj_user j" v j]
    by (auto intro!: sparesI simp: update_job_def Let_def setup_of_def split: prod.split option.split) (metis snd_conv)+
  show "u \<noteq> v \<Longrightarrow> spares (setup_of v) (returns_err (\<lambda>s. case ResetSyncJobState (now_of env s) i u (ap_jobs s) of
     (e, rows) \<Rightarrow> (e, s\<lparr>ap_jobs := rows\<rparr>)))"
    using job_rows_of_others(3) [of u v]
    by (auto intro!: spares_returns_err simp: setup_of_def case_prod_unfold)
  show "u \<noteq> v \<Longrightarrow> spares (setup_of v) (returns_err (\<lambda>s. case DeleteSyncJob i u (ap_jobs s) of
     (e, rows) \<Rightarrow> (e, s\<lparr>ap_jobs := rows\<rparr>)))"
    using job_rows_of_others(4) [of u v i]
    by (auto intro!: spares_returns_err simp: setup_of_def case_prod_unfold)
qed

lemma setup_calls [flow_frame]:
  "spares (setup_of v) (returns_err (\<lambda>s. case n s of (e, w) \<Rightarrow> (e, s\<lparr>au_world := w\<rparr>)))"
  "spares (setup_of v) (returns_err (\<lambda>s. case m s of (e, rows) \<Rightarrow> (e, s\<lparr>au_sessions := rows\<rparr>)))"
  "spares (setup_of v) (returns_err (\<lambda>s. case k s of (e, rows) \<Rightarrow> (e, s\<lparr>au_resets := rows\<rparr>)))"
  "spares (setup_of v) (returns_err (\<lambda>s. case l s of (e, rows) \<Rightarrow> (e, s\<lparr>au_users := rows\<rparr>)))"
  "spares (setup_of v) (modify (\<lambda>s. s\<lparr>au_users := us s\<rparr>))"
  "spares (setup_of v) (modify (drop_session sid))" "spares (setup_of v) (modify (drop_reset h))"
  "spares (setup_of v) (storing f aenv u)"
  by (auto intro!: sparesI simp: returns_err_def modify_def drop_session_def drop_reset_def storing_def
      split: prod.split option.split)

text \<open>The account operations leave feeds and jobs alone.\<close>

lemma setup_identifiers [flow_frame]:
  "spares (setup_of v) (newUUIDv4 aenv)" "spares (setup_of v) (newSessionToken aenv)"
  "spares (setup_of v) (hashPassword aenv p)" "spares (setup_of v) (clock aenv)"
  "spares (setup_of v) (mailer_send aenv to sub body)"
  unfolding newUUIDv4_def newSessionToken_def hashPassword_def clock_def mailer_send_def
  by ((intro flow_frame)?; simp)+

lemma setup_accounts [flow_frame]:
  "spares (setup_of v) (Register aenv email pw)" "spares (setup_of v) (Authenticate aenv email pw)"
  "spares (setup_of v) (StartSession aenv u)" "spares (setup_of v) (UserFromRequest aenv cks)"
  "spares (setup_of v) (Logout aenv cks)" "spares (setup_of v) (RequestPasswordReset aenv email)"
  "spares (setup_of v) (ConfirmPasswordReset aenv t pw)" "spares (setup_of v) (CreateSecretUser aenv)"
  "spares (setup_of v) (upsertOIDCUser aenv sub email av adm)" 
  unfolding Register_def Authenticate_def StartSession_def UserFromRequest_def Logout_def RequestPasswordReset_def
    ConfirmPasswordReset_def CreateSecretUser_def upsertOIDCUser_def Let_def
  by ((rule flow_frame | simp)+)[9]


lemma setup_oidc [flow_frame]: "spares (setup_of v) (OIDCExchange aenv code ver)"
  unfolding OIDCExchange_def Let_def by (rule flow_frame | simp)+

lemma setup_signed_in [flow_frame]: "spares (setup_of v) (signed_in_as aenv u r)"
  unfolding signed_in_as_def by (rule flow_frame)+

lemmas public_handlers = handleHealth_def handleSession_def handleRegister_def handleLogin_def handleLogout_def
  handleSecret_def handleResetRequest_def handleResetConfirm_def handleOIDCLogin_def handleOIDCCallback_def
  handleOIDCLogout_def handleICS_def

text \<open>Account routes, the OIDC dance and the public calendar: whoever calls them.\<close>

lemma setup_public:
  "spares (setup_of v) (handleHealth version)" "spares (setup_of v) (handleSession aenv rq)"
  "spares (setup_of v) (handleRegister aenv dc rq)" "spares (setup_of v) (handleLogin aenv dc rq)"
  "spares (setup_of v) (handleLogout aenv rq)" "spares (setup_of v) (handleSecret aenv)"
  "spares (setup_of v) (handleResetRequest aenv dr rq)" "spares (setup_of v) (handleResetConfirm aenv dk rq)"
  "spares (setup_of v) (handleOIDCLogin aenv gv)" "spares (setup_of v) (handleOIDCCallback aenv rq)"
  "spares (setup_of v) (handleOIDCLogout aenv wq rq)" "spares (setup_of v) (handleICS aenv js fenv rq)"
  unfolding public_handlers Let_def
  by ((rule flow_frame | simp)+)[12]

lemma public_route_setup:
  assumes "r \<notin> set user_routes"
  shows "spares (setup_of v) (handler_of env de r rq)"
  using assms by (cases r) (simp_all add: user_routes_def handler_of_def setup_public)

text \<open>A route that acts for a user, with the session of somebody else or none.\<close>

lemma user_route_setup:
  assumes "r \<in> set user_routes" and "UserFromRequest (sv_auth env) (rq_cookies rq) s = (Inr u, s)" and "us_id u \<noteq> v"
  shows "setup_of v (snd (handler_of env de r rq s)) = setup_of v s"
proof -
  note run = requireUser_granted [OF assms(2)]
  have admin: "andthen (requireAdmin (sv_auth env) rq) k s =
      andthen (if \<not> us_admin u then stop (writeError 403 ''admin access required'') else pass u) k s" for k
    by (simp add: requireAdmin_def andthen_assoc run)
  have user: "sj_user (jobFromRequest i (us_id u) q ex) = us_id u" for i q ex by (simp add: jobFromRequest_def Let_def)
  show ?thesis
    using assms(1) unfolding user_routes_def list.set insert_iff empty_iff simp_thms
    by - (elim disjE; simp only: handler_of_def route.case user_handlers run admin Let_def; rule sparesD;
        (rule spares_ownedFeed spares_ownedSyncJob | rule flow_frame | simp add: user assms(3))+)
qed



section \<open>Runs of the program\<close>

text \<open>The request acts for \<open>v\<close>: a user route with the session of \<open>v\<close>.\<close>

definition acts_for :: "string \<Rightarrow> ('w, 're, 'l, 'v) server_env \<Rightarrow> route \<Rightarrow> request \<Rightarrow> 'w app_state \<Rightarrow> bool" where
  "acts_for v env r rq s \<longleftrightarrow> r \<in> set user_routes \<and>
     (case fst (UserFromRequest (sv_auth env) (rq_cookies rq) s) of Inl _ \<Rightarrow> False | Inr u \<Rightarrow> us_id u = v)"

datatype event = Request route request | Cleaning | Syncing | Background

inductive sys_step ::
  "('w, 're, 'l, 'v) server_env \<Rightarrow> 'w decoders \<Rightarrow> 'w faults \<Rightarrow> event \<Rightarrow> 'w app_state \<Rightarrow> 'w app_state \<Rightarrow> bool"
  for env de fails where
  request: "sys_step env de fails (Request r rq) s (snd (serve env de r rq s))"
| cleaning: "task_act (cleanup (av_now (sv_auth env)) fails) s s' \<Longrightarrow> sys_step env de fails Cleaning s s'"
| syncing: "sys_step env de fails Syncing s (snd (phase_next (sv_run env) ph s))"
| background: "sys_step env de fails Background s (s\<lparr>au_world := w, ap_cache := c\<rparr>)"

inductive_cases sys_stepE: "sys_step env de fails e s t"

definition by_others :: "string \<Rightarrow> ('w, 're, 'l, 'v) server_env \<Rightarrow> event \<Rightarrow> 'w app_state \<Rightarrow> bool" where
  "by_others v env e s = (case e of Request r rq \<Rightarrow> \<not> acts_for v env r rq s | _ \<Rightarrow> True)"

definition step_of_others ::
  "('w, 're, 'l, 'v) server_env \<Rightarrow> 'w decoders \<Rightarrow> 'w faults \<Rightarrow> string \<Rightarrow> 'w app_state \<Rightarrow> 'w app_state \<Rightarrow> bool" where
  "step_of_others env de fails v s t \<longleftrightarrow> (\<exists>e. by_others v env e s \<and> sys_step env de fails e s t)"

lemma answer_state: "snd (answer h s) = snd (h s)"
  by (simp add: answer_def split: prod.split sum.split)

lemma request_setup:
  assumes "\<not> acts_for v env r rq s"
  shows "setup_of v (snd (serve env de r rq s)) = setup_of v s"
proof (cases "r \<in> set user_routes")
  case False
  then show ?thesis using sparesD [OF public_route_setup] by (simp add: serve_def answer_state)
next
  case True
  obtain res s0 where u: "UserFromRequest (sv_auth env) (rq_cookies rq) s = (res, s0)" by fastforce
  show ?thesis
  proof (cases res)
    case (Inl e)
    with u have "UserFromRequest (sv_auth env) (rq_cookies rq) s = (Inl e, s0)" by simp
    from refused_route [OF True this] UserFromRequest_state [OF this] show ?thesis
      by (auto simp: serve_def drop_session_def)
  next
    case (Inr w)
    with u have "UserFromRequest (sv_auth env) (rq_cookies rq) s = (Inr w, s)"
      using UserFromRequest_state [OF u] by auto
    from user_route_setup [OF True this] assms True this show ?thesis
      by (simp add: serve_def answer_state acts_for_def)
  qed
qed

lemma sys_step_setup: "sys_step env de fails e s t \<Longrightarrow> by_others v env e s \<Longrightarrow> setup_of v t = setup_of v s"
proof (erule sys_stepE)
  fix r rq
  assume "by_others v env e s" "e = Request r rq" and "t = snd (serve env de r rq s)"
  then show ?thesis by (simp add: by_others_def request_setup)
next
  assume "task_act (cleanup (av_now (sv_auth env)) fails) s t"
  from cleanup_acts [OF this] show ?thesis
    by (auto simp: purge_sessions_def purge_resets_def prune_cache_def)
next
  fix ph
  assume "t = snd (phase_next (sv_run env) ph s)"
  then show ?thesis by (simp add: phase_next_setup)
qed simp

text \<open>C1: what a user has set up is the user's own. In any run of the program in which nobody acts with that
  user's session, however many requests others make, signed in, as administrators or as strangers, and
  whatever the cleanup, the sync runs, scheduled or asked for, and the notifier do in between, the user's feeds and sync jobs
  stay exactly as they were set up; only delivery statistics and run results may change.\<close>

theorem setup_survives_others:
  assumes "(step_of_others env de fails v)\<^sup>*\<^sup>* s t"
  shows "setup_of v t = setup_of v s"
  using assms by (induction rule: rtranclp_induct) (auto simp: step_of_others_def sys_step_setup)


section \<open>Concrete inputs\<close>

text \<open>The user \<open>u1\<close> deletes a feed, then the cleanup runs: the calendar of \<open>u2\<close> is still there.\<close>

definition after_others :: "nat app_state" where
  "after_others = purge_sessions (av_now (sv_auth sample_server))
     (snd (serve sample_server sample_decoders RemoveFeed sample_request shared_app))"

lemma sample_others: "(step_of_others sample_server sample_decoders (\<lambda>_ _ _. None) ''u2'')\<^sup>*\<^sup>* shared_app after_others"
proof -
  let ?step = "sys_step sample_server sample_decoders (\<lambda>_ _ _. None)"
  let ?purged = "purge_sessions (av_now (sv_auth sample_server))"
  have "by_others ''u2'' sample_server (Request RemoveFeed sample_request) shared_app"
    using sample_signed_in by (simp add: by_others_def acts_for_def shared_app_def)
  then have first: "step_of_others sample_server sample_decoders (\<lambda>_ _ _. None) ''u2'' shared_app
      (snd (serve sample_server sample_decoders RemoveFeed sample_request shared_app))"
    unfolding step_of_others_def using sys_step.request by blast
  have "task_act (cleanup (av_now (sv_auth sample_server)) (\<lambda>_ _ _. None)) s (?purged s)" for s
    unfolding cleanup_def delete_act_def using task_act.now [of "\<lambda>c s. ?purged s"] by simp
  then have second: "step_of_others sample_server sample_decoders (\<lambda>_ _ _. None) ''u2'' s (?purged s)" for s
    unfolding step_of_others_def by (intro exI [of _ Cleaning]) (simp add: by_others_def sys_step.cleaning)
  show ?thesis unfolding after_others_def
    by (rule converse_rtranclp_into_rtranclp, rule first, rule converse_rtranclp_into_rtranclp, rule second,
        rule rtranclp.rtrancl_refl)
qed

lemma setup_survives_others_witness:
  "filter (\<lambda>r. w_user r = ''u2'') (map feed_setup (ap_feeds after_others)) = [feed_setup other_feed_row]"
proof -
  have "filter (\<lambda>r. w_user r = v) (map feed_setup rows) = map feed_setup (filter (\<lambda>r. w_user r = v) rows)" for v rows
    by (induction rows) (auto simp: feed_setup_def)
  moreover have "fst (setup_of ''u2'' shared_app) = [feed_setup other_feed_row]"
    by (simp add: setup_of_def shared_app_def empty_feed_row_def other_feed_row_def)
  ultimately show ?thesis
    using setup_survives_others [OF sample_others] by (simp add: setup_of_def)
qed

end
