(* ===== verification/Integrity.thy ===== *)
theory Integrity
  imports System
begin

text \<open>
  What holds of the tables in every state the running program can reach. The schema's foreign keys are not
  among the error branches of the inserts in the store's model; the invariant here shows that they never
  fire: every session, reset, feed and job belongs to an existing account. \<open>sound U m Q\<close> says that a step
  keeps the invariant and all accounts, when the accounts \<open>U\<close> exist, and that its result names existing
  accounts \<open>Q\<close> only; the rules per operation are collected in \<open>sound_step\<close>.
\<close>


section \<open>The invariant\<close>

definition uids :: "('w, 'x) auth_state_scheme \<Rightarrow> string set" where
  "uids s = set (map ur_id (au_users s))"

definition db_ok :: "'w app_state \<Rightarrow> bool" where
  "db_ok s \<longleftrightarrow> users_apart (au_users s) \<and> feeds_wf (ap_feeds s) \<and> distinct (map jr_id (ap_jobs s)) \<and>
     distinct (map sr_id (au_sessions s)) \<and> distinct (map pr_hash (au_resets s)) \<and>
     set (map sr_user (au_sessions s)) \<subseteq> uids s \<and> set (map pr_user (au_resets s)) \<subseteq> uids s \<and>
     set (map w_user (ap_feeds s)) \<subseteq> uids s \<and> set (map jr_user (ap_jobs s)) \<subseteq> uids s"

definition sound :: "string set \<Rightarrow> ('w app_state, 'e, 'a) flow \<Rightarrow> ('a \<Rightarrow> string set) \<Rightarrow> bool" where
  "sound U m Q \<longleftrightarrow> (\<forall>s. db_ok s \<longrightarrow> U \<subseteq> uids s \<longrightarrow>
     db_ok (snd (m s)) \<and> uids s \<subseteq> uids (snd (m s)) \<and> (\<forall>x. fst (m s) = Inr x \<longrightarrow> Q x \<subseteq> uids (snd (m s))))"

named_theorems sound_step \<open>one rule per operation: the invariant holds after it\<close>

lemma soundI:
  assumes "\<And>s r s'. db_ok s \<Longrightarrow> U \<subseteq> uids s \<Longrightarrow> m s = (r, s') \<Longrightarrow>
    db_ok s' \<and> uids s \<subseteq> uids s' \<and> (\<forall>x. r = Inr x \<longrightarrow> Q x \<subseteq> uids s')"
  shows "sound U m Q"
  using assms unfolding sound_def by (metis prod.collapse)

lemma soundD:
  assumes "sound U m Q" and "db_ok s" and "U \<subseteq> uids s" and "m s = (r, s')"
  shows "db_ok s'" "uids s \<subseteq> uids s'" "r = Inr x \<Longrightarrow> Q x \<subseteq> uids s'"
  using assms unfolding sound_def by (metis fst_conv snd_conv)+

lemma sound_andthen [sound_step]:
  assumes "sound U m Q" and "\<And>x. sound (U \<union> Q x) (k x) R"
  shows "sound U (andthen m k) R"
proof (rule soundI)
  fix s r s'
  assume s: "db_ok s" "U \<subseteq> uids s" and run: "andthen m k s = (r, s')"
  obtain r1 s1 where m: "m s = (r1, s1)" by fastforce
  note first = soundD [OF assms(1) s m]
  show "db_ok s' \<and> uids s \<subseteq> uids s' \<and> (\<forall>x. r = Inr x \<longrightarrow> R x \<subseteq> uids s')"
  proof (cases r1)
    case (Inl e)
    with run m first show ?thesis by (auto simp: andthen_def)
  next
    case (Inr x)
    with run m have k: "k x s1 = (r, s')" by (simp add: andthen_def)
    have "U \<union> Q x \<subseteq> uids s1" using first s(2) Inr by auto
    from soundD [OF assms(2) first(1) this k] first(2) show ?thesis by auto
  qed
qed

lemma sound_flow [sound_step]:
  "sound U (stop e) Q" "sound U (pass x) (\<lambda>_. {})" "sound U (yields y) (\<lambda>_. {})"
  "Q x \<subseteq> U \<Longrightarrow> sound U (pass x) Q"
  by (rule soundI; auto simp: stop_def pass_def yields_def; blast)+

lemma sound_cases [sound_step]:
  "(b \<Longrightarrow> sound U m Q) \<Longrightarrow> (\<not> b \<Longrightarrow> sound U n Q) \<Longrightarrow> sound U (if b then m else n) Q"
  "(z = None \<Longrightarrow> sound U m Q) \<Longrightarrow> (\<And>x. z = Some x \<Longrightarrow> sound U (k x) Q) \<Longrightarrow>
     sound U (case z of None \<Rightarrow> m | Some x \<Rightarrow> k x) Q"
  "(\<And>e. y = Inl e \<Longrightarrow> sound U (f e) Q) \<Longrightarrow> (\<And>x. y = Inr x \<Longrightarrow> sound U (g x) Q) \<Longrightarrow>
     sound U (case y of Inl e \<Rightarrow> f e | Inr x \<Rightarrow> g x) Q"
  "(\<And>a b. p = (a, b) \<Longrightarrow> sound U (h a b) Q) \<Longrightarrow> sound U (case p of (a, b) \<Rightarrow> h a b) Q"
  by (auto split: option.split sum.split prod.split)

lemma sound_results [sound_step]:
  "sound U m Q \<Longrightarrow> sound U (or_respond m g) Q"
  "sound U m Q \<Longrightarrow> sound U (wrapping msg m) Q"
  "sound U m Q \<Longrightarrow> sound U (attempt m) (\<lambda>_. {})"
  unfolding sound_def
  by (auto simp: or_respond_def wrapping_def attempt_def split: prod.splits sum.splits) (metis fst_conv snd_conv subsetD)+

text \<open>Steps that leave the tables alone.\<close>

definition tables_of :: "'w app_state \<Rightarrow> user_row list \<times> session_row list \<times> reset_row list \<times> feed_row list \<times> job_row list" where
  "tables_of s = (au_users s, au_sessions s, au_resets s, ap_feeds s, ap_jobs s)"

lemma tables_of_cong [simp]:
  "tables_of (s\<lparr>au_world := w\<rparr>) = tables_of s" "tables_of (s\<lparr>ap_audit := as\<rparr>) = tables_of s"
  "tables_of (s\<lparr>ap_cache := c\<rparr>) = tables_of s" "tables_of (s\<lparr>ap_running := m\<rparr>) = tables_of s"
  by (simp_all add: tables_of_def)

lemma tables_ok: "tables_of s' = tables_of s \<Longrightarrow> db_ok s' = db_ok s \<and> uids s' = uids s"
  by (simp add: tables_of_def db_ok_def uids_def)

lemma sound_spares: "spares tables_of m \<Longrightarrow> sound U m (\<lambda>_. {})"
  by (rule soundI) (metis empty_subsetI order_refl spares_run tables_ok)

lemma sound_reads [sound_step]:
  "sound U (peek f) (\<lambda>_. {})" "sound U (\<lambda>s. (g s, s)) (\<lambda>_. {})" "sound U (refuse z) (\<lambda>_. {})" "sound U (decodeJSON d rq) (\<lambda>_. {})"
  "sound U (feed_answer env st x) (\<lambda>_. {})" "sound U (job_answer st j) (\<lambda>_. {})" "sound U (reloaded j) (\<lambda>_. {})"
  "sound U (valid_job_request env dj rq) (\<lambda>_. {})"
  by (rule sound_spares; rule flow_frame)+

lemma sound_outside [sound_step]:
  "sound U (outside f) (\<lambda>_. {})" "sound U (rendering rf) (\<lambda>_. {})" "sound U (audit aenv u a t d) (\<lambda>_. {})"
  "sound U (randomToken aenv) (\<lambda>_. {})" "sound U (resolveBasicAuth aenv usr p ex) (\<lambda>_. {})"
  "sound U (preview_answer env x) (\<lambda>_. {})" "sound U (merge_answer env k opts ea eb) (\<lambda>_. {})"
  "sound U (returns_err (\<lambda>s. case n s of (e, w) \<Rightarrow> (e, s\<lparr>au_world := w\<rparr>))) (\<lambda>_. {})"
  by ((rule sound_spares; rule flow_frame; simp)+,
      rule sound_spares, auto intro!: sparesI simp: returns_err_def split: prod.split option.split)



section \<open>Accounts\<close>

definition found :: "user result \<Rightarrow> string set" where
  "found r = (case r of Inl _ \<Rightarrow> {} | Inr u \<Rightarrow> {us_id u})"

lemma found_simps [simp]: "found (Inl e) = {}" "found (Inr u) = {us_id u}"
  by (simp_all add: found_def)

lemma userBy_found: "userBy p rows = Inr u \<Longrightarrow> us_id u \<in> ur_id ` set rows"
  by (auto simp: userBy_def select_one_def scanUser_def find_Some_iff split: sum.splits option.splits)

lemma sound_user_reads [sound_step]:
  "sound U (peek (\<lambda>s. UserByEmail email (au_users s))) found"
  "sound U (peek (\<lambda>s. UserByOIDCSubject sub (au_users s))) found"
  "sound U (\<lambda>s. (UserByID i (au_users s), s)) (\<lambda>u. {us_id u})"
  by (auto intro!: soundI simp: peek_def found_def uids_def UserByEmail_def UserByOIDCSubject_def UserByID_def
      dest: userBy_found split: sum.splits)

text \<open>A change of the user table that keeps accounts apart and loses no id.\<close>

lemma users_grow:
  assumes "db_ok s" and "users_apart us" and "set (map ur_id (au_users s)) \<subseteq> set (map ur_id us)"
  shows "db_ok (s\<lparr>au_users := us\<rparr>) \<and> uids s \<subseteq> uids (s\<lparr>au_users := us\<rparr>)"
proof -
  have "A \<subseteq> uids (s\<lparr>au_users := us\<rparr>)" if "A \<subseteq> uids s" for A
    using that assms(3) by (auto simp: uids_def)
  with assms(1,2) show ?thesis by (simp add: db_ok_def)
qed

lemma create_users:
  assumes "f \<in> {CreateUser, CreateUserBootstrapAdmin}" and "f now u rows = ((e, u'), rows')"
  shows "users_step rows rows'" "set (map ur_id rows) \<subseteq> set (map ur_id rows')" "e = None \<Longrightarrow> us_id u' \<in> set (map ur_id rows')"
  using assms
  by (auto intro: step_create step_bootstrap
      simp: CreateUser_def CreateUserBootstrapAdmin_def insert_user_def user_values_def Let_def split: prod.splits if_splits)

lemma sound_storing [sound_step]:
  "sound U (storing CreateUser aenv u) (\<lambda>u. {us_id u})" "sound U (storing CreateUserBootstrapAdmin aenv u) (\<lambda>u. {us_id u})"
proof -
  have "sound U (storing f aenv u) (\<lambda>u. {us_id u})" if f: "f \<in> {CreateUser, CreateUserBootstrapAdmin}" for f
  proof (rule soundI)
    fix s r s'
    assume ok: "db_ok s" and run: "storing f aenv u s = (r, s')"
    obtain e u' us where new: "f (av_now aenv (au_world s)) u (au_users s) = ((e, u'), us)" by (metis prod.exhaust)
    note made = create_users [OF f new]
    have "users_apart us" using made(1) ok users_step_apart by (auto simp: db_ok_def)
    from users_grow [OF ok this made(2)] made(3) run new
    show "db_ok s' \<and> uids s \<subseteq> uids s' \<and> (\<forall>x. r = Inr x \<longrightarrow> {us_id x} \<subseteq> uids s')"
      by (cases e) (auto simp: storing_def uids_def)
  qed
  then show "sound U (storing CreateUser aenv u) (\<lambda>u. {us_id u})"
    "sound U (storing CreateUserBootstrapAdmin aenv u) (\<lambda>u. {us_id u})" by auto
qed

lemma sound_avatar [sound_step]:
  "sound U (modify (\<lambda>s. s\<lparr>au_users := UpdateUserAvatarAndAdmin i av adm (au_users s)\<rparr>)) (\<lambda>_. {})"
proof (rule soundI, goal_cases)
  case (1 s r s')
  have "users_apart (UpdateUserAvatarAndAdmin i av adm (au_users s))"
    by (rule users_step_apart [OF step_avatar]) (use 1 in \<open>simp add: db_ok_def\<close>)
  moreover have "map ur_id (UpdateUserAvatarAndAdmin i av adm (au_users s)) = map ur_id (au_users s)"
    by (simp add: UpdateUserAvatarAndAdmin_def)
  ultimately have "db_ok (s\<lparr>au_users := UpdateUserAvatarAndAdmin i av adm (au_users s)\<rparr>) \<and>
      uids s \<subseteq> uids (s\<lparr>au_users := UpdateUserAvatarAndAdmin i av adm (au_users s)\<rparr>)"
    by (intro users_grow [OF 1(1)]) simp_all
  with 1(3) show ?case by (simp add: modify_def)
qed

lemma sound_password [sound_step]:
  "sound U (returns_err (\<lambda>s. case UpdateUserPassword i h (au_users s) of (e, rows) \<Rightarrow> (e, s\<lparr>au_users := rows\<rparr>))) (\<lambda>_. {})"
proof (rule soundI, goal_cases)
  case (1 s r s')
  obtain e us where new: "UpdateUserPassword i h (au_users s) = (e, us)" by fastforce
  have "users_apart us" using users_step_apart [OF step_password [OF new]] 1(1) by (simp add: db_ok_def)
  moreover have "map ur_id us = map ur_id (au_users s)"
    using new by (auto simp: UpdateUserPassword_def case_prod_unfold)
  ultimately have "db_ok (s\<lparr>au_users := us\<rparr>) \<and> uids s \<subseteq> uids (s\<lparr>au_users := us\<rparr>)"
    by (intro users_grow [OF 1(1)]) simp_all
  with 1(3) new show ?case by (auto simp: returns_err_def split: option.splits)
qed


section \<open>Sessions and resets\<close>

lemma distinct_filter_map: "distinct (map f xs) \<Longrightarrow> distinct (map f (filter p xs))"
  by (induction xs) auto

lemma sound_new_rows [sound_step]:
  "se_user x \<in> U \<Longrightarrow> sound U (returns_err (\<lambda>s. case CreateSession now x (au_sessions s) of
     (e, rows) \<Rightarrow> (e, s\<lparr>au_sessions := rows\<rparr>))) (\<lambda>_. {})"
  "pw_user y \<in> U \<Longrightarrow> sound U (returns_err (\<lambda>s. case CreatePasswordReset y (au_resets s) of
     (e, rows) \<Rightarrow> (e, s\<lparr>au_resets := rows\<rparr>))) (\<lambda>_. {})"
  by (rule soundI; auto simp: returns_err_def CreateSession_def CreatePasswordReset_def db_ok_def uids_def list_ex_iff
      split: if_splits)+

lemma sound_drops [sound_step]:
  "sound U (modify (drop_session sid)) (\<lambda>_. {})" "sound U (modify (drop_reset h)) (\<lambda>_. {})"
  by (rule soundI; auto simp: modify_def drop_session_def drop_reset_def DeleteSession_def DeletePasswordReset_def
      delete_where_def db_ok_def uids_def distinct_filter_map)+

lemma sound_identifiers [sound_step]:
  "sound U (newUUIDv4 aenv) (\<lambda>_. {})" "sound U (newSessionToken aenv) (\<lambda>_. {})"
  "sound U (hashPassword aenv p) (\<lambda>_. {})" "sound U (clock aenv) (\<lambda>_. {})"
  "sound U (mailer_send aenv to sub body) (\<lambda>_. {})"
  unfolding newUUIDv4_def newSessionToken_def hashPassword_def clock_def mailer_send_def
  by (rule sound_step)+

lemma sound_accounts [sound_step]:
  "sound U (Register aenv email pw) (\<lambda>u. {us_id u})" "sound U (Authenticate aenv email pw) (\<lambda>u. {us_id u})"
  "us_id u \<in> U \<Longrightarrow> sound U (StartSession aenv u) (\<lambda>_. {})" "sound U (UserFromRequest aenv cks) (\<lambda>u. {us_id u})"
  "sound U (Logout aenv cks) (\<lambda>_. {})" "sound U (RequestPasswordReset aenv email) (\<lambda>_. {})"
  "sound U (ConfirmPasswordReset aenv t pw) (\<lambda>_. {})" "sound U (CreateSecretUser aenv) (\<lambda>(u, _). {us_id u})"
  "sound U (upsertOIDCUser aenv sub email av adm) (\<lambda>u. {us_id u})"
  unfolding Register_def Authenticate_def StartSession_def UserFromRequest_def Logout_def RequestPasswordReset_def
    ConfirmPasswordReset_def CreateSecretUser_def upsertOIDCUser_def Let_def
  by ((rule sound_step | simp)+)[9]


lemma sound_oidc [sound_step]: "sound U (OIDCExchange aenv code ver) (\<lambda>u. {us_id u})"
  unfolding OIDCExchange_def Let_def by (rule sound_step | simp)+

lemma sound_signed_in [sound_step]: "us_id u \<in> U \<Longrightarrow> sound U (signed_in_as aenv u r) (\<lambda>_. {})"
  unfolding signed_in_as_def by (rule sound_step | simp)+


section \<open>Feeds and jobs\<close>

lemma feed_users:
  "snd (UpdateFeed js now x rows) = rows \<or> map w_user (snd (UpdateFeed js now x rows)) = map w_user rows"
  by (cases rule: UpdateFeed_rows [of js now x rows]) (auto simp: map_update_where)

lemma set_map_filter_subset: "set (map f (filter p xs)) \<subseteq> set (map f xs)"
  by auto

lemma feeds_replaced:
  assumes "db_ok s" and "feeds_wf rows" and "set (map w_user rows) \<subseteq> uids s" and "s' = s\<lparr>ap_feeds := rows\<rparr>"
  shows "db_ok s' \<and> uids s \<subseteq> uids s' \<and> (\<forall>x. r = Inr x \<longrightarrow> {} \<subseteq> uids s')"
  using assms by (simp add: db_ok_def uids_def)

lemma sound_create_feed [sound_step]: "fd_user x \<in> U \<Longrightarrow> sound U (create_feed env x) (\<lambda>_. {})"
proof (rule soundI, goal_cases)
  case (1 s r s')
  have "s' = s\<lparr>ap_feeds := snd (CreateFeed (sv_json env) (now_of env s) x (ap_feeds s))\<rparr>"
    using 1(4) by (auto simp: create_feed_def Let_def split: prod.splits option.splits)
  moreover have "set (map w_user (snd (CreateFeed (sv_json env) (now_of env s) x (ap_feeds s)))) \<subseteq> uids s"
    using 1(1-3) by (auto simp: CreateFeed_def db_ok_def split: sum.split)
  ultimately show ?case by (intro feeds_replaced [OF 1(2) feeds_wf_Create]) (use 1 in \<open>simp_all add: db_ok_def\<close>)
qed

lemma sound_update_feed [sound_step]: "sound U (update_feed env x) (\<lambda>_. {})"
proof (rule soundI, goal_cases)
  case (1 s r s')
  have "s' = s\<lparr>ap_feeds := snd (UpdateFeed (sv_json env) (now_of env s) x (ap_feeds s))\<rparr>"
    using 1(3) by (auto simp: update_feed_def Let_def split: prod.splits option.splits)
  moreover have "set (map w_user (snd (UpdateFeed (sv_json env) (now_of env s) x (ap_feeds s)))) \<subseteq> uids s"
    using 1(1) feed_users [of "sv_json env" "now_of env s" x "ap_feeds s"] by (auto simp: db_ok_def simp del: set_map)
  ultimately show ?case by (intro feeds_replaced [OF 1(1) feeds_wf_Update]) (use 1 in \<open>simp_all add: db_ok_def\<close>)
qed

lemma sound_delete_feed [sound_step]:
  "sound U (returns_err (\<lambda>s. case DeleteFeed i u (ap_feeds s) of (e, rows) \<Rightarrow> (e, s\<lparr>ap_feeds := rows\<rparr>))) (\<lambda>_. {})"
proof (rule soundI, goal_cases)
  case (1 s r s')
  have "s' = s\<lparr>ap_feeds := snd (DeleteFeed i u (ap_feeds s))\<rparr>"
    using 1(3) by (auto simp: returns_err_def split: prod.splits option.splits)
  moreover have "set (map w_user (snd (DeleteFeed i u (ap_feeds s)))) \<subseteq> uids s"
    using 1(1) by (auto simp: DeleteFeed_def delete_where_def db_ok_def)
  ultimately show ?case by (intro feeds_replaced [OF 1(1) feeds_wf_Delete]) (use 1 in \<open>simp_all add: db_ok_def\<close>)
qed

lemma sound_served [sound_step]: "sound U (markServed aenv i) (\<lambda>_. {})"
proof (rule soundI, goal_cases)
  case (1 s r s')
  let ?rows = "MarkFeedServed (av_now aenv (au_world s)) i (ap_feeds s)"
  have "map w_user ?rows = map w_user (ap_feeds s)" by (simp add: MarkFeedServed_def)
  then have "set (map w_user ?rows) \<subseteq> uids s" using 1(1) by (simp only: db_ok_def)
  moreover have "s' = s\<lparr>ap_feeds := ?rows\<rparr>" using 1(3) by (simp add: markServed_def modify_def)
  ultimately show ?case by (intro feeds_replaced [OF 1(1) feeds_wf_Served]) (use 1 in \<open>simp_all add: db_ok_def\<close>)
qed

text \<open>Every write of a job keeps ids and owners, but for the row a create appends.\<close>

definition jobs_fit :: "string set \<Rightarrow> job_row list \<Rightarrow> bool" where
  "jobs_fit us rows \<longleftrightarrow> distinct (map jr_id rows) \<and> set (map jr_user rows) \<subseteq> us"

lemma jobs_fit_same: "map jr_id rows' = map jr_id rows \<Longrightarrow> map jr_user rows' = map jr_user rows \<Longrightarrow> jobs_fit us rows' = jobs_fit us rows"
  by (simp only: jobs_fit_def)

lemma jobs_fit_ops:
  assumes "jobs_fit us rows"
  shows "sj_user j \<in> us \<Longrightarrow> jobs_fit us (snd (CreateSyncJob now j rows))"
    "jobs_fit us (snd (UpdateSyncJob now j rows))" "jobs_fit us (snd (ResetSyncJobState now i u rows))"
    "jobs_fit us (snd (DeleteSyncJob i u rows))" "jobs_fit us (UpdateSyncJobRun now i st t msg rows)"
proof -
  show "sj_user j \<in> us \<Longrightarrow> jobs_fit us (snd (CreateSyncJob now j rows))"
    using assms by (auto simp: jobs_fit_def CreateSyncJob_def list_ex_iff)
  show "jobs_fit us (snd (DeleteSyncJob i u rows))"
    using assms by (auto simp: jobs_fit_def DeleteSyncJob_def case_prod_unfold delete_where_def distinct_filter_map)
  show "jobs_fit us (snd (UpdateSyncJob now j rows))" "jobs_fit us (snd (ResetSyncJobState now i u rows))"
    "jobs_fit us (UpdateSyncJobRun now i st t msg rows)"
    using assms
    by (auto simp: UpdateSyncJob_def ResetSyncJobState_def UpdateSyncJobRun_def case_prod_unfold intro: jobs_fit_same [THEN iffD2])
qed

lemma runLocked_fit: "jobs_fit us rows \<Longrightarrow> jobs_fit us (snd (runLocked env j (w, rows)))"
  by (cases rule: runLocked_rows [of env j w rows]) (simp add: jobs_fit_ops(5))

lemma jobs_replaced:
  assumes "db_ok s" and "jobs_fit (uids s) rows" and "s' = s\<lparr>ap_running := m, au_world := w, ap_jobs := rows\<rparr>"
  shows "db_ok s' \<and> uids s \<subseteq> uids s' \<and> (\<forall>x. r = Inr x \<longrightarrow> {} \<subseteq> uids s')"
  using assms by (simp add: db_ok_def uids_def jobs_fit_def)

lemma db_ok_jobs: "db_ok s \<Longrightarrow> jobs_fit (uids s) (ap_jobs s)"
  by (simp add: db_ok_def jobs_fit_def)

lemma sound_create_job [sound_step]: "sj_user j \<in> U \<Longrightarrow> sound U (create_job env j) (\<lambda>_. {})"
proof (rule soundI, goal_cases)
  case (1 s r s')
  then have "sj_user j \<in> uids s" by blast
  note fit = jobs_fit_ops(1) [OF db_ok_jobs [OF 1(2)] this, of "now_of env s"]
  have "s' = s\<lparr>ap_running := ap_running s, au_world := au_world s, ap_jobs := snd (CreateSyncJob (now_of env s) j (ap_jobs s))\<rparr>"
    using 1(4) by (auto simp: create_job_def Let_def split: prod.splits option.splits)
  then show ?case by (rule jobs_replaced [OF 1(2) fit])
qed

lemma sound_update_job [sound_step]: "sound U (update_job env j) (\<lambda>_. {})"
proof (rule soundI, goal_cases)
  case (1 s r s')
  have "s' = s\<lparr>ap_running := ap_running s, au_world := au_world s, ap_jobs := snd (UpdateSyncJob (now_of env s) j (ap_jobs s))\<rparr>"
    using 1(3) by (auto simp: update_job_def Let_def split: prod.splits option.splits)
  then show ?case by (rule jobs_replaced [OF 1(1) jobs_fit_ops(2) [OF db_ok_jobs [OF 1(1)]]])
qed

lemma sound_reset_job [sound_step]:
  "sound U (returns_err (\<lambda>s. case ResetSyncJobState (now_of env s) i u (ap_jobs s) of (e, rows) \<Rightarrow> (e, s\<lparr>ap_jobs := rows\<rparr>))) (\<lambda>_. {})"
proof (rule soundI, goal_cases)
  case (1 s r s')
  have "s' = s\<lparr>ap_running := ap_running s, au_world := au_world s, ap_jobs := snd (ResetSyncJobState (now_of env s) i u (ap_jobs s))\<rparr>"
    using 1(3) by (auto simp: returns_err_def split: prod.splits option.splits)
  then show ?case by (rule jobs_replaced [OF 1(1) jobs_fit_ops(3) [OF db_ok_jobs [OF 1(1)]]])
qed

lemma sound_delete_job [sound_step]:
  "sound U (returns_err (\<lambda>s. case DeleteSyncJob i u (ap_jobs s) of (e, rows) \<Rightarrow> (e, s\<lparr>ap_jobs := rows\<rparr>))) (\<lambda>_. {})"
proof (rule soundI, goal_cases)
  case (1 s r s')
  have "s' = s\<lparr>ap_running := ap_running s, au_world := au_world s, ap_jobs := snd (DeleteSyncJob i u (ap_jobs s))\<rparr>"
    using 1(3) by (auto simp: returns_err_def split: prod.splits option.splits)
  then show ?case by (rule jobs_replaced [OF 1(1) jobs_fit_ops(4) [OF db_ok_jobs [OF 1(1)]]])
qed

lemma RunOne_fit:
  assumes "jobs_fit us rows" and "RunOne (runLocked env j) i (m, w, rows) = (e, m', w', rows')"
  shows "jobs_fit us rows'"
  using assms runLocked_fit [OF assms(1), of env j w] by (auto simp: RunOne_def split: prod.splits bool.splits)

lemma sound_run_now [sound_step]: "sound U (run_now env j) (\<lambda>_. {})"
proof (rule soundI, goal_cases)
  case (1 s r s')
  obtain e m w rows where run: "RunOne (runLocked (sv_run env) j) (sj_id j) (ap_running s, au_world s, ap_jobs s) = (e, m, w, rows)"
    by (metis prod_cases4)
  have "s' = s\<lparr>ap_running := m, au_world := w, ap_jobs := rows\<rparr>"
    using 1(3) run by (auto simp: run_now_def returns_err_def split: option.splits)
  then show ?case by (rule jobs_replaced [OF 1(1) RunOne_fit [OF db_ok_jobs [OF 1(1)] run]])
qed


section \<open>Handlers\<close>

lemma sound_owned [sound_step]:
  "(\<And>x. fd_user x = us_id u \<Longrightarrow> sound U (k x) Q) \<Longrightarrow> sound U (andthen (ownedFeed env rq u) k) Q"
  "(\<And>x. sj_user x = us_id u \<Longrightarrow> sound U (l x) Q) \<Longrightarrow> sound U (andthen (ownedSyncJob rq u) l) Q"
  by (rule soundI, auto simp: andthen_def ownedFeed_def ownedSyncJob_def split: sum.splits if_splits dest: soundD)+

lemma sound_guards [sound_step]:
  "sound U (requireUser aenv rq) (\<lambda>u. {us_id u})" "sound U (requireAdmin aenv rq) (\<lambda>u. {us_id u})"
  unfolding requireAdmin_def requireUser_def by ((rule sound_step | simp)+)[2]

lemma sound_public:
  "sound U (handleHealth version) (\<lambda>_. {})" "sound U (handleSession aenv rq) (\<lambda>_. {})"
  "sound U (handleRegister aenv dc rq) (\<lambda>_. {})" "sound U (handleLogin aenv dc rq) (\<lambda>_. {})"
  "sound U (handleLogout aenv rq) (\<lambda>_. {})" "sound U (handleSecret aenv) (\<lambda>_. {})"
  "sound U (handleResetRequest aenv dr rq) (\<lambda>_. {})" "sound U (handleResetConfirm aenv dk rq) (\<lambda>_. {})"
  "sound U (handleOIDCLogin aenv gv) (\<lambda>_. {})" "sound U (handleOIDCCallback aenv rq) (\<lambda>_. {})"
  "sound U (handleOIDCLogout aenv wq rq) (\<lambda>_. {})" "sound U (handleICS aenv js fenv rq) (\<lambda>_. {})"
  unfolding public_handlers Let_def
  by ((rule sound_step | simp)+)[12]


lemma sound_feed_handlers:
  "sound U (handleListFeeds env rq) (\<lambda>_. {})" "sound U (handleCreateFeed env rq) (\<lambda>_. {})"
  "sound U (handlePreviewFeed env rq) (\<lambda>_. {})" "sound U (handleCheckSource env rq) (\<lambda>_. {})"
  "sound U (handleNotifyTest env rq) (\<lambda>_. {})" "sound U (handleGetFeed env rq) (\<lambda>_. {})"
  "sound U (handlePreviewSavedFeed env rq) (\<lambda>_. {})" "sound U (handleRotateFeedSecret env rq) (\<lambda>_. {})"
  "sound U (handleUpdateFeed env rq) (\<lambda>_. {})" "sound U (handleDeleteFeed env rq) (\<lambda>_. {})"
  "sound U (handleListAudit env rq) (\<lambda>_. {})"
  unfolding user_handlers Let_def
  by ((rule sound_owned | rule sound_step | simp)+)[11]

lemma sound_job_handlers:
  "sound U (handleListSyncJobs env rq) (\<lambda>_. {})" "sound U (handleCreateSyncJob env dj rq) (\<lambda>_. {})"
  "sound U (handleSyncPreview env dp rq) (\<lambda>_. {})" "sound U (handleRunSyncJob env rq) (\<lambda>_. {})"
  "sound U (handleResetSyncJobState env rq) (\<lambda>_. {})" "sound U (handleGetSyncJob env rq) (\<lambda>_. {})"
  "sound U (handlePreviewSavedSyncJob env rq) (\<lambda>_. {})" "sound U (handleUpdateSyncJob env dj rq) (\<lambda>_. {})"
  "sound U (handleDeleteSyncJob env rq) (\<lambda>_. {})"
proof -
  have [simp]: "sj_user (jobFromRequest i v q ex) = v" for i v q ex by (simp add: jobFromRequest_def Let_def)
  show "sound U (handleListSyncJobs env rq) (\<lambda>_. {})" "sound U (handleCreateSyncJob env dj rq) (\<lambda>_. {})"
  "sound U (handleSyncPreview env dp rq) (\<lambda>_. {})" "sound U (handleRunSyncJob env rq) (\<lambda>_. {})"
  "sound U (handleResetSyncJobState env rq) (\<lambda>_. {})" "sound U (handleGetSyncJob env rq) (\<lambda>_. {})"
  "sound U (handlePreviewSavedSyncJob env rq) (\<lambda>_. {})" "sound U (handleUpdateSyncJob env dj rq) (\<lambda>_. {})"
  "sound U (handleDeleteSyncJob env rq) (\<lambda>_. {})"
  unfolding user_handlers Let_def
  by ((rule sound_owned | rule sound_step | simp)+)[9]
qed

lemma sound_route: "sound U (handler_of env de r rq) (\<lambda>_. {})"
  by (cases r) (simp_all add: handler_of_def sound_public sound_feed_handlers sound_job_handlers)


section \<open>Every reachable state\<close>

lemma db_ok_purges:
  "db_ok s \<Longrightarrow> db_ok (purge_sessions now s)" "db_ok s \<Longrightarrow> db_ok (purge_resets now s)" "db_ok (prune_cache now s) = db_ok s"
  by (auto simp: purge_sessions_def purge_resets_def prune_cache_def DeleteExpiredSessions_def
      DeleteExpiredPasswordResets_def delete_where_def db_ok_def uids_def distinct_filter_map)

lemma sys_step_ok:
  assumes "sys_step env de fails e s t" and "db_ok s"
  shows "db_ok t"
proof (rule sys_stepE [OF assms(1)])
  fix r rq
  assume "t = snd (serve env de r rq s)"
  then show ?thesis
    using soundD(1) [OF sound_route assms(2) empty_subsetI prod.collapse [symmetric], of env de r rq]
    by (simp add: serve_def answer_state)
next
  assume "task_act (cleanup (av_now (sv_auth env)) fails) s t"
  from cleanup_acts [OF this] show ?thesis by (auto simp: assms(2) db_ok_purges)
next
  fix ph
  assume t: "t = snd (phase_next (sv_run env) ph s)"
  show ?thesis
  proof (cases rule: phase_next_writes [of "sv_run env" ph s])
    case (row now i state at msg)
    then have "t = s\<lparr>ap_running := ap_running s, au_world := au_world s,
        ap_jobs := UpdateSyncJobRun now i state at msg (ap_jobs s)\<rparr>" using t by simp
    from jobs_replaced [OF assms(2) jobs_fit_ops(5) [OF db_ok_jobs [OF assms(2)]] this] show ?thesis by blast
  qed (use assms(2) t in \<open>simp_all add: db_ok_def uids_def\<close>)
next
  fix w c
  assume "t = s\<lparr>au_world := w, ap_cache := c\<rparr>"
  with assms(2) show ?thesis by (simp add: db_ok_def uids_def)
qed

text \<open>The tables of a new database.\<close>

definition fresh_app :: "'w \<Rightarrow> 'w app_state" where
  "fresh_app w = \<lparr>au_users = [], au_sessions = [], au_resets = [], au_world = w, ap_feeds = [], ap_jobs = [],
     ap_audit = [], ap_cache = [], ap_running = []\<rparr>"

definition reachable_app ::
  "('w, 're, 'l, 'v) server_env \<Rightarrow> 'w decoders \<Rightarrow> 'w faults \<Rightarrow> 'w \<Rightarrow> 'w app_state \<Rightarrow> bool" where
  "reachable_app env de fails w s \<longleftrightarrow> (\<lambda>s t. \<exists>e. sys_step env de fails e s t)\<^sup>*\<^sup>* (fresh_app w) s"

lemma reachable_ok: "reachable_app env de fails w s \<Longrightarrow> db_ok s"
  unfolding reachable_app_def
proof (induction rule: rtranclp_induct)
  case base
  show ?case by (simp add: db_ok_def fresh_app_def users_apart_def feeds_wf_def)
qed (auto intro: sys_step_ok)

text \<open>C2: the database keeps its integrity. In every state the program can reach from an empty database, by any
  requests, cleanups, syncs and notifications, no two accounts share an id, an email, an OIDC subject or a
  secret; ids of feeds, jobs and sessions and the secrets of feeds are unique; and every session, reset,
  feed and job belongs to an existing account.\<close>

theorem reachable_integrity:
  assumes "reachable_app env de fails w s"
  shows "(\<forall>r\<in>set (au_users s). \<forall>q\<in>set (au_users s). user_clash r q \<longrightarrow> r = q) \<and>
    distinct (map w_id (ap_feeds s)) \<and> distinct (map w_secret (ap_feeds s)) \<and> distinct (map jr_id (ap_jobs s)) \<and>
    distinct (map sr_id (au_sessions s)) \<and> distinct (map pr_hash (au_resets s)) \<and>
    sr_user ` set (au_sessions s) \<union> pr_user ` set (au_resets s) \<union> w_user ` set (ap_feeds s) \<union> jr_user ` set (ap_jobs s)
      \<subseteq> ur_id ` set (au_users s)"
  using reachable_ok [OF assms] sorted_wrt_clash
  by (auto simp: db_ok_def uids_def feeds_wf_def)



section \<open>Concrete inputs\<close>

text \<open>A visitor asks for a secret account: one account, one session.\<close>

definition after_visit :: "nat app_state" where
  "after_visit = snd (serve sample_server sample_decoders SecretUser anonymous (fresh_app 0))"

lemma after_visit_rows: "length (au_users after_visit) = 1" "length (au_sessions after_visit) = 1"
  by (simp_all add: after_visit_def serve_def answer_def handler_of_def handleSecret_def signed_in_as_def StartSession_def
      CreateSecretUser_def anonymousAllowed_def AccessPublic_def AccessBoth_def newUUIDv4_def newSessionToken_def
      wrapping_def outside_def storing_def CreateUser_def insert_user_def with_created_def new_user_def user_kinds_def
      CreateSession_def returns_err_def or_respond_def andthen_def pass_def clock_def peek_def fresh_app_def
      sample_server_def sample_auth_def sample_auth_config_def Let_def)

lemma after_visit_reachable: "reachable_app sample_server sample_decoders (\<lambda>_ _ _. None) 0 after_visit"
  unfolding reachable_app_def after_visit_def
  by (rule r_into_rtranclp) (blast intro: sys_step.request)

lemma reachable_integrity_witness:
  "sr_user (hd (au_sessions after_visit)) = ur_id (hd (au_users after_visit))"
proof -
  obtain u x where rows: "au_users after_visit = [u]" "au_sessions after_visit = [x]"
    using after_visit_rows by (auto simp: length_Suc_conv)
  from reachable_integrity [OF after_visit_reachable] show ?thesis by (simp add: rows)
qed

end
