(* ===== verification/Process.thy ===== *)
theory Process
  imports Integrity Notifier
begin

text \<open>
  The whole process: the scheduler's goroutines with the jobs \<^verbatim>\<open>main\<close> registers, the goroutines of manual
  runs and the HTTP handlers, on one \<open>app_state\<close>. It refines the transition system of \<open>System\<close>, so what
  holds of that system's runs holds of the process, however goroutines, tickers and requests interleave; and
  no job is ever worked on by two goroutines. The notifier's ledger lies in the outside world, where \<open>get\<close> and
  \<open>put\<close> find it.
\<close>


section \<open>The jobs as tasks\<close>

record ('w, 'n, 're, 'l) notify_job =
  nj_env :: "('w, cache_row list, 'n, 're, 'l) notifier_env"
  nj_json :: json_lib
  nj_get :: "'w \<Rightarrow> 'n"
  nj_put :: "'n \<Rightarrow> 'w \<Rightarrow> 'w"

definition run_notify :: "('w, 'n, 're, 'l) notify_job \<Rightarrow> 'w app_state \<Rightarrow> go_error option \<times> 'w app_state" where
  "run_notify nj s =
     (case Notifier.Run (nj_env nj) (AllFeeds (nj_json nj) (ap_feeds s)) (au_world s, ap_cache s, nj_get nj (au_world s)) of
        (e, w, c, n) \<Rightarrow> (e, s\<lparr>au_world := nj_put nj n w, ap_cache := c\<rparr>))"

definition notify_task :: "('w, 'n, 're, 'l) notify_job \<Rightarrow> 'w app_state task" where
  "notify_task nj = Act (\<lambda>_ s. snd (run_notify nj s)) (\<lambda>_ s. Return (fst (run_notify nj s)))"

definition process_jobs ::
  "('w, 're, 'l, 'v) server_env \<Rightarrow> ('w, 'n, 're, 'l) notify_job \<Rightarrow> 'w faults \<Rightarrow> 'w app_state sched_job list" where
  "process_jobs env nj fails =
     main_jobs (av_cfg (sv_auth env)) (av_now (sv_auth env)) fails (notify_task nj) (sync_task (sv_run env))"


section \<open>Handlers and the table of running jobs\<close>

text \<open>Only a manual run touches the table of running jobs.\<close>

lemma running_writes [flow_frame]:
  "spares ap_running (create_feed env x)" "spares ap_running (update_feed env x)"
  "spares ap_running (returns_err (\<lambda>s. case d s of (e, rows) \<Rightarrow> (e, s\<lparr>ap_feeds := rows\<rparr>)))"
  "spares ap_running (markServed aenv i)"
  "spares ap_running (create_job env j)" "spares ap_running (update_job env j)"
  "spares ap_running (returns_err (\<lambda>s. case f s of (e, rows) \<Rightarrow> (e, s\<lparr>ap_jobs := rows\<rparr>)))"
  by (auto intro!: sparesI simp: create_feed_def update_feed_def create_job_def update_job_def markServed_def modify_def
      returns_err_def Let_def split: prod.split option.split)

lemma running_calls [flow_frame]:
  "spares ap_running (returns_err (\<lambda>s. case n s of (e, w) \<Rightarrow> (e, s\<lparr>au_world := w\<rparr>)))"
  "spares ap_running (returns_err (\<lambda>s. case m s of (e, rows) \<Rightarrow> (e, s\<lparr>au_sessions := rows\<rparr>)))"
  "spares ap_running (returns_err (\<lambda>s. case k s of (e, rows) \<Rightarrow> (e, s\<lparr>au_resets := rows\<rparr>)))"
  "spares ap_running (returns_err (\<lambda>s. case l s of (e, rows) \<Rightarrow> (e, s\<lparr>au_users := rows\<rparr>)))"
  "spares ap_running (modify (\<lambda>s. s\<lparr>au_users := us s\<rparr>))"
  "spares ap_running (modify (drop_session sid))" "spares ap_running (modify (drop_reset h))"
  "spares ap_running (storing g aenv u)"
  by (auto intro!: sparesI simp: returns_err_def modify_def drop_session_def drop_reset_def storing_def
      split: prod.split option.split)

lemma running_identifiers [flow_frame]:
  "spares ap_running (newUUIDv4 aenv)" "spares ap_running (newSessionToken aenv)"
  "spares ap_running (hashPassword aenv p)" "spares ap_running (clock aenv)"
  "spares ap_running (mailer_send aenv to sub body)"
  unfolding newUUIDv4_def newSessionToken_def hashPassword_def clock_def mailer_send_def
  by ((intro flow_frame)?; simp)+

lemma running_accounts [flow_frame]:
  "spares ap_running (Register aenv email pw)" "spares ap_running (Authenticate aenv email pw)"
  "spares ap_running (StartSession aenv u)" "spares ap_running (UserFromRequest aenv cks)"
  "spares ap_running (Logout aenv cks)" "spares ap_running (RequestPasswordReset aenv email)"
  "spares ap_running (ConfirmPasswordReset aenv t pw)" "spares ap_running (CreateSecretUser aenv)"
  "spares ap_running (upsertOIDCUser aenv sub email av adm)"
  unfolding Register_def Authenticate_def StartSession_def UserFromRequest_def Logout_def RequestPasswordReset_def
    ConfirmPasswordReset_def CreateSecretUser_def upsertOIDCUser_def Let_def
  by ((rule flow_frame | simp)+)[9]

lemma running_oidc [flow_frame]: "spares ap_running (OIDCExchange aenv code ver)"
  unfolding OIDCExchange_def Let_def by (rule flow_frame | simp)+

lemma running_signed_in [flow_frame]: "spares ap_running (signed_in_as aenv u r)"
  unfolding signed_in_as_def by (rule flow_frame)+

lemma running_public:
  "spares ap_running (handleHealth version)" "spares ap_running (handleSession aenv rq)"
  "spares ap_running (handleRegister aenv dc rq)" "spares ap_running (handleLogin aenv dc rq)"
  "spares ap_running (handleLogout aenv rq)" "spares ap_running (handleSecret aenv)"
  "spares ap_running (handleResetRequest aenv dr rq)" "spares ap_running (handleResetConfirm aenv dk rq)"
  "spares ap_running (handleOIDCLogin aenv gv)" "spares ap_running (handleOIDCCallback aenv rq)"
  "spares ap_running (handleOIDCLogout aenv wq rq)" "spares ap_running (handleICS aenv js fenv rq)"
  unfolding public_handlers Let_def
  by ((rule flow_frame | simp)+)[12]

lemma running_user [flow_frame]: "spares ap_running (requireUser aenv rq)" "spares ap_running (requireAdmin aenv rq)"
  unfolding requireAdmin_def requireUser_def by (rule flow_frame | simp)+

lemma running_user_routes:
  assumes "r \<in> set user_routes" and "r \<noteq> RunJob"
  shows "spares ap_running (handler_of env de r rq)"
  using assms unfolding user_routes_def list.set insert_iff empty_iff simp_thms
  by - (elim disjE; simp only: handler_of_def route.case user_handlers Let_def;
      (rule spares_ownedFeed spares_ownedSyncJob | rule flow_frame | simp)+)

lemma other_routes_running: "r \<noteq> RunJob \<Longrightarrow> ap_running (snd (serve env de r rq s)) = ap_running s"
proof -
  assume "r \<noteq> RunJob"
  then have "spares ap_running (handler_of env de r rq)"
  proof (cases "r \<in> set user_routes")
    case False
    then show ?thesis by (cases r) (simp_all add: user_routes_def handler_of_def running_public)
  qed (simp add: running_user_routes)
  then show ?thesis by (simp add: serve_def answer_state sparesD)
qed

text \<open>The first half of a request for a manual run: the session, the job. What is left runs in a goroutine of
  its own, the connection's.\<close>

definition asked_run :: "('w, 're, 'l, 'v) server_env \<Rightarrow> request \<Rightarrow> ('w, sync_job) handler" where
  "asked_run env rq = andthen (requireUser (sv_auth env) rq) (ownedSyncJob rq)"

lemma handleRunSyncJob_asks:
  "handleRunSyncJob env rq = andthen (asked_run env rq) (\<lambda>j.
     andthen (or_respond (run_now env j) (\<lambda>_. writeError 409 ''a run of this job is already in progress'')) (\<lambda>_.
     andthen (reloaded j) (\<lambda>j. job_answer 200 j)))"
  by (simp add: handleRunSyncJob_def asked_run_def andthen_assoc)

lemma asked_run_granted: "asked_run env rq s = (Inr j, s') \<Longrightarrow> s' = s"
  by (auto simp: asked_run_def andthen_def requireUser_def or_respond_def ownedSyncJob_def
      split: prod.splits sum.splits if_splits dest: UserFromRequest_state)

lemma asked_run_refused:
  assumes "isl (fst (asked_run env rq s))"
  shows "ap_running (snd (serve env de RunJob rq s)) = ap_running s"
proof -
  obtain x s' where "asked_run env rq s = (Inl x, s')" using assms by (cases "asked_run env rq s") (auto elim: isl_def [THEN iffD1, THEN exE])
  moreover have "spares ap_running (asked_run env rq)"
    unfolding asked_run_def ownedSyncJob_def by (intro flow_frame sparesI) (auto split: sum.split)
  ultimately show ?thesis
    using spares_run [of ap_running "asked_run env rq" s "Inl x" s']
    by (simp add: serve_def answer_state handler_of_def handleRunSyncJob_asks) (simp add: andthen_def)
qed

section \<open>Steps\<close>

text \<open>The scheduler with its loops, and the goroutines of manual runs, which live beside it.\<close>

type_synonym 'w process = "'w app_state sched \<times> run_phase list"

inductive proc_step :: "('w, 're, 'l, 'v) server_env \<Rightarrow> 'w decoders \<Rightarrow> 'w process \<Rightarrow> 'w process \<Rightarrow> bool" for env de where
  goroutine: "sched_step s t \<Longrightarrow> proc_step env de (s, fl) (t, fl)"
| ticking: "i < length (sd_loops s) \<Longrightarrow> lo_phase (sd_loops s ! i) \<noteq> Returned \<Longrightarrow>
    proc_step env de (s, fl) (s\<lparr>sd_loops := (sd_loops s)[i := (sd_loops s ! i)\<lparr>lo_tick := True\<rparr>]\<rparr>, fl)"
| cancelling: "proc_step env de (s, fl) (s\<lparr>sd_done := True\<rparr>, fl)"
| serving: "(r = RunJob \<Longrightarrow> isl (fst (asked_run env rq (sd_world s)))) \<Longrightarrow>
    proc_step env de (s, fl) (s\<lparr>sd_world := snd (serve env de r rq (sd_world s))\<rparr>, fl)"
| asking: "asked_run env rq (sd_world s) = (Inr job, w) \<Longrightarrow>
    proc_step env de (s, fl) (s\<lparr>sd_world := w\<rparr>, fl @ [Manual job])"
| running: "i < length fl \<Longrightarrow> phase_next (sv_run env) (fl ! i) (sd_world s) = (ph, w) \<Longrightarrow>
    proc_step env de (s, fl) (s\<lparr>sd_world := w\<rparr>, fl[i := ph])"

inductive_cases proc_stepE: "proc_step env de (s, fl) (t, fl')"

text \<open>A running job is somewhere in its task.\<close>

definition in_task :: "'w task \<Rightarrow> 'w task \<Rightarrow> bool" where
  "in_task t whole \<longleftrightarrow> (\<forall>w w'. task_act t w w' \<longrightarrow> task_act whole w w')"

lemma in_task_refl: "in_task t t"
  by (simp add: in_task_def)

lemma in_task_later: "in_task (Act f k) whole \<Longrightarrow> in_task (k c w) whole"
  by (auto simp: in_task_def intro: task_act.later)

definition loop_fits :: "'w sched_job list \<Rightarrow> 'w loop \<Rightarrow> bool" where
  "loop_fits jobs l \<longleftrightarrow> lo_job l \<in> set jobs \<and> (\<forall>t. lo_phase l = Running t \<longrightarrow> in_task t (run_of (lo_job l)))"

definition proc_inv :: "'w sched_job list \<Rightarrow> 'w sched \<Rightarrow> bool" where
  "proc_inv jobs s \<longleftrightarrow> (\<forall>l\<in>set (sd_loops s). loop_fits jobs l)"

lemma loop_fits_step:
  assumes "loop_step c (l, w) log (l', w')" and "loop_fits jobs l"
  shows "loop_fits jobs l' \<and> (w' = w \<or> task_act (run_of (lo_job l)) w w')"
  using assms(1)
proof (rule loop_stepE)
  fix f k
  assume act: "lo_phase l = Running (Act f k)" "l' = l\<lparr>lo_phase := Running (k c w)\<rparr>" "w' = f c w"
  then have "in_task (Act f k) (run_of (lo_job l))" using assms(2) by (simp add: loop_fits_def)
  moreover from this have "task_act (run_of (lo_job l)) w (f c w)" by (auto simp: in_task_def intro: task_act.now)
  ultimately show ?thesis using act assms(2) by (auto simp: loop_fits_def intro: in_task_later)
qed (use assms(2) in \<open>auto simp: loop_fits_def in_task_refl\<close>)

lemma proc_inv_Start: "proc_inv jobs (Start jobs w)"
  by (auto simp: proc_inv_def loop_fits_def Start_def)

lemma proc_inv_update: "proc_inv jobs s \<Longrightarrow> loop_fits jobs l \<Longrightarrow> \<forall>x\<in>set ((sd_loops s)[i := l]). loop_fits jobs x"
  by (auto simp: proc_inv_def dest!: set_update_subset_insert [THEN subsetD])

lemma proc_inv_sched:
  assumes "proc_inv jobs s" and "sched_step s t"
  shows "proc_inv jobs t \<and> (sd_world t = sd_world s \<or> (\<exists>job\<in>set jobs. task_act (run_of job) (sd_world s) (sd_world t)))"
  using assms(2)
proof (rule sched_stepE)
  fix i log l w
  assume i: "i < length (sd_loops s)" and step: "loop_step (sd_done s) (sd_loops s ! i, sd_world s) log (l, w)"
    and t: "t = s\<lparr>sd_loops := (sd_loops s)[i := l], sd_log := sd_log s @ log, sd_world := w\<rparr>"
  have fits: "loop_fits jobs (sd_loops s ! i)" using assms(1) i by (simp add: proc_inv_def)
  note next_loop = loop_fits_step [OF step fits]
  have "lo_job (sd_loops s ! i) \<in> set jobs" using fits by (simp add: loop_fits_def)
  moreover have "proc_inv jobs t"
    using proc_inv_update [OF assms(1) conjunct1 [OF next_loop]] by (simp add: proc_inv_def t)
  ultimately show ?thesis using next_loop by (auto simp: t)
qed


section \<open>The process refines the system\<close>

abbreviation sys_runs ::
  "('w, 're, 'l, 'v) server_env \<Rightarrow> 'w decoders \<Rightarrow> 'w faults \<Rightarrow> 'w app_state \<Rightarrow> 'w app_state \<Rightarrow> bool" where
  "sys_runs env de fails \<equiv> (\<lambda>s t. \<exists>e. sys_step env de fails e s t)\<^sup>*\<^sup>*"

text \<open>An action of a registered job is a step of the system, or only reads.\<close>

lemma process_jobs_are:
  assumes "job \<in> set (process_jobs env nj fails)"
  obtains (cleanup) "jb_name job = ''cleanup''" "run_of job = cleanup (av_now (sv_auth env)) fails"
  | (notify) "jb_name job = ''notifications''" "run_of job = notify_task nj"
  | (sync) "jb_name job = ''dav-sync''" "run_of job = sync_task (sv_run env)"
  using assms by (auto simp: process_jobs_def main_jobs_def Add_def run_of_def split: if_splits)

lemma notify_acts: "task_act (notify_task nj) s t \<Longrightarrow> \<exists>w c. t = s\<lparr>au_world := w, ap_cache := c\<rparr>"
  unfolding notify_task_def
  by (erule task_act_ActE) (auto simp: run_notify_def split: prod.split elim: task_act_ReturnE)

lemma job_act_step:
  assumes "job \<in> set (process_jobs env nj fails)" and "task_act (run_of job) s t"
  shows "t = s \<or> (\<exists>e. sys_step env de fails e s t)"
  using assms(1)
proof (cases rule: process_jobs_are)
  case cleanup
  with assms(2) show ?thesis by (auto intro: sys_step.cleaning)
next
  case notify
  with assms(2) notify_acts show ?thesis by (metis sys_step.background)
next
  case sync
  with assms(2) sync_task_acts show ?thesis by (metis sys_step.syncing)
qed

lemma proc_step_refines:
  assumes "proc_inv (process_jobs env nj fails) s" and "proc_step env de (s, fl) (t, fl')"
  shows "proc_inv (process_jobs env nj fails) t \<and>
    (sd_world t = sd_world s \<or> (\<exists>e. sys_step env de fails e (sd_world s) (sd_world t)))"
  using assms(2)
proof (rule proc_stepE)
  assume "sched_step s t"
  from proc_inv_sched [OF assms(1) this] job_act_step show ?thesis by metis
next
  fix i
  assume i: "i < length (sd_loops s)" and t: "t = s\<lparr>sd_loops := (sd_loops s)[i := (sd_loops s ! i)\<lparr>lo_tick := True\<rparr>]\<rparr>"
  have "loop_fits (process_jobs env nj fails) ((sd_loops s ! i)\<lparr>lo_tick := True\<rparr>)"
    using assms(1) i by (auto simp: proc_inv_def loop_fits_def)
  from proc_inv_update [OF assms(1) this] show ?thesis by (simp add: proc_inv_def t)
next
  fix r rq
  assume "t = s\<lparr>sd_world := snd (serve env de r rq (sd_world s))\<rparr>"
  then have "sys_step env de fails (Request r rq) (sd_world s) (sd_world t)" by (simp add: sys_step.request)
  then show ?thesis using assms(1) \<open>t = _\<close> by (auto simp: proc_inv_def)
next
  fix rq job w
  assume "asked_run env rq (sd_world s) = (Inr job, w)" "t = s\<lparr>sd_world := w\<rparr>"
  with asked_run_granted [of env rq] assms(1) show ?thesis by (auto simp: proc_inv_def)
next
  fix i ph w
  assume "phase_next (sv_run env) (fl ! i) (sd_world s) = (ph, w)" "t = s\<lparr>sd_world := w\<rparr>"
  then have "sys_step env de fails Syncing (sd_world s) (sd_world t)"
    using sys_step.syncing [of env de fails "sd_world s" "fl ! i"] by simp
  then show ?thesis using assms(1) \<open>t = _\<close> by (auto simp: proc_inv_def)
qed (use assms(1) in \<open>simp add: proc_inv_def\<close>)

definition process_reach ::
  "('w, 're, 'l, 'v) server_env \<Rightarrow> 'w decoders \<Rightarrow> ('w, 'n, 're, 'l) notify_job \<Rightarrow> 'w faults \<Rightarrow> 'w \<Rightarrow> 'w process \<Rightarrow> bool" where
  "process_reach env de nj fails w p \<longleftrightarrow> (proc_step env de)\<^sup>*\<^sup>* (Start (process_jobs env nj fails) (fresh_app w), []) p"

lemma process_reach_inv:
  assumes "process_reach env de nj fails w (s, fl)"
  shows "proc_inv (process_jobs env nj fails) s \<and> sys_runs env de fails (fresh_app w) (sd_world s)"
  using assms unfolding process_reach_def
proof (induction "(s, fl)" arbitrary: s fl rule: rtranclp_induct)
  case base
  then show ?case using proc_inv_Start by (auto simp: Start_def)
next
  case (step y)
  obtain s0 fl0 where y: "y = (s0, fl0)" by fastforce
  from step(3) [OF y] proc_step_refines [of env nj fails s0 de fl0 s fl] step(2) show ?case
    unfolding y by (metis (mono_tags, lifting) rtranclp.rtrancl_into_rtrancl)
qed

text \<open>C3: the process refines the transition system. Whatever interleaving of the three scheduled goroutines,
  their tickers, cancellation, HTTP requests and the steps of manual runs leads to a state of the process, the
  tables in it are reached by a run of the system; so in a process started on a new database they keep their
  integrity.\<close>

theorem process_refines_system:
  assumes "process_reach env de nj fails w (s, fl)"
  shows "reachable_app env de fails w (sd_world s) \<and> db_ok (sd_world s)"
proof -
  have "reachable_app env de fails w (sd_world s)"
    using process_reach_inv [OF assms] by (simp add: reachable_app_def)
  with reachable_ok [OF this] show ?thesis by blast
qed


section \<open>No job is worked on twice at a time\<close>

text \<open>Where the scheduler's loop for the sync job is in the runner's code; the other loops never are.\<close>

definition loop_at :: "('w, 'l, 'v) runner_env \<Rightarrow> 'w app_state loop \<Rightarrow> run_phase \<Rightarrow> bool" where
  "loop_at env l ph =
     (case lo_phase l of
        Running t \<Rightarrow>
          if jb_name (lo_job l) = ''dav-sync'' then t = sync_task env \<and> ph = Jobs [] \<or> t = runner_task env ph
          else ph = Jobs []
      | _ \<Rightarrow> ph = Jobs [])"

lemma at_work_simps [simp]: "at_work (Jobs js) = None" "at_work (Manual j) = None" "at_work Refused = None"
  by (simp_all add: at_work_def)

lemma returned_idle: "returned ph = Some r \<Longrightarrow> at_work ph = None"
  by (cases ph) (auto simp: returned_def at_work_def)

lemma loop_at_step:
  assumes step: "loop_step c (l, w) log (l', w')" and fits: "loop_fits (process_jobs env nj fails) l"
    and at: "loop_at (sv_run env) l ph"
  shows "\<exists>ph'. loop_at (sv_run env) l' ph' \<and>
    (phase_next (sv_run env) ph w = (ph', w') \<or> at_work ph' = at_work ph \<and> ap_running w' = ap_running w)"
  using step
proof (rule loop_stepE)
  assume "lo_phase l = Waiting" "l' = l\<lparr>lo_phase := Returned\<rparr>" "w' = w"
  with at show ?thesis by (intro exI [of _ "Jobs []"]) (simp add: loop_at_def)
next
  assume tick: "lo_phase l = Waiting" "l' = l\<lparr>lo_phase := Running (run_of (lo_job l)), lo_tick := False\<rparr>" "w' = w"
  have "lo_job l \<in> set (process_jobs env nj fails)" using fits by (simp add: loop_fits_def)
  then have "jb_name (lo_job l) = ''dav-sync'' \<Longrightarrow> run_of (lo_job l) = sync_task (sv_run env)"
    by (cases rule: process_jobs_are) simp_all
  with tick at show ?thesis by (intro exI [of _ "Jobs []"]) (simp add: loop_at_def)
next
  fix r assume ended: "lo_phase l = Running (Return r)" "l' = l\<lparr>lo_phase := Waiting\<rparr>" "w' = w"
  have "at_work ph = None"
  proof (cases "jb_name (lo_job l) = ''dav-sync''")
    case True
    with at ended have "Return r = runner_task (sv_run env) ph \<or> ph = Jobs []" by (auto simp: loop_at_def)
    then show ?thesis
      using returned_idle [of ph] by (auto simp: runner_task.simps [of "sv_run env" ph] split: option.splits)
  qed (use at ended in \<open>simp add: loop_at_def\<close>)
  with ended show ?thesis by (intro exI [of _ "Jobs []"]) (simp add: loop_at_def)
next
  fix f k assume act: "lo_phase l = Running (Act f k)" "l' = l\<lparr>lo_phase := Running (k c w)\<rparr>" "w' = f c w"
  show ?thesis
  proof (cases "jb_name (lo_job l) = ''dav-sync''")
    case True
    with at act consider (start) "Act f k = sync_task (sv_run env)" "ph = Jobs []" | (phase) "Act f k = runner_task (sv_run env) ph"
      by (auto simp: loop_at_def)
    then show ?thesis
    proof cases
      case start
      then have "f c w = w" "k c w = runner_task (sv_run env) (Jobs (due_jobs (sv_run env) w))" by (simp_all add: sync_task_def)
      with start True act show ?thesis
        by (intro exI [of _ "Jobs (due_jobs (sv_run env) w)"]) (simp add: loop_at_def)
    next
      case phase
      then have "f c w = snd (phase_next (sv_run env) ph w)" "k c w = runner_task (sv_run env) (fst (phase_next (sv_run env) ph w))"
        by (simp_all add: runner_task.simps [of "sv_run env" ph] split: option.splits)
      with True act show ?thesis
        by (intro exI [of _ "fst (phase_next (sv_run env) ph w)"]) (simp add: loop_at_def)
    qed
  next
    case False
    have "lo_job l \<in> set (process_jobs env nj fails)" "task_act (run_of (lo_job l)) w w'"
      using fits act by (auto simp: loop_fits_def in_task_def intro: task_act.now)
    then have "ap_running w' = ap_running w"
    proof (cases rule: process_jobs_are)
      case cleanup
      with cleanup_acts [of "av_now (sv_auth env)" fails w w'] \<open>task_act _ w w'\<close> show ?thesis
        by (auto simp: purge_sessions_def purge_resets_def prune_cache_def)
    next
      case notify
      with notify_acts [of nj w w'] \<open>task_act _ w w'\<close> show ?thesis by auto
    qed (use False in simp)
    with False act at show ?thesis by (intro exI [of _ ph]) (simp add: loop_at_def)
  qed
qed

definition runs_exclusively :: "('w, 'l, 'v) runner_env \<Rightarrow> 'w process \<Rightarrow> bool" where
  "runs_exclusively env p = (case p of (s, fl) \<Rightarrow> \<exists>phs. list_all2 (loop_at env) (sd_loops s) phs \<and>
     exclusive (map at_work (phs @ fl)) (ap_running (sd_world s)))"

lemma list_all2_same_update:
  "list_all2 P xs ys \<Longrightarrow> i < length xs \<Longrightarrow> P x (ys ! i) \<Longrightarrow> list_all2 P (xs[i := x]) ys"
  by (simp add: list_all2_conv_all_nth nth_list_update)

lemma proc_step_exclusive:
  assumes inv: "proc_inv (process_jobs env nj fails) s" and "runs_exclusively (sv_run env) (s, fl)"
    and step: "proc_step env de (s, fl) (t, fl')"
  shows "runs_exclusively (sv_run env) (t, fl')"
proof -
  obtain phs where at: "list_all2 (loop_at (sv_run env)) (sd_loops s) phs"
    and ex: "exclusive (map at_work (phs @ fl)) (ap_running (sd_world s))"
    using assms(2) by (auto simp: runs_exclusively_def)
  have len: "length phs = length (sd_loops s)" using at by (simp add: list_all2_lengthD)
  show ?thesis
    using step
  proof (rule proc_stepE)
    assume "sched_step s t" "fl' = fl"
    then obtain i log l w where i: "i < length (sd_loops s)"
      and st: "loop_step (sd_done s) (sd_loops s ! i, sd_world s) log (l, w)"
      and t: "t = s\<lparr>sd_loops := (sd_loops s)[i := l], sd_log := sd_log s @ log, sd_world := w\<rparr>"
      by (auto elim: sched_stepE)
    have "loop_fits (process_jobs env nj fails) (sd_loops s ! i)" using inv i by (simp add: proc_inv_def)
    from loop_at_step [OF st this list_all2_nthD [OF at i]] obtain ph' where
      at': "loop_at (sv_run env) l ph'" and
      nxt: "phase_next (sv_run env) (phs ! i) (sd_world s) = (ph', w) \<or>
        at_work ph' = at_work (phs ! i) \<and> ap_running w = ap_running (sd_world s)" by blast
    have same: "(phs @ fl) ! i = phs ! i" "(phs @ fl)[i := ph'] = phs[i := ph'] @ fl" "i < length (phs @ fl)"
      using i len by (simp_all add: nth_append list_update_append)
    have "exclusive (map at_work (phs[i := ph'] @ fl)) (ap_running w)"
      using nxt
    proof
      assume "phase_next (sv_run env) (phs ! i) (sd_world s) = (ph', w)"
      with exclusive_step [OF ex same(3), of "sv_run env" ph' w] same show ?thesis by simp
    next
      assume idle: "at_work ph' = at_work (phs ! i) \<and> ap_running w = ap_running (sd_world s)"
      have "map at_work (phs[i := ph']) = map at_work phs"
        using i len idle by (simp add: map_update) (metis length_map list_update_id nth_map)
      with ex idle show ?thesis by simp
    qed
    moreover have "list_all2 (loop_at (sv_run env)) ((sd_loops s)[i := l]) (phs[i := ph'])"
      using at at' by (simp add: list_all2_update_cong)
    ultimately show ?thesis using \<open>fl' = fl\<close> by (auto simp: runs_exclusively_def t)
  next
    fix i assume i: "i < length (sd_loops s)" and t: "t = s\<lparr>sd_loops := (sd_loops s)[i := (sd_loops s ! i)\<lparr>lo_tick := True\<rparr>]\<rparr>"
      and fl: "fl' = fl"
    have "loop_at (sv_run env) ((sd_loops s ! i)\<lparr>lo_tick := True\<rparr>) (phs ! i)"
      using list_all2_nthD [OF at i] by (simp add: loop_at_def split: phase.splits)
    from list_all2_same_update [OF at i this] ex t fl show ?thesis by (auto simp: runs_exclusively_def)
  next
    assume "t = s\<lparr>sd_done := True\<rparr>" "fl' = fl"
    with at ex show ?thesis by (auto simp: runs_exclusively_def)
  next
    fix r rq assume r: "r = RunJob \<Longrightarrow> isl (fst (asked_run env rq (sd_world s)))"
      and t: "t = s\<lparr>sd_world := snd (serve env de r rq (sd_world s))\<rparr>" "fl' = fl"
    have "ap_running (sd_world t) = ap_running (sd_world s)"
      using other_routes_running asked_run_refused r t by (cases "r = RunJob") auto
    with at ex t show ?thesis by (auto simp: runs_exclusively_def)
  next
    fix rq job w assume t: "asked_run env rq (sd_world s) = (Inr job, w)" "t = s\<lparr>sd_world := w\<rparr>" "fl' = fl @ [Manual job]"
    have "exclusive (hs @ [None]) m" if "exclusive hs m" for hs m
      using that by (auto simp: exclusive_def nth_append)
    from this [OF ex] at t asked_run_granted [OF t(1)] show ?thesis by (auto simp: runs_exclusively_def)
  next
    fix i ph w assume i: "i < length fl" and nxt: "phase_next (sv_run env) (fl ! i) (sd_world s) = (ph, w)"
      and t: "t = s\<lparr>sd_world := w\<rparr>" "fl' = fl[i := ph]"
    have "(phs @ fl) ! (length phs + i) = fl ! i" "(phs @ fl)[length phs + i := ph] = phs @ fl[i := ph]"
        "length phs + i < length (phs @ fl)"
      using i by (simp_all add: nth_append list_update_append)
    with exclusive_step [OF ex this(3), of "sv_run env" ph w] nxt at t show ?thesis by (auto simp: runs_exclusively_def)
  qed
qed

text \<open>C4: no job is worked on twice at a time. In every state of the process the table of running jobs lists exactly the
  jobs a goroutine is at work on, between taking a job and giving it back, and no two goroutines, scheduled or
  of manual runs, are at work on the same one.\<close>

theorem jobs_run_exclusively:
  assumes "process_reach env de nj fails w (s, fl)"
  shows "\<exists>phs. list_all2 (loop_at (sv_run env)) (sd_loops s) phs \<and>
    exclusive (map at_work (phs @ fl)) (ap_running (sd_world s))"
proof -
  have "runs_exclusively (sv_run env) (s, fl)"
    using assms unfolding process_reach_def
  proof (induction "(s, fl)" arbitrary: s fl rule: rtranclp_induct)
    case base
    let ?jobs = "process_jobs env nj fails"
    have "list_all2 (loop_at (sv_run env)) (sd_loops (Start ?jobs (fresh_app w))) (map (\<lambda>_. Jobs []) ?jobs)"
      by (simp add: Start_def list_all2_conv_all_nth loop_at_def)
    moreover have "exclusive (map at_work (map (\<lambda>_. Jobs []) ?jobs @ [])) (ap_running (fresh_app w))"
      by (auto simp: exclusive_def fresh_app_def is_running_def)
    ultimately show ?case using base by (auto simp: runs_exclusively_def Start_def)
  next
    case (step y)
    obtain s0 fl0 where y: "y = (s0, fl0)" by fastforce
    have "proc_inv (process_jobs env nj fails) s0"
      using process_reach_inv [of env de nj fails w s0 fl0] step(1) unfolding process_reach_def y by blast
    from proc_step_exclusive [OF this step(3) [OF y]] step(2) show ?case unfolding y by blast
  qed
  then show ?thesis by (simp add: runs_exclusively_def)
qed


section \<open>Concrete inputs\<close>

definition visited :: "(nat, unit, string, unit) notify_job \<Rightarrow> nat app_state sched" where
  "visited nj = (Start (process_jobs sample_server nj (\<lambda>_ _ _. None)) (fresh_app 0))\<lparr>sd_world := after_visit\<rparr>"

lemma visited_reach: "process_reach sample_server sample_decoders nj (\<lambda>_ _ _. None) 0 (visited nj, [])"
proof -
  let ?start = "Start (process_jobs sample_server nj (\<lambda>_ _ _. None)) (fresh_app 0)"
  have "proc_step sample_server sample_decoders (?start, [])
      (?start\<lparr>sd_world := snd (serve sample_server sample_decoders SecretUser anonymous (sd_world ?start))\<rparr>, [])"
    by (rule proc_step.serving) simp
  then show ?thesis
    by (auto simp: process_reach_def visited_def after_visit_def Start_def)
qed

lemma process_refines_system_witness:
  "\<forall>nj. length (au_users (sd_world (visited nj))) = 1 \<and> db_ok (sd_world (visited nj))"
  using process_refines_system [OF visited_reach] by (simp add: visited_def after_visit_rows)

lemma jobs_run_exclusively_witness:
  "\<forall>nj. \<exists>phs. list_all2 (loop_at (sv_run sample_server)) (sd_loops (visited nj)) phs \<and>
     exclusive (map at_work phs) (ap_running after_visit)"
  using jobs_run_exclusively [OF visited_reach] by (simp add: visited_def)

end
