(* ===== verification/Dav_Store.thy ===== *)
theory Dav_Store
  imports Dav_Collections Dav_Calls
begin

text \<open>
  What a DAV server promises, stated for a \<^verbatim>\<open>Collection\<close>: a store is the view of the items it holds, and
  the operations of a collection serve a store when they tell the truth about it and change it as asked.
  ETags are strong, as CalDAV requires: the same href under the same ETag has the same body for all time.
  A server may rewrite the bodies it stores (\<open>cs_keep\<close>) and choose where it stores an item (\<open>cs_at\<close>);
  listing, storing and deleting may fail at any time, reading an item the server holds
  does not (a failed read-back would record the fingerprint of the body as sent). The adapters of \<open>Dav_Collections\<close> keep the contract when the
  client below them keeps its own.
\<close>


section \<open>The contract\<close>

record 'w store =
  cs_view :: "'w \<Rightarrow> string \<Rightarrow> (string \<times> bytes) option"
  cs_body :: "string \<Rightarrow> string \<Rightarrow> bytes"
  cs_keep :: "bytes \<Rightarrow> bytes"
  cs_at :: "string \<Rightarrow> string"

definition canonical :: "string \<Rightarrow> bool" where
  "canonical h \<longleftrightarrow> h \<noteq> [] \<and> normHref h = h"

definition strong_etags :: "'w store \<Rightarrow> bool" where
  "strong_etags S \<longleftrightarrow> (\<forall>w h et d. cs_view S w h = Some (et, d) \<longrightarrow>
     canonical h \<and> et \<noteq> [] \<and> cs_body S h et = d \<and> cs_at S h = h)"

definition lists_truly :: "'w store \<Rightarrow> 'w collection \<Rightarrow> bool" where
  "lists_truly S c \<longleftrightarrow> (\<forall>w ms w'. coll_list c w = (Inr ms, w') \<longrightarrow> distinct (map im_href ms) \<and>
     (\<forall>h et. (\<exists>m\<in>set ms. im_href m = h \<and> im_etag m = et) \<longleftrightarrow> (\<exists>d. cs_view S w h = Some (et, d))))"

definition reads_quietly :: "'w store \<Rightarrow> 'w collection \<Rightarrow> bool" where
  "reads_quietly S c \<longleftrightarrow> (\<forall>w h. cs_view S (snd (coll_list c w)) = cs_view S w \<and>
     cs_view S (snd (coll_get c h w)) = cs_view S w)"

definition gets_truly :: "'w store \<Rightarrow> 'w collection \<Rightarrow> bool" where
  "gets_truly S c \<longleftrightarrow> (\<forall>w h et d. cs_view S w h = Some (et, d) \<longrightarrow>
     (\<exists>it. fst (coll_get c h w) = Inr it \<and> it_etag it = et \<and> it_data it = d))"

definition puts_truly :: "'w store \<Rightarrow> 'w collection \<Rightarrow> bool" where
  "puts_truly S c \<longleftrightarrow> (\<forall>w it stored w'. coll_put c it w = (Inr stored, w') \<longrightarrow>
     it_href stored = cs_at S (it_href it) \<and>
     (\<exists>et. cs_view S w' = (cs_view S w)(cs_at S (it_href it) \<mapsto> (et, cs_keep S (it_data it)))))"

definition deletes_truly :: "'w store \<Rightarrow> 'w collection \<Rightarrow> bool" where
  "deletes_truly S c \<longleftrightarrow> (\<forall>w h u w'. coll_delete c h w = (Inr u, w') \<longrightarrow>
     cs_view S w' = (cs_view S w)(h := None))"

definition serves :: "'w store \<Rightarrow> 'w collection \<Rightarrow> bool" where
  "serves S c \<longleftrightarrow> strong_etags S \<and> lists_truly S c \<and> reads_quietly S c \<and> gets_truly S c \<and>
     puts_truly S c \<and> deletes_truly S c"

text \<open>The other side of a run does not touch the store.\<close>

definition apart :: "'w store \<Rightarrow> 'w collection \<Rightarrow> bool" where
  "apart S c \<longleftrightarrow> (\<forall>w h it. cs_view S (snd (coll_list c w)) = cs_view S w \<and>
     cs_view S (snd (coll_get c h w)) = cs_view S w \<and> cs_view S (snd (coll_put c it w)) = cs_view S w \<and>
     cs_view S (snd (coll_delete c h w)) = cs_view S w)"

lemma servesD:
  assumes "serves S c"
  shows "cs_view S w h = Some (et, d) \<Longrightarrow> canonical h \<and> et \<noteq> [] \<and> cs_body S h et = d \<and> cs_at S h = h"
    and "coll_list c w = (Inr ms, w') \<Longrightarrow> distinct (map im_href ms)"
    and "coll_list c w = (Inr ms, w') \<Longrightarrow>
      (\<exists>m\<in>set ms. im_href m = h \<and> im_etag m = et) \<longleftrightarrow> (\<exists>d. cs_view S w h = Some (et, d))"
    and "coll_list c w = (l, w') \<Longrightarrow> cs_view S w' = cs_view S w"
    and "coll_get c h w = (g, w') \<Longrightarrow> cs_view S w' = cs_view S w"
    and "cs_view S w h = Some (et, d) \<Longrightarrow> \<exists>it. fst (coll_get c h w) = Inr it \<and> it_etag it = et \<and> it_data it = d"
    and "coll_put c it w = (Inr stored, w') \<Longrightarrow> it_href stored = cs_at S (it_href it)"
    and "coll_put c it w = (Inr stored, w') \<Longrightarrow>
      \<exists>et. cs_view S w' = (cs_view S w)(cs_at S (it_href it) \<mapsto> (et, cs_keep S (it_data it)))"
    and "coll_delete c h w = (Inr u, w') \<Longrightarrow> cs_view S w' = (cs_view S w)(h := None)"
proof -
  have parts: "strong_etags S" "lists_truly S c" "reads_quietly S c" "gets_truly S c" "puts_truly S c" "deletes_truly S c"
    using assms by (simp_all add: serves_def)
  show "cs_view S w h = Some (et, d) \<Longrightarrow> canonical h \<and> et \<noteq> [] \<and> cs_body S h et = d \<and> cs_at S h = h"
    using parts(1) by (simp add: strong_etags_def)
  show "coll_list c w = (Inr ms, w') \<Longrightarrow> distinct (map im_href ms)"
    using parts(2) by (auto simp: lists_truly_def)
  show "coll_list c w = (Inr ms, w') \<Longrightarrow>
      (\<exists>m\<in>set ms. im_href m = h \<and> im_etag m = et) \<longleftrightarrow> (\<exists>d. cs_view S w h = Some (et, d))"
    using parts(2) unfolding lists_truly_def by blast
  show "coll_list c w = (l, w') \<Longrightarrow> cs_view S w' = cs_view S w"
    "coll_get c h w = (g, w') \<Longrightarrow> cs_view S w' = cs_view S w"
    using parts(3) unfolding reads_quietly_def by (metis snd_conv)+
  show "cs_view S w h = Some (et, d) \<Longrightarrow> \<exists>it. fst (coll_get c h w) = Inr it \<and> it_etag it = et \<and> it_data it = d"
    using parts(4) by (simp add: gets_truly_def)
  show "coll_put c it w = (Inr stored, w') \<Longrightarrow> it_href stored = cs_at S (it_href it)"
    "coll_put c it w = (Inr stored, w') \<Longrightarrow>
      \<exists>et. cs_view S w' = (cs_view S w)(cs_at S (it_href it) \<mapsto> (et, cs_keep S (it_data it)))"
    using parts(5) unfolding puts_truly_def by blast+
  show "coll_delete c h w = (Inr u, w') \<Longrightarrow> cs_view S w' = (cs_view S w)(h := None)"
    using parts(6) unfolding deletes_truly_def by blast
qed

lemma apartD:
  assumes "apart S c"
  shows "coll_list c w = (l, w') \<Longrightarrow> cs_view S w' = cs_view S w"
    and "coll_get c h w = (g, w') \<Longrightarrow> cs_view S w' = cs_view S w"
    and "coll_put c it w = (p, w') \<Longrightarrow> cs_view S w' = cs_view S w"
    and "coll_delete c h w = (x, w') \<Longrightarrow> cs_view S w' = cs_view S w"
  using assms unfolding apart_def by (metis snd_conv)+


section \<open>The adapters keep it\<close>

text \<open>The same promises one level down, for go-webdav's client and parsed objects. A \<^verbatim>\<open>PROPFIND\<close> answer
  also names the collection itself and its subcollections.\<close>

record ('o, 'w) client_store =
  cl_view :: "'w \<Rightarrow> string \<Rightarrow> (string \<times> 'o) option"
  cl_object :: "string \<Rightarrow> string \<Rightarrow> 'o"

definition objects_sound :: "('o, 'w) client_store \<Rightarrow> ('o, 'w) adapter \<Rightarrow> bool" where
  "objects_sound C ad \<longleftrightarrow> has_prefix (ad_path ad) ''/'' \<and> (\<forall>w h et x. cl_view C w h = Some (et, x) \<longrightarrow>
     canonical h \<and> has_prefix h ''/'' \<and> et \<noteq> [] \<and> cl_object C h et = x \<and> is_ok (ad_render ad x))"

definition client_reads :: "('o, 'w) client_store \<Rightarrow> ('o, 'w) adapter \<Rightarrow> bool" where
  "client_reads C ad \<longleftrightarrow>
     (\<forall>w r w'. dc_read_dir (ad_client ad) (ad_path ad) w = (r, w') \<longrightarrow> cl_view C w' = cl_view C w \<and>
       (\<forall>infos. r = Inr infos \<longrightarrow> distinct (map fi_path (filter (is_member (ad_path ad)) infos)) \<and>
         (\<forall>h et. (\<exists>fi\<in>set infos. is_member (ad_path ad) fi \<and> fi_path fi = h \<and> fi_etag fi = et) \<longleftrightarrow>
           (\<exists>x. cl_view C w h = Some (et, x))))) \<and>
     (\<forall>w h r w'. dc_get (ad_client ad) h w = (r, w') \<longrightarrow> cl_view C w' = cl_view C w \<and>
       (\<forall>et x. cl_view C w h = Some (et, x) \<longrightarrow> r = Inr (h, et, x)))"

definition client_writes :: "('o, 'w) client_store \<Rightarrow> ('o, 'w) adapter \<Rightarrow> bool" where
  "client_writes C ad \<longleftrightarrow>
     (\<forall>w p x stored etag w'. has_prefix p ''/'' \<longrightarrow> dc_put (ad_client ad) p x w = (Inr (stored, etag), w') \<longrightarrow>
       stored \<in> {[], p} \<and> (\<exists>et. cl_view C w' = (cl_view C w)(p \<mapsto> (et, x)))) \<and>
     (\<forall>w h u w'. dc_remove_all (ad_client ad) h w = (Inr u, w') \<longrightarrow> cl_view C w' = (cl_view C w)(h := None))"

definition client_serves :: "('o, 'w) client_store \<Rightarrow> ('o, 'w) adapter \<Rightarrow> bool" where
  "client_serves C ad \<longleftrightarrow> objects_sound C ad \<and> client_reads C ad \<and> client_writes C ad"

definition client_apart :: "('o, 'w) client_store \<Rightarrow> ('p, 'w) adapter \<Rightarrow> bool" where
  "client_apart C ad \<longleftrightarrow> (\<forall>p h x w. cl_view C (snd (dc_read_dir (ad_client ad) p w)) = cl_view C w \<and>
     cl_view C (snd (dc_get (ad_client ad) h w)) = cl_view C w \<and>
     cl_view C (snd (dc_put (ad_client ad) p x w)) = cl_view C w \<and>
     cl_view C (snd (dc_remove_all (ad_client ad) h w)) = cl_view C w)"

text \<open>The store an adapter makes of it: bodies are what it renders, and a written body comes back as what
  parsing and rendering make of it.\<close>

definition rendered :: "('o, 'w) adapter \<Rightarrow> 'o \<Rightarrow> bytes" where
  "rendered ad x = (case ad_render ad x of Inr b \<Rightarrow> b | Inl _ \<Rightarrow> [])"

definition item_store :: "('o, 'w) client_store \<Rightarrow> ('o, 'w) adapter \<Rightarrow> 'w store" where
  "item_store C ad = \<lparr>
     cs_view = (\<lambda>w h. map_option (\<lambda>(et, x). (et, rendered ad x)) (cl_view C w h)),
     cs_body = (\<lambda>h et. rendered ad (cl_object C h et)),
     cs_keep = (\<lambda>d. case ad_parse ad d of Inr x \<Rightarrow> rendered ad x | Inl _ \<Rightarrow> []),
     cs_at = put_path (ad_path ad)\<rparr>"

lemma item_store_view: "cs_view (item_store C ad) w h = map_option (\<lambda>(et, x). (et, rendered ad x)) (cl_view C w h)"
  by (simp add: item_store_def)

lemma item_store_same: "cl_view C w' = cl_view C w \<Longrightarrow> cs_view (item_store C ad) w' = cs_view (item_store C ad) w"
  by (simp add: item_store_def)

lemma put_path_rooted: "has_prefix h ''/'' \<Longrightarrow> put_path c h = h"
  by (simp add: put_path_def)

lemma put_path_starts:
  assumes "has_prefix c ''/''"
  shows "has_prefix (put_path c h) ''/''"
proof (cases "trim_right_char (CHR ''/'') c")
  case Nil
  then show ?thesis by (simp add: put_path_def has_prefix_def)
next
  case (Cons x r)
  obtain y where "c = trim_right_char (CHR ''/'') c @ y"
    unfolding trim_right_char_def by (metis rev_append rev_rev_ident takeWhile_dropWhile_id)
  with assms Cons have "x = CHR ''/''" by (metis append_Cons has_prefix_def length_Cons list.size(3) list.inject One_nat_def take_Suc_Cons take0)
  with Cons show ?thesis by (simp add: put_path_def has_prefix_def)
qed

lemma adapter_lists:
  assumes "client_serves C ad"
  shows "lists_truly (item_store C ad) (as_collection ad)"
  unfolding lists_truly_def
proof (intro allI impI)
  fix w ms w'
  assume "coll_list (as_collection ad) w = (Inr ms, w')"
  then obtain infos where dir: "dc_read_dir (ad_client ad) (ad_path ad) w = (Inr infos, w')"
    and ms: "ms = map (\<lambda>fi. \<lparr>im_href = fi_path fi, im_etag = fi_etag fi\<rparr>) (filter (is_member (ad_path ad)) infos)"
    by (auto simp: as_collection_def List_def split: prod.splits sum.splits)
  have reads: "client_reads C ad" using assms by (simp add: client_serves_def)
  have "distinct (map fi_path (filter (is_member (ad_path ad)) infos))"
    and listed: "(\<exists>fi\<in>set infos. is_member (ad_path ad) fi \<and> fi_path fi = h \<and> fi_etag fi = et) \<longleftrightarrow>
      (\<exists>x. cl_view C w h = Some (et, x))" for h et
    using reads dir unfolding client_reads_def by blast+
  moreover have "map im_href ms = map fi_path (filter (is_member (ad_path ad)) infos)" by (simp add: ms comp_def)
  moreover have "(\<exists>m\<in>set ms. im_href m = h \<and> im_etag m = et) \<longleftrightarrow> (\<exists>d. cs_view (item_store C ad) w h = Some (et, d))" for h et
    using listed [of h et] by (auto simp: ms item_store_view)
  ultimately show "distinct (map im_href ms) \<and> (\<forall>h et. (\<exists>m\<in>set ms. im_href m = h \<and> im_etag m = et) \<longleftrightarrow>
      (\<exists>d. cs_view (item_store C ad) w h = Some (et, d)))" by simp
qed

text \<open>The world after an adapter's operation is the world after the client's request.\<close>

lemma adapter_worlds:
  "snd (List ad w) = snd (dc_read_dir (ad_client ad) (ad_path ad) w)"
  "snd (Get ad h w) = snd (dc_get (ad_client ad) h w)"
  "snd (Delete ad h w) = snd (dc_remove_all (ad_client ad) h w)"
  "snd (Put ad it w) = (case ad_parse ad (it_data it) of Inl _ \<Rightarrow> w
     | Inr x \<Rightarrow> snd (dc_put (ad_client ad) (put_path (ad_path ad) (it_href it)) x w))"
  by (simp_all add: List_def Get_def Put_def Delete_def Let_def split: prod.split sum.split)

lemma adapter_reads:
  assumes "client_serves C ad"
  shows "reads_quietly (item_store C ad) (as_collection ad)" "gets_truly (item_store C ad) (as_collection ad)"
proof -
  have reads: "client_reads C ad" and sound: "objects_sound C ad" using assms by (simp_all add: client_serves_def)
  have "cl_view C (snd (List ad w)) = cl_view C w" "cl_view C (snd (Get ad h w)) = cl_view C w" for w h
    using reads unfolding client_reads_def adapter_worlds by (metis prod.collapse)+
  then show "reads_quietly (item_store C ad) (as_collection ad)"
    by (auto simp: reads_quietly_def as_collection_def intro: item_store_same)
  show "gets_truly (item_store C ad) (as_collection ad)"
    unfolding gets_truly_def
  proof (intro allI impI)
    fix w h et d
    assume "cs_view (item_store C ad) w h = Some (et, d)"
    then obtain x where x: "cl_view C w h = Some (et, x)" "d = rendered ad x" by (auto simp: item_store_view)
    obtain r w' where get: "dc_get (ad_client ad) h w = (r, w')" by fastforce
    with x reads have "r = Inr (h, et, x)" by (simp add: client_reads_def)
    moreover have "is_ok (ad_render ad x)" using x sound by (auto simp: objects_sound_def)
    ultimately show "\<exists>it. fst (coll_get (as_collection ad) h w) = Inr it \<and> it_etag it = et \<and> it_data it = d"
      using get x by (auto simp: as_collection_def Get_def rendered_def is_ok_def split: sum.splits)
  qed
qed

lemma adapter_writes:
  assumes "client_serves C ad"
  shows "puts_truly (item_store C ad) (as_collection ad)" "deletes_truly (item_store C ad) (as_collection ad)"
proof -
  have writes: "client_writes C ad" and root: "has_prefix (ad_path ad) ''/''"
    using assms by (simp_all add: client_serves_def objects_sound_def)
  show "deletes_truly (item_store C ad) (as_collection ad)"
    using writes by (auto simp: deletes_truly_def client_writes_def as_collection_def Delete_def item_store_def fun_eq_iff
        split: prod.splits sum.splits)
  show "puts_truly (item_store C ad) (as_collection ad)"
    unfolding puts_truly_def
  proof (intro allI impI)
    fix w stored w' and it :: item
    let ?p = "put_path (ad_path ad) (it_href it)"
    assume "coll_put (as_collection ad) it w = (Inr stored, w')"
    then obtain x st etag where x: "ad_parse ad (it_data it) = Inr x"
      and put: "dc_put (ad_client ad) ?p x w = (Inr (st, etag), w')"
      and stored: "it_href stored = (if st = [] then ?p else st)"
      by (auto simp: as_collection_def Put_def Let_def split: prod.splits sum.splits)
    from writes put put_path_starts [OF root] have "st \<in> {[], ?p}" "\<exists>et. cl_view C w' = (cl_view C w)(?p \<mapsto> (et, x))"
      unfolding client_writes_def by blast+
    then show "it_href stored = cs_at (item_store C ad) (it_href it) \<and> (\<exists>et. cs_view (item_store C ad) w' =
        (cs_view (item_store C ad) w)(cs_at (item_store C ad) (it_href it) \<mapsto> (et, cs_keep (item_store C ad) (it_data it))))"
      using stored x by (auto simp: item_store_def fun_eq_iff)
  qed
qed

lemma adapter_contract:
  assumes "client_serves C ad"
  shows "serves (item_store C ad) (as_collection ad)"
proof -
  have "strong_etags (item_store C ad)"
    using assms put_path_rooted [of _ "ad_path ad"]
    by (fastforce simp: strong_etags_def client_serves_def objects_sound_def item_store_def)
  then show ?thesis
    using adapter_lists [OF assms] adapter_reads [OF assms] adapter_writes [OF assms] by (simp add: serves_def)
qed

lemma adapter_apart:
  assumes "client_apart C ad'"
  shows "apart (item_store C ad) (as_collection ad')"
proof -
  have "cl_view C (snd (List ad' w)) = cl_view C w" "cl_view C (snd (Get ad' h w)) = cl_view C w"
    "cl_view C (snd (Put ad' it w)) = cl_view C w" "cl_view C (snd (Delete ad' h w)) = cl_view C w" for w h it
    using assms by (simp_all add: client_apart_def adapter_worlds split: sum.split)
  then show ?thesis by (auto simp: apart_def as_collection_def intro: item_store_same)
qed

text \<open>C10: the CalDAV and CardDAV adapters hand the contract of the client up to the sync engine: if the client
  tells the truth about the objects of a collection and changes them as asked, the adapter's collection does so
  about the items, with bodies as rendered, membership by the listing filter and new items below the
  collection's path; and an adapter of another endpoint leaves those items alone.\<close>

theorem adapter_serves:
  assumes "client_serves C ad" and "client_apart C ad'"
  shows "serves (item_store C ad) (as_collection ad) \<and> apart (item_store C ad) (as_collection ad')"
  using adapter_contract [OF assms(1)] adapter_apart [OF assms(2)] ..

end
