(* ===== verification/Dav_Mirrored.thy ===== *)
theory Dav_Mirrored
  imports Dav_Store
begin

text \<open>
  The one-way mirror on servers that keep the contract of \<open>Dav_Store\<close>: what it means that source and
  destination agree and that the recorded state tells the truth, and the loops of a run, step by step,
  towards that end. The results about whole runs are in \<open>Dav_Converge\<close>.
\<close>


section \<open>The specification\<close>

definition uid_of :: "(bytes \<Rightarrow> string) \<Rightarrow> string \<Rightarrow> bytes \<Rightarrow> string" where
  "uid_of uidFn h d = (if uidFn d = [] then h else uidFn d)"

text \<open>The body an entry recorded at the source, and an entry that tells the truth. It speaks of ETags and
  fingerprints only, so edits by others do not make it false.\<close>

definition source_body :: "'w store \<Rightarrow> item_state \<Rightarrow> bytes" where
  "source_body A st = cs_body A (src_href st) (src_etag st)"

definition truly_recorded ::
  "dav_env \<Rightarrow> 'w store \<Rightarrow> 'w store \<Rightarrow> (bytes \<Rightarrow> string) \<Rightarrow> string \<Rightarrow> item_state \<Rightarrow> bool" where
  "truly_recorded env A B uidFn uid st \<longleftrightarrow>
     is_uid st = uid \<and> uid = uid_of uidFn (src_href st) (source_body A st) \<and> src_href st \<noteq> [] \<and>
     src_hash st = bodyHash env (source_body A st) \<and>
     canonical (dst_href st) \<and> cs_at B (dst_href st) = dst_href st \<and> dst_etag st \<noteq> [] \<and>
     dst_hash st = bodyHash env (cs_keep B (source_body A st)) \<and>
     bodyHash env (cs_body B (dst_href st) (dst_etag st)) = dst_hash st"

definition faithful ::
  "dav_env \<Rightarrow> 'w store \<Rightarrow> 'w store \<Rightarrow> (bytes \<Rightarrow> string) \<Rightarrow> items \<Rightarrow> bool" where
  "faithful env A B uidFn its \<longleftrightarrow> map_wf its \<and>
     (\<forall>uid st. map_get its uid = Some st \<longrightarrow> truly_recorded env A B uidFn uid st) \<and>
     (\<forall>u u' st st'. map_get its u = Some st \<longrightarrow> map_get its u' = Some st' \<longrightarrow> dst_href st = dst_href st' \<longrightarrow> u = u')"

text \<open>Source and destination agree: each source item has its copy, and there is no entry besides.\<close>

definition mirrored :: "'w store \<Rightarrow> 'w store \<Rightarrow> (bytes \<Rightarrow> string) \<Rightarrow> items \<Rightarrow> 'w \<Rightarrow> bool" where
  "mirrored A B uidFn its w \<longleftrightarrow>
     (\<forall>h et d. cs_view A w h = Some (et, d) \<longrightarrow> (\<exists>st. map_get its (uid_of uidFn h d) = Some st \<and>
        src_href st = h \<and> src_etag st = et \<and> cs_view B w (dst_href st) = Some (dst_etag st, cs_keep B d))) \<and>
     (\<forall>uid st. map_get its uid = Some st \<longrightarrow>
        (\<exists>d. cs_view A w (src_href st) = Some (src_etag st, d) \<and> uid = uid_of uidFn (src_href st) d))"

text \<open>What a run needs of the collections: source items have distinct UIDs, new copies find a free href each,
  and the fingerprints tell the bodies at hand apart.\<close>

definition source_uids :: "'w store \<Rightarrow> (bytes \<Rightarrow> string) \<Rightarrow> 'w \<Rightarrow> string set" where
  "source_uids A uidFn w = {uid_of uidFn h d | h et d. cs_view A w h = Some (et, d)}"

definition distinct_uids :: "'w store \<Rightarrow> (bytes \<Rightarrow> string) \<Rightarrow> 'w \<Rightarrow> bool" where
  "distinct_uids A uidFn w \<longleftrightarrow> (\<forall>h et d h' et' d'. cs_view A w h = Some (et, d) \<longrightarrow> cs_view A w h' = Some (et', d') \<longrightarrow>
     uid_of uidFn h d = uid_of uidFn h' d' \<longrightarrow> h = h')"

definition new_home :: "'w store \<Rightarrow> options \<Rightarrow> string \<Rightarrow> string" where
  "new_home B opts uid = cs_at B (destHref uid (suffix_of opts))"

definition room_for :: "'w store \<Rightarrow> options \<Rightarrow> items \<Rightarrow> string set \<Rightarrow> bool" where
  "room_for B opts its U \<longleftrightarrow> inj_on (new_home B opts) U \<and>
     (\<forall>u\<in>U. \<forall>u' st. map_get its u' = Some st \<longrightarrow> dst_href st = new_home B opts u \<longrightarrow> u' = u)"

definition bodies_at_hand :: "'w store \<Rightarrow> 'w store \<Rightarrow> items \<Rightarrow> 'w \<Rightarrow> bytes set" where
  "bodies_at_hand A B its w = {d. \<exists>h et. cs_view A w h = Some (et, d)} \<union> {d. \<exists>h et. cs_view B w h = Some (et, d)} \<union>
     {source_body A st | uid st. map_get its uid = Some st}"

definition tells_apart :: "dav_env \<Rightarrow> 'w store \<Rightarrow> bytes set \<Rightarrow> bool" where
  "tells_apart env B X \<longleftrightarrow> inj_on (bodyHash env) (X \<union> cs_keep B ` X)"

definition mirror_setting ::
  "dav_env \<Rightarrow> 'w collection \<Rightarrow> 'w collection \<Rightarrow> 'w store \<Rightarrow> 'w store \<Rightarrow> options \<Rightarrow> (bytes \<Rightarrow> string) \<Rightarrow>
     items \<Rightarrow> 'w \<Rightarrow> bool" where
  "mirror_setting env src dst A B opts uidFn its w \<longleftrightarrow>
     serves A src \<and> serves B dst \<and> apart A dst \<and> apart B src \<and> faithful env A B uidFn its \<and>
     distinct_uids A uidFn w \<and> room_for B opts its (source_uids A uidFn w) \<and>
     tells_apart env B (bodies_at_hand A B its w) \<and> (\<forall>d. env_sha256 env d \<noteq> []) \<and>
     \<not> hasWindow opts \<and> range_order (env_range env)"


section \<open>Looking up, inspecting, writing\<close>

lemma canonical_lookup:
  assumes "serves B dst" and "coll_list dst w = (Inr ms, w')" and "canonical h"
  shows "map_option im_etag (lookupMeta (indexByHref ms) h) = map_option fst (cs_view B w h) \<and>
    (\<forall>m. lookupMeta (indexByHref ms) h = Some m \<longrightarrow> im_href m = h)"
proof (cases "lookupMeta (indexByHref ms) h")
  case None
  have "cs_view B w h = None"
  proof (rule ccontr)
    assume "cs_view B w h \<noteq> None"
    then obtain m where "m \<in> set ms" "im_href m = h"
      using servesD(3) [OF assms(1,2), of h] by (cases "cs_view B w h") (force, metis option.inject surj_pair)
    with None lookupMeta_listed [of m ms] servesD(2) [OF assms(1,2)] assms(3) show False
      by (simp add: canonical_def)
  qed
  with None show ?thesis by simp
next
  case (Some m)
  then have m: "m \<in> set ms" using lookupMeta_sound by blast
  then have view: "\<exists>d. cs_view B w (im_href m) = Some (im_etag m, d)"
    using servesD(3) [OF assms(1,2), of "im_href m" "im_etag m"] by blast
  then have "canonical (im_href m)" using servesD(1) [OF assms(1)] by blast
  then have "im_href m = h"
    using lookupMeta_sound [OF Some] assms(3) by (auto simp: canonical_def)
  with Some view show ?thesis by auto
qed

text \<open>The inspection of a truly recorded copy that nobody touched since the listing.\<close>

lemma inspectDst_serves:
  assumes "serves B dst" and "coll_list dst w0 = (Inr ms, w1)"
    and "canonical (dst_href st)" and "dst_hash st \<noteq> []"
    and "bodyHash env (cs_body B (dst_href st) (dst_etag st)) = dst_hash st"
    and "cs_view B w (dst_href st) = cs_view B w0 (dst_href st)"
    and "inspectDst env dst st (indexByHref ms) w = ((s, et, ha, e), w')"
  shows "e = None \<and> (case cs_view B w (dst_href st) of
      None \<Rightarrow> s = DstMissing
    | Some (et', d') \<Rightarrow> s = DstDrifted \<or> (s = DstOK \<and> et = et' \<and> ha = dst_hash st \<and> bodyHash env d' = dst_hash st))"
proof (cases "cs_view B w (dst_href st)")
  case None
  then have "lookupMeta (indexByHref ms) (dst_href st) = None"
    using canonical_lookup [OF assms(1-3)] assms(6) by (cases "lookupMeta (indexByHref ms) (dst_href st)") auto
  with None assms(7) show ?thesis by (auto simp: inspectDst_def split: if_splits)
next
  case (Some x)
  obtain et' d' where x: "x = (et', d')" by fastforce
  then obtain m where m: "lookupMeta (indexByHref ms) (dst_href st) = Some m" "im_href m = dst_href st" "im_etag m = et'"
    using canonical_lookup [OF assms(1-3)] Some assms(6) by (cases "lookupMeta (indexByHref ms) (dst_href st)") auto
  have view: "et' \<noteq> []" "cs_body B (dst_href st) et' = d'" "dst_href st \<noteq> []"
    using servesD(1) [OF assms(1)] Some x assms(3) by (auto simp: canonical_def)
  obtain it where "fst (coll_get dst (dst_href st) w) = Inr it" "it_etag it = et'" "it_data it = d'"
    using servesD(6) [OF assms(1)] Some x by blast
  then obtain w'' where "coll_get dst (dst_href st) w = (Inr it, w'')" "it_etag it = et'" "it_data it = d'"
    by (cases "coll_get dst (dst_href st) w") auto
  with Some x m view assms(4,5,7) show ?thesis
    by (auto simp: inspectDst_def Let_def split: if_splits)
qed

lemma inspectDst_reads:
  assumes "serves B dst" and "apart A dst" and "inspectDst env dst st idx w = (x, w')"
  shows "cs_view A w' = cs_view A w \<and> cs_view B w' = cs_view B w"
  using assms(3)
  by (auto simp: inspectDst_def Let_def split: if_splits option.splits prod.splits sum.splits
      dest: apartD(2) [OF assms(2)] servesD(5) [OF assms(1)])

lemma putMirror_serves:
  assumes "serves B dst" and "apart A dst"
    and "putMirror env dst href etag data w = (Inr (newHref, newETag, newHash), w')"
  shows "newHref = cs_at B href \<and> newHash = bodyHash env (cs_keep B data) \<and> cs_view A w' = cs_view A w \<and>
    cs_view B w' = (cs_view B w)(cs_at B href \<mapsto> (newETag, cs_keep B data))"
proof -
  let ?it = "\<lparr>it_href = href, it_etag = etag, it_data = data\<rparr>"
  obtain stored w1 where put: "coll_put dst ?it w = (Inr stored, w1)"
    using assms(3) by (auto simp: putMirror_def split: prod.splits sum.splits)
  obtain et where et: "cs_view B w1 = (cs_view B w)(cs_at B href \<mapsto> (et, cs_keep B data))"
    using servesD(8) [OF assms(1) put] by auto
  have at: "it_href stored = cs_at B href" using servesD(7) [OF assms(1) put] by simp
  have held: "cs_view B w1 (cs_at B href) = Some (et, cs_keep B data)" by (simp add: et)
  then have ne: "cs_at B href \<noteq> []" "et \<noteq> []" using servesD(1) [OF assms(1)] by (auto simp: canonical_def)
  obtain it where it: "fst (coll_get dst (cs_at B href) w1) = Inr it" "it_etag it = et" "it_data it = cs_keep B data"
    using servesD(6) [OF assms(1) held] by blast
  then obtain w2 where get: "coll_get dst (cs_at B href) w1 = (Inr it, w2)" by (cases "coll_get dst (cs_at B href) w1") auto
  from assms(3) put at ne it get have "newHref = cs_at B href" "newETag = et" "newHash = bodyHash env (cs_keep B data)" "w' = w2"
    by (auto simp: putMirror_def Let_def)
  then show ?thesis
    using et servesD(5) [OF assms(1) get] apartD(2) [OF assms(2) get] apartD(3) [OF assms(2) put] by simp
qed

lemma by_src_href_sound:
  "map_get (by_src_href env its) h = Some st \<Longrightarrow> src_href st = h \<and> (\<exists>uid. map_get its uid = Some st)"
proof -
  let ?f = "\<lambda>(uid, st) m. if src_href st \<noteq> [] then map_put (src_href st) st m else m"
  have "map_get (fold ?f xs m) h = Some st \<Longrightarrow>
      map_get m h = Some st \<or> (src_href st = h \<and> (\<exists>uid. (uid, st) \<in> set xs))" for xs m
    by (induction xs arbitrary: m) (fastforce split: if_splits)+
  from this [of "go_range (env_range env) 0 its" "[]"]
  show "map_get (by_src_href env its) h = Some st \<Longrightarrow> ?thesis"
    by (auto simp: by_src_href_def dest: go_range_sound)
qed


section \<open>The loop over the source\<close>

text \<open>Where the copy of a UID goes, and an entry whose copy is up to date.\<close>

definition home :: "'w store \<Rightarrow> options \<Rightarrow> items \<Rightarrow> string \<Rightarrow> string" where
  "home B opts its uid = (case map_get its uid of Some st \<Rightarrow> dst_href st | None \<Rightarrow> new_home B opts uid)"

definition copied ::
  "dav_env \<Rightarrow> 'w store \<Rightarrow> options \<Rightarrow> items \<Rightarrow> string \<Rightarrow> item_meta \<Rightarrow> bytes \<Rightarrow> item_state \<Rightarrow> 'w \<Rightarrow> bool" where
  "copied env B opts its uid m d st w \<longleftrightarrow>
     is_uid st = uid \<and> src_href st = im_href m \<and> src_etag st = im_etag m \<and> src_hash st = bodyHash env d \<and>
     dst_href st = home B opts its uid \<and> dst_hash st = bodyHash env (cs_keep B d) \<and>
     cs_view B w (dst_href st) = Some (dst_etag st, cs_keep B d)"

text \<open>One step of the loop, for the source item \<open>m\<close> with body \<open>d\<close>.\<close>

definition advance ::
  "dav_env \<Rightarrow> 'w store \<Rightarrow> 'w store \<Rightarrow> options \<Rightarrow> items \<Rightarrow> string \<Rightarrow> item_meta \<Rightarrow> bytes \<Rightarrow> 'w oneway \<Rightarrow> 'w oneway \<Rightarrow> bool" where
  "advance env A B opts its uid m d r t \<longleftrightarrow>
     (\<exists>st. ow_items t = map_put uid st (ow_items r) \<and> copied env B opts its uid m d st (ow_world t)) \<and>
     ow_seen t = insert uid (ow_seen r) \<and> ow_filtered t = ow_filtered r \<and>
     ow_unverified_err t = ow_unverified_err r \<and> cs_view A (ow_world t) = cs_view A (ow_world r) \<and>
     (\<forall>h. h \<noteq> home B opts its uid \<longrightarrow> cs_view B (ow_world t) h = cs_view B (ow_world r) h)"

lemma mirror_write_advances:
  assumes "serves B dst" and "apart A dst" and "map_wf (ow_items r)"
    and cur: "is_uid cur = uid" "src_href cur = im_href m" "src_etag cur = im_etag m" "src_hash cur = bodyHash env d"
    and fresh: "dst_href cur = [] \<longleftrightarrow> map_get its uid = None"
      "\<And>st. map_get its uid = Some st \<Longrightarrow> dst_href cur = dst_href st \<and> cs_at B (dst_href st) = dst_href st"
    and new: "map_get its uid = None \<Longrightarrow> status = DstMissing"
    and ok: "status = DstOK \<Longrightarrow> \<not> changed \<Longrightarrow>
      cs_view B (ow_world r) (dst_href cur) = Some (et, cs_keep B d) \<and> ha = bodyHash env (cs_keep B d)"
    and known: "status \<noteq> DstUnknown"
    and run: "mirror_write env dst opts uid cur changed d status et ha r = (None, t)"
    and seen: "ow_seen r = insert uid (ow_seen r0)" "ow_filtered r = ow_filtered r0"
      "ow_unverified_err r = ow_unverified_err r0" "ow_items r = ow_items r0"
      "cs_view A (ow_world r) = cs_view A (ow_world r0)" "cs_view B (ow_world r) = cs_view B (ow_world r0)"
  shows "advance env A B opts its uid m d r0 t"
proof (cases "status = DstOK \<and> \<not> changed")
  case True
  with new have "map_get its uid \<noteq> None" by auto
  then obtain st where st: "map_get its uid = Some st" by auto
  with True run ok fresh(2) [OF st] cur seen show ?thesis
    by (auto simp: mirror_write_def advance_def copied_def home_def)
next
  case False
  let ?href = "if status = DstMissing \<and> dst_href cur = [] then destHref uid (suffix_of opts) else dst_href cur"
  have at: "cs_at B ?href = home B opts its uid"
  proof (cases "map_get its uid")
    case None
    with new fresh(1) show ?thesis by (simp add: home_def new_home_def)
  next
    case (Some st)
    with fresh show ?thesis by (auto simp: home_def)
  qed
  from False known run obtain etag nh ne ha' w' where
    put: "putMirror env dst ?href etag d (ow_world r) = (Inr (nh, ne, ha'), w')"
    and t: "ow_world t = w'" "ow_seen t = ow_seen r" "ow_filtered t = ow_filtered r" "ow_unverified_err t = ow_unverified_err r"
      "ow_items t = map_put uid (cur\<lparr>dst_href := nh, dst_etag := ne, dst_hash := ha'\<rparr>) (ow_items r)"
    by (cases status) (auto simp: mirror_write_def Let_def split: prod.splits sum.splits if_splits)
  from putMirror_serves [OF assms(1,2) put] at cur seen t show ?thesis
    by (auto simp: advance_def copied_def)
qed

lemma settingD:
  assumes "mirror_setting env src dst A B opts uidFn its w"
  shows "serves A src" "serves B dst" "apart A dst" "apart B src" "faithful env A B uidFn its"
    "distinct_uids A uidFn w" "room_for B opts its (source_uids A uidFn w)"
    "tells_apart env B (bodies_at_hand A B its w)" "env_sha256 env x \<noteq> []" "\<not> hasWindow opts"
    "range_order (env_range env)"
  using assms by (simp_all add: mirror_setting_def)

lemma faithfulD:
  assumes "faithful env A B uidFn its"
  shows "map_wf its" "map_get its uid = Some st \<Longrightarrow> truly_recorded env A B uidFn uid st"
    "map_get its u = Some st \<Longrightarrow> map_get its u' = Some st' \<Longrightarrow> dst_href st = dst_href st' \<Longrightarrow> u = u'"
  using assms unfolding faithful_def by blast+

lemma same_fingerprint:
  assumes "mirror_setting env src dst A B opts uidFn its w"
    and "x \<in> bodies_at_hand A B its w \<union> cs_keep B ` bodies_at_hand A B its w"
    and "y \<in> bodies_at_hand A B its w \<union> cs_keep B ` bodies_at_hand A B its w"
    and "bodyHash env x = bodyHash env y"
  shows "x = y"
  using settingD(8) [OF assms(1)] assms(2-4) unfolding tells_apart_def by (meson inj_onD)

lemma at_handI:
  "cs_view A w h = Some (et, d) \<Longrightarrow> d \<in> bodies_at_hand A B its w"
  "cs_view B w h = Some (et, d) \<Longrightarrow> d \<in> bodies_at_hand A B its w"
  "map_get its uid = Some st \<Longrightarrow> source_body A st \<in> bodies_at_hand A B its w"
  by (auto simp: bodies_at_hand_def)

lemma uid_of_nonempty: "h \<noteq> [] \<Longrightarrow> uid_of uidFn h d \<noteq> []"
  by (simp add: uid_of_def)

text \<open>An entry inspected before its copy is touched: a copy found in order holds what the recorded body
  is kept as.\<close>

lemma inspect_entry:
  assumes setting: "mirror_setting env src dst A B opts uidFn its w"
    and listing: "coll_list dst w1 = (Inr ms, w2)" "cs_view B w1 = cs_view B w"
    and entry: "map_get its uid = Some st" "dst_href cur = dst_href st" "dst_etag cur = dst_etag st" "dst_hash cur = dst_hash st"
    and untouched: "cs_view B v (dst_href st) = cs_view B w (dst_href st)"
    and run: "inspectDst env dst cur (indexByHref ms) v = ((s, et, ha, e), v')"
  shows "e = None \<and> s \<noteq> DstUnknown \<and> cs_view A v' = cs_view A v \<and> cs_view B v' = cs_view B v \<and>
    (s = DstOK \<longrightarrow> cs_view B v (dst_href st) = Some (et, cs_keep B (source_body A st)) \<and> ha = dst_hash st)"
proof -
  note S = settingD [OF setting]
  have rec: "truly_recorded env A B uidFn uid st" using faithfulD(2) [OF S(5) entry(1)] .
  have "dst_hash st \<noteq> []"
    using rec bodyHash_nonempty [OF S(9)] by (simp add: truly_recorded_def)
  then have look: "e = None \<and> (case cs_view B v (dst_href st) of None \<Rightarrow> s = DstMissing
      | Some (et', d') \<Rightarrow> s = DstDrifted \<or> (s = DstOK \<and> et = et' \<and> ha = dst_hash st \<and> bodyHash env d' = dst_hash st))"
    using inspectDst_serves [OF S(2) listing(1), of cur env v s et ha e v'] rec entry(2-4) untouched listing(2) run
    by (auto simp: truly_recorded_def split: option.splits)
  have keep: "d' = cs_keep B (source_body A st)"
    if "cs_view B v (dst_href st) = Some (et', d')" "bodyHash env d' = dst_hash st" for et' d'
  proof (rule same_fingerprint [OF setting])
    show "d' \<in> bodies_at_hand A B its w \<union> cs_keep B ` bodies_at_hand A B its w"
      using that(1) untouched by (auto intro: at_handI(2))
    show "cs_keep B (source_body A st) \<in> bodies_at_hand A B its w \<union> cs_keep B ` bodies_at_hand A B its w"
      using at_handI(3) [OF entry(1), of A B w] by simp
    show "bodyHash env d' = bodyHash env (cs_keep B (source_body A st))"
      using that(2) rec by (simp add: truly_recorded_def)
  qed
  show ?thesis
    using look keep inspectDst_reads [OF S(2,3) run] by (auto split: option.splits)
qed

lemma mirror_fetch_advances:
  assumes setting: "mirror_setting env src dst A B opts uidFn its w"
    and listing: "coll_list dst w1 = (Inr ms, w2)" "cs_view B w1 = cs_view B w"
    and item: "cs_view A w (im_href m) = Some (im_etag m, d)" "uid = uid_of uidFn (im_href m) d"
    and state: "cs_view A (ow_world r) = cs_view A w" "map_wf (ow_items r)"
      "map_get (ow_items r) uid = map_get its uid"
      "cs_view B (ow_world r) (home B opts its uid) = cs_view B w (home B opts its uid)"
    and check: "ck = [] \<or> (ck = uid \<and> s \<noteq> DstOK \<and> s \<noteq> DstUnknown \<and> map_get its uid \<noteq> None)"
    and run: "mirror_fetch env src dst opts uidFn (indexByHref ms) m ck s et ha r = (None, t)"
  shows "advance env A B opts its uid m d r t"
proof -
  note S = settingD [OF setting]
  let ?old = "entry_of (ow_items r) uid"
  let ?cur = "refreshed env m uid d ?old"
  obtain it v where get: "coll_get src (im_href m) (ow_world r) = (Inr it, v)" and it: "it_data it = d"
    using servesD(6) [OF S(1), of "ow_world r" "im_href m"] item(1) state(1)
    by (cases "coll_get src (im_href m) (ow_world r)") auto
  have v: "cs_view A v = cs_view A (ow_world r)" "cs_view B v = cs_view B (ow_world r)"
    using servesD(5) [OF S(1) get] apartD(2) [OF S(4) get] by simp_all
  have uid: "body_uid uidFn m d = uid" by (simp add: item(2) body_uid_def uid_of_def)
  have window: "inWindow env opts x" for x using S(10) by (simp add: inWindow_def)
  have nonempty: "uid \<noteq> []"
    using item servesD(1) [OF S(1) item(1)] uid_of_nonempty by (auto simp: canonical_def)
  have cur: "is_uid ?cur = uid" "src_href ?cur = im_href m" "src_etag ?cur = im_etag m" "src_hash ?cur = bodyHash env d"
    by (simp_all add: refreshed_def)
  have old: "?old = (case map_get its uid of Some st \<Rightarrow> st | None \<Rightarrow> zero_item_state)"
    by (simp add: entry_of_def state(3))
  have dst: "dst_href ?cur = dst_href ?old" "dst_etag ?cur = dst_etag ?old" "dst_hash ?cur = dst_hash ?old"
    by (simp_all add: refreshed_def)
  have rec: "truly_recorded env A B uidFn uid st" if "map_get its uid = Some st" for st
    using faithfulD(2) [OF S(5) that] .
  have fresh: "dst_href ?cur = [] \<longleftrightarrow> map_get its uid = None"
    "\<And>st. map_get its uid = Some st \<Longrightarrow> dst_href ?cur = dst_href st \<and> cs_at B (dst_href st) = dst_href st"
    using rec old dst by (auto simp: zero_item_state_def truly_recorded_def canonical_def split: option.splits)
  show ?thesis
  proof (cases "ck = uid")
    case True
    let ?r = "r\<lparr>ow_world := v, ow_seen := insert uid (ow_seen r)\<rparr>"
    from True run get it uid window have
      "mirror_write env dst opts uid ?cur (src_changed env d ?old) d s et ha ?r = (None, t)"
      by (simp add: mirror_fetch_def Let_def)
    from mirror_write_advances [OF S(2,3) _ cur fresh _ _ _ this, of r] True check state nonempty v
    show ?thesis by auto
  next
    case False
    obtain s' et' ha' e v' where ins: "inspectDst env dst ?cur (indexByHref ms) v = ((s', et', ha', e), v')"
      by (metis prod_cases4 surj_pair)
    let ?r = "r\<lparr>ow_seen := insert uid (ow_seen r), ow_world := v'\<rparr>"
    have look: "e = None \<and> s' \<noteq> DstUnknown \<and> cs_view A v' = cs_view A v \<and> cs_view B v' = cs_view B v \<and>
        (map_get its uid = None \<longrightarrow> s' = DstMissing) \<and>
        (s' = DstOK \<longrightarrow> \<not> src_changed env d ?old \<longrightarrow>
          cs_view B v (dst_href ?cur) = Some (et', cs_keep B d) \<and> ha' = bodyHash env (cs_keep B d))"
    proof (cases "map_get its uid")
      case None
      with old dst ins show ?thesis by (auto simp: inspectDst_def zero_item_state_def)
    next
      case (Some st)
      then have home: "home B opts its uid = dst_href st" by (simp add: home_def)
      have ins': "e = None \<and> s' \<noteq> DstUnknown \<and> cs_view A v' = cs_view A v \<and> cs_view B v' = cs_view B v \<and>
          (s' = DstOK \<longrightarrow> cs_view B v (dst_href st) = Some (et', cs_keep B (source_body A st)) \<and> ha' = dst_hash st)"
        using inspect_entry [OF setting listing Some _ _ _ _ ins] dst old Some state(4) v home by simp
      have "source_body A st = d" if "\<not> src_changed env d ?old"
      proof -
        have "src_hash st \<noteq> []" "src_hash st = bodyHash env (source_body A st)"
          using rec [OF Some] bodyHash_nonempty [OF S(9)] by (simp_all add: truly_recorded_def)
        with that old Some have "bodyHash env (source_body A st) = bodyHash env d" by (simp add: src_changed_def)
        with same_fingerprint [OF setting] at_handI(1) [of A w "im_href m" "im_etag m" d B its] item(1)
          at_handI(3) [OF Some, of A B w]
        show ?thesis by blast
      qed
      with ins' dst old Some rec [OF Some] show ?thesis by (auto simp: truly_recorded_def)
    qed
    from look run get it uid window False ins have
      "mirror_write env dst opts uid ?cur (src_changed env d ?old) d s' et' ha'
         (r\<lparr>ow_world := v, ow_seen := insert uid (ow_seen r), ow_world := v'\<rparr>) = (None, t)"
      by (simp add: mirror_fetch_def Let_def)
    then have "mirror_write env dst opts uid ?cur (src_changed env d ?old) d s' et' ha' ?r = (None, t)" by simp
    from mirror_write_advances [OF S(2,3) _ cur fresh _ _ _ this, of r] look state v
    show ?thesis by auto
  qed
qed

text \<open>The entry under a source href whose ETag still is the listed one.\<close>

lemma listed_entry:
  assumes setting: "mirror_setting env src dst A B opts uidFn its w"
    and item: "cs_view A w (im_href m) = Some (im_etag m, d)" "uid = uid_of uidFn (im_href m) d"
    and found: "map_get (by_src_href env its) (im_href m) = Some st" "src_etag st = im_etag m"
  shows "is_uid st = uid \<and> map_get its uid = Some st \<and> source_body A st = d \<and> truly_recorded env A B uidFn uid st"
proof -
  note S = settingD [OF setting]
  from by_src_href_sound [OF found(1)] obtain u where u: "map_get its u = Some st" "src_href st = im_href m" by blast
  have rec: "truly_recorded env A B uidFn u st" using faithfulD(2) [OF S(5) u(1)] .
  have "source_body A st = d"
    using servesD(1) [OF S(1) item(1)] u(2) found(2) by (simp add: source_body_def)
  with rec u item(2) show ?thesis by (auto simp: truly_recorded_def)
qed

lemma mirror_step_advances:
  assumes setting: "mirror_setting env src dst A B opts uidFn its w"
    and listing: "coll_list dst w1 = (Inr ms, w2)" "cs_view B w1 = cs_view B w"
    and item: "cs_view A w (im_href m) = Some (im_etag m, d)" "uid = uid_of uidFn (im_href m) d"
    and state: "cs_view A (ow_world r) = cs_view A w" "map_wf (ow_items r)"
      "map_get (ow_items r) uid = map_get its uid"
      "cs_view B (ow_world r) (home B opts its uid) = cs_view B w (home B opts its uid)"
    and run: "mirror_step env src dst opts uidFn (by_src_href env its) (indexByHref ms) m r = (None, t)"
  shows "advance env A B opts its uid m d r t"
proof -
  note S = settingD [OF setting]
  note known = listed_entry [OF setting item]
  have look: "e = None \<and> s \<noteq> DstUnknown \<and> cs_view A v' = cs_view A w \<and> cs_view B v' = cs_view B (ow_world r) \<and>
      (s = DstOK \<longrightarrow> cs_view B v' (dst_href st) = Some (et, cs_keep B d) \<and> ha = dst_hash st)"
    if "map_get (by_src_href env its) (im_href m) = Some st" "src_etag st = im_etag m"
      "inspectDst env dst (case map_get (ow_items r) (is_uid st) of Some c \<Rightarrow> c | None \<Rightarrow> st) (indexByHref ms) (ow_world r)
        = ((s, et, ha, e), v')" for st s et ha e v'
    using inspect_entry [OF setting listing, of uid st st "ow_world r" s et ha e v'] known [OF that(1,2)] that(3) state
    by (simp add: home_def)
  show ?thesis
  proof (cases rule: mirror_step_cases [of "by_src_href env its" m env src dst opts uidFn "indexByHref ms" r])
    case fetch
    with mirror_fetch_advances [OF setting listing item state, of "[]" DstOK "[]" "[]" t] run show ?thesis by simp
  next
    case (unverified st s et ha e v')
    with look show ?thesis by blast
  next
    case (in_sync st et ha v')
    with known [OF in_sync(1,2)] look [OF in_sync(1,2,3)] run state by_src_href_sound [OF in_sync(1)] show ?thesis
      by (auto simp: advance_def copied_def home_def truly_recorded_def)
  next
    case (repair st s et ha v')
    with known [OF repair(1,2)] look [OF repair(1,2,4)] run
      mirror_fetch_advances [OF setting listing item, of "r\<lparr>ow_world := v'\<rparr>" "is_uid st" s et ha t] state
    show ?thesis by (auto simp: advance_def)
  qed
qed


text \<open>No two UIDs of a run share a home.\<close>

lemma home_inj:
  assumes "mirror_setting env src dst A B opts uidFn its w"
    and "u \<in> source_uids A uidFn w \<or> map_get its u \<noteq> None" and "u' \<in> source_uids A uidFn w \<or> map_get its u' \<noteq> None"
    and "home B opts its u = home B opts its u'"
  shows "u = u'"
proof -
  note room = settingD(7) [OF assms(1)]
  have clash: "x = y" if "map_get its x = Some st" "y \<in> source_uids A uidFn w" "dst_href st = new_home B opts y" for x y st
    using room that by (auto simp: room_for_def)
  show ?thesis
  proof (cases "map_get its u"; cases "map_get its u'")
    assume "map_get its u = None" "map_get its u' = None"
    with assms(2-4) room show ?thesis by (auto simp: home_def room_for_def dest: inj_onD)
  next
    fix st assume "map_get its u = None" "map_get its u' = Some st"
    with assms(2,4) clash [of u' st u] show ?thesis by (simp add: home_def)
  next
    fix st assume "map_get its u = Some st" "map_get its u' = None"
    with assms(3,4) clash [of u st u'] show ?thesis by (simp add: home_def)
  next
    fix st st' assume "map_get its u = Some st" "map_get its u' = Some st'"
    with assms(4) faithfulD(3) [OF settingD(5) [OF assms(1)]] show ?thesis by (simp add: home_def)
  qed
qed

definition body_at :: "'w store \<Rightarrow> 'w \<Rightarrow> item_meta \<Rightarrow> bytes" where
  "body_at A w m = snd (the (cs_view A w (im_href m)))"

definition uid_at :: "'w store \<Rightarrow> (bytes \<Rightarrow> string) \<Rightarrow> 'w \<Rightarrow> item_meta \<Rightarrow> string" where
  "uid_at A uidFn w m = uid_of uidFn (im_href m) (body_at A w m)"

definition progress ::
  "dav_env \<Rightarrow> 'w store \<Rightarrow> 'w store \<Rightarrow> options \<Rightarrow> (bytes \<Rightarrow> string) \<Rightarrow> items \<Rightarrow> 'w \<Rightarrow> item_meta list \<Rightarrow> 'w oneway \<Rightarrow> bool" where
  "progress env A B opts uidFn its w ms r \<longleftrightarrow>
     cs_view A (ow_world r) = cs_view A w \<and> map_wf (ow_items r) \<and> ow_filtered r = {} \<and>
     ow_unverified_err r = None \<and> ow_seen r = uid_at A uidFn w ` set ms \<and>
     (\<forall>uid. uid \<notin> ow_seen r \<longrightarrow> map_get (ow_items r) uid = map_get its uid) \<and>
     (\<forall>m\<in>set ms. \<exists>st. map_get (ow_items r) (uid_at A uidFn w m) = Some st \<and>
        copied env B opts its (uid_at A uidFn w m) m (body_at A w m) st (ow_world r)) \<and>
     (\<forall>h. h \<notin> home B opts its ` ow_seen r \<longrightarrow> cs_view B (ow_world r) h = cs_view B w h)"

lemma progress_step:
  assumes setting: "mirror_setting env src dst A B opts uidFn its w"
    and r: "progress env A B opts uidFn its w ms r"
    and ms: "uid_at A uidFn w ` set ms \<subseteq> source_uids A uidFn w"
    and m: "uid \<in> source_uids A uidFn w" "uid = uid_at A uidFn w m" "uid \<notin> ow_seen r"
    and step: "advance env A B opts its uid m (body_at A w m) r t"
  shows "progress env A B opts uidFn its w (ms @ [m]) t"
proof -
  obtain st where st: "ow_items t = map_put uid st (ow_items r)"
    "copied env B opts its uid m (body_at A w m) st (ow_world t)"
    and rest: "ow_seen t = insert uid (ow_seen r)" "ow_filtered t = ow_filtered r"
      "ow_unverified_err t = ow_unverified_err r" "cs_view A (ow_world t) = cs_view A (ow_world r)"
      "\<And>h. h \<noteq> home B opts its uid \<Longrightarrow> cs_view B (ow_world t) h = cs_view B (ow_world r) h"
    using step by (auto simp: advance_def)
  have seen: "ow_seen r = uid_at A uidFn w ` set ms" using r by (simp add: progress_def)
  have "\<exists>st'. map_get (ow_items t) (uid_at A uidFn w m') = Some st' \<and>
      copied env B opts its (uid_at A uidFn w m') m' (body_at A w m') st' (ow_world t)" if "m' \<in> set ms" for m'
  proof -
    let ?u = "uid_at A uidFn w m'"
    have other: "?u \<noteq> uid" "?u \<in> source_uids A uidFn w" using that m(3) seen ms by auto
    with home_inj [OF setting, of ?u uid] m(1) have "home B opts its ?u \<noteq> home B opts its uid" by blast
    then have "cs_view B (ow_world t) (home B opts its ?u) = cs_view B (ow_world r) (home B opts its ?u)" by (rule rest(5))
    with r that st(1) other(1) show ?thesis by (auto simp: progress_def copied_def)
  qed
  moreover have "cs_view B (ow_world t) h = cs_view B w h" if "h \<notin> home B opts its ` ow_seen t" for h
    using that rest(1,5) r by (auto simp: progress_def)
  ultimately show ?thesis
    using r st rest m(2) seen by (auto simp: progress_def)
qed

text \<open>What the listing of the source says about one of its items.\<close>

lemma listed_item:
  assumes "mirror_setting env src dst A B opts uidFn its w" and "coll_list src w = (Inr srcList, w1)"
    and "m \<in> set srcList"
  shows "cs_view A w (im_href m) = Some (im_etag m, body_at A w m)" "uid_at A uidFn w m \<in> source_uids A uidFn w"
proof -
  show item: "cs_view A w (im_href m) = Some (im_etag m, body_at A w m)"
    using servesD(3) [OF settingD(1) [OF assms(1)] assms(2), of "im_href m" "im_etag m"] assms(3)
    by (auto simp: body_at_def)
  then show "uid_at A uidFn w m \<in> source_uids A uidFn w" by (auto simp: source_uids_def uid_at_def)
qed

text \<open>The next item of the loop is new, and its home untouched.\<close>

lemma next_item:
  assumes setting: "mirror_setting env src dst A B opts uidFn its w"
    and source: "coll_list src w = (Inr srcList, w1)" "srcList = dn @ m # rest"
    and r: "progress env A B opts uidFn its w dn r"
  shows "uid_at A uidFn w m \<notin> ow_seen r" "uid_at A uidFn w ` set dn \<subseteq> source_uids A uidFn w"
    "cs_view A (ow_world r) = cs_view A w" "map_wf (ow_items r)"
    "map_get (ow_items r) (uid_at A uidFn w m) = map_get its (uid_at A uidFn w m)"
    "cs_view B (ow_world r) (home B opts its (uid_at A uidFn w m)) = cs_view B w (home B opts its (uid_at A uidFn w m))"
proof -
  note S = settingD [OF setting]
  note item = listed_item [OF setting source(1)]
  let ?u = "uid_at A uidFn w m"
  have m: "m \<in> set srcList" "set dn \<subseteq> set srcList" using source(2) by auto
  have fresh: "im_href m \<notin> im_href ` set dn" using servesD(2) [OF S(1) source(1)] source(2) by simp
  have seen: "ow_seen r = uid_at A uidFn w ` set dn" using r by (simp add: progress_def)
  have same: "im_href m = im_href m'" if "m' \<in> set srcList" "?u = uid_at A uidFn w m'" for m'
    using S(6) item(1) [OF m(1)] item(1) [OF that(1)] that(2) unfolding distinct_uids_def uid_at_def by blast
  show new: "?u \<notin> ow_seen r"
  proof
    assume "?u \<in> ow_seen r"
    then obtain m' where "m' \<in> set dn" "?u = uid_at A uidFn w m'" unfolding seen by blast
    with same [of m'] m(2) fresh show False by blast
  qed
  show sub: "uid_at A uidFn w ` set dn \<subseteq> source_uids A uidFn w" using m(2) item(2) by blast
  have "home B opts its ?u \<notin> home B opts its ` ow_seen r"
    using home_inj [OF setting] item(2) [OF m(1)] sub new unfolding seen by blast
  then show "cs_view B (ow_world r) (home B opts its ?u) = cs_view B w (home B opts its ?u)"
    using r by (simp add: progress_def)
  show "cs_view A (ow_world r) = cs_view A w" "map_wf (ow_items r)" "map_get (ow_items r) ?u = map_get its ?u"
    using r new unfolding progress_def by blast+
qed

lemma loop_step_mirrors:
  assumes setting: "mirror_setting env src dst A B opts uidFn its w"
    and source: "coll_list src w = (Inr srcList, w1)" "srcList = dn @ m # rest"
    and listing: "coll_list dst w1 = (Inr ms, w2)"
    and r: "progress env A B opts uidFn its w dn r"
    and step: "mirror_step env src dst opts uidFn (by_src_href env its) (indexByHref ms) m r = (None, t)"
  shows "progress env A B opts uidFn its w (dn @ [m]) t"
proof -
  have m: "m \<in> set srcList" using source(2) by simp
  note item = listed_item [OF setting source(1) m]
  note N = next_item [OF setting source r]
  have "uid_at A uidFn w m = uid_of uidFn (im_href m) (body_at A w m)" by (simp add: uid_at_def)
  from mirror_step_advances [OF setting listing apartD(1) [OF settingD(4) [OF setting] source(1)] item(1) this N(3-6) step]
  have "advance env A B opts its (uid_at A uidFn w m) m (body_at A w m) r t" .
  from progress_step [OF setting r N(2) item(2) refl N(1) this] show ?thesis .
qed

lemma progress_start:
  assumes setting: "mirror_setting env src dst A B opts uidFn its w"
    and "coll_list src w = (Inr srcList, w1)" and "coll_list dst w1 = (Inr ms, w2)"
  shows "progress env A B opts uidFn its w [] (start_oneway its w2)"
  using servesD(4) [OF settingD(1) [OF setting] assms(2)] apartD(1) [OF settingD(4) [OF setting] assms(2)]
    servesD(4) [OF settingD(2) [OF setting] assms(3)] apartD(1) [OF settingD(3) [OF setting] assms(3)]
    faithfulD(1) [OF settingD(5) [OF setting]]
  by (simp add: progress_def start_oneway_def)

lemma loop_mirrors:
  assumes setting: "mirror_setting env src dst A B opts uidFn its w"
    and source: "coll_list src w = (Inr srcList, w1)"
    and listing: "coll_list dst w1 = (Inr ms, w2)"
    and run: "foreach (mirror_step env src dst opts uidFn (by_src_href env its) (indexByHref ms)) srcList
      (start_oneway its w2) = (None, r)"
  shows "progress env A B opts uidFn its w srcList r"
  using progress_start [OF setting source listing] loop_step_mirrors [OF setting source _ listing]
  by (rule foreach_inv_prefix [where I = "\<lambda>dn r. progress env A B opts uidFn its w dn r", OF run])


section \<open>The deletion pass\<close>

definition pruned ::
  "'w store \<Rightarrow> 'w store \<Rightarrow> options \<Rightarrow> items \<Rightarrow> 'w \<Rightarrow> 'w oneway \<Rightarrow> string set \<Rightarrow> 'w oneway \<Rightarrow> bool" where
  "pruned A B opts its w r1 gone r \<longleftrightarrow>
     cs_view A (ow_world r) = cs_view A w \<and> map_wf (ow_items r) \<and> ow_seen r = ow_seen r1 \<and> ow_filtered r = {} \<and>
     ow_unverified_err r = None \<and>
     (\<forall>uid. map_get (ow_items r) uid = (if uid \<in> gone then None else map_get (ow_items r1) uid)) \<and>
     (\<forall>h. cs_view B (ow_world r) h = (if h \<in> home B opts its ` gone then None else cs_view B (ow_world r1) h))"

lemma delete_step_prunes:
  assumes setting: "mirror_setting env src dst A B opts uidFn its w"
    and listing: "coll_list dst w1 = (Inr ms, w2)" "cs_view B w1 = cs_view B w"
    and r1: "progress env A B opts uidFn its w srcList r1" "ow_seen r1 \<subseteq> source_uids A uidFn w"
    and r: "pruned A B opts its w r1 gone r"
    and entry: "map_get (ow_items r1) uid = Some st" "uid \<notin> ow_seen r1"
    and step: "delete_step dst (indexByHref ms) (uid, st) r = (None, t)"
  shows "pruned A B opts its w r1 (insert uid gone) t"
proof -
  note S = settingD [OF setting]
  have its: "map_get its uid = Some st" using r1(1) entry by (simp add: progress_def)
  then have home: "home B opts its uid = dst_href st" by (simp add: home_def)
  have rec: "canonical (dst_href st)" "dst_href st \<noteq> []"
    using faithfulD(2) [OF S(5) its] by (simp_all add: truly_recorded_def canonical_def)
  have "dst_href st \<notin> home B opts its ` ow_seen r1"
  proof
    assume "dst_href st \<in> home B opts its ` ow_seen r1"
    then obtain u where "u \<in> ow_seen r1" "home B opts its uid = home B opts its u" using home by force
    with home_inj [OF setting, of uid u] its r1(2) entry(2) show False by blast
  qed
  then have before: "cs_view B (ow_world r1) (dst_href st) = cs_view B w (dst_href st)"
    using r1(1) by (simp add: progress_def)
  have unseen: "uid \<notin> ow_seen r" "uid \<notin> ow_filtered r" using r entry(2) by (simp_all add: pruned_def)
  show ?thesis
  proof (cases "lookupMeta (indexByHref ms) (dst_href st)")
    case None
    then have "cs_view B w (dst_href st) = None"
      using canonical_lookup [OF S(2) listing(1) rec(1)] listing(2) by (cases "cs_view B w (dst_href st)") auto
    moreover have "t = r\<lparr>ow_items := map_del uid (ow_items r)\<rparr>"
      using step unseen None by (simp add: delete_step_def)
    ultimately show ?thesis using r home before by (auto simp: pruned_def)
  next
    case (Some m)
    then obtain u w' where del: "coll_delete dst (dst_href st) (ow_world r) = (Inr u, w')"
      and t: "ow_world t = w'" "ow_items t = map_del uid (ow_items r)" "ow_seen t = ow_seen r"
        "ow_filtered t = ow_filtered r" "ow_unverified_err t = ow_unverified_err r"
      using step unseen rec(2) by (auto simp: delete_step_def split: prod.splits sum.splits)
    from servesD(9) [OF S(2) del] apartD(4) [OF S(3) del] t r home show ?thesis
      by (auto simp: pruned_def)
  qed
qed

lemma prune_step:
  assumes setting: "mirror_setting env src dst A B opts uidFn its w"
    and listing: "coll_list dst w1 = (Inr ms, w2)" "cs_view B w1 = cs_view B w"
    and r1: "progress env A B opts uidFn its w srcList r1" "ow_seen r1 \<subseteq> source_uids A uidFn w"
    and todo: "go_range (env_range env) 1 (ow_items r1) = dn @ x # rest"
    and r: "pruned A B opts its w r1 (fst ` set dn - ow_seen r1) r"
    and step: "delete_step dst (indexByHref ms) x r = (None, t)"
  shows "pruned A B opts its w r1 (fst ` set (dn @ [x]) - ow_seen r1) t"
proof -
  obtain uid st where x: "x = (uid, st)" by fastforce
  then have "(uid, st) \<in> set (go_range (env_range env) 1 (ow_items r1))" using todo by simp
  then have st: "map_get (ow_items r1) uid = Some st" by (rule go_range_sound)
  show ?thesis
  proof (cases "uid \<in> ow_seen r1")
    case True
    with step x r have "t = r" by (simp add: delete_step_skip pruned_def)
    with True x r show ?thesis by (simp add: insert_Diff_if)
  next
    case False
    with delete_step_prunes [OF setting listing r1 r st] step x show ?thesis by (simp add: insert_Diff_if)
  qed
qed

lemma pruned_start: "progress env A B opts uidFn its w srcList r1 \<Longrightarrow> pruned A B opts its w r1 {} r1"
  by (simp add: pruned_def progress_def)

lemma deletions_prune:
  assumes setting: "mirror_setting env src dst A B opts uidFn its w"
    and listing: "coll_list dst w1 = (Inr ms, w2)" "cs_view B w1 = cs_view B w"
    and r1: "progress env A B opts uidFn its w srcList r1" "ow_seen r1 \<subseteq> source_uids A uidFn w"
    and run: "foreach (delete_step dst (indexByHref ms)) (go_range (env_range env) 1 (ow_items r1)) r1 = (None, r)"
  shows "pruned A B opts its w r1 ({uid. map_get (ow_items r1) uid \<noteq> None} - ow_seen r1) r"
proof -
  let ?todo = "go_range (env_range env) 1 (ow_items r1)"
  have "pruned A B opts its w r1 (fst ` set ?todo - ow_seen r1) r"
    by (rule foreach_inv_prefix [where I = "\<lambda>dn r. pruned A B opts its w r1 (fst ` set dn - ow_seen r1) r", OF run])
      (simp add: pruned_start [OF r1(1)], rule prune_step [OF setting listing r1])
  moreover have "fst ` set ?todo = {uid. map_get (ow_items r1) uid \<noteq> None}"
    using go_range_iff [OF settingD(11) [OF setting], of _ _ 1 "ow_items r1"] by force
  ultimately show ?thesis by simp
qed

end
