(* ===== verification/Dav_Converge.thy ===== *)
theory Dav_Converge
  imports Dav_Mirrored
begin

text \<open>
  What a one-way run achieves on servers that keep the contract of \<open>Dav_Store\<close>: if it reports no error,
  the destination holds the copy of every source item and none of an item the source no longer has, the
  recorded state describes both sides truly, and the next run finds nothing to do. Between runs both
  collections may be edited by anyone.
\<close>


section \<open>A whole run\<close>

text \<open>A run without an error, from its listings to its end.\<close>

lemma run_mirrors:
  assumes setting: "mirror_setting env src dst A B opts uidFn its w"
    and ok: "so_err (syncOneWay env src dst its opts uidFn w) = None"
    and out: "out = syncOneWay env src dst its opts uidFn w"
  obtains srcList r1 where
    "\<And>h et. (\<exists>m\<in>set srcList. im_href m = h \<and> im_etag m = et) \<longleftrightarrow> (\<exists>d. cs_view A w h = Some (et, d))"
    "progress env A B opts uidFn its w srcList r1" "ow_seen r1 = source_uids A uidFn w"
    "cs_view A (so_world out) = cs_view A w" "map_wf (so_items out)"
    "\<And>uid. map_get (so_items out) uid = (if uid \<in> ow_seen r1 then map_get (ow_items r1) uid else None)"
    "\<And>h. cs_view B (so_world out) h = (if h \<in> home B opts its ` ({uid. map_get its uid \<noteq> None} - ow_seen r1) then None
      else cs_view B (ow_world r1) h)"
proof -
  note S = settingD [OF setting]
  show thesis
  proof (cases rule: syncOneWay_cases [of src w dst env its opts uidFn])
    case (aborted e w')
    with ok show thesis by simp
  next
    case (ran srcList w1 dstList w2)
    obtain e r where pass: "mirror_pass env src dst opts uidFn its srcList (indexByHref dstList) w2 = (e, r)" by fastforce
    with ok ran(5) have "e = None" by (auto simp: finish_oneway_def split: option.splits)
    then obtain r1 where loop: "foreach (mirror_step env src dst opts uidFn (by_src_href env its) (indexByHref dstList))
        srcList (start_oneway its w2) = (None, r1)"
      and del: "foreach (delete_step dst (indexByHref dstList)) (go_range (env_range env) 1 (ow_items r1)) r1 = (None, r)"
      using pass by (auto simp: mirror_pass_def split: prod.splits option.splits)
    have listed: "(\<exists>m\<in>set srcList. im_href m = h \<and> im_etag m = et) \<longleftrightarrow> (\<exists>d. cs_view A w h = Some (et, d))" for h et
      using servesD(3) [OF S(1) ran(1)] .
    have r1: "progress env A B opts uidFn its w srcList r1" using loop_mirrors [OF setting ran(1,3) loop] .
    have "uid_at A uidFn w ` set srcList = source_uids A uidFn w"
    proof (intro equalityI subsetI)
      fix u assume "u \<in> uid_at A uidFn w ` set srcList"
      then obtain m where m: "m \<in> set srcList" "u = uid_at A uidFn w m" by blast
      with listed [of "im_href m" "im_etag m"] obtain d where "cs_view A w (im_href m) = Some (im_etag m, d)" by blast
      with m(2) show "u \<in> source_uids A uidFn w" unfolding source_uids_def uid_at_def body_at_def by fastforce
    next
      fix u assume "u \<in> source_uids A uidFn w"
      then obtain h et d where hd: "cs_view A w h = Some (et, d)" "u = uid_of uidFn h d" by (auto simp: source_uids_def)
      with listed [of h et] obtain m where "m \<in> set srcList" "im_href m = h" by blast
      with hd show "u \<in> uid_at A uidFn w ` set srcList" by (force simp: uid_at_def body_at_def)
    qed
    with r1 have seen: "ow_seen r1 = source_uids A uidFn w" by (simp add: progress_def)
    have w1: "cs_view B w1 = cs_view B w" using apartD(1) [OF S(4) ran(1)] .
    have r: "pruned A B opts its w r1 ({uid. map_get (ow_items r1) uid \<noteq> None} - ow_seen r1) r"
      using deletions_prune [OF setting ran(3) w1 r1 _ del] seen by simp
    have gone: "{uid. map_get (ow_items r1) uid \<noteq> None} - ow_seen r1 = {uid. map_get its uid \<noteq> None} - ow_seen r1"
      using r1 by (auto simp: progress_def)
    have "out = finish_oneway (None, r)" using out ran(5) pass \<open>e = None\<close> by simp
    moreover have "map_get (ow_items r) uid = (if uid \<in> ow_seen r1 then map_get (ow_items r1) uid else None)" for uid
      using r by (auto simp: pruned_def)
    ultimately show thesis using that [OF listed r1 seen] r unfolding gone by (simp add: pruned_def)
  qed
qed


text \<open>The entry a run leaves for a source item.\<close>

lemma mirrored_entry:
  assumes setting: "mirror_setting env src dst A B opts uidFn its w"
    and r1: "progress env A B opts uidFn its w srcList r1" "ow_seen r1 = source_uids A uidFn w"
    and view: "\<And>h. v h = (if h \<in> home B opts its ` ({uid. map_get its uid \<noteq> None} - ow_seen r1) then None
      else cs_view B (ow_world r1) h)"
    and m: "m \<in> set srcList" "cs_view A w (im_href m) = Some (et, d)"
  shows "\<exists>st. map_get (ow_items r1) (uid_of uidFn (im_href m) d) = Some st \<and> src_href st = im_href m \<and>
    src_etag st = im_etag m \<and> src_hash st = bodyHash env d \<and> is_uid st = uid_of uidFn (im_href m) d \<and>
    dst_href st = home B opts its (uid_of uidFn (im_href m) d) \<and> dst_hash st = bodyHash env (cs_keep B d) \<and>
    v (dst_href st) = Some (dst_etag st, cs_keep B d) \<and> cs_view B (ow_world r1) (dst_href st) = Some (dst_etag st, cs_keep B d)"
proof -
  let ?u = "uid_of uidFn (im_href m) d"
  have "uid_at A uidFn w m = ?u" "body_at A w m = d" using m(2) by (simp_all add: uid_at_def body_at_def)
  with r1(1) m(1) obtain st where st: "map_get (ow_items r1) ?u = Some st"
    "copied env B opts its ?u m d st (ow_world r1)" by (fastforce simp: progress_def)
  have u: "?u \<in> source_uids A uidFn w" using m(2) by (auto simp: source_uids_def)
  have "home B opts its ?u \<notin> home B opts its ` ({uid. map_get its uid \<noteq> None} - ow_seen r1)"
  proof
    assume "home B opts its ?u \<in> home B opts its ` ({uid. map_get its uid \<noteq> None} - ow_seen r1)"
    then obtain u' where "map_get its u' \<noteq> None" "u' \<notin> ow_seen r1" "home B opts its ?u = home B opts its u'" by blast
    with home_inj [OF setting, of ?u u'] u r1(2) show False by simp
  qed
  with st view show ?thesis by (auto simp: copied_def)
qed

text \<open>What the entries left by a run say: one for each source item, in the order of the run's facts.\<close>

lemma run_entries:
  assumes setting: "mirror_setting env src dst A B opts uidFn its w"
    and ok: "so_err (syncOneWay env src dst its opts uidFn w) = None"
    and out: "out = syncOneWay env src dst its opts uidFn w"
  shows "cs_view A (so_world out) = cs_view A w" "map_wf (so_items out)"
    "cs_view A w h = Some (et, d) \<Longrightarrow> \<exists>st. map_get (so_items out) (uid_of uidFn h d) = Some st \<and> src_href st = h \<and>
       src_etag st = et \<and> cs_view B (so_world out) (dst_href st) = Some (dst_etag st, cs_keep B d)"
    "map_get (so_items out) uid = Some st \<Longrightarrow> \<exists>d. cs_view A w (src_href st) = Some (src_etag st, d) \<and>
       uid = uid_of uidFn (src_href st) d \<and> is_uid st = uid \<and> src_hash st = bodyHash env d \<and>
       dst_href st = home B opts its uid \<and> dst_hash st = bodyHash env (cs_keep B d) \<and>
       cs_view B (so_world out) (dst_href st) = Some (dst_etag st, cs_keep B d)"
    "cs_view B (so_world out) h = (if h \<in> recorded_dst (so_items out) then cs_view B (so_world out) h
       else if h \<in> recorded_dst its then None else cs_view B w h)"
proof -
  note S = settingD [OF setting]
  obtain srcList r1 where
    listed: "\<And>h et. (\<exists>m\<in>set srcList. im_href m = h \<and> im_etag m = et) \<longleftrightarrow> (\<exists>d. cs_view A w h = Some (et, d))"
    and r1: "progress env A B opts uidFn its w srcList r1" "ow_seen r1 = source_uids A uidFn w"
    and same: "cs_view A (so_world out) = cs_view A w" "map_wf (so_items out)"
    and items: "\<And>uid. map_get (so_items out) uid = (if uid \<in> ow_seen r1 then map_get (ow_items r1) uid else None)"
    and view: "\<And>h. cs_view B (so_world out) h = (if h \<in> home B opts its ` ({uid. map_get its uid \<noteq> None} - ow_seen r1) then None
      else cs_view B (ow_world r1) h)"
    by (rule run_mirrors [OF setting ok out, where thesis = thesis]) (rule that, blast+)
  have entry: "\<exists>st. map_get (so_items out) (uid_of uidFn h d) = Some st \<and> src_href st = h \<and> src_etag st = et \<and>
      is_uid st = uid_of uidFn h d \<and> src_hash st = bodyHash env d \<and> dst_href st = home B opts its (uid_of uidFn h d) \<and>
      dst_hash st = bodyHash env (cs_keep B d) \<and> cs_view B (so_world out) (dst_href st) = Some (dst_etag st, cs_keep B d)"
    if "cs_view A w h = Some (et, d)" for h et d
  proof -
    from that have "\<exists>d. cs_view A w h = Some (et, d)" by blast
    with listed obtain m where m: "m \<in> set srcList" "im_href m = h" "im_etag m = et" by blast
    have "uid_of uidFn h d \<in> ow_seen r1" using that r1(2) by (auto simp: source_uids_def)
    with mirrored_entry [OF setting r1 view m(1), of et d] m that items show ?thesis by auto
  qed
  show "cs_view A (so_world out) = cs_view A w" "map_wf (so_items out)" by (fact same)+
  show "cs_view A w h = Some (et, d) \<Longrightarrow> \<exists>st. map_get (so_items out) (uid_of uidFn h d) = Some st \<and> src_href st = h \<and>
       src_etag st = et \<and> cs_view B (so_world out) (dst_href st) = Some (dst_etag st, cs_keep B d)"
    using entry by blast
  have known: "\<exists>h et d. cs_view A w h = Some (et, d) \<and> uid = uid_of uidFn h d" if "map_get (so_items out) uid = Some st" for uid st
  proof -
    from that items [of uid] have "uid \<in> ow_seen r1" by (simp split: if_splits)
    with r1(2) show ?thesis by (auto simp: source_uids_def)
  qed
  show "\<exists>d. cs_view A w (src_href st) = Some (src_etag st, d) \<and>
       uid = uid_of uidFn (src_href st) d \<and> is_uid st = uid \<and> src_hash st = bodyHash env d \<and>
       dst_href st = home B opts its uid \<and> dst_hash st = bodyHash env (cs_keep B d) \<and>
       cs_view B (so_world out) (dst_href st) = Some (dst_etag st, cs_keep B d)" if st: "map_get (so_items out) uid = Some st"
  proof -
    obtain h et d where h: "cs_view A w h = Some (et, d)" "uid = uid_of uidFn h d" using known [OF st] by blast
    with entry [OF h(1)] st show ?thesis by auto
  qed
  have homes: "h \<in> recorded_dst (so_items out) \<longleftrightarrow> h \<in> home B opts its ` ow_seen r1" for h
  proof
    assume "h \<in> recorded_dst (so_items out)"
    then obtain uid st where st: "map_get (so_items out) uid = Some st" "h = dst_href st" by (auto simp: recorded_dst_def)
    with items [of uid] have u: "uid \<in> ow_seen r1" by (simp split: if_splits)
    obtain h' et d where h: "cs_view A w h' = Some (et, d)" "uid = uid_of uidFn h' d" using known [OF st(1)] by blast
    with entry [OF h(1)] st u show "h \<in> home B opts its ` ow_seen r1" by auto
  next
    assume "h \<in> home B opts its ` ow_seen r1"
    then obtain h' et d where h: "cs_view A w h' = Some (et, d)" "h = home B opts its (uid_of uidFn h' d)"
      using r1(2) by (auto simp: source_uids_def)
    with entry [OF h(1)] obtain st where st: "map_get (so_items out) (uid_of uidFn h' d) = Some st" "dst_href st = h"
      "cs_view B (so_world out) h = Some (dst_etag st, cs_keep B d)" by auto
    have "h \<noteq> []" using servesD(1) [OF S(2) st(3)] by (simp add: canonical_def)
    with st show "h \<in> recorded_dst (so_items out)" by (auto simp: recorded_dst_def)
  qed
  have recorded: "h \<in> recorded_dst its \<longleftrightarrow> h \<in> home B opts its ` {uid. map_get its uid \<noteq> None}" for h
    using faithfulD(2) [OF S(5)] by (force simp: recorded_dst_def home_def truly_recorded_def canonical_def)
  show "cs_view B (so_world out) h = (if h \<in> recorded_dst (so_items out) then cs_view B (so_world out) h
       else if h \<in> recorded_dst its then None else cs_view B w h)" for h
  proof (cases "h \<in> home B opts its ` ow_seen r1")
    case True
    then show ?thesis by (simp add: homes)
  next
    case False
    with r1(1) have "cs_view B (ow_world r1) h = cs_view B w h" by (simp add: progress_def)
    with False show ?thesis unfolding homes recorded by (subst view) auto
  qed
qed

lemma run_faithful:
  assumes setting: "mirror_setting env src dst A B opts uidFn its w"
    and ok: "so_err (syncOneWay env src dst its opts uidFn w) = None"
    and out: "out = syncOneWay env src dst its opts uidFn w"
  shows "mirrored A B uidFn (so_items out) (so_world out)" "faithful env A B uidFn (so_items out)"
proof -
  note S = settingD [OF setting]
  note E = run_entries [OF assms]
  show "mirrored A B uidFn (so_items out) (so_world out)"
    unfolding mirrored_def E(1) using E(3,4) by blast
  have "truly_recorded env A B uidFn uid st" if st: "map_get (so_items out) uid = Some st" for uid st
  proof -
    obtain d where d: "cs_view A w (src_href st) = Some (src_etag st, d)" "uid = uid_of uidFn (src_href st) d"
      "is_uid st = uid" "src_hash st = bodyHash env d" "dst_hash st = bodyHash env (cs_keep B d)"
      "cs_view B (so_world out) (dst_href st) = Some (dst_etag st, cs_keep B d)"
      using E(4) [OF st] by blast
    then show ?thesis
      using servesD(1) [OF S(1) d(1)] servesD(1) [OF S(2) d(6)]
      by (auto simp: truly_recorded_def source_body_def canonical_def)
  qed
  moreover have "u = u'" if st: "map_get (so_items out) u = Some st" "map_get (so_items out) u' = Some st'"
    "dst_href st = dst_href st'" for u u' st st'
  proof -
    obtain d where d: "cs_view A w (src_href st) = Some (src_etag st, d)" "u = uid_of uidFn (src_href st) d"
      "dst_href st = home B opts its u" using E(4) [OF st(1)] by blast
    obtain d' where d': "cs_view A w (src_href st') = Some (src_etag st', d')" "u' = uid_of uidFn (src_href st') d'"
      "dst_href st' = home B opts its u'" using E(4) [OF st(2)] by blast
    have "u \<in> source_uids A uidFn w" "u' \<in> source_uids A uidFn w" using d d' by (auto simp: source_uids_def)
    with home_inj [OF setting, of u u'] d(3) d'(3) st(3) show ?thesis by simp
  qed
  ultimately show "faithful env A B uidFn (so_items out)"
    using E(2) unfolding faithful_def by blast
qed

text \<open>C6: the one-way mirror does what it is for. On servers that keep the contract, starting from a state
  that tells the truth, a run without an error leaves both sides agreeing: each source item has its copy at
  the destination, recorded truly, under the href of its entry; copies of items the source lost are gone;
  the source and every item at the destination that is neither are untouched.\<close>

theorem oneway_mirrors:
  assumes "mirror_setting env src dst A B opts uidFn its w"
    and "so_err (syncOneWay env src dst its opts uidFn w) = None"
    and "out = syncOneWay env src dst its opts uidFn w"
  shows "mirrored A B uidFn (so_items out) (so_world out) \<and> faithful env A B uidFn (so_items out) \<and>
    cs_view A (so_world out) = cs_view A w \<and>
    (\<forall>h. h \<notin> recorded_dst (so_items out) \<longrightarrow>
      cs_view B (so_world out) h = (if h \<in> recorded_dst its then None else cs_view B w h))"
  using run_faithful [OF assms] run_entries(1) [OF assms] run_entries(5) [OF assms] by metis



section \<open>Runs without failures\<close>

text \<open>A server that answers: it takes what is written at the hrefs of \<open>H\<close> and removes what it holds.\<close>

definition answers :: "'w store \<Rightarrow> 'w collection \<Rightarrow> string set \<Rightarrow> bool" where
  "answers S c H \<longleftrightarrow> (\<forall>w it. cs_at S (it_href it) \<in> H \<longrightarrow> is_ok (fst (coll_put c it w))) \<and>
     (\<forall>w h. cs_view S w h \<noteq> None \<longrightarrow> is_ok (fst (coll_delete c h w)))"

lemma foreach_completes:
  assumes "I [] s"
    and "\<And>dn x rest s t. xs = dn @ x # rest \<Longrightarrow> I dn s \<Longrightarrow> body x s = (None, t) \<Longrightarrow> I (dn @ [x]) t"
    and "\<And>dn x rest s. xs = dn @ x # rest \<Longrightarrow> I dn s \<Longrightarrow> fst (body x s) = None"
  shows "fst (foreach body xs s) = None"
proof -
  have "fst (foreach body ys t) = None" if "I dn t" and "xs = dn @ ys" for ys t dn
    using that
  proof (induction ys arbitrary: t dn)
    case Nil
    then show ?case by simp
  next
    case (Cons y ys)
    obtain u where u: "body y t = (None, u)" using assms(3) [OF Cons.prems(2,1)] by (metis prod.collapse)
    with Cons.IH [of "dn @ [y]" u] assms(2) [OF Cons.prems(2,1)] Cons.prems(2) show ?case by simp
  qed
  from this [OF assms(1)] show ?thesis by simp
qed

lemma mirror_write_completes:
  assumes "answers B dst H" and "status = DstMissing \<or> dst_href cur \<noteq> []"
    and "dst_href cur = [] \<Longrightarrow> new_home B opts uid \<in> H" and "dst_href cur \<noteq> [] \<Longrightarrow> cs_at B (dst_href cur) \<in> H"
  shows "fst (mirror_write env dst opts uid cur changed d status et ha r) = None"
proof -
  have put: "\<exists>x w. putMirror env dst h e data v = (Inr x, w)" if "cs_at B h \<in> H" for h e data v
  proof -
    let ?it = "\<lparr>it_href = h, it_etag = e, it_data = data\<rparr>"
    have "is_ok (fst (coll_put dst ?it v))" using assms(1) that unfolding answers_def by simp
    then obtain stored w where "coll_put dst ?it v = (Inr stored, w)"
      by (cases "coll_put dst ?it v") (auto simp: is_ok_def split: sum.splits)
    then show ?thesis by (simp add: putMirror_def Let_def split: prod.split sum.split)
  qed
  consider "status = DstOK \<or> status = DstUnknown" "\<not> changed" | "status = DstMissing"
    | "status \<noteq> DstMissing" "status = DstDrifted \<or> changed" by (cases status) auto
  then show ?thesis
  proof cases
    case 1
    then show ?thesis by (auto simp: mirror_write_def)
  next
    case 2
    let ?h = "if dst_href cur = [] then destHref uid (suffix_of opts) else dst_href cur"
    have "cs_at B ?h \<in> H" using assms(3,4) by (auto simp: new_home_def)
    from put [OF this, of "[]" d "ow_world r"] 2 show ?thesis by (auto simp: mirror_write_def Let_def)
  next
    case 3
    then have "cs_at B (dst_href cur) \<in> H" using assms(2,4) by blast
    from put [OF this, of "dst_etag cur" d "ow_world r"] 3 show ?thesis by (auto simp: mirror_write_def Let_def)
  qed
qed

lemma mirror_fetch_completes:
  assumes setting: "mirror_setting env src dst A B opts uidFn its w"
    and answers: "answers B dst (home B opts its ` source_uids A uidFn w)"
    and item: "cs_view A w (im_href m) = Some (im_etag m, d)" "uid = uid_of uidFn (im_href m) d"
    and state: "cs_view A (ow_world r) = cs_view A w" "map_get (ow_items r) uid = map_get its uid"
    and check: "ck = uid \<Longrightarrow> map_get its uid \<noteq> None"
  shows "fst (mirror_fetch env src dst opts uidFn idx m ck s et ha r) = None"
proof -
  note S = settingD [OF setting]
  let ?cur = "refreshed env m uid d (entry_of (ow_items r) uid)"
  have u: "uid \<in> source_uids A uidFn w" using item by (auto simp: source_uids_def)
  have fields: "dst_href ?cur = (case map_get its uid of Some st \<Rightarrow> dst_href st | None \<Rightarrow> [])"
    by (simp add: refreshed_def entry_of_def state(2) zero_item_state_def split: option.split)
  have home: "home B opts its uid \<in> home B opts its ` source_uids A uidFn w" using u by blast
  have known: "dst_href ?cur \<noteq> [] \<and> cs_at B (dst_href ?cur) = home B opts its uid" if "map_get its uid = Some st" for st
    using faithfulD(2) [OF S(5) that] that fields by (simp add: truly_recorded_def canonical_def home_def)
  have written: "fst (mirror_write env dst opts uid ?cur ch d st e h v) = None"
    if "st = DstMissing \<or> map_get its uid \<noteq> None" for ch st e h v
  proof (rule mirror_write_completes [OF answers])
    show "st = DstMissing \<or> dst_href ?cur \<noteq> []" using that known by blast
    show "dst_href ?cur = [] \<Longrightarrow> new_home B opts uid \<in> home B opts its ` source_uids A uidFn w"
      using home known by (cases "map_get its uid") (auto simp: home_def)
    show "dst_href ?cur \<noteq> [] \<Longrightarrow> cs_at B (dst_href ?cur) \<in> home B opts its ` source_uids A uidFn w"
      using home known fields by (cases "map_get its uid") auto
  qed
  obtain it v where get: "coll_get src (im_href m) (ow_world r) = (Inr it, v)" and it: "it_data it = d"
    using servesD(6) [OF S(1), of "ow_world r" "im_href m"] item(1) state(1)
    by (cases "coll_get src (im_href m) (ow_world r)") auto
  have uid: "body_uid uidFn m d = uid" by (simp add: item(2) body_uid_def uid_of_def)
  show ?thesis
  proof (cases rule: mirror_fetch_cases [of src m r env dst opts uidFn idx ck s et ha])
    case (inspected it' v' w' uid' st et ha)
    then have same: "it_data it' = d" "uid' = uid" using get it uid by auto
    have "st = DstMissing \<or> map_get its uid \<noteq> None"
      using inspected(5) fields same by (auto simp: inspectDst_def split: option.splits)
    with inspected(6) same written show ?thesis by simp
  next
    case (checked it' v')
    then have "it_data it' = d" "ck = uid" using get it uid by auto
    with checked(4) written check show ?thesis by simp
  qed (use get in auto)
qed

lemma mirror_step_completes:
  assumes setting: "mirror_setting env src dst A B opts uidFn its w"
    and answers: "answers B dst (home B opts its ` source_uids A uidFn w)"
    and item: "cs_view A w (im_href m) = Some (im_etag m, d)" "uid = uid_of uidFn (im_href m) d"
    and state: "cs_view A (ow_world r) = cs_view A w" "map_get (ow_items r) uid = map_get its uid"
  shows "fst (mirror_step env src dst opts uidFn (by_src_href env its) idx m r) = None"
proof -
  note S = settingD [OF setting]
  have "uid \<noteq> []"
    using item servesD(1) [OF S(1) item(1)] uid_of_nonempty by (auto simp: canonical_def)
  then have fetch: "fst (mirror_fetch env src dst opts uidFn idx m [] s et ha r) = None" for s et ha
    by (intro mirror_fetch_completes [OF setting answers item state]) simp
  show ?thesis
  proof (cases rule: mirror_step_cases [of "by_src_href env its" m env src dst opts uidFn idx r])
    case (repair st s et ha v)
    have "fst (mirror_fetch env src dst opts uidFn idx m (is_uid st) s et ha (r\<lparr>ow_world := v\<rparr>)) = None"
    proof (rule mirror_fetch_completes [OF setting answers item])
      show "cs_view A (ow_world (r\<lparr>ow_world := v\<rparr>)) = cs_view A w"
        using inspectDst_reads [OF S(2,3) repair(4)] state(1) by simp
    qed (use state(2) listed_entry [OF setting item repair(1,2)] in auto)
    with repair(5) show ?thesis by simp
  qed (use fetch in auto)
qed

lemma delete_step_completes:
  assumes setting: "mirror_setting env src dst A B opts uidFn its w" and "answers B dst H"
    and listing: "coll_list dst w1 = (Inr ms, w2)" "cs_view B w1 = cs_view B w"
    and r1: "progress env A B opts uidFn its w srcList r1" "ow_seen r1 \<subseteq> source_uids A uidFn w"
    and r: "pruned A B opts its w r1 gone r" "uid \<notin> gone" "gone \<inter> ow_seen r1 = {}"
      "\<And>u. u \<in> gone \<Longrightarrow> map_get its u \<noteq> None"
    and entry: "map_get (ow_items r1) uid = Some st"
  shows "fst (delete_step dst (indexByHref ms) (uid, st) r) = None"
proof (cases "uid \<in> ow_seen r1")
  case True
  with r(1) show ?thesis by (simp add: delete_step_def pruned_def)
next
  case False
  note S = settingD [OF setting]
  have its: "map_get its uid = Some st" using r1(1) entry False by (simp add: progress_def)
  then have home: "home B opts its uid = dst_href st" by (simp add: home_def)
  have own: "dst_href st \<notin> home B opts its ` X" if "\<And>u. u \<in> X \<Longrightarrow> u \<noteq> uid \<and> (u \<in> source_uids A uidFn w \<or> map_get its u \<noteq> None)" for X
    using home_inj [OF setting, of uid] its home that by (metis imageE option.distinct(1))
  have "cs_view B (ow_world r) (dst_href st) = cs_view B w (dst_href st)"
  proof -
    have "dst_href st \<notin> home B opts its ` gone" using own [of gone] r(2,4) by blast
    moreover have "dst_href st \<notin> home B opts its ` ow_seen r1" using own [of "ow_seen r1"] r1(2) False by blast
    ultimately show ?thesis using r(1) r1(1) by (simp add: pruned_def progress_def)
  qed
  moreover have "canonical (dst_href st)" using faithfulD(2) [OF S(5) its] by (simp add: truly_recorded_def)
  from canonical_lookup [OF S(2) listing(1) this] have "lookupMeta (indexByHref ms) (dst_href st) \<noteq> None \<Longrightarrow> cs_view B w (dst_href st) \<noteq> None"
    using listing(2) by (cases "cs_view B w (dst_href st)") auto
  ultimately have "lookupMeta (indexByHref ms) (dst_href st) \<noteq> None \<Longrightarrow>
      is_ok (fst (coll_delete dst (dst_href st) (ow_world r)))"
    using assms(2) by (simp add: answers_def)
  then show ?thesis by (auto simp: delete_step_def is_ok_def split: prod.split sum.splits)
qed

text \<open>C9: a run fails only for a reason. With servers that keep the contract, answer both listings, take the
  copies of the source items and remove what they hold, a run that the vanish guard lets pass ends without an
  error; so a failing run names a request that failed or a collection that looks empty.\<close>

theorem oneway_completes:
  assumes setting: "mirror_setting env src dst A B opts uidFn its w" 
    and answers: "answers B dst (home B opts its ` source_uids A uidFn w)"
    and source: "coll_list src w = (Inr srcList, w1)" and listing: "coll_list dst w1 = (Inr dstList, w2)"
    and guard: "srcList \<noteq> [] \<or> length (map_keys its) < 5" "dstList \<noteq> [] \<or> known_dst env its < 5"
  shows "so_err (syncOneWay env src dst its opts uidFn w) = None"
proof -
  note S = settingD [OF setting]
  have w1: "cs_view B w1 = cs_view B w" using apartD(1) [OF S(4) source] .
  let ?step = "mirror_step env src dst opts uidFn (by_src_href env its) (indexByHref dstList)"
  have "fst (foreach ?step srcList (start_oneway its w2)) = None"
    using progress_start [OF setting source listing] loop_step_mirrors [OF setting source _ listing]
  proof (rule foreach_completes [where I = "\<lambda>dn r. progress env A B opts uidFn its w dn r"])
    fix dn m rest and r :: "'a oneway"
    assume list: "srcList = dn @ m # rest" and r: "progress env A B opts uidFn its w dn r"
    have "m \<in> set srcList" using list by simp
    from mirror_step_completes [OF setting answers listed_item(1) [OF setting source this] uid_at_def
        next_item(3,5) [OF setting source list r]]
    show "fst (?step m r) = None" .
  qed
  then obtain r1 where loop: "foreach ?step srcList (start_oneway its w2) = (None, r1)" by (metis prod.collapse)
  have r1: "progress env A B opts uidFn its w srcList r1" using loop_mirrors [OF setting source listing loop] .
  have seen: "ow_seen r1 \<subseteq> source_uids A uidFn w"
    using r1 listed_item(2) [OF setting source] by (auto simp: progress_def)
  let ?todo = "go_range (env_range env) 1 (ow_items r1)"
  have "map_wf (ow_items r1)" using r1 by (simp add: progress_def)
  then have once: "distinct (map fst ?todo)"
    using go_range_mset [OF S(11), of "ow_items r1" 1] by (metis map_wf_def map_keys_def mset_eq_imp_distinct_iff mset_map)
  have "fst (foreach (delete_step dst (indexByHref dstList)) ?todo r1) = None"
  proof (rule foreach_completes [where I = "\<lambda>dn r. pruned A B opts its w r1 (fst ` set dn - ow_seen r1) r"])
    show "pruned A B opts its w r1 (fst ` set [] - ow_seen r1) r1" using pruned_start [OF r1] by simp
  next
    fix dn x rest and r :: "'a oneway"
    assume todo: "?todo = dn @ x # rest" and r: "pruned A B opts its w r1 (fst ` set dn - ow_seen r1) r"
    have entry: "map_get (ow_items r1) (fst y) = Some (snd y)" if "y \<in> set ?todo" for y
      using go_range_sound [of "fst y" "snd y"] that by simp
    have "fst x \<notin> fst ` set dn" using once todo by simp
    moreover have "map_get its u \<noteq> None" if "u \<in> fst ` set dn - ow_seen r1" for u
    proof -
      from that todo obtain y where "y \<in> set ?todo" "u = fst y" by auto
      with entry [of y] that r1 show ?thesis by (auto simp: progress_def)
    qed
    ultimately show "fst (delete_step dst (indexByHref dstList) x r) = None"
      using delete_step_completes [OF setting answers listing w1 r1 seen r _ _ _ entry [of x]] todo by force
  qed (rule prune_step [OF setting listing w1 r1 seen])
  then have "fst (mirror_pass env src dst opts uidFn its srcList (indexByHref dstList) w2) = None"
    using loop by (simp add: mirror_pass_def)
  moreover have "ow_unverified_err (snd (mirror_pass env src dst opts uidFn its srcList (indexByHref dstList) w2)) = None"
  proof -
    obtain r where del: "foreach (delete_step dst (indexByHref dstList)) ?todo r1 = (None, r)"
      using \<open>fst (foreach (delete_step dst (indexByHref dstList)) ?todo r1) = None\<close> by (metis prod.collapse)
    with deletions_prune [OF setting listing w1 r1 seen del] loop show ?thesis by (simp add: mirror_pass_def pruned_def)
  qed
  moreover have "guardVanished ''source'' (length srcList) (length (map_keys its)) = None"
    "guardVanished ''destination'' (length dstList) (known_dst env its) = None"
    using guard by (auto simp: guardVanished_None)
  ultimately show ?thesis
    using source listing by (auto simp: syncOneWay_def finish_oneway_def split: prod.split)
qed


section \<open>The next run\<close>

text \<open>Two sides that agree under a truthful state are settled, so the next run has nothing to do.\<close>

lemma mirrored_settled:
  assumes serving: "serves A src" "serves B dst" and truth: "faithful env A B uidFn its" "mirrored A B uidFn its w"
    and sha: "\<And>d. env_sha256 env d \<noteq> []"
    and lists: "coll_list src w = (Inr srcList, w1)" "coll_list dst w1 = (Inr dstList, w2)" "cs_view B w1 = cs_view B w"
  shows "settled its srcList dstList"
proof -
  have wf: "map_wf its" using faithfulD(1) [OF truth(1)] .
  have entry: "map_get its uid = Some st" if "(uid, st) \<in> set its" for uid st using that wf by (simp add: map_get_in)
  have rec: "truly_recorded env A B uidFn uid st" if "(uid, st) \<in> set its" for uid st
    using faithfulD(2) [OF truth(1) entry [OF that]] .
  have at: "\<exists>d. cs_view A w (src_href st) = Some (src_etag st, d) \<and> uid = uid_of uidFn (src_href st) d \<and>
      cs_view B w (dst_href st) = Some (dst_etag st, cs_keep B d)" if st: "(uid, st) \<in> set its" for uid st
  proof -
    obtain d where d: "cs_view A w (src_href st) = Some (src_etag st, d)" "uid = uid_of uidFn (src_href st) d"
      using truth(2) entry [OF st] unfolding mirrored_def by blast
    then obtain st' where "map_get its uid = Some st'" "cs_view B w (dst_href st') = Some (dst_etag st', cs_keep B d)"
      using truth(2) unfolding mirrored_def by blast
    with d entry [OF st] show ?thesis by auto
  qed
  have "inj_on (src_href \<circ> snd) (set its)"
  proof (rule inj_onI)
    fix x y assume xy: "x \<in> set its" "y \<in> set its" "(src_href \<circ> snd) x = (src_href \<circ> snd) y"
    then have "fst x = fst y" using at [of "fst x" "snd x"] at [of "fst y" "snd y"] by auto
    with xy entry [of "fst x" "snd x"] entry [of "fst y" "snd y"] show "x = y" by (metis option.inject prod.collapse)
  qed
  moreover have "distinct its" using wf by (simp add: map_wf_def map_keys_def distinct_map)
  ultimately have "distinct (map (src_href \<circ> snd) its)" by (simp add: distinct_map)
  moreover have "copy_listed dstList st" if st: "(uid, st) \<in> set its" for uid st
  proof -
    have "canonical (dst_href st)" "dst_etag st \<noteq> []" "dst_hash st \<noteq> []"
      using rec [OF st] bodyHash_nonempty [OF sha] by (auto simp: truly_recorded_def)
    with canonical_lookup [OF serving(2) lists(2)] at [OF st] lists(3) show ?thesis by (auto simp: copy_listed_def)
  qed
  moreover have "(\<lambda>m. (im_href m, im_etag m)) ` set srcList = (\<lambda>(uid, st). (src_href st, src_etag st)) ` set its"
  proof (intro equalityI subsetI)
    fix x assume "x \<in> (\<lambda>m. (im_href m, im_etag m)) ` set srcList"
    then obtain m where m: "m \<in> set srcList" "x = (im_href m, im_etag m)" by blast
    then have "\<exists>d. cs_view A w (im_href m) = Some (im_etag m, d)" using servesD(3) [OF serving(1) lists(1)] by blast
    then obtain uid st where "map_get its uid = Some st" "src_href st = im_href m" "src_etag st = im_etag m"
      using truth(2) unfolding mirrored_def by blast
    with m(2) wf show "x \<in> (\<lambda>(uid, st). (src_href st, src_etag st)) ` set its" by (force simp: map_get_in)
  next
    fix x assume "x \<in> (\<lambda>(uid, st). (src_href st, src_etag st)) ` set its"
    then obtain uid st where st: "(uid, st) \<in> set its" "x = (src_href st, src_etag st)" by auto
    have "\<exists>d. cs_view A w (src_href st) = Some (src_etag st, d)" using at [OF st(1)] by blast
    then obtain m where "m \<in> set srcList" "im_href m = src_href st" "im_etag m = src_etag st"
      using servesD(3) [OF serving(1) lists(1)] by metis
    with st(2) show "x \<in> (\<lambda>m. (im_href m, im_etag m)) ` set srcList" by force
  qed
  ultimately show ?thesis
    using wf rec by (auto simp: settled_def list_all_iff truly_recorded_def)
qed

text \<open>C8: the mirror converges. After a run without an error the next one, on collections nobody has edited since,
  only lists the two sides: it reads no body, writes nothing, counts nothing and keeps the state.\<close>

theorem oneway_converges:
  assumes "mirror_setting env src dst A B opts uidFn its w"
    and "so_err (syncOneWay env src dst its opts uidFn w) = None"
    and "out = syncOneWay env src dst its opts uidFn w"
    and "cs_view A v = cs_view A (so_world out)" and "cs_view B v = cs_view B (so_world out)"
    and "coll_list src v = (Inr srcList, v1)" and "coll_list dst v1 = (Inr dstList, v2)"
  shows "so_err (oneway_run env src dst (so_items out) opts uidFn v) = None \<and>
    so_items (oneway_run env src dst (so_items out) opts uidFn v) = so_items out \<and>
    so_res (oneway_run env src dst (so_items out) opts uidFn v) = zero_result \<and>
    oneway_log env src dst (so_items out) opts uidFn v = [OpList SrcSide, OpList DstSide]"
proof -
  note S = settingD [OF assms(1)]
  have "mirrored A B uidFn (so_items out) v"
    using run_faithful(1) [OF assms(1-3)] assms(4,5) by (simp add: mirrored_def)
  from mirrored_settled [OF S(1,2) run_faithful(2) [OF assms(1-3)] this S(9) assms(6,7) apartD(1) [OF S(4) assms(6)]]
  have "settled (so_items out) srcList dstList" .
  with oneway_settled_is_quiet [of src v srcList dst dstList "so_items out" env opts uidFn] S(11) assms(6,7)
  show ?thesis by simp
qed


text \<open>The contract asks for ETags, and the source side of a run depends on them: with a source that lists none
  (\<^verbatim>\<open>st.SrcETag == meta.ETag\<close> with both empty) no change of a body is ever noticed, whatever reading it
  would give.\<close>

lemma changes_without_etags_unseen:
  assumes "fst (coll_list src w) = Inr srcList" and "\<forall>m\<in>set srcList. im_etag m = []"
    and "fst (coll_list dst (snd (coll_list src w))) = Inr dstList"
    and "settled its srcList dstList" and "range_order (env_range env)"
  shows "oneway_log env (src\<lparr>coll_get := edited\<rparr>) dst its opts uidFn w = [OpList SrcSide, OpList DstSide] \<and>
    list_all (\<lambda>(uid, st). src_etag st = []) its"
proof -
  have "list_all (\<lambda>(uid, st). src_etag st = []) its"
    unfolding list_all_iff
  proof safe
    fix uid st assume "(uid, st) \<in> set its"
    then have "(src_href st, src_etag st) \<in> (\<lambda>(uid, st). (src_href st, src_etag st)) ` set its" by force
    also have "\<dots> = (\<lambda>m. (im_href m, im_etag m)) ` set srcList" using assms(4) by (simp add: settled_def)
    finally show "src_etag st = []" using assms(2) by auto
  qed
  with oneway_settled_is_quiet [of "src\<lparr>coll_get := edited\<rparr>" w srcList dst dstList its env opts uidFn] assms
  show ?thesis by simp
qed


section \<open>Concrete runs\<close>

text \<open>Two servers with one place each, behind the adapters: the source answers for \<^verbatim>\<open>/s/x\<close>, the destination
  for \<^verbatim>\<open>/d/x.ics\<close>. The ETag of a body is the body behind a letter.\<close>

definition place_client :: "string \<Rightarrow> ('w \<Rightarrow> string option) \<Rightarrow> (string option \<Rightarrow> 'w \<Rightarrow> 'w) \<Rightarrow> (string, 'w) dav_client" where
  "place_client place held hold = \<lparr>
     dc_read_dir = (\<lambda>p w. (Inr (case held w of None \<Rightarrow> []
       | Some x \<Rightarrow> [\<lparr>fi_path = place, fi_etag = CHR ''e'' # x, fi_is_dir = False\<rparr>]), w)),
     dc_get = (\<lambda>h w. (case held w of Some x \<Rightarrow> if h = place then Inr (h, CHR ''e'' # x, x) else Inl (ErrNew ''404'')
       | None \<Rightarrow> Inl (ErrNew ''404''), w)),
     dc_put = (\<lambda>h x w. if h = place then (Inr ([], []), hold (Some x) w) else (Inl (ErrNew ''403''), w)),
     dc_remove_all = (\<lambda>h w. if h = place \<and> held w \<noteq> None then (Inr (), hold None w) else (Inl (ErrNew ''404''), w))\<rparr>"

definition place_adapter :: "string \<Rightarrow> string \<Rightarrow> ('w \<Rightarrow> string option) \<Rightarrow> (string option \<Rightarrow> 'w \<Rightarrow> 'w) \<Rightarrow> (string, 'w) adapter" where
  "place_adapter path place held hold = \<lparr>ad_client = place_client place held hold, ad_path = path,
     ad_parse = Inr, ad_render = Inr, ad_render_error = ''render'', ad_parse_error = ''item''\<rparr>"

definition place_store :: "string \<Rightarrow> ('w \<Rightarrow> string option) \<Rightarrow> (string, 'w) client_store" where
  "place_store place held = \<lparr>
     cl_view = (\<lambda>w h. if h = place then map_option (\<lambda>x. (CHR ''e'' # x, x)) (held w) else None),
     cl_object = (\<lambda>h et. tl et)\<rparr>"

lemma place_serves:
  assumes "canonical place" and "has_prefix place ''/''" and "has_prefix path ''/''"
    and "is_member path \<lparr>fi_path = place, fi_etag = [], fi_is_dir = False\<rparr>"
    and "\<And>x w. held (hold x w) = x"
  shows "client_serves (place_store place held) (place_adapter path place held hold)"
proof -
  have member: "is_member path \<lparr>fi_path = place, fi_etag = et, fi_is_dir = False\<rparr>" for et
    using assms(4) by (simp add: is_member_def)
  have "objects_sound (place_store place held) (place_adapter path place held hold)"
    using assms(1-3) by (auto simp: objects_sound_def place_store_def place_adapter_def is_ok_def split: if_splits)
  moreover have "client_reads (place_store place held) (place_adapter path place held hold)"
    using member by (auto simp: client_reads_def place_store_def place_adapter_def place_client_def split: option.splits)
  moreover have "client_writes (place_store place held) (place_adapter path place held hold)"
    using assms(5) by (auto simp: client_writes_def place_store_def place_adapter_def place_client_def fun_eq_iff
        split: if_splits)
  ultimately show ?thesis by (simp add: client_serves_def)
qed

type_synonym two_places = "string option \<times> string option"

definition source_side :: "(string, two_places) adapter" where
  "source_side = place_adapter ''/s'' ''/s/x'' fst (\<lambda>x w. (x, snd w))"

definition target_side :: "(string, two_places) adapter" where
  "target_side = place_adapter ''/d'' ''/d/x.ics'' snd (\<lambda>x w. (fst w, x))"

definition source_items :: "two_places store" where
  "source_items = item_store (place_store ''/s/x'' fst) source_side"

definition target_items :: "two_places store" where
  "target_items = item_store (place_store ''/d/x.ics'' snd) target_side"

definition hashing_env :: dav_env where
  "hashing_env = plain_env\<lparr>env_sha256 := (\<lambda>d. CHR ''h'' # d)\<rparr>"

lemma places_serve:
  "client_serves (place_store ''/s/x'' fst) source_side" "client_serves (place_store ''/d/x.ics'' snd) target_side"
proof -
  have "canonical ''/s/x''" "canonical ''/d/x.ics''" by code_simp+
  moreover have "is_member ''/s'' \<lparr>fi_path = ''/s/x'', fi_etag = [], fi_is_dir = False\<rparr>"
    "is_member ''/d'' \<lparr>fi_path = ''/d/x.ics'', fi_etag = [], fi_is_dir = False\<rparr>"
    by (simp_all add: is_member_def trim_right_char_def)
  ultimately show "client_serves (place_store ''/s/x'' fst) source_side" "client_serves (place_store ''/d/x.ics'' snd) target_side"
    unfolding source_side_def target_side_def by (auto intro!: place_serves simp: has_prefix_def)
qed

lemma places_apart:
  "client_apart (place_store ''/s/x'' fst) target_side" "client_apart (place_store ''/d/x.ics'' snd) source_side"
  by (auto simp: client_apart_def place_store_def source_side_def target_side_def place_adapter_def place_client_def fun_eq_iff)

lemma places_view:
  "cs_view source_items w h = (if h = ''/s/x'' then map_option (\<lambda>x. (CHR ''e'' # x, x)) (fst w) else None)"
  "cs_view target_items w h = (if h = ''/d/x.ics'' then map_option (\<lambda>x. (CHR ''e'' # x, x)) (snd w) else None)"
  "cs_keep target_items d = d"
  by (simp_all add: source_items_def target_items_def item_store_def place_store_def source_side_def target_side_def
      place_adapter_def rendered_def option.map_comp comp_def case_prod_unfold)

lemma first_run_setting:
  "mirror_setting hashing_env (as_collection source_side) (as_collection target_side) source_items target_items
     plain_options (\<lambda>_. ''x'') [] (Some ''b'', None)"
proof -
  have "serves source_items (as_collection source_side)" "serves target_items (as_collection target_side)"
    "apart source_items (as_collection target_side)" "apart target_items (as_collection source_side)"
    unfolding source_items_def target_items_def
    using adapter_contract places_serve adapter_apart places_apart by blast+
  moreover have "room_for target_items plain_options [] (source_uids source_items (\<lambda>_. ''x'') (Some ''b'', None))"
    by (auto simp: room_for_def source_uids_def uid_of_def inj_on_def)
  moreover have "bodies_at_hand source_items target_items [] (Some ''b'', None) \<subseteq> {''b''}"
    by (auto simp: bodies_at_hand_def places_view split: if_splits)
  then have "tells_apart hashing_env target_items (bodies_at_hand source_items target_items [] (Some ''b'', None))"
    by (auto simp: tells_apart_def inj_on_def places_view)
  ultimately show ?thesis
    by (simp add: mirror_setting_def faithful_def distinct_uids_def places_view hashing_env_def plain_options_def
        hasWindow_def time_is_zero_def split: if_splits)
qed

definition first_run :: "two_places sync_out" where
  "first_run = syncOneWay hashing_env (as_collection source_side) (as_collection target_side) [] plain_options
     (\<lambda>_. ''x'') (Some ''b'', None)"

lemma first_run_works: "so_err first_run = None" "so_world first_run = (Some ''b'', Some ''b'')"
  unfolding first_run_def by code_simp+

lemma adapter_serves_witness: "serves source_items (as_collection source_side)"
  using adapter_serves [OF places_serve(1) places_apart(1)] by (simp add: source_items_def)

lemma oneway_mirrors_witness:
  "mirrored source_items target_items (\<lambda>_. ''x'') (so_items first_run) (so_world first_run) \<and>
   cs_view target_items (so_world first_run) ''/d/x.ics'' = Some (''eb'', ''b'')"
  using oneway_mirrors [OF first_run_setting first_run_works(1) [unfolded first_run_def] first_run_def]
  by (simp add: first_run_works places_view)

lemma oneway_converges_witness:
  "oneway_log hashing_env (as_collection source_side) (as_collection target_side) (so_items first_run) plain_options
     (\<lambda>_. ''x'') (Some ''b'', Some ''b'') = [OpList SrcSide, OpList DstSide]"
proof -
  let ?v = "(Some ''b'', Some ''b'')"
  have lists: "coll_list (as_collection source_side) ?v = (Inr [\<lparr>im_href = ''/s/x'', im_etag = ''eb''\<rparr>], ?v)"
    "coll_list (as_collection target_side) ?v = (Inr [\<lparr>im_href = ''/d/x.ics'', im_etag = ''eb''\<rparr>], ?v)"
    by code_simp+
  show ?thesis
    using oneway_converges [OF first_run_setting first_run_works(1) [unfolded first_run_def] first_run_def _ _ lists]
    by (simp add: first_run_works)
qed

lemma target_at: "cs_at target_items = put_path ''/d''"
  by (simp add: target_items_def item_store_def target_side_def place_adapter_def)

lemma target_answers: "answers target_items (as_collection target_side) {''/d/x.ics''}"
  by (auto simp: answers_def places_view target_at as_collection_def Put_def Delete_def is_ok_def target_side_def
      place_adapter_def place_client_def split: if_splits)

lemma first_homes:
  "home target_items plain_options [] ` source_uids source_items (\<lambda>_. ''x'') (Some ''b'', None) = {''/d/x.ics''}"
proof -
  have "put_path ''/d'' (destHref ''x'' (suffix_of plain_options)) = ''/d/x.ics''" by code_simp
  then have "home target_items plain_options [] ''x'' = ''/d/x.ics''" by (simp add: home_def new_home_def target_at)
  moreover have "source_uids source_items (\<lambda>_. ''x'') (Some ''b'', None) = {''x''}"
    by (auto simp: source_uids_def uid_of_def places_view)
  ultimately show ?thesis by simp
qed

lemma oneway_completes_witness: "so_err first_run = None"
proof -
  let ?w = "(Some ''b'', None)"
  have "coll_list (as_collection source_side) ?w = (Inr [\<lparr>im_href = ''/s/x'', im_etag = ''eb''\<rparr>], ?w)"
    "coll_list (as_collection target_side) ?w = (Inr [], ?w)" "known_dst hashing_env [] < 5"
    by code_simp+
  with oneway_completes [OF first_run_setting target_answers [folded first_homes]] show ?thesis
    by (simp add: first_run_def map_keys_def)
qed

end
