(* ===== verification/Dav_Agreed.thy ===== *)
theory Dav_Agreed
  imports Dav_Bidi_Calls Dav_Converge
begin

text \<open>
  The bidirectional reconciliation on servers that keep the contract of \<open>Dav_Store\<close> and name the new ETag when they
  store an item: what agreement of the two sides means, what a resolved side says, and what one step of the loop does
  for its UID. The results about whole runs are in \<open>Dav_Agree\<close>.
\<close>


section \<open>The specification\<close>

text \<open>\<open>copyItem\<close> records the ETag the server answers a PUT with, and never reads back.\<close>

definition echoes :: "'w store \<Rightarrow> 'w collection \<Rightarrow> bool" where
  "echoes S c \<longleftrightarrow> (\<forall>w it stored w'. coll_put c it w = (Inr stored, w') \<longrightarrow>
     cs_view S w' (it_href stored) = Some (it_etag stored, cs_keep S (it_data it)))"

definition agree :: "'w store \<Rightarrow> 'w store \<Rightarrow> bytes \<Rightarrow> bytes \<Rightarrow> bool" where
  "agree A B x y \<longleftrightarrow> y = cs_keep B x \<or> x = cs_keep A y"

text \<open>Entries that tell the truth about one side, again in terms of ETags only: \<open>href\<close> and \<open>etag\<close> select the
  side of an entry.\<close>

definition recorded_on ::
  "'w store \<Rightarrow> (bytes \<Rightarrow> string) \<Rightarrow> (item_state \<Rightarrow> string) \<Rightarrow> (item_state \<Rightarrow> string) \<Rightarrow> items \<Rightarrow> bool" where
  "recorded_on S uidFn href etag its \<longleftrightarrow>
     (\<forall>uid st. map_get its uid = Some st \<longrightarrow>
        is_uid st = uid \<and> uid \<noteq> [] \<and> href st \<noteq> [] \<and> uidFn (cs_body S (href st) (etag st)) = uid) \<and>
     (\<forall>u u' st st'. map_get its u = Some st \<longrightarrow> map_get its u' = Some st' \<longrightarrow> href st = href st' \<longrightarrow> u = u')"

definition pairs_recorded :: "'w store \<Rightarrow> 'w store \<Rightarrow> (bytes \<Rightarrow> string) \<Rightarrow> items \<Rightarrow> bool" where
  "pairs_recorded A B uidFn its \<longleftrightarrow> map_wf its \<and> recorded_on A uidFn src_href src_etag its \<and>
     recorded_on B uidFn dst_href dst_etag its \<and> (\<forall>uid st. map_get its uid = Some st \<longrightarrow>
       agree A B (cs_body A (src_href st) (src_etag st)) (cs_body B (dst_href st) (dst_etag st)))"

definition holds_uid :: "'w store \<Rightarrow> (bytes \<Rightarrow> string) \<Rightarrow> 'w \<Rightarrow> string \<Rightarrow> string \<Rightarrow> string \<Rightarrow> bytes \<Rightarrow> bool" where
  "holds_uid S uidFn w uid h et d \<longleftrightarrow> cs_view S w h = Some (et, d) \<and> uidFn d = uid"

definition side_uids :: "'w store \<Rightarrow> (bytes \<Rightarrow> string) \<Rightarrow> 'w \<Rightarrow> string set" where
  "side_uids S uidFn w = {uid. \<exists>h et d. holds_uid S uidFn w uid h et d}"

text \<open>An item that is new on its side, or not under the recorded ETag any more.\<close>

definition news ::
  "'w store \<Rightarrow> (bytes \<Rightarrow> string) \<Rightarrow> (item_state \<Rightarrow> string) \<Rightarrow> (item_state \<Rightarrow> string) \<Rightarrow> items \<Rightarrow> 'w \<Rightarrow>
     string \<Rightarrow> string \<Rightarrow> bytes \<Rightarrow> bool" where
  "news S uidFn href etag its w uid h d \<longleftrightarrow> (\<exists>et. holds_uid S uidFn w uid h et d \<and>
     \<not> (\<exists>st. map_get its uid = Some st \<and> href st = h \<and> etag st = et))"

definition no_news ::
  "'w store \<Rightarrow> (bytes \<Rightarrow> string) \<Rightarrow> (item_state \<Rightarrow> string) \<Rightarrow> (item_state \<Rightarrow> string) \<Rightarrow> items \<Rightarrow> 'w \<Rightarrow> string \<Rightarrow> bool" where
  "no_news S uidFn href etag its w uid \<longleftrightarrow> (\<nexists>h d. news S uidFn href etag its w uid h d)"

text \<open>Both sides agree under a state: its entries name, for each UID, the one item on either side.\<close>

definition agreed :: "'w store \<Rightarrow> 'w store \<Rightarrow> (bytes \<Rightarrow> string) \<Rightarrow> items \<Rightarrow> 'w \<Rightarrow> bool" where
  "agreed A B uidFn its w \<longleftrightarrow>
     (\<forall>uid st. map_get its uid = Some st \<longrightarrow> (\<exists>x y. holds_uid A uidFn w uid (src_href st) (src_etag st) x \<and>
        holds_uid B uidFn w uid (dst_href st) (dst_etag st) y \<and> agree A B x y)) \<and>
     (\<forall>uid h et d. holds_uid A uidFn w uid h et d \<longrightarrow> (\<exists>st. map_get its uid = Some st \<and> src_href st = h)) \<and>
     (\<forall>uid h et d. holds_uid B uidFn w uid h et d \<longrightarrow> (\<exists>st. map_get its uid = Some st \<and> dst_href st = h))"

text \<open>A side with one item for each UID, all of which have one, and room for new items.\<close>

definition one_each :: "'w store \<Rightarrow> (bytes \<Rightarrow> string) \<Rightarrow> 'w \<Rightarrow> bool" where
  "one_each S uidFn w \<longleftrightarrow> (\<forall>h et d. cs_view S w h = Some (et, d) \<longrightarrow> uidFn d \<noteq> []) \<and>
     (\<forall>uid h et d h' et' d'. holds_uid S uidFn w uid h et d \<longrightarrow> holds_uid S uidFn w uid h' et' d' \<longrightarrow> h = h')"

definition room_on :: "'w store \<Rightarrow> options \<Rightarrow> (bytes \<Rightarrow> string) \<Rightarrow> 'w \<Rightarrow> string set \<Rightarrow> bool" where
  "room_on S opts uidFn w U \<longleftrightarrow> inj_on (new_home S opts) (U - side_uids S uidFn w) \<and>
     (\<forall>u \<in> U - side_uids S uidFn w. cs_view S w (new_home S opts u) = None)"

definition all_uids :: "'w store \<Rightarrow> 'w store \<Rightarrow> (bytes \<Rightarrow> string) \<Rightarrow> items \<Rightarrow> 'w \<Rightarrow> string set" where
  "all_uids A B uidFn its w = side_uids A uidFn w \<union> side_uids B uidFn w \<union> dom (map_get its)"

definition bidi_setting ::
  "dav_env \<Rightarrow> 'w collection \<Rightarrow> 'w collection \<Rightarrow> 'w store \<Rightarrow> 'w store \<Rightarrow> options \<Rightarrow> (bytes \<Rightarrow> string) \<Rightarrow>
     items \<Rightarrow> 'w \<Rightarrow> bool" where
  "bidi_setting env a b A B opts uidFn its w \<longleftrightarrow>
     serves A a \<and> serves B b \<and> apart A b \<and> apart B a \<and> echoes A a \<and> echoes B b \<and>
     pairs_recorded A B uidFn its \<and> one_each A uidFn w \<and> one_each B uidFn w \<and>
     room_on A opts uidFn w (all_uids A B uidFn its w) \<and> room_on B opts uidFn w (all_uids A B uidFn its w) \<and>
     (\<forall>d. uidFn (cs_keep A d) = uidFn d \<and> uidFn (cs_keep B d) = uidFn d) \<and>
     \<not> hasWindow opts \<and> range_order (env_range env)"

lemma bidi_settingD:
  assumes "bidi_setting env a b A B opts uidFn its w"
  shows "serves A a" "serves B b" "apart A b" "apart B a" "echoes A a" "echoes B b" "pairs_recorded A B uidFn its"
    "one_each A uidFn w" "one_each B uidFn w"
    "room_on A opts uidFn w (all_uids A B uidFn its w)" "room_on B opts uidFn w (all_uids A B uidFn its w)"
    "uidFn (cs_keep A d) = uidFn d" "uidFn (cs_keep B d) = uidFn d" "\<not> hasWindow opts" "range_order (env_range env)"
  using assms by (simp_all add: bidi_setting_def)


lemma known_of_complete:
  assumes "range_order (env_range env)" and "recorded_on S uidFn href etag its" and "map_get its uid = Some st"
  shows "map_get (known_of env href etag its) (href st) = Some (etag st, uid)"
proof -
  let ?f = "\<lambda>(uid, st) m. if href st \<noteq> [] then map_put (href st) (etag st, is_uid st) m else m"
  have keeps: "map_get m h \<noteq> None \<Longrightarrow> map_get (fold ?f xs m) h \<noteq> None" for xs m h
    by (induction xs arbitrary: m) auto
  have finds: "(uid, st) \<in> set xs \<Longrightarrow> href st \<noteq> [] \<Longrightarrow> map_get (fold ?f xs m) (href st) \<noteq> None" for xs m
  proof (induction xs arbitrary: m)
    case (Cons y ys)
    show ?case
    proof (cases "(uid, st) \<in> set ys")
      case True
      from Cons.IH [OF True Cons.prems(2), of "?f y m"] show ?thesis unfolding fold_Cons comp_apply .
    next
      case False
      with Cons.prems(1) have "y = (uid, st)" by simp
      then have "map_get (?f y m) (href st) \<noteq> None" using Cons.prems(2) by simp
      from keeps [OF this, of ys] show ?thesis unfolding fold_Cons comp_apply .
    qed
  qed simp
  have st: "is_uid st = uid" "href st \<noteq> []" using assms(2,3) by (auto simp: recorded_on_def)
  have "(uid, st) \<in> set (go_range (env_range env) 0 its)"
    using assms(3) by (simp add: go_range_iff [OF assms(1)])
  from finds [OF this st(2), of "[]"] have "map_get (known_of env href etag its) (href st) \<noteq> None"
    unfolding known_of_def .
  then obtain e u where k: "map_get (known_of env href etag its) (href st) = Some (e, u)" by fastforce
  from known_of_sound [OF this] obtain u' st' where
    st': "map_get its u' = Some st'" "href st' = href st" "etag st' = e" "is_uid st' = u" by blast
  with assms(2,3) have "u' = uid" unfolding recorded_on_def by blast
  with st' st assms(3) k show ?thesis by simp
qed


section \<open>Resolving a side\<close>

text \<open>What a resolved side says: each item of the side under its UID, marked as changed exactly when it is news.\<close>

definition truly_resolved ::
  "'w store \<Rightarrow> (bytes \<Rightarrow> string) \<Rightarrow> (item_state \<Rightarrow> string) \<Rightarrow> (item_state \<Rightarrow> string) \<Rightarrow> items \<Rightarrow> 'w \<Rightarrow>
     string \<Rightarrow> side_item \<Rightarrow> bool" where
  "truly_resolved S uidFn href etag its w uid si \<longleftrightarrow>
     (\<exists>d. holds_uid S uidFn w uid (si_href si) (si_etag si) d \<and> (si_data si = [] \<or> si_data si = d)) \<and>
     (si_changed si \<longleftrightarrow> \<not> (\<exists>st. map_get its uid = Some st \<and> href st = si_href si \<and> etag st = si_etag si))"

definition resolved ::
  "'w store \<Rightarrow> (bytes \<Rightarrow> string) \<Rightarrow> (item_state \<Rightarrow> string) \<Rightarrow> (item_state \<Rightarrow> string) \<Rightarrow> items \<Rightarrow> 'w \<Rightarrow> side_items \<Rightarrow> bool" where
  "resolved S uidFn href etag its w side \<longleftrightarrow>
     (\<forall>uid si. map_get side uid = Some si \<longrightarrow> truly_resolved S uidFn href etag its w uid si) \<and>
     (\<forall>uid h et d. holds_uid S uidFn w uid h et d \<longrightarrow> (\<exists>si. map_get side uid = Some si \<and> si_href si = h))"

text \<open>During the loop over the listing, for the items seen so far.\<close>

definition resolving_inv ::
  "'w store \<Rightarrow> 'w store \<Rightarrow> (bytes \<Rightarrow> string) \<Rightarrow> (item_state \<Rightarrow> string) \<Rightarrow> (item_state \<Rightarrow> string) \<Rightarrow> items \<Rightarrow> 'w \<Rightarrow>
     string set \<Rightarrow> item_meta list \<Rightarrow> 'w resolving \<Rightarrow> bool" where
  "resolving_inv S T uidFn href etag its w f ms r \<longleftrightarrow>
     cs_view S (rs_world r) = cs_view S w \<and> cs_view T (rs_world r) = cs_view T w \<and> rs_filtered r = f \<and>
     (\<forall>uid si. map_get (rs_out r) uid = Some si \<longrightarrow> truly_resolved S uidFn href etag its w uid si) \<and>
     (\<forall>m\<in>set ms. \<forall>uid et d. holds_uid S uidFn w uid (im_href m) et d \<longrightarrow>
        (\<exists>si. map_get (rs_out r) uid = Some si \<and> si_href si = im_href m))"

lemma resolving_put:
  assumes "one_each S uidFn w" and item: "holds_uid S uidFn w uid (im_href m) (im_etag m) d"
    and r: "resolving_inv S T uidFn href etag its w f ms r"
    and t: "rs_out t = map_put uid si (rs_out r)" "rs_filtered t = rs_filtered r"
      "cs_view S (rs_world t) = cs_view S w" "cs_view T (rs_world t) = cs_view T w"
    and si: "si_href si = im_href m" "truly_resolved S uidFn href etag its w uid si"
  shows "resolving_inv S T uidFn href etag its w f (ms @ [m]) t"
proof -
  have same: "u = uid" if "holds_uid S uidFn w u (im_href m) et' d'" for u et' d'
    using that item by (simp add: holds_uid_def)
  have keeps: "\<exists>si'. map_get (rs_out t) u = Some si' \<and> si_href si' = im_href m'"
    if m': "m' \<in> set ms" "holds_uid S uidFn w u (im_href m') et' d'" for m' u et' d'
  proof (cases "u = uid")
    case True
    with assms(1) m'(2) item have "im_href m' = im_href m" unfolding one_each_def by blast
    with True t(1) si(1) show ?thesis by simp
  next
    case False
    from r m' have "\<exists>si'. map_get (rs_out r) u = Some si' \<and> si_href si' = im_href m'"
      unfolding resolving_inv_def by blast
    with False t(1) show ?thesis by simp
  qed
  have new: "\<exists>si'. map_get (rs_out t) u = Some si' \<and> si_href si' = im_href m"
    if "holds_uid S uidFn w u (im_href m) et' d'" for u et' d'
    using same [OF that] t(1) si(1) by simp
  have truth: "truly_resolved S uidFn href etag its w u x" if x: "map_get (rs_out t) u = Some x" for u x
  proof (cases "u = uid")
    case True
    with x t(1) si(2) show ?thesis by simp
  next
    case False
    with x t(1) have "map_get (rs_out r) u = Some x" by simp
    with r show ?thesis unfolding resolving_inv_def by blast
  qed
  have "rs_filtered t = f" using t(2) r by (simp add: resolving_inv_def)
  with t(3,4) truth keeps new show ?thesis unfolding resolving_inv_def by auto
qed

lemma resolve_step_inv:
  assumes "serves S c" and "apart T c" and "one_each S uidFn w" and "\<not> hasWindow opts" and "range_order (env_range env)"
    and recorded: "recorded_on S uidFn href etag its"
    and item: "cs_view S w (im_href m) = Some (im_etag m, d)"
    and r: "resolving_inv S T uidFn href etag its w f ms r"
    and step: "resolve_step env c (known_of env href etag its) opts uidFn m r = (None, t)"
  shows "resolving_inv S T uidFn href etag its w f (ms @ [m]) t"
proof -
  let ?known = "known_of env href etag its"
  have view: "cs_view S (rs_world r) = cs_view S w" "cs_view T (rs_world r) = cs_view T w"
    using r by (simp_all add: resolving_inv_def)
  have held: "holds_uid S uidFn w (uidFn d) (im_href m) (im_etag m) d" using item by (simp add: holds_uid_def)
  show ?thesis
  proof (cases "\<exists>u. map_get ?known (im_href m) = Some (im_etag m, u)")
    case False
    have fetch: "resolve_fetch env c opts uidFn m r = (None, t)"
      using step False by (auto simp: resolve_step_def split: option.splits prod.splits if_splits)
    obtain it v where get: "coll_get c (im_href m) (rs_world r) = (Inr it, v)" and it: "it_data it = d"
      using servesD(6) [OF assms(1), of "rs_world r" "im_href m"] item view(1)
      by (cases "coll_get c (im_href m) (rs_world r)") auto
    have "uidFn d \<noteq> []" using assms(3) item by (auto simp: one_each_def)
    then have uid: "body_uid uidFn m d = uidFn d" by (simp add: body_uid_def)
    have "\<not> (\<exists>st. map_get its (uidFn d) = Some st \<and> href st = im_href m \<and> etag st = im_etag m)"
      using False known_of_complete [OF assms(5) recorded] by metis
    then have "truly_resolved S uidFn href etag its w (uidFn d)
        \<lparr>si_href = im_href m, si_etag = im_etag m, si_uid = uidFn d, si_changed = True, si_data = d\<rparr>"
      using held by (auto simp: truly_resolved_def)
    then show ?thesis
      using fetch get it uid assms(4) servesD(5) [OF assms(1) get] apartD(2) [OF assms(2) get] view
      by (intro resolving_put [OF assms(3) held r]) (auto simp: resolve_fetch_def inWindow_def Let_def)
  next
    case True
    then obtain u where u: "map_get ?known (im_href m) = Some (im_etag m, u)" by blast
    from known_of_sound [OF this] obtain uid st where
      st: "map_get its uid = Some st" "href st = im_href m" "etag st = im_etag m" "is_uid st = u" by blast
    have "cs_body S (href st) (etag st) = d" using servesD(1) [OF assms(1) item] st by simp
    with recorded st(1) have "is_uid st = uid" "uidFn d = uid" unfolding recorded_on_def by blast+
    with st have u_d: "u = uidFn d" "map_get its (uidFn d) = Some st" by auto
    with held st have "truly_resolved S uidFn href etag its w (uidFn d)
        \<lparr>si_href = im_href m, si_etag = im_etag m, si_uid = uidFn d, si_changed = False, si_data = []\<rparr>"
      by (auto simp: truly_resolved_def)
    with step u u_d view show ?thesis
      by (intro resolving_put [OF assms(3) held r]) (auto simp: resolve_step_def)
  qed
qed

lemma resolveSide_resolved:
  assumes "serves S c" and "apart T c" and "one_each S uidFn w" and "\<not> hasWindow opts" and "range_order (env_range env)"
    and "recorded_on S uidFn href etag its"
    and listing: "coll_list c w0 = (Inr ms, w1)" "cs_view S w0 = cs_view S w"
    and views: "cs_view S v = cs_view S w" "cs_view T v = cs_view T w"
    and run: "resolveSide env c ms (known_of env href etag its) opts uidFn f v = (None, r)"
  shows "resolved S uidFn href etag its w (rs_out r)" "rs_filtered r = f"
    "cs_view S (rs_world r) = cs_view S w" "cs_view T (rs_world r) = cs_view T w"
proof -
  have "resolving_inv S T uidFn href etag its w f ms r"
  proof (rule foreach_inv_prefix [where I = "resolving_inv S T uidFn href etag its w f", OF run [unfolded resolveSide_def]])
    show "resolving_inv S T uidFn href etag its w f [] \<lparr>rs_world = v, rs_out = [], rs_filtered = f\<rparr>"
      using views by (simp add: resolving_inv_def)
  next
    fix dn m rest r t
    assume "ms = dn @ m # rest" and r: "resolving_inv S T uidFn href etag its w f dn r"
      and step: "resolve_step env c (known_of env href etag its) opts uidFn m r = (None, t)"
    then have "m \<in> set ms" by simp
    then obtain d where "cs_view S w (im_href m) = Some (im_etag m, d)"
      using servesD(3) [OF assms(1) listing(1), of "im_href m" "im_etag m"] listing(2) by auto
    from resolve_step_inv [where href = href and etag = etag, OF assms(1-6) this r step]
    show "resolving_inv S T uidFn href etag its w f (dn @ [m]) t" .
  qed
  moreover have "\<exists>m\<in>set ms. im_href m = h" if "holds_uid S uidFn w uid h et d" for uid h et d
    using servesD(3) [OF assms(1) listing(1), of h et] listing(2) that by (auto simp: holds_uid_def)
  ultimately show "resolved S uidFn href etag its w (rs_out r)" "rs_filtered r = f"
    "cs_view S (rs_world r) = cs_view S w" "cs_view T (rs_world r) = cs_view T w"
    unfolding resolving_inv_def resolved_def by blast+
qed


section \<open>Copying\<close>

lemma dataOf_true:
  assumes "serves S c" and "apart T c" and "cs_view S w (si_href si) = Some (et, d)"
    and "si_data si = [] \<or> si_data si = d" and "dataOf c si w = (x, w')"
  shows "(x = Inr d \<or> isl x) \<and> cs_view S w' = cs_view S w \<and> cs_view T w' = cs_view T w"
proof (cases "si_data si = []")
  case True
  obtain it where "fst (coll_get c (si_href si) w) = Inr it" "it_data it = d"
    using servesD(6) [OF assms(1,3)] by blast
  then obtain v where get: "coll_get c (si_href si) w = (Inr it, v)" "it_data it = d"
    by (cases "coll_get c (si_href si) w") auto
  with True assms(5) servesD(5) [OF assms(1) get(1)] apartD(2) [OF assms(2) get(1)] show ?thesis
    by (auto simp: dataOf_def)
qed (use assms(4,5) in \<open>auto simp: dataOf_def\<close>)

text \<open>A successful copy leaves the source side alone and stores the body under the href and ETag it reports.\<close>

lemma copyItem_true:
  assumes "serves S c" and "serves T t" and "apart S t" and "apart T c" and "echoes T t"
    and "cs_view S w (si_href si) = Some (et, d)" and "si_data si = [] \<or> si_data si = d"
    and run: "copyItem c t si toHref w = (Inr stored, w')"
  shows "cs_view S w' = cs_view S w" and "it_href stored = cs_at T toHref"
    and "cs_view T w' = (cs_view T w)(cs_at T toHref \<mapsto> (it_etag stored, cs_keep T d))"
proof -
  obtain x v where data: "dataOf c si w = (x, v)" by fastforce
  from dataOf_true [OF assms(1,4,6,7) data] run data have
    v: "x = Inr d" "cs_view S v = cs_view S w" "cs_view T v = cs_view T w"
    by (auto simp: copyItem_def split: sum.splits)
  then have put: "coll_put t \<lparr>it_href = toHref, it_etag = [], it_data = d\<rparr> v = (Inr stored, w')"
    using run data by (auto simp: copyItem_def split: prod.splits sum.splits)
  show "cs_view S w' = cs_view S w" using apartD(3) [OF assms(3) put] v by simp
  show at: "it_href stored = cs_at T toHref" using servesD(7) [OF assms(2) put] by simp
  obtain e where e: "cs_view T w' = (cs_view T v)(cs_at T toHref \<mapsto> (e, cs_keep T d))"
    using servesD(8) [OF assms(2) put] by auto
  have "cs_view T w' (it_href stored) = Some (it_etag stored, cs_keep T d)"
    using assms(5) put unfolding echoes_def by fastforce
  with e at v show "cs_view T w' = (cs_view T w)(cs_at T toHref \<mapsto> (it_etag stored, cs_keep T d))" by simp
qed

lemma winnerIsA_quiet:
  assumes "serves A a" and "serves B b" and "apart A b" and "apart B a"
    and "cs_view A w (si_href ai) = Some (ea, x)" and "si_data ai = [] \<or> si_data ai = x"
    and "cs_view B w (si_href bi) = Some (eb, y)" and "si_data bi = [] \<or> si_data bi = y"
    and "winnerIsA a b ai bi opts w = (r, w')"
  shows "cs_view A w' = cs_view A w \<and> cs_view B w' = cs_view B w"
proof -
  obtain p v where p: "dataOf a ai w = (p, v)" by fastforce
  obtain q v' where q: "dataOf b bi v = (q, v')" by fastforce
  note v = dataOf_true [OF assms(1,4,5,6) p]
  with assms(7) have "cs_view B v (si_href bi) = Some (eb, y)" by simp
  note v' = dataOf_true [OF assms(2,3) this assms(8) q]
  show ?thesis
    using assms(9) p q v v' by (auto simp: winnerIsA_def split: option.splits if_splits sum.splits)
qed


section \<open>One UID\<close>

text \<open>Where the item of a UID is on a side: where it was listed, or where a copy of it goes.\<close>

definition spot :: "'w store \<Rightarrow> options \<Rightarrow> side_items \<Rightarrow> string \<Rightarrow> string" where
  "spot S opts side uid = (case map_get side uid of Some si \<Rightarrow> si_href si | None \<Rightarrow> new_home S opts uid)"

text \<open>The two copies of a UID in order, under its entry, or gone together.\<close>

definition paired ::
  "'w store \<Rightarrow> 'w store \<Rightarrow> (bytes \<Rightarrow> string) \<Rightarrow> string \<Rightarrow> string \<Rightarrow> string \<Rightarrow> items \<Rightarrow> 'w \<Rightarrow> bool" where
  "paired A B uidFn uid ha hb its w \<longleftrightarrow>
     (case map_get its uid of
        Some st \<Rightarrow> is_uid st = uid \<and> src_href st = ha \<and> dst_href st = hb \<and>
          (\<exists>x y. holds_uid A uidFn w uid ha (src_etag st) x \<and> holds_uid B uidFn w uid hb (dst_etag st) y \<and> agree A B x y)
      | None \<Rightarrow> cs_view A w ha = None \<and> cs_view B w hb = None)"

text \<open>News on one side only has reached the other; without news, a side that lost the item takes it from the other.\<close>

definition delivered ::
  "'w store \<Rightarrow> 'w store \<Rightarrow> (bytes \<Rightarrow> string) \<Rightarrow> items \<Rightarrow> 'w \<Rightarrow> string \<Rightarrow> items \<Rightarrow> 'w \<Rightarrow> bool" where
  "delivered A B uidFn its w uid its' w' \<longleftrightarrow>
     (\<forall>h d. news A uidFn src_href src_etag its w uid h d \<longrightarrow> no_news B uidFn dst_href dst_etag its w uid \<longrightarrow>
        (\<exists>st. map_get its' uid = Some st \<and> cs_view A w' h = Some (src_etag st, d) \<and>
           cs_view B w' (dst_href st) = Some (dst_etag st, cs_keep B d))) \<and>
     (\<forall>h d. news B uidFn dst_href dst_etag its w uid h d \<longrightarrow> no_news A uidFn src_href src_etag its w uid \<longrightarrow>
        (\<exists>st. map_get its' uid = Some st \<and> cs_view B w' h = Some (dst_etag st, d) \<and>
           cs_view A w' (src_href st) = Some (src_etag st, cs_keep A d))) \<and>
     (no_news A uidFn src_href src_etag its w uid \<longrightarrow> no_news B uidFn dst_href dst_etag its w uid \<longrightarrow>
        uid \<notin> side_uids A uidFn w \<or> uid \<notin> side_uids B uidFn w \<longrightarrow> map_get its' uid = None)"

text \<open>What one step does: it touches the two spots of its UID and its entry, and leaves them in order.\<close>

definition settles ::
  "'w store \<Rightarrow> 'w store \<Rightarrow> (bytes \<Rightarrow> string) \<Rightarrow> items \<Rightarrow> 'w \<Rightarrow> string \<Rightarrow> string \<Rightarrow> string \<Rightarrow> 'w bidi \<Rightarrow> 'w bidi \<Rightarrow> bool" where
  "settles A B uidFn its w uid ha hb s t \<longleftrightarrow>
     paired A B uidFn uid ha hb (bi_items t) (bi_world t) \<and> delivered A B uidFn its w uid (bi_items t) (bi_world t) \<and>
     (map_wf (bi_items s) \<longrightarrow> map_wf (bi_items t)) \<and>
     (\<forall>u. u \<noteq> uid \<longrightarrow> map_get (bi_items t) u = map_get (bi_items s) u) \<and>
     (\<forall>h. h \<noteq> ha \<longrightarrow> cs_view A (bi_world t) h = cs_view A (bi_world s) h) \<and>
     (\<forall>h. h \<noteq> hb \<longrightarrow> cs_view B (bi_world t) h = cs_view B (bi_world s) h)"

lemma one_eachD: "one_each S uidFn w \<Longrightarrow> holds_uid S uidFn w uid h et d \<Longrightarrow> holds_uid S uidFn w uid h' et' d' \<Longrightarrow>
    h' = h \<and> et' = et \<and> d' = d"
  unfolding one_each_def holds_uid_def by (metis option.inject prod.inject)

lemma resolved_news:
  assumes "one_each S uidFn w" and "truly_resolved S uidFn href etag its w uid si"
  shows "si_changed si \<longleftrightarrow> \<not> no_news S uidFn href etag its w uid"
proof -
  obtain d where d: "holds_uid S uidFn w uid (si_href si) (si_etag si) d"
    using assms(2) by (auto simp: truly_resolved_def)
  have "no_news S uidFn href etag its w uid \<longleftrightarrow>
      (\<exists>st. map_get its uid = Some st \<and> href st = si_href si \<and> etag st = si_etag si)"
    unfolding no_news_def news_def using d one_eachD [OF assms(1) d] by metis
  with assms(2) show ?thesis by (simp add: truly_resolved_def)
qed

lemma absent_no_news:
  assumes "resolved S uidFn href etag its w side" and "map_get side uid = None"
  shows "no_news S uidFn href etag its w uid" and "uid \<notin> side_uids S uidFn w"
proof -
  have "\<not> holds_uid S uidFn w uid h et d" for h et d
    using assms unfolding resolved_def by fastforce
  then show "no_news S uidFn href etag its w uid" "uid \<notin> side_uids S uidFn w"
    by (auto simp: no_news_def news_def side_uids_def)
qed

lemma copyItem_resolved:
  assumes "serves S c" and "serves T t" and "apart S t" and "apart T c" and "echoes T t"
    and keep: "\<And>d. uidFn (cs_keep T d) = uidFn d"
    and si: "truly_resolved S uidFn href etag its w uid si"
    and view: "cs_view S v (si_href si) = cs_view S w (si_href si)"
    and run: "copyItem c t si toHref v = (Inr stored, v')"
  obtains d where "holds_uid S uidFn w uid (si_href si) (si_etag si) d"
    and "holds_uid S uidFn v' uid (si_href si) (si_etag si) d"
    and "holds_uid T uidFn v' uid (it_href stored) (it_etag stored) (cs_keep T d)"
    and "cs_view S v' = cs_view S v" and "it_href stored = cs_at T toHref"
    and "\<And>h. h \<noteq> cs_at T toHref \<Longrightarrow> cs_view T v' h = cs_view T v h"
proof -
  obtain d where d: "holds_uid S uidFn w uid (si_href si) (si_etag si) d" "si_data si = [] \<or> si_data si = d"
    using si by (auto simp: truly_resolved_def)
  then have "cs_view S v (si_href si) = Some (si_etag si, d)" using view by (simp add: holds_uid_def)
  note c = copyItem_true [OF assms(1-5) this d(2) run]
  show thesis by (rule that [OF d(1)]) (use c d(1) view keep in \<open>auto simp: holds_uid_def\<close>)
qed

lemma deliveredI:
  assumes "one_each A uidFn w" and "one_each B uidFn w" and "map_get its' uid = Some st"
    and "holds_uid A uidFn w uid h et d \<and> cs_view A w' h = Some (src_etag st, d) \<and>
        cs_view B w' (dst_href st) = Some (dst_etag st, cs_keep B d) \<and>
        \<not> no_news A uidFn src_href src_etag its w uid \<or>
      holds_uid B uidFn w uid h et d \<and> cs_view B w' h = Some (dst_etag st, d) \<and>
        cs_view A w' (src_href st) = Some (src_etag st, cs_keep A d) \<and>
        \<not> no_news B uidFn dst_href dst_etag its w uid"
  shows "delivered A B uidFn its w uid its' w'"
  using assms(4)
proof
  assume a: "holds_uid A uidFn w uid h et d \<and> cs_view A w' h = Some (src_etag st, d) \<and>
    cs_view B w' (dst_href st) = Some (dst_etag st, cs_keep B d) \<and> \<not> no_news A uidFn src_href src_etag its w uid"
  then have "h' = h \<and> d' = d" if "news A uidFn src_href src_etag its w uid h' d'" for h' d'
    using that one_eachD [OF assms(1)] unfolding news_def by blast
  with a assms(3) show ?thesis unfolding delivered_def no_news_def by blast
next
  assume b: "holds_uid B uidFn w uid h et d \<and> cs_view B w' h = Some (dst_etag st, d) \<and>
    cs_view A w' (src_href st) = Some (src_etag st, cs_keep A d) \<and> \<not> no_news B uidFn dst_href dst_etag its w uid"
  then have "h' = h \<and> d' = d" if "news B uidFn dst_href dst_etag its w uid h' d'" for h' d'
    using that one_eachD [OF assms(2)] unfolding news_def by blast
  with b assms(3) show ?thesis unfolding delivered_def no_news_def by blast
qed

lemma nothing_delivered:
  "no_news A uidFn src_href src_etag its w uid \<Longrightarrow> no_news B uidFn dst_href dst_etag its w uid \<Longrightarrow>
    map_get its' uid = None \<or> (uid \<in> side_uids A uidFn w \<and> uid \<in> side_uids B uidFn w) \<Longrightarrow> delivered A B uidFn its w uid its' w'"
  by (auto simp: delivered_def no_news_def)

lemma copy_to_b_settles:
  assumes setting: "bidi_setting env a b A B opts uidFn its w"
    and ai: "truly_resolved A uidFn src_href src_etag its w uid ai"
    and view: "cs_view A (bi_world s) (si_href ai) = cs_view A w (si_href ai)"
    and news: "\<not> no_news A uidFn src_href src_etag its w uid"
    and run: "copy_to_b a b uid ai toHref cnt s = (None, t)"
  shows "settles A B uidFn its w uid (si_href ai) (cs_at B toHref) s t"
proof -
  note S = bidi_settingD [OF setting]
  obtain stored v where copy: "copyItem a b ai toHref (bi_world s) = (Inr stored, v)"
    and t: "bi_world t = v" "bi_items t = map_put uid
      (sync_entry uid (si_href ai) (si_etag ai) (it_href stored) (it_etag stored)) (bi_items s)"
    using run by (auto simp: copy_to_b_def split: prod.splits sum.splits)
  obtain d where d: "holds_uid A uidFn w uid (si_href ai) (si_etag ai) d"
      "holds_uid A uidFn v uid (si_href ai) (si_etag ai) d"
      "holds_uid B uidFn v uid (it_href stored) (it_etag stored) (cs_keep B d)"
      "cs_view A v = cs_view A (bi_world s)" "it_href stored = cs_at B toHref"
      "\<And>h. h \<noteq> cs_at B toHref \<Longrightarrow> cs_view B v h = cs_view B (bi_world s) h"
    using copyItem_resolved [OF S(1,2,3,4,6,13) ai view copy] by blast
  have "delivered A B uidFn its w uid (bi_items t) v"
    using d t news by (intro deliveredI [OF S(8,9)]) (auto simp: sync_entry_def holds_uid_def)
  with d t show ?thesis
    by (auto simp: settles_def paired_def sync_entry_def agree_def)
qed

lemma copy_to_a_settles:
  assumes setting: "bidi_setting env a b A B opts uidFn its w"
    and bi: "truly_resolved B uidFn dst_href dst_etag its w uid bi"
    and view: "cs_view B (bi_world s) (si_href bi) = cs_view B w (si_href bi)"
    and news: "\<not> no_news B uidFn dst_href dst_etag its w uid"
    and run: "copy_to_a a b uid bi toHref cnt s = (None, t)"
  shows "settles A B uidFn its w uid (cs_at A toHref) (si_href bi) s t"
proof -
  note S = bidi_settingD [OF setting]
  obtain stored v where copy: "copyItem b a bi toHref (bi_world s) = (Inr stored, v)"
    and t: "bi_world t = v" "bi_items t = map_put uid
      (sync_entry uid (it_href stored) (it_etag stored) (si_href bi) (si_etag bi)) (bi_items s)"
    using run by (auto simp: copy_to_a_def split: prod.splits sum.splits)
  obtain d where d: "holds_uid B uidFn w uid (si_href bi) (si_etag bi) d"
      "holds_uid B uidFn v uid (si_href bi) (si_etag bi) d"
      "holds_uid A uidFn v uid (it_href stored) (it_etag stored) (cs_keep A d)"
      "cs_view B v = cs_view B (bi_world s)" "it_href stored = cs_at A toHref"
      "\<And>h. h \<noteq> cs_at A toHref \<Longrightarrow> cs_view A v h = cs_view A (bi_world s) h"
    using copyItem_resolved [OF S(2,1,4,3,5,12) bi view copy] by blast
  have "delivered A B uidFn its w uid (bi_items t) v"
    using d t news by (intro deliveredI [OF S(8,9)]) (auto simp: sync_entry_def holds_uid_def)
  with d t show ?thesis
    by (auto simp: settles_def paired_def sync_entry_def agree_def)
qed

lemma unchanged_settles:
  assumes setting: "bidi_setting env a b A B opts uidFn its w"
    and ai: "truly_resolved A uidFn src_href src_etag its w uid ai" "\<not> si_changed ai"
    and bi: "truly_resolved B uidFn dst_href dst_etag its w uid bi" "\<not> si_changed bi"
    and state: "map_get (bi_items s) uid = map_get its uid"
      "cs_view A (bi_world s) (si_href ai) = cs_view A w (si_href ai)"
      "cs_view B (bi_world s) (si_href bi) = cs_view B w (si_href bi)"
  shows "settles A B uidFn its w uid (si_href ai) (si_href bi) s s"
proof -
  note S = bidi_settingD [OF setting]
  obtain st where st: "map_get its uid = Some st" "src_href st = si_href ai" "src_etag st = si_etag ai"
      "dst_href st = si_href bi" "dst_etag st = si_etag bi"
    using ai bi by (auto simp: truly_resolved_def)
  obtain x y where x: "holds_uid A uidFn w uid (si_href ai) (si_etag ai) x" and y: "holds_uid B uidFn w uid (si_href bi) (si_etag bi) y"
    using ai(1) bi(1) by (auto simp: truly_resolved_def)
  have "cs_body A (si_href ai) (si_etag ai) = x" "cs_body B (si_href bi) (si_etag bi) = y"
    using x y servesD(1) [OF S(1)] servesD(1) [OF S(2)] by (auto simp: holds_uid_def)
  moreover have "agree A B (cs_body A (src_href st) (src_etag st)) (cs_body B (dst_href st) (dst_etag st))"
    and id: "is_uid st = uid"
    using S(7) st(1) unfolding pairs_recorded_def recorded_on_def by blast+
  ultimately have "agree A B x y" using st by simp
  with st id x y state have "paired A B uidFn uid (si_href ai) (si_href bi) (bi_items s) (bi_world s)"
    by (auto simp: paired_def holds_uid_def)
  moreover have "delivered A B uidFn its w uid (bi_items s) (bi_world s)"
    using resolved_news [OF S(8) ai(1)] resolved_news [OF S(9) bi(1)] ai(2) bi(2) x y
    by (intro nothing_delivered) (auto simp: side_uids_def)
  ultimately show ?thesis by (simp add: settles_def)
qed

lemma both_step_settles:
  assumes setting: "bidi_setting env a b A B opts uidFn its w"
    and ai: "truly_resolved A uidFn src_href src_etag its w uid ai"
    and bi: "truly_resolved B uidFn dst_href dst_etag its w uid bi"
    and state: "map_get (bi_items s) uid = map_get its uid"
      "cs_view A (bi_world s) (si_href ai) = cs_view A w (si_href ai)"
      "cs_view B (bi_world s) (si_href bi) = cs_view B w (si_href bi)"
    and run: "both_step a b opts uid ai bi s = (None, t)"
  shows "settles A B uidFn its w uid (si_href ai) (si_href bi) s t"
proof -
  note S = bidi_settingD [OF setting]
  obtain x where x: "holds_uid A uidFn w uid (si_href ai) (si_etag ai) x" "si_data ai = [] \<or> si_data ai = x"
    using ai by (auto simp: truly_resolved_def)
  obtain y where y: "holds_uid B uidFn w uid (si_href bi) (si_etag bi) y" "si_data bi = [] \<or> si_data bi = y"
    using bi by (auto simp: truly_resolved_def)
  have at: "cs_at A (si_href ai) = si_href ai" "cs_at B (si_href bi) = si_href bi"
    using x y servesD(1) [OF S(1)] servesD(1) [OF S(2)] by (auto simp: holds_uid_def)
  have na: "si_changed ai \<longleftrightarrow> \<not> no_news A uidFn src_href src_etag its w uid" by (rule resolved_news [OF S(8) ai])
  have nb: "si_changed bi \<longleftrightarrow> \<not> no_news B uidFn dst_href dst_etag its w uid" by (rule resolved_news [OF S(9) bi])
  have to_b: "settles A B uidFn its w uid (si_href ai) (si_href bi) s' t"
    if "copy_to_b a b uid ai (si_href bi) cnt s' = (None, t)" "si_changed ai"
      "cs_view A (bi_world s') = cs_view A (bi_world s)" for s' cnt
    using copy_to_b_settles [OF setting ai _ _ that(1)] that(2,3) na state(2) at by simp
  have to_a: "settles A B uidFn its w uid (si_href ai) (si_href bi) s' t"
    if "copy_to_a a b uid bi (si_href ai) cnt s' = (None, t)" "si_changed bi"
      "cs_view B (bi_world s') = cs_view B (bi_world s)" for s' cnt
    using copy_to_a_settles [OF setting bi _ _ that(1)] that(2,3) nb state(3) at by simp
  consider (none) "\<not> si_changed ai" "\<not> si_changed bi" | (one) "si_changed ai \<longleftrightarrow> \<not> si_changed bi"
    | (both) "si_changed ai" "si_changed bi" by blast
  then show ?thesis
  proof cases
    case none
    with run have "t = s" by (simp add: both_step_def)
    with unchanged_settles [OF setting ai none(1) bi none(2) state] show ?thesis by simp
  next
    case one
    with run to_b [of _ s] to_a [of _ s] show ?thesis by (auto simp: both_step_def split: if_splits)
  next
    case both
    with run obtain aWins v where w: "winnerIsA a b ai bi opts (bi_world s) = (Inr aWins, v)"
      and c: "(if aWins then copy_to_b a b uid ai (si_href bi) add_updated (s\<lparr>bi_world := v\<rparr>)
        else copy_to_a a b uid bi (si_href ai) add_updated (s\<lparr>bi_world := v\<rparr>)) = (None, t)"
      by (auto simp: both_step_def split: prod.splits sum.splits)
    have "cs_view A (bi_world s) (si_href ai) = Some (si_etag ai, x)" "cs_view B (bi_world s) (si_href bi) = Some (si_etag bi, y)"
      using x(1) y(1) state by (simp_all add: holds_uid_def)
    from winnerIsA_quiet [OF S(1-4) this(1) x(2) this(2) y(2) w]
    have v: "cs_view A v = cs_view A (bi_world s)" "cs_view B v = cs_view B (bi_world s)" by simp_all
    have "settles A B uidFn its w uid (si_href ai) (si_href bi) (s\<lparr>bi_world := v\<rparr>) t"
      using c both to_b [of add_updated "s\<lparr>bi_world := v\<rparr>"] to_a [of add_updated "s\<lparr>bi_world := v\<rparr>"] v
      by (simp split: if_splits)
    with v show ?thesis by (simp add: settles_def)
  qed
qed

lemma delete_on_settles:
  assumes setting: "bidi_setting env a b A B opts uidFn its w"
    and news: "no_news A uidFn src_href src_etag its w uid" "no_news B uidFn dst_href dst_etag its w uid"
  shows "delete_on ''A'' a uid ai s = (None, t) \<Longrightarrow> cs_view B (bi_world s) hb = None \<Longrightarrow>
      settles A B uidFn its w uid (si_href ai) hb s t"
    and "delete_on ''B'' b uid bi s = (None, t) \<Longrightarrow> cs_view A (bi_world s) ha = None \<Longrightarrow>
      settles A B uidFn its w uid ha (si_href bi) s t"
proof -
  note S = bidi_settingD [OF setting]
  show "settles A B uidFn its w uid (si_href ai) hb s t"
    if run: "delete_on ''A'' a uid ai s = (None, t)" and gone: "cs_view B (bi_world s) hb = None"
  proof -
    obtain u v where del: "coll_delete a (si_href ai) (bi_world s) = (Inr u, v)"
      and t: "bi_world t = v" "bi_items t = map_del uid (bi_items s)"
      using run by (auto simp: delete_on_def split: prod.splits sum.splits)
    with gone servesD(9) [OF S(1) del] apartD(4) [OF S(4) del] nothing_delivered [OF news] show ?thesis
      by (auto simp: settles_def paired_def)
  qed
  show "settles A B uidFn its w uid ha (si_href bi) s t"
    if run: "delete_on ''B'' b uid bi s = (None, t)" and gone: "cs_view A (bi_world s) ha = None"
  proof -
    obtain u v where del: "coll_delete b (si_href bi) (bi_world s) = (Inr u, v)"
      and t: "bi_world t = v" "bi_items t = map_del uid (bi_items s)"
      using run by (auto simp: delete_on_def split: prod.splits sum.splits)
    with gone servesD(9) [OF S(2) del] apartD(4) [OF S(3) del] nothing_delivered [OF news] show ?thesis
      by (auto simp: settles_def paired_def)
  qed
qed

lemma spot_Some: "map_get side uid = Some si \<Longrightarrow> spot S opts side uid = si_href si"
  by (simp add: spot_def)

lemma spot_None:
  assumes "resolved S uidFn href etag its w side" and "room_on S opts uidFn w U" and "uid \<in> U" and "map_get side uid = None"
  shows "spot S opts side uid = new_home S opts uid" and "cs_view S w (spot S opts side uid) = None"
  using absent_no_news(2) [OF assms(1,4)] assms(2-4) by (auto simp: spot_def room_on_def)

lemma bidi_step_settles:
  assumes setting: "bidi_setting env a b A B opts uidFn its w"
    and sides: "resolved A uidFn src_href src_etag its w aSide" "resolved B uidFn dst_href dst_etag its w bSide"
    and uid: "uid \<in> all_uids A B uidFn its w"
    and state: "map_get (bi_items s) uid = map_get its uid"
      "cs_view A (bi_world s) (spot A opts aSide uid) = cs_view A w (spot A opts aSide uid)"
      "cs_view B (bi_world s) (spot B opts bSide uid) = cs_view B w (spot B opts bSide uid)"
    and run: "bidi_step a b opts aSide bSide {} uid s = (None, t)"
  shows "settles A B uidFn its w uid (spot A opts aSide uid) (spot B opts bSide uid) s t"
proof -
  note S = bidi_settingD [OF setting]
  note A_none = spot_None [OF sides(1) S(10) uid] absent_no_news(1) [OF sides(1)]
  note B_none = spot_None [OF sides(2) S(11) uid] absent_no_news(1) [OF sides(2)]
  have hrefs: "src_href st \<noteq> [] \<and> dst_href st \<noteq> []" if "map_get its uid = Some st" for st
    using S(7) that unfolding pairs_recorded_def recorded_on_def by blast
  have unrecorded: "truly_resolved A uidFn src_href src_etag its w uid ai \<Longrightarrow>
      (\<forall>st. map_get (bi_items s) uid = Some st \<longrightarrow> dst_href st = []) \<Longrightarrow> si_changed ai"
    "truly_resolved B uidFn dst_href dst_etag its w uid bi \<Longrightarrow>
      (\<forall>st. map_get (bi_items s) uid = Some st \<longrightarrow> src_href st = []) \<Longrightarrow> si_changed bi" for ai bi
    using hrefs state(1) by (auto simp: truly_resolved_def)
  show ?thesis
  proof (cases "map_get aSide uid")
    case a: None
    show ?thesis
    proof (cases "map_get bSide uid")
      case None
      with a run have "bi_world t = bi_world s" "bi_items t = map_del uid (bi_items s)" by (auto simp: bidi_step_def)
      with a None A_none B_none state nothing_delivered [OF A_none(3) [OF a] B_none(3) [OF None], of "bi_items t"] show ?thesis
        by (auto simp: settles_def paired_def)
    next
      case (Some bi)
      then have bi: "truly_resolved B uidFn dst_href dst_etag its w uid bi" using sides(2) by (auto simp: resolved_def)
      note view = state(3) [unfolded spot_Some [OF Some]]
      consider (gone) "\<not> si_changed bi" "delete_on ''B'' b uid bi s = (None, t)"
        | (new) "si_changed bi" "copy_to_a a b uid bi (destHref uid (suffix_of opts)) add_created s = (None, t)"
        using run a Some unrecorded(2) [OF bi] by (auto simp: bidi_step_def split: option.splits if_splits)
      then show ?thesis
      proof cases
        case gone
        then have "no_news B uidFn dst_href dst_etag its w uid" using resolved_news [OF S(9) bi] by blast
        from delete_on_settles(2) [where ha = "spot A opts aSide uid", OF setting A_none(3) [OF a] this gone(2)]
          A_none(2) [OF a] state(2) Some show ?thesis by (simp add: spot_Some)
      next
        case new
        then have "\<not> no_news B uidFn dst_href dst_etag its w uid" using resolved_news [OF S(9) bi] by blast
        from copy_to_a_settles [OF setting bi view this new(2)] A_none(1) [OF a] Some show ?thesis
          by (simp add: spot_Some new_home_def)
      qed
    qed
  next
    case a: (Some ai)
    then have ai: "truly_resolved A uidFn src_href src_etag its w uid ai" using sides(1) by (auto simp: resolved_def)
    note viewA = state(2) [unfolded spot_Some [OF a]]
    show ?thesis
    proof (cases "map_get bSide uid")
      case (Some bi)
      then have bi: "truly_resolved B uidFn dst_href dst_etag its w uid bi" using sides(2) by (auto simp: resolved_def)
      from a Some run have "both_step a b opts uid ai bi s = (None, t)" by (simp add: bidi_step_def)
      from both_step_settles [OF setting ai bi state(1) viewA state(3) [unfolded spot_Some [OF Some]] this] a Some show ?thesis
        by (simp add: spot_Some)
    next
      case None
      consider (gone) "\<not> si_changed ai" "delete_on ''A'' a uid ai s = (None, t)"
        | (new) "si_changed ai" "copy_to_b a b uid ai (destHref uid (suffix_of opts)) add_created s = (None, t)"
        using run a None unrecorded(1) [OF ai] by (auto simp: bidi_step_def split: option.splits if_splits)
      then show ?thesis
      proof cases
        case gone
        then have "no_news A uidFn src_href src_etag its w uid" using resolved_news [OF S(8) ai] by blast
        from delete_on_settles(1) [where hb = "spot B opts bSide uid", OF setting this B_none(3) [OF None] gone(2)]
          B_none(2) [OF None] state(3) a show ?thesis by (simp add: spot_Some)
      next
        case new
        then have "\<not> no_news A uidFn src_href src_etag its w uid" using resolved_news [OF S(8) ai] by blast
        from copy_to_b_settles [OF setting ai viewA this new(2)] B_none(1) [OF None] a show ?thesis
          by (simp add: spot_Some new_home_def)
      qed
    qed
  qed
qed

end
