(* ===== verification/Dav_Agree.thy ===== *)
theory Dav_Agree
  imports Dav_Agreed
begin

text \<open>
  The bidirectional reconciliation as a whole: after a run without an error both sides hold the same UIDs with
  agreeing bodies, a new or changed item has won over the other side's lack of change or deletion, and the next run
  finds nothing to do. What happens without the ETag of a stored item is at the end.
\<close>


section \<open>The loop over the UIDs\<close>

lemma resolved_spot:
  assumes "resolved S uidFn href etag its w side" and "holds_uid S uidFn w uid h et d"
  shows "spot S opts side uid = h"
proof -
  obtain si where "map_get side uid = Some si" "si_href si = h" using assms unfolding resolved_def by blast
  then show ?thesis by (simp add: spot_def)
qed

lemma resolved_dom:
  assumes "resolved S uidFn href etag its w side"
  shows "dom (map_get side) = side_uids S uidFn w"
proof (intro equalityI subsetI)
  fix uid assume "uid \<in> dom (map_get side)"
  then obtain si where "map_get side uid = Some si" by blast
  with assms have "truly_resolved S uidFn href etag its w uid si" by (simp add: resolved_def)
  then show "uid \<in> side_uids S uidFn w" unfolding truly_resolved_def side_uids_def by blast
next
  fix uid assume "uid \<in> side_uids S uidFn w"
  with assms show "uid \<in> dom (map_get side)" unfolding resolved_def side_uids_def by blast
qed

lemma spot_inj:
  assumes side: "resolved S uidFn href etag its w side" and room: "room_on S opts uidFn w U"
  shows "inj_on (spot S opts side) U"
proof (rule inj_onI)
  fix u u' assume U: "u \<in> U" "u' \<in> U" and eq: "spot S opts side u = spot S opts side u'"
  have held: "\<exists>et d. cs_view S w (spot S opts side x) = Some (et, d) \<and> uidFn d = x" if x: "map_get side x = Some si" for x si
  proof -
    from side x have "truly_resolved S uidFn href etag its w x si" by (simp add: resolved_def)
    with x show ?thesis by (auto simp: truly_resolved_def holds_uid_def spot_Some)
  qed
  show "u = u'"
  proof (cases "map_get side u"; cases "map_get side u'")
    assume n: "map_get side u = None" "map_get side u' = None"
    then have "u \<in> U - side_uids S uidFn w" "u' \<in> U - side_uids S uidFn w"
      using U absent_no_news(2) [OF side] by auto
    moreover have "new_home S opts u = new_home S opts u'" using n eq by (simp add: spot_def)
    ultimately show ?thesis using room unfolding room_on_def by (meson inj_onD)
  next
    fix si assume "map_get side u = None" "map_get side u' = Some si"
    with held [of u'] spot_None(2) [OF side room U(1)] eq show ?thesis by fastforce
  next
    fix si assume "map_get side u = Some si" "map_get side u' = None"
    with held [of u] spot_None(2) [OF side room U(2)] eq show ?thesis by fastforce
  next
    fix si si' assume "map_get side u = Some si" "map_get side u' = Some si'"
    from held [OF this(1)] held [OF this(2)] eq show ?thesis by (metis option.inject prod.inject)
  qed
qed

definition reconciling ::
  "'w store \<Rightarrow> 'w store \<Rightarrow> options \<Rightarrow> (bytes \<Rightarrow> string) \<Rightarrow> side_items \<Rightarrow> side_items \<Rightarrow> items \<Rightarrow> 'w \<Rightarrow>
     string list \<Rightarrow> 'w bidi \<Rightarrow> bool" where
  "reconciling A B opts uidFn aSide bSide its w dn s \<longleftrightarrow> map_wf (bi_items s) \<and>
     (\<forall>u. u \<notin> set dn \<longrightarrow> map_get (bi_items s) u = map_get its u) \<and>
     (\<forall>h. h \<notin> spot A opts aSide ` set dn \<longrightarrow> cs_view A (bi_world s) h = cs_view A w h) \<and>
     (\<forall>h. h \<notin> spot B opts bSide ` set dn \<longrightarrow> cs_view B (bi_world s) h = cs_view B w h) \<and>
     (\<forall>u \<in> set dn. paired A B uidFn u (spot A opts aSide u) (spot B opts bSide u) (bi_items s) (bi_world s) \<and>
        delivered A B uidFn its w u (bi_items s) (bi_world s))"

lemma reconciled_elsewhere:
  assumes "paired A B uidFn u ha hb its1 w1" and "delivered A B uidFn its w u its1 w1"
    and "map_get its2 u = map_get its1 u" and "cs_view A w2 ha = cs_view A w1 ha" and "cs_view B w2 hb = cs_view B w1 hb"
    and "\<And>h d. news A uidFn src_href src_etag its w u h d \<Longrightarrow> h = ha"
    and "\<And>h d. news B uidFn dst_href dst_etag its w u h d \<Longrightarrow> h = hb"
  shows "paired A B uidFn u ha hb its2 w2 \<and> delivered A B uidFn its w u its2 w2"
proof
  show "paired A B uidFn u ha hb its2 w2"
    using assms(1,3-5) by (simp add: paired_def holds_uid_def split: option.splits)
  have "src_href st = ha" "dst_href st = hb" if "map_get its1 u = Some st" for st
    using assms(1) that by (simp_all add: paired_def)
  with assms(2-7) show "delivered A B uidFn its w u its2 w2"
    unfolding delivered_def by metis
qed

lemma bidi_step_reconciles:
  assumes setting: "bidi_setting env a b A B opts uidFn its w"
    and sides: "resolved A uidFn src_href src_etag its w aSide" "resolved B uidFn dst_href dst_etag its w bSide"
    and uids: "insert uid (set dn) \<subseteq> all_uids A B uidFn its w" "uid \<notin> set dn"
    and s: "reconciling A B opts uidFn aSide bSide its w dn s"
    and run: "bidi_step a b opts aSide bSide {} uid s = (None, t)"
  shows "reconciling A B opts uidFn aSide bSide its w (dn @ [uid]) t"
proof -
  note S = bidi_settingD [OF setting]
  let ?a = "spot A opts aSide" and ?b = "spot B opts bSide"
  have other: "?a u \<noteq> ?a uid" "?b u \<noteq> ?b uid" if "u \<in> set dn" for u
    using that uids inj_onD [OF spot_inj [OF sides(1) S(10)], of u uid] inj_onD [OF spot_inj [OF sides(2) S(11)], of u uid]
    by auto
  then have "?a uid \<notin> ?a ` set dn" "?b uid \<notin> ?b ` set dn" by force+
  with s uids(2) have state: "map_get (bi_items s) uid = map_get its uid"
      "cs_view A (bi_world s) (?a uid) = cs_view A w (?a uid)" "cs_view B (bi_world s) (?b uid) = cs_view B w (?b uid)"
    unfolding reconciling_def by blast+
  have t: "settles A B uidFn its w uid (?a uid) (?b uid) s t"
    using bidi_step_settles [OF setting sides _ state run] uids(1) by simp
  have kept: "paired A B uidFn u (?a u) (?b u) (bi_items t) (bi_world t) \<and> delivered A B uidFn its w u (bi_items t) (bi_world t)"
    if u: "u \<in> set dn" for u
  proof (rule reconciled_elsewhere)
    show "paired A B uidFn u (?a u) (?b u) (bi_items s) (bi_world s)" "delivered A B uidFn its w u (bi_items s) (bi_world s)"
      using s u by (simp_all add: reconciling_def)
    show "map_get (bi_items t) u = map_get (bi_items s) u" "cs_view A (bi_world t) (?a u) = cs_view A (bi_world s) (?a u)"
      "cs_view B (bi_world t) (?b u) = cs_view B (bi_world s) (?b u)"
      using t u uids(2) other [OF u] unfolding settles_def by metis+
    show "h = ?a u" if "news A uidFn src_href src_etag its w u h d" for h d
      using that resolved_spot [OF sides(1)] unfolding news_def by metis
    show "h = ?b u" if "news B uidFn dst_href dst_etag its w u h d" for h d
      using that resolved_spot [OF sides(2)] unfolding news_def by metis
  qed
  with s t show ?thesis unfolding reconciling_def settles_def by auto
qed

lemma uid_set_keys: "dom (map_get (uid_set aSide bSide its)) = dom (map_get aSide) \<union> dom (map_get bSide) \<union> dom (map_get its)"
proof -
  have "dom (map_get (fold (\<lambda>u. map_put u ()) us m)) = set us \<union> dom (map_get m)" for us and m :: "(string, unit) go_map"
    by (induction us arbitrary: m) (auto simp: dom_def)
  then show ?thesis by (auto simp: uid_set_def gm.keys_get)
qed

lemma go_range_keys:
  assumes "range_order rng" and "map_wf m"
  shows "distinct (map fst (go_range rng n m))" and "set (map fst (go_range rng n m)) = dom (map_get m)"
proof -
  have keys: "mset (map fst (go_range rng n m)) = mset (map_keys m)"
    using go_range_mset [OF assms] by (simp add: map_keys_def)
  show "distinct (map fst (go_range rng n m))"
    using mset_eq_imp_distinct_iff [OF keys] assms(2) by (simp add: map_wf_def)
  show "set (map fst (go_range rng n m)) = dom (map_get m)"
    using mset_eq_setD [OF keys] gm.keys_get [of m] by simp
qed

lemma uid_set_wf: "map_wf (uid_set aSide bSide its)"
proof -
  have "map_wf m \<Longrightarrow> map_wf (fold (\<lambda>u. map_put u ()) us m)" for us and m :: "(string, unit) go_map"
    by (induction us arbitrary: m) (auto intro: gm.wf_put)
  then show ?thesis by (simp add: uid_set_def)
qed


section \<open>A whole run\<close>

text \<open>A run that came to its loop resolved both sides truly, whatever state it came from.\<close>

lemma sides_resolved:
  assumes servers: "serves A a" "serves B b" "apart A b" "apart B a" "one_each A uidFn w" "one_each B uidFn w"
      "\<not> hasWindow opts" "range_order (env_range env)"
    and recorded: "recorded_on A uidFn src_href src_etag its" "recorded_on B uidFn dst_href dst_etag its"
    and run: "coll_list a w = (Inr la, w1)" "coll_list b w1 = (Inr lb, w2)"
      "resolveSide env a la (known_of env src_href src_etag its) opts uidFn {} w2 = (None, ra)"
      "resolveSide env b lb (known_of env dst_href dst_etag its) opts uidFn (rs_filtered ra) (rs_world ra) = (None, rb)"
  shows "resolved A uidFn src_href src_etag its w (rs_out ra)" "resolved B uidFn dst_href dst_etag its w (rs_out rb)"
    "rs_filtered rb = {}" "cs_view A (rs_world rb) = cs_view A w" "cs_view B (rs_world rb) = cs_view B w"
proof -
  have w1: "cs_view A w1 = cs_view A w" "cs_view B w1 = cs_view B w"
    using servesD(4) [OF servers(1) run(1)] apartD(1) [OF servers(4) run(1)] by simp_all
  have w2: "cs_view A w2 = cs_view A w" "cs_view B w2 = cs_view B w"
    using apartD(1) [OF servers(3) run(2)] servesD(4) [OF servers(2) run(2)] w1 by simp_all
  note ra = resolveSide_resolved [where href = src_href and etag = src_etag,
      OF servers(1,4,5,7,8) recorded(1) run(1) refl w2 run(3)]
  note rb = resolveSide_resolved [where href = dst_href and etag = dst_etag,
      OF servers(2,3,6,7,8) recorded(2) run(2) w1(2) ra(4,3) run(4)]
  show "resolved A uidFn src_href src_etag its w (rs_out ra)" "resolved B uidFn dst_href dst_etag its w (rs_out rb)"
    "rs_filtered rb = {}" "cs_view A (rs_world rb) = cs_view A w" "cs_view B (rs_world rb) = cs_view B w"
    using ra rb by simp_all
qed

lemma run_reconciles:
  assumes setting: "bidi_setting env a b A B opts uidFn its w"
    and out: "out = syncBidirectional env a b its opts uidFn w" "so_err out = None"
  obtains aSide bSide us s where "resolved A uidFn src_href src_etag its w aSide"
    and "resolved B uidFn dst_href dst_etag its w bSide" and "set us = all_uids A B uidFn its w"
    and "reconciling A B opts uidFn aSide bSide its w us s" and "so_items out = bi_items s" and "so_world out = bi_world s"
proof -
  note S = bidi_settingD [OF setting]
  have rec: "map_wf its" "recorded_on A uidFn src_href src_etag its" "recorded_on B uidFn dst_href dst_etag its"
    using S(7) by (simp_all add: pairs_recorded_def)
  show thesis
  proof (cases rule: syncBidirectional_cases [of a w b env its opts uidFn])
    case (ran la w1 lb w2 ra rb)
    note R = sides_resolved [OF S(1-4,8,9,14,15) rec(2,3) ran(1-4)]
    let ?us = "map fst (go_range (env_range env) 1 (uid_set (rs_out ra) (rs_out rb) its))"
    let ?s0 = "\<lparr>bi_world = rs_world rb, bi_items = its, bi_res = zero_result\<rparr>"
    let ?step = "bidi_step a b opts (rs_out ra) (rs_out rb) {}"
    have us: "distinct ?us" "set ?us = all_uids A B uidFn its w"
      using go_range_keys [OF S(15) uid_set_wf, of 1 "rs_out ra" "rs_out rb" its]
      by (simp_all only: uid_set_keys resolved_dom [OF R(1)] resolved_dom [OF R(2)] all_uids_def)
    obtain e s where loop: "foreach ?step ?us ?s0 = (e, s)" by fastforce
    with out ran(5) R(3) have e: "e = None" and s: "so_items out = bi_items s" "so_world out = bi_world s"
      by (auto simp: bidi_reconcile_def)
    have "reconciling A B opts uidFn (rs_out ra) (rs_out rb) its w ?us s"
    proof (rule foreach_inv_prefix [where I = "reconciling A B opts uidFn (rs_out ra) (rs_out rb) its w",
          OF loop [unfolded e]])
      show "reconciling A B opts uidFn (rs_out ra) (rs_out rb) its w [] ?s0"
        using rec(1) R(4,5) by (simp add: reconciling_def)
    next
      fix dn uid rest r t
      assume split: "?us = dn @ uid # rest" and r: "reconciling A B opts uidFn (rs_out ra) (rs_out rb) its w dn r"
        and step: "?step uid r = (None, t)"
      have "uid \<notin> set dn" using us(1) split by simp
      moreover have "insert uid (set dn) \<subseteq> all_uids A B uidFn its w" using us(2) unfolding split by auto
      ultimately show "reconciling A B opts uidFn (rs_out ra) (rs_out rb) its w (dn @ [uid]) t"
        using bidi_step_reconciles [OF setting R(1,2) _ _ r step] by blast
    qed
    from that [OF R(1,2) us(2) this s] show thesis .
  qed (use out in \<open>auto simp: bidi_out_def\<close>)
qed

lemma no_holder_outside:
  assumes "uid \<notin> all_uids A B uidFn its w"
  shows "\<not> holds_uid A uidFn w uid h et d" and "\<not> holds_uid B uidFn w uid h et d" and "map_get its uid = None"
  using assms unfolding all_uids_def side_uids_def by blast+

text \<open>From the loop's invariant to both sides as a whole.\<close>

lemma held_in_order:
  assumes side: "resolved S uidFn href etag its w side" and uids: "side_uids S uidFn w \<subseteq> U"
    and elsewhere: "\<And>h. h \<notin> spot S opts side ` U \<Longrightarrow> cs_view S w' h = cs_view S w h"
    and at: "\<And>u. u \<in> U \<Longrightarrow> cs_view S w' (spot S opts side u) = None \<or> (\<exists>st et d. map_get its' u = Some st \<and>
        href st = spot S opts side u \<and> etag st = et \<and> holds_uid S uidFn w' u (spot S opts side u) et d)"
    and held: "holds_uid S uidFn w' uid h et d"
  shows "\<exists>st. map_get its' uid = Some st \<and> href st = h"
proof (cases "h \<in> spot S opts side ` U")
  case False
  with elsewhere held have "holds_uid S uidFn w uid h et d" by (simp add: holds_uid_def)
  with resolved_spot [OF side this, of opts] uids False show ?thesis unfolding side_uids_def by blast
next
  case True
  then obtain u where u: "u \<in> U" "h = spot S opts side u" by blast
  with at held obtain st et' d' where st: "map_get its' u = Some st" "href st = h" "holds_uid S uidFn w' u h et' d'"
    unfolding holds_uid_def by (metis option.distinct(1))
  with held have "u = uid" by (simp add: holds_uid_def)
  with st show ?thesis by blast
qed

lemma uids_nonempty:
  assumes "bidi_setting env a b A B opts uidFn its w" and "uid \<in> all_uids A B uidFn its w"
  shows "uid \<noteq> []"
proof -
  note S = bidi_settingD [OF assms(1)]
  from assms(2) consider h et d where "holds_uid A uidFn w uid h et d" | h et d where "holds_uid B uidFn w uid h et d"
    | st where "map_get its uid = Some st"
    unfolding all_uids_def side_uids_def by blast
  then show ?thesis
  proof cases
    case 1
    with S(8) show ?thesis unfolding one_each_def holds_uid_def by blast
  next
    case 2
    with S(9) show ?thesis unfolding one_each_def holds_uid_def by blast
  next
    case 3
    with S(7) show ?thesis unfolding pairs_recorded_def recorded_on_def by blast
  qed
qed

lemma recorded_afterwards:
  assumes "serves S c" and "inj_on sp U"
    and "\<And>uid st. map_get its' uid = Some st \<Longrightarrow> uid \<in> U \<and> is_uid st = uid \<and> uid \<noteq> [] \<and> href st = sp uid \<and>
      (\<exists>d. holds_uid S uidFn w' uid (href st) (etag st) d)"
  shows "recorded_on S uidFn href etag its'"
proof -
  have "href st \<noteq> [] \<and> uidFn (cs_body S (href st) (etag st)) = uid" if st: "map_get its' uid = Some st" for uid st
  proof -
    obtain d where "cs_view S w' (href st) = Some (etag st, d)" "uidFn d = uid"
      using assms(3) [OF st] unfolding holds_uid_def by blast
    with servesD(1) [OF assms(1) this(1)] show ?thesis by (auto simp: canonical_def)
  qed
  moreover have "u = u'" if "map_get its' u = Some st" "map_get its' u' = Some st'" "href st = href st'" for u u' st st'
    using assms(3) [OF that(1)] assms(3) [OF that(2)] that(3) assms(2) by (simp add: inj_on_def)
  ultimately show ?thesis using assms(3) unfolding recorded_on_def by blast
qed

lemma run_agrees:
  assumes setting: "bidi_setting env a b A B opts uidFn its w"
    and run: "so_err (syncBidirectional env a b its opts uidFn w) = None" "out = syncBidirectional env a b its opts uidFn w"
  shows "agreed A B uidFn (so_items out) (so_world out)" "pairs_recorded A B uidFn (so_items out)"
    "delivered A B uidFn its w uid (so_items out) (so_world out)"
proof -
  note S = bidi_settingD [OF setting]
  let ?U = "all_uids A B uidFn its w" and ?its = "so_items out" and ?w = "so_world out"
  obtain aSide bSide us s where sides: "resolved A uidFn src_href src_etag its w aSide"
      "resolved B uidFn dst_href dst_etag its w bSide" and us: "set us = ?U"
    and inv: "reconciling A B opts uidFn aSide bSide its w us s" and s: "?its = bi_items s" "?w = bi_world s"
    using run_reconciles [OF setting run(2)] run by metis
  let ?a = "spot A opts aSide" and ?b = "spot B opts bSide"
  have wf: "map_wf ?its" and off: "\<And>u. u \<notin> ?U \<Longrightarrow> map_get ?its u = None"
    and elsewhere: "\<And>h. h \<notin> ?a ` ?U \<Longrightarrow> cs_view A ?w h = cs_view A w h" "\<And>h. h \<notin> ?b ` ?U \<Longrightarrow> cs_view B ?w h = cs_view B w h"
    and done_: "\<And>u. u \<in> ?U \<Longrightarrow> paired A B uidFn u (?a u) (?b u) ?its ?w \<and> delivered A B uidFn its w u ?its ?w"
    using inv no_holder_outside(3) [of _ A B uidFn its w] us s unfolding reconciling_def by auto
  have entry: "uid \<in> ?U \<and> is_uid st = uid \<and> uid \<noteq> [] \<and> src_href st = ?a uid \<and> dst_href st = ?b uid \<and>
      (\<exists>x y. holds_uid A uidFn ?w uid (src_href st) (src_etag st) x \<and> holds_uid B uidFn ?w uid (dst_href st) (dst_etag st) y \<and>
        agree A B x y)" if st: "map_get ?its uid = Some st" for uid st
  proof -
    have "uid \<in> ?U" using off st by (metis option.distinct(1))
    with done_ [OF this] uids_nonempty [OF setting this] st show ?thesis by (simp add: paired_def)
  qed
  show "delivered A B uidFn its w uid ?its ?w"
  proof (cases "uid \<in> ?U")
    case False
    then show ?thesis using no_holder_outside(1,2) [OF False] off [OF False] by (intro nothing_delivered) (auto simp: no_news_def news_def)
  qed (use done_ in blast)
  have "recorded_on A uidFn src_href src_etag ?its"
    by (rule recorded_afterwards [OF S(1) spot_inj [OF sides(1) S(10)]]) (use entry in blast)
  moreover have "recorded_on B uidFn dst_href dst_etag ?its"
    by (rule recorded_afterwards [OF S(2) spot_inj [OF sides(2) S(11)]]) (use entry in blast)
  moreover have "agree A B (cs_body A (src_href st) (src_etag st)) (cs_body B (dst_href st) (dst_etag st))"
    if "map_get ?its uid = Some st" for uid st
    using entry [OF that] servesD(1) [OF S(1)] servesD(1) [OF S(2)] unfolding holds_uid_def by metis
  ultimately show "pairs_recorded A B uidFn ?its" using wf by (simp add: pairs_recorded_def)
  have atA: "cs_view A ?w (?a u) = None \<or> (\<exists>st et d. map_get ?its u = Some st \<and> src_href st = ?a u \<and> src_etag st = et \<and>
      holds_uid A uidFn ?w u (?a u) et d)" if "u \<in> ?U" for u
    using done_ [OF that] by (auto simp: paired_def split: option.splits)
  have atB: "cs_view B ?w (?b u) = None \<or> (\<exists>st et d. map_get ?its u = Some st \<and> dst_href st = ?b u \<and> dst_etag st = et \<and>
      holds_uid B uidFn ?w u (?b u) et d)" if "u \<in> ?U" for u
    using done_ [OF that] by (auto simp: paired_def split: option.splits)
  have "side_uids A uidFn w \<subseteq> ?U" "side_uids B uidFn w \<subseteq> ?U" by (auto simp: all_uids_def)
  note held = held_in_order [OF sides(1) this(1) elsewhere(1) atA] held_in_order [OF sides(2) this(2) elsewhere(2) atB]
  show "agreed A B uidFn ?its ?w"
    unfolding agreed_def using held entry by (intro conjI allI impI) blast+
qed

text \<open>C5: bidirectional synchronisation, on servers that keep the contract and name the ETag of what they store, ends in
  agreement: after a run without an error every UID is on both sides with agreeing bodies under an entry that names both
  copies, or on neither; where only one side had news (a new or changed item), the other side holds it now, also
  where it had deleted its own copy; and an item without news that one side had deleted is gone from both.\<close>

theorem bidi_agrees:
  assumes "bidi_setting env a b A B opts uidFn its w"
    and "so_err (syncBidirectional env a b its opts uidFn w) = None"
    and "out = syncBidirectional env a b its opts uidFn w"
  shows "agreed A B uidFn (so_items out) (so_world out) \<and> pairs_recorded A B uidFn (so_items out) \<and>
    (\<forall>uid. delivered A B uidFn its w uid (so_items out) (so_world out))"
  using run_agrees [OF assms] by blast


section \<open>The next run\<close>

lemma agreed_one_each:
  assumes "agreed A B uidFn its w" and "pairs_recorded A B uidFn its"
  shows "one_each A uidFn w" "one_each B uidFn w"
proof -
  have uid: "uid \<noteq> []" if "map_get its uid = Some st" for uid st
    using assms(2) that unfolding pairs_recorded_def recorded_on_def by blast
  have a: "\<exists>st. map_get its uid = Some st \<and> src_href st = h" if "holds_uid A uidFn w uid h et d" for uid h et d
    using assms(1) that unfolding agreed_def by blast
  have b: "\<exists>st. map_get its uid = Some st \<and> dst_href st = h" if "holds_uid B uidFn w uid h et d" for uid h et d
    using assms(1) that unfolding agreed_def by blast
  show "one_each A uidFn w"
    unfolding one_each_def using a uid unfolding holds_uid_def by (metis option.inject)
  show "one_each B uidFn w"
    unfolding one_each_def using b uid unfolding holds_uid_def by (metis option.inject)
qed

text \<open>On sides that agree, each UID the loop visits is on both sides and unchanged.\<close>

lemma agreed_unchanged:
  assumes "agreed A B uidFn its w" and "pairs_recorded A B uidFn its"
    and "resolved A uidFn src_href src_etag its w aSide" and "resolved B uidFn dst_href dst_etag its w bSide"
    and "uid \<in> dom (map_get aSide) \<union> dom (map_get bSide) \<union> dom (map_get its)"
  obtains ai bi where "map_get aSide uid = Some ai" "\<not> si_changed ai" "map_get bSide uid = Some bi" "\<not> si_changed bi"
proof -
  from assms(5) consider "uid \<in> side_uids A uidFn w" | "uid \<in> side_uids B uidFn w" | "uid \<in> dom (map_get its)"
    using resolved_dom [OF assms(3)] resolved_dom [OF assms(4)] by blast
  then obtain st where st: "map_get its uid = Some st"
    using assms(1) unfolding agreed_def side_uids_def by cases blast+
  then obtain x y where x: "holds_uid A uidFn w uid (src_href st) (src_etag st) x"
      and y: "holds_uid B uidFn w uid (dst_href st) (dst_etag st) y"
    using assms(1) unfolding agreed_def by blast
  obtain ai where ai: "map_get aSide uid = Some ai" "truly_resolved A uidFn src_href src_etag its w uid ai"
    using assms(3) x unfolding resolved_def by blast
  obtain bi where bi: "map_get bSide uid = Some bi" "truly_resolved B uidFn dst_href dst_etag its w uid bi"
    using assms(4) y unfolding resolved_def by blast
  note one = agreed_one_each [OF assms(1,2)]
  have "si_href ai = src_href st \<and> si_etag ai = src_etag st" "si_href bi = dst_href st \<and> si_etag bi = dst_etag st"
    using ai(2) bi(2) one_eachD [OF one(1) x] one_eachD [OF one(2) y] unfolding truly_resolved_def by blast+
  with ai bi st have "\<not> si_changed ai" "\<not> si_changed bi" by (auto simp: truly_resolved_def)
  with ai(1) bi(1) show thesis by (intro that)
qed

lemma agreed_is_quiet:
  assumes servers: "serves A a" "serves B b" "apart A b" "apart B a" "\<not> hasWindow opts" "range_order (env_range env)"
    and agreed: "agreed A B uidFn its w" "pairs_recorded A B uidFn its"
    and run: "out = syncBidirectional env a b its opts uidFn w" "so_err out = None"
  shows "so_items out = its \<and> so_res out = zero_result \<and> cs_view A (so_world out) = cs_view A w \<and>
    cs_view B (so_world out) = cs_view B w"
proof (cases rule: syncBidirectional_cases [of a w b env its opts uidFn])
  case (ran la w1 lb w2 ra rb)
  have rec: "recorded_on A uidFn src_href src_etag its" "recorded_on B uidFn dst_href dst_etag its"
    using agreed(2) by (simp_all add: pairs_recorded_def)
  note R = sides_resolved [OF servers(1-4) agreed_one_each [OF agreed] servers(5,6) rec ran(1-4)]
  let ?us = "map fst (go_range (env_range env) 1 (uid_set (rs_out ra) (rs_out rb) its))"
  let ?s0 = "\<lparr>bi_world = rs_world rb, bi_items = its, bi_res = zero_result\<rparr>"
  let ?step = "bidi_step a b opts (rs_out ra) (rs_out rb) {}"
  have us: "set ?us = dom (map_get (rs_out ra)) \<union> dom (map_get (rs_out rb)) \<union> dom (map_get its)"
    using go_range_keys(2) [OF servers(6) uid_set_wf, of 1 "rs_out ra" "rs_out rb" its]
    by (simp only: uid_set_keys)
  have "snd (foreach ?step ?us ?s0) = ?s0"
  proof (rule foreach_inv [where I = "\<lambda>s. s = ?s0"])
    fix uid s assume uid: "uid \<in> set ?us" and s: "s = ?s0"
    from agreed_unchanged [OF agreed R(1,2) uid [unfolded us]] obtain ai bi where
      "map_get (rs_out ra) uid = Some ai" "\<not> si_changed ai" "map_get (rs_out rb) uid = Some bi" "\<not> si_changed bi" .
    with s show "snd (?step uid s) = ?s0" by (simp add: bidi_step_def both_step_def)
  qed simp
  with run(1) ran(5) R(3-5) show ?thesis by (auto simp: bidi_reconcile_def split: prod.splits)
qed (use run in \<open>auto simp: bidi_out_def\<close>)

text \<open>C7: and it converges: when nobody edits either side, the next run that ends without an error counts no write, keeps
  its state and leaves both sides as they are.\<close>

theorem bidi_converges:
  assumes "bidi_setting env a b A B opts uidFn its w"
    and "so_err (syncBidirectional env a b its opts uidFn w) = None"
    and "out = syncBidirectional env a b its opts uidFn w"
    and "cs_view A v = cs_view A (so_world out)" and "cs_view B v = cs_view B (so_world out)"
    and "next = syncBidirectional env a b (so_items out) opts uidFn v" and "so_err next = None"
  shows "so_items next = so_items out \<and> so_res next = zero_result \<and>
    cs_view A (so_world next) = cs_view A (so_world out) \<and> cs_view B (so_world next) = cs_view B (so_world out)"
proof -
  note S = bidi_settingD [OF assms(1)]
  have "agreed A B uidFn (so_items out) v"
    using run_agrees(1) [OF assms(1-3)] assms(4,5) by (simp add: agreed_def holds_uid_def)
  from agreed_is_quiet [OF S(1-4,14,15) this run_agrees(2) [OF assms(1-3)] assms(6,7)] assms(4,5) show ?thesis by simp
qed


section \<open>Two servers with one place each\<close>

text \<open>The servers of \<open>Dav_Converge\<close>, here naming the ETag of what they store.\<close>

definition echo_adapter :: "(string, 'w) adapter \<Rightarrow> (string, 'w) adapter" where
  "echo_adapter ad = ad\<lparr>ad_client := (ad_client ad)\<lparr>dc_put := (\<lambda>h x w. case dc_put (ad_client ad) h x w of
     (Inr _, w') \<Rightarrow> (Inr ([], CHR ''e'' # x), w') | (Inl e, w') \<Rightarrow> (Inl e, w'))\<rparr>\<rparr>"

lemma echo_serves:
  assumes "client_serves C ad"
  shows "client_serves C (echo_adapter ad)"
proof -
  have "client_writes C ad" using assms by (simp add: client_serves_def)
  then have "client_writes C (echo_adapter ad)"
    by (fastforce simp: client_writes_def echo_adapter_def split: sum.splits prod.splits)
  then show ?thesis
    using assms by (simp add: client_serves_def objects_sound_def client_reads_def echo_adapter_def)
qed

lemma echo_apart:
  assumes "client_apart C ad"
  shows "client_apart C (echo_adapter ad)"
proof -
  have "cl_view C w' = cl_view C w" if "dc_put (ad_client ad) p x w = (r, w')" for p x w r w'
    using assms that unfolding client_apart_def by (metis snd_conv)
  with assms show ?thesis
    by (auto simp: client_apart_def echo_adapter_def split: sum.splits prod.splits)
qed

definition left_side :: "two_places collection" where
  "left_side = as_collection (echo_adapter source_side)"

definition right_side :: "two_places collection" where
  "right_side = as_collection (echo_adapter target_side)"

lemma echo_store: "item_store C (echo_adapter ad) = item_store C ad"
proof -
  have "rendered (echo_adapter ad) = rendered ad" by (simp add: rendered_def echo_adapter_def fun_eq_iff)
  moreover have "ad_parse (echo_adapter ad) = ad_parse ad" "ad_path (echo_adapter ad) = ad_path ad"
    by (simp_all add: echo_adapter_def)
  ultimately show ?thesis by (simp add: item_store_def cong: sum.case_cong)
qed

lemma sides_serve:
  "serves source_items left_side" "serves target_items right_side"
  "apart source_items right_side" "apart target_items left_side"
proof -
  show "serves source_items left_side" "serves target_items right_side"
    using adapter_contract [OF echo_serves [OF places_serve(1)]] adapter_contract [OF echo_serves [OF places_serve(2)]]
    by (simp_all add: echo_store left_side_def right_side_def source_items_def target_items_def)
  show "apart source_items right_side" "apart target_items left_side"
    using adapter_apart [OF echo_apart [OF places_apart(1)], of source_side]
      adapter_apart [OF echo_apart [OF places_apart(2)], of target_side]
    by (simp_all add: left_side_def right_side_def source_items_def target_items_def)
qed

lemma sides_echo: "echoes source_items left_side" "echoes target_items right_side"
proof -
  have at: "cs_at source_items = put_path ''/s''" "cs_keep source_items d = d" for d
    by (simp_all add: source_items_def item_store_def source_side_def place_adapter_def rendered_def)
  have "cs_view source_items w' (it_href stored) = Some (it_etag stored, it_data it)"
    if "coll_put left_side it w = (Inr stored, w')" for it stored w w'
    using that by (auto simp: left_side_def as_collection_def Put_def echo_adapter_def source_side_def place_adapter_def
        place_client_def places_view Let_def split: if_splits)
  then show "echoes source_items left_side" by (simp add: echoes_def at)
  have "cs_view target_items w' (it_href stored) = Some (it_etag stored, it_data it)"
    if "coll_put right_side it w = (Inr stored, w')" for it stored w w'
    using that by (auto simp: right_side_def as_collection_def Put_def echo_adapter_def target_side_def place_adapter_def
        place_client_def places_view Let_def split: if_splits)
  then show "echoes target_items right_side" by (simp add: echoes_def places_view)
qed

lemma meeting_setting:
  "bidi_setting hashing_env left_side right_side source_items target_items plain_options (\<lambda>_. ''x'') [] (Some ''b'', None)"
proof -
  have uids: "side_uids source_items (\<lambda>_. ''x'') (Some ''b'', None) = {''x''}"
    "side_uids target_items (\<lambda>_. ''x'') (Some ''b'', None) = {}"
    by (auto simp: side_uids_def holds_uid_def places_view)
  have "room_on target_items plain_options (\<lambda>_. ''x'') (Some ''b'', None) {''x''}"
    "room_on source_items plain_options (\<lambda>_. ''x'') (Some ''b'', None) {''x''}"
    by (simp_all add: room_on_def uids places_view)
  moreover have "all_uids source_items target_items (\<lambda>_. ''x'') [] (Some ''b'', None) = {''x''}"
    by (simp add: all_uids_def uids dom_def)
  ultimately show ?thesis
    using sides_serve sides_echo
    by (simp add: bidi_setting_def pairs_recorded_def recorded_on_def one_each_def holds_uid_def places_view
        hashing_env_def plain_options_def hasWindow_def time_is_zero_def split: if_splits)
qed

definition meeting :: "two_places sync_out" where
  "meeting = syncBidirectional hashing_env left_side right_side [] plain_options (\<lambda>_. ''x'') (Some ''b'', None)"

lemma meeting_works: "so_err meeting = None" "so_world meeting = (Some ''b'', Some ''b'')"
  unfolding meeting_def by code_simp+

lemma bidi_agrees_witness:
  "agreed source_items target_items (\<lambda>_. ''x'') (so_items meeting) (so_world meeting) \<and>
   cs_view target_items (so_world meeting) ''/d/x.ics'' = Some (''eb'', ''b'')"
  using bidi_agrees [OF meeting_setting meeting_works(1) [unfolded meeting_def] meeting_def]
  by (simp add: meeting_works places_view)

definition second_meeting :: "two_places sync_out" where
  "second_meeting = syncBidirectional hashing_env left_side right_side (so_items meeting) plain_options (\<lambda>_. ''x'')
     (Some ''b'', Some ''b'')"

lemma second_meeting_works: "so_err second_meeting = None"
  unfolding second_meeting_def meeting_def by code_simp

lemma bidi_converges_witness: "so_res second_meeting = zero_result \<and> so_items second_meeting = so_items meeting"
  using bidi_converges [OF meeting_setting meeting_works(1) [unfolded meeting_def] meeting_def _ _
      second_meeting_def second_meeting_works]
  by (simp add: meeting_works)


text \<open>The ETag in the answer to a PUT is needed: \<^verbatim>\<open>copyItem\<close> records it without reading back, and a server need not send
  one (the servers of \<open>Dav_Converge\<close> do not). Then the copy just written looks changed to the next run, which
  copies it back, and so on: two equal sides that nobody edits are written to by every run.\<close>

fun rounds :: "nat \<Rightarrow> two_places sync_out" where
  "rounds 0 = syncBidirectional hashing_env (as_collection source_side) (as_collection target_side) [] plain_options
     (\<lambda>_. ''x'') (Some ''b'', None)"
| "rounds (Suc n) = syncBidirectional hashing_env (as_collection source_side) (as_collection target_side)
     (so_items (rounds n)) plain_options (\<lambda>_. ''x'') (so_world (rounds n))"

lemma rounds_cycle: "rounds (Suc (Suc (Suc n))) = rounds (Suc n)"
proof (induction n)
  case 0
  show ?case by code_simp
next
  case (Suc n)
  from rounds.simps(2) [of "Suc (Suc (Suc n))"] rounds.simps(2) [of "Suc n"] Suc.IH show ?case by metis
qed

lemma unechoed_copies_never_settle:
  "so_world (rounds (Suc n)) = (Some ''b'', Some ''b'') \<and> r_updated (so_res (rounds (Suc n))) = 1"
proof -
  let ?P = "\<lambda>n. so_world (rounds (Suc n)) = (Some ''b'', Some ''b'') \<and> r_updated (so_res (rounds (Suc n))) = 1"
  have "?P 0" "?P 1" by code_simp+
  then have "?P n \<and> ?P (Suc n)"
    by (induction n) (simp_all only: One_nat_def rounds_cycle)
  then show ?thesis by simp
qed

end
