(* ===== verification/Races.thy ===== *)
theory Races
  imports Sync_Steps Dav_Agree
begin

text \<open>
  Two places where reading and writing are not one step and something comes between: the runner, which reads its
  jobs with their sync state before it takes them, and the confirmation of a password reset, which looks the token
  up, hashes the new password and deletes the token last.
\<close>


section \<open>Two address books and a manual run in between\<close>

text \<open>The servers of \<open>Dav_Agree\<close> with one contact each, as address books; a sync state is stored as the list of its
  texts, each with a bar behind it.\<close>

definition book :: "string \<Rightarrow> (string, two_places) dav_client" where
  "book url =
     (if url = ''/s/''
      then ad_client (echo_adapter (place_adapter url ''/s/x.vcf'' fst (\<lambda>x w. (x, snd w))))
      else ad_client (echo_adapter (place_adapter url ''/d/x.vcf'' snd (\<lambda>x w. (fst w, x)))))"

fun until_bar :: "string \<Rightarrow> string list" where
  "until_bar [] = []"
| "until_bar (c # cs) =
     (if c = CHR ''|'' then [] # until_bar cs
      else case until_bar cs of [] \<Rightarrow> [[c]] | t # ts \<Rightarrow> (c # t) # ts)"

fun entries_of :: "string list \<Rightarrow> items" where
  "entries_of (uid # sh # se # dh # de # ts) = (uid, sync_entry uid sh se dh de) # entries_of ts"
| "entries_of _ = []"

definition texts_of :: "items \<Rightarrow> string" where
  "texts_of its = concat (map (\<lambda>(uid, st). concat (map (\<lambda>t. t @ ''|'')
     [uid, src_href st, src_etag st, dst_href st, dst_etag st])) its)"

definition books_env :: "(two_places, unit, string) runner_env" where
  "books_env = \<lparr>ru_dav = plain_env, ru_ical = sample_ical, ru_utc = (),
     ru_vcard = \<lparr>vc_decode = Inr, vc_encode = Inr, vc_value = (\<lambda>c f. ''x''), vc_preferred = (\<lambda>c f. c)\<rparr>,
     ru_caldav = (\<lambda>_ _ _. Inl (ErrNew ''no calendar'')), ru_carddav = (\<lambda>url _ _. Inr (book url)),
     ru_url_error = ErrNew, ru_decode = (\<lambda>t. Inr (entries_of (until_bar t))), ru_encode = (\<lambda>its. Inr (texts_of its)),
     ru_quote = id, ru_now = (\<lambda>_. 0)\<rparr>"

definition books_row :: job_row where
  "books_row = \<lparr>jr_id = ''j'', jr_user = ''u'',
     jr_config = \<lparr>jc_name = ''books'', jc_kind = ''carddav'', jc_direction = Bidirectional, jc_conflict = SourceWins,
       jc_a_url = ''/s/'', jc_a_username = [], jc_a_password = [], jc_b_url = ''/d/'', jc_b_username = [],
       jc_b_password = [], jc_interval = 900, jc_enabled = True, jc_window_start = [], jc_window_end = []\<rparr>,
     jr_state = ''{}'', jr_last_run = [], jr_last_status = [], jr_created = [], jr_updated = []\<rparr>"

definition books :: "two_places app_state" where
  "books = \<lparr>au_users = [], au_sessions = [], au_resets = [], au_world = (Some ''old'', None), ap_feeds = [],
     ap_jobs = [books_row], ap_audit = [], ap_cache = [], ap_running = []\<rparr>"

text \<open>The scheduler has read its jobs; a manual run copies the contact; its copy is edited; the scheduler goes on.\<close>

definition ran_manually :: "two_places app_state" where
  "ran_manually = snd (run_task False (runner_task books_env (Manual (scanSyncJob books_row))) books)"

definition edited :: "two_places app_state" where
  "edited = ran_manually\<lparr>au_world := (Some ''old'', Some ''new'')\<rparr>"

definition went_on :: "two_places app_state" where
  "went_on = snd (run_task False (runner_task books_env (Jobs (due_jobs books_env books))) edited)"

lemma manual_run_copies: "au_world ran_manually = (Some ''old'', Some ''old'')"
  by code_simp

text \<open>A run that starts now carries the edit over; the run that had read its job before the manual one takes both
  copies for new and overwrites the edit with what it replaced.\<close>

lemma stale_state_loses_edit:
  "au_world (run_sync books_env edited) = (Some ''new'', Some ''new'')"
  "au_world went_on = (Some ''old'', Some ''old'')"
  by code_simp+


section \<open>A reset token\<close>

text \<open>The two halves of \<open>ConfirmPasswordReset\<close>: up to the hash of the new password, which is slow on purpose, and
  the writes.\<close>

definition reset_checked :: "'w auth_env \<Rightarrow> string \<Rightarrow> string \<Rightarrow> ('w, 'x, password_reset \<times> string) auth_flow" where
  "reset_checked env token newPassword =
     (if go_trim_space newPassword = [] then stop ErrInvalidCredentials
      else andthen (peek (\<lambda>s. PasswordResetByTokenHash (hashSecret env token) (au_resets s))) (\<lambda>found.
        case found of
          Inl e \<Rightarrow> if err_is e ErrNotFound then stop ErrInvalidResetToken else stop e
        | Inr pr \<Rightarrow>
            andthen (clock env) (\<lambda>now.
              if time_after now (pw_expires pr) then
                andthen (modify (drop_reset (pw_hash pr))) (\<lambda>_. stop ErrInvalidResetToken)
              else andthen (hashPassword env newPassword) (\<lambda>hash. pass (pr, hash)))))"

definition reset_applied :: "password_reset \<times> string \<Rightarrow> ('w, 'x, unit) auth_flow" where
  "reset_applied checked =
     (case checked of (pr, hash) \<Rightarrow>
        andthen (returns_err (\<lambda>s. case UpdateUserPassword (pw_user pr) hash (au_users s) of
                   (e, rows) \<Rightarrow> (e, s\<lparr>au_users := rows\<rparr>))) (\<lambda>_.
        modify (drop_reset (pw_hash pr))))"

lemma ConfirmPasswordReset_halves:
  "ConfirmPasswordReset env token pw = andthen (reset_checked env token pw) reset_applied"
  by (rule ext) (auto simp: ConfirmPasswordReset_def reset_checked_def reset_applied_def flow_run andthen_def
      split: sum.split prod.split)

lemma reset_checked_cases:
  assumes "reset_checked env token pw s = (Inr (pr, hash), s')"
  shows "PasswordResetByTokenHash (hashSecret env token) (au_resets s) = Inr pr" and "au_resets s' = au_resets s"
    and "au_users s' = au_users s"
  using assms
  by (auto simp: reset_checked_def flow_run clock_def split: if_splits sum.splits)
    (auto simp: hashPassword_def wrapping_def outside_def andthen_def pass_def split: sum.splits prod.splits)

lemma set_password_rows:
  "filter (\<lambda>r. ur_id r = uid) (map (\<lambda>r. if ur_id r = uid then r\<lparr>ur_password := h\<rparr> else r) rows) = [] \<longleftrightarrow>
     filter (\<lambda>r. ur_id r = uid) rows = []"
  by (induction rows) simp_all

text \<open>Two confirmations that both come through the first half before one is through the second both succeed: the
  token that works once in sequence sets the password twice.\<close>

lemma reset_token_works_twice:
  assumes "reset_checked env token pw s = (Inr (pr, hash), s1)" and "reset_checked env token pw' s1 = (Inr (pr', hash'), s2)"
    and "reset_applied (pr, hash) s2 = (Inr (), s3)"
  shows "\<exists>s4. reset_applied (pr', hash') s3 = (Inr (), s4)"
proof -
  have "pr' = pr" using reset_checked_cases [OF assms(1)] reset_checked_cases(1) [OF assms(2)] by simp
  with assms(3) show ?thesis
    by (auto simp: reset_applied_def flow_run UpdateUserPassword_def update_where_def checkAffected_def set_password_rows
        drop_reset_def andthen_def modify_def returns_err_def split: if_splits option.splits)
qed

end
