(* ===== verification/Spec2Isabelle.thy ===== *)
theory Spec2Isabelle
  imports Prelude Go_Strings Go_URL Go_Time Go_Time_Format Go_Time_Order
    Dav_Types Dav_Mirror Dav_Sync Dav_Frame Dav_Calls Dav_Bidi Dav_Bidi_Calls
    Ics_Types Ics_Text Ics_Dates Pipeline Pipeline_Props Store_Tables Proxy Store_Feeds Feed Feed_Props Notify Notifier Notifier_Props Dav_Extract Dav_Collections Dav_Preview Store_Jobs Davsync Davsync_Props
    Go_Flow Store_Users Config Outbound Auth Auth_Props Server_Core Server_Auth Server_Feeds Server_Jobs
    Server_Routes Server_Samples Server_Props Server_Checks
    Redact Mail Scheduler Middleware Migrate Cleanup Boot Ui Clients Sync_Steps System Integrity Process Races
    Dav_Store Dav_Mirrored Dav_Converge Dav_Agreed Dav_Agree
begin

text \<open>
  Verification development for TidyDAV, a self-hosted service in Go that cleans up calendar feeds and keeps
  CalDAV and CardDAV collections in sync.


  THE PROGRAM

  \<^verbatim>\<open>cmd/tidydav/main.go\<close> reads the configuration, builds the application (\<^verbatim>\<open>internal/app\<close>: the SQLite store,
  authentication, the feed service and the sync runner), starts the scheduler with three jobs (cleanup,
  notifications, sync) and serves HTTP. Everything the parts share is the database and the sync runner's table
  of running jobs. A feed is a list of upstream calendars: the proxy fetches each one (with a cache that
  survives outages), \<^verbatim>\<open>internal/feed\<close> merges them, \<^verbatim>\<open>internal/pipeline\<close> rewrites the events by the feed's rules,
  \<^verbatim>\<open>internal/ics\<close> serialises them. A sync job mirrors one DAV collection to another or reconciles two of them
  (\<^verbatim>\<open>internal/dav\<close>, run by \<^verbatim>\<open>internal/davsync\<close>).


  THE THEORIES

  Foundations.
    Prelude                 Go errors as values (\<open>go_error\<close>, \<open>result\<close>), Go maps as the locale \<open>go_map_laws\<close>
                            (interpreted as \<open>gm\<close> on association lists), 64-bit arithmetic, loops with early return
    Go_Flow                 functions with an early return over a state (\<open>andthen\<close>), with the collections
                            \<open>flow_frame\<close> (what a step leaves alone) and \<open>flow_run\<close> (what a step does)
    Go_Strings, Go_URL      the functions of \<^verbatim>\<open>strings\<close>, \<^verbatim>\<open>strconv\<close>, \<^verbatim>\<open>encoding/hex\<close>, \<^verbatim>\<open>net/url\<close> and \<^verbatim>\<open>path\<close> in use
    Go_Time, Go_Time_Format, Go_Time_Order
                            \<^verbatim>\<open>time.Time\<close> in nanoseconds, the layouts parsed and printed, RFC 3339 text as the
                            store's order on timestamps

  DAV synchronisation (\<^verbatim>\<open>internal/dav\<close>).
    Dav_Types, Dav_Mirror, Dav_Sync, Dav_Bidi
                            \<^verbatim>\<open>dav.go\<close>, \<^verbatim>\<open>mirror.go\<close>, \<^verbatim>\<open>sync.go\<close>, \<^verbatim>\<open>sync_bidi.go\<close>. A \<open>collection\<close> is a record of four
                            operations on an arbitrary world, as the Go interface is
    Dav_Frame, Dav_Calls, Dav_Bidi_Calls
                            the locales \<open>mirror_reader\<close>, \<open>mirror_frame\<close>, \<open>bidi_frame\<close>: what a run does to the
                            world, proved for any collections, and their interpretations on traced collections
                            (\<open>reads\<close>, \<open>deletes\<close>, \<open>counts\<close>, \<open>bidels\<close>), which give the statements about calls
    Dav_Collections, Dav_Extract, Dav_Preview
                            \<^verbatim>\<open>caldav.go\<close> and \<^verbatim>\<open>carddav.go\<close>, \<^verbatim>\<open>extract.go\<close>, \<^verbatim>\<open>preview.go\<close>
    Dav_Store               the contract of a DAV server towards the sync engine (\<open>serves\<close>, over an abstract
                            \<open>store\<close>), and that the adapters keep it when the client below them does
    Dav_Mirrored, Dav_Converge
                            the one-way mirror on such servers: the loops step by step, and whole runs
    Dav_Agreed, Dav_Agree   the bidirectional reconciliation on such servers, in the same two parts

  Calendars and rules.
    Ics_Types, Ics_Text, Ics_Dates     \<^verbatim>\<open>ics.go\<close>, \<^verbatim>\<open>duration.go\<close>, \<^verbatim>\<open>recurrence.go\<close>, \<^verbatim>\<open>vtimezone.go\<close>
    Pipeline, Pipeline_Props           \<^verbatim>\<open>config.go\<close>, \<^verbatim>\<open>matcher.go\<close>, \<^verbatim>\<open>pipeline.go\<close>, \<^verbatim>\<open>rules.go\<close>

  Store (\<^verbatim>\<open>internal/store\<close>), each table a list of rows with the schema's constraints as error branches.
    Store_Tables            feed cache, notification ledger, helpers
    Store_Feeds, Store_Jobs, Store_Users
                            feeds; sync jobs; users, sessions, resets, audit log
    Migrate                 \<^verbatim>\<open>migrate.go\<close>

  Feeds and notifications.
    Redact, Outbound, Clients
                            \<^verbatim>\<open>outbound.go\<close>: masking of links, the guard against private addresses, and the HTTP
                            clients of the other packages that carry it
    Proxy                   \<^verbatim>\<open>proxy.go\<close>, over the locale \<open>feed_cache\<close> (interpreted as \<open>store_cache\<close> on the table)
    Feed, Feed_Props        \<^verbatim>\<open>feed/service.go\<close>
    Notify, Notifier, Notifier_Props
                            \<^verbatim>\<open>notify.go\<close>, \<^verbatim>\<open>notifier.go\<close>, over the locale \<open>ledger\<close> (interpreted as \<open>store_ledger\<close>)

  Accounts, server, process.
    Config, Mail, Auth, Auth_Props     \<^verbatim>\<open>config.go\<close>, \<^verbatim>\<open>mail.go\<close>, \<^verbatim>\<open>internal/auth\<close>
    Davsync, Davsync_Props             \<^verbatim>\<open>davsync/runner.go\<close> and the table of running jobs
    Server_Core, Server_Auth, Server_Feeds, Server_Jobs, Server_Routes
                            the handlers of \<^verbatim>\<open>internal/server\<close> and the table of routes: \<open>handler_of\<close> gives each
                            pattern its handler, a function of the request and the shared \<open>app_state\<close>
    Server_Samples, Server_Props, Server_Checks
                            concrete inputs, and the properties of the handlers
    Middleware, Ui          \<^verbatim>\<open>internal/server/middleware\<close>, \<^verbatim>\<open>server.go\<close>; \<^verbatim>\<open>ui/embed.go\<close>
    Scheduler, Cleanup      \<^verbatim>\<open>scheduler.go\<close> as a step relation; the jobs of \<^verbatim>\<open>main.go\<close>
    Boot                    \<^verbatim>\<open>store.Open\<close>, \<^verbatim>\<open>auth.New\<close>, \<^verbatim>\<open>app.New\<close>, \<^verbatim>\<open>main\<close>
    Sync_Steps              \<^verbatim>\<open>davsync/runner.go\<close> as a state machine \<open>run_phase\<close>, one step per access to shared state
    System, Integrity       the program as a transition system \<open>sys_step\<close> on \<open>app_state\<close>; the invariant \<open>db_ok\<close>
    Process                 scheduler goroutines, tickers, requests and manual runs interleaved; refines \<open>sys_step\<close>
    Races                   what interleaving breaks: a run that starts from an old state, a reset token used twice


  WHAT THE LEMMAS SHOW

  Runs of the whole program (System, Integrity, Process): whatever others do, a user's feeds and jobs stay as
  set up; identities and secrets stay unique and nothing refers to a missing account; the process with its
  goroutines refines the transition system, and no two of its goroutines are at work on one job; a runner's
  goroutine left alone is the run described as a whole. The abstract specifications are \<open>sys_step\<close> for the process, a
  two-state machine for outage alerts (Notifier_Props), the merge of the calendars that arrived for a merge
  with failing sources (Feed_Props), the traced calls for a sync run, and the contents of the two sides for what
  synchronising means (\<open>mirrored\<close>, \<open>agreed\<close>).
  Sync runs on servers that keep their promises, in whatever state they are and whatever listing,
  write or deletion fails on the way (reading a held item does not; bidirectional runs also need the ETag of what
  was stored in the answer to the \<open>PUT\<close>): a
  one-way run without an error leaves the destination a copy of the source, a bidirectional one leaves both sides
  in agreement with changes beating deletions, the recorded state tells the truth, and the next run on unedited
  sides does nothing; against servers that answer, a one-way run ends without an error. The promises are about
  contents: truthful listings, strong ETags, bodies the server may rewrite on storing (\<open>cs_keep\<close>) under an href it
  may choose (\<open>cs_at\<close>). The assumption that no one else edits during a run is built in: a world changes only by the
  calls of the run. Two weak points lie outside: \<open>changes_without_etags_unseen\<close> and \<open>unechoed_copies_never_settle\<close>.
  Sync runs on any servers: an empty listing of a known collection aborts before any write, deletions are confined to what
  earlier runs recorded, one-way sources are never written, counters count acknowledged calls.
  Access: every user route asks for a live session, sessions and resets end as they should, the group rules
  decide OIDC sign-in, secrets do not leave through answers, logs or messages, mail credentials travel over
  TLS only, user-supplied targets stay public.
  Availability: cached copies outlive outages, failing sources do not disturb others, undelivered
  notifications are retried and delivered ones are not repeated, jobs survive their errors, the scheduler
  stops, migrations run once, a failed start leaks nothing.
  Text: line folding and its inverse, bounds of folded lines, the exact transition found by bisection.
  Theorems that are not in the manifest's list are lemmas for it or record behaviour worth knowing, such as
  the weak points \<open>edit_mixes_twin_passwords\<close>, \<open>config_error_drops_state\<close>, \<open>outage_only_feed_never_fetches\<close>,
  \<open>panic_logs_secret_path\<close>, \<open>failed_starttls_not_closed\<close>, \<open>expire_overflow\<close>, \<open>destHref_clash\<close>,
  \<open>stale_state_loses_edit\<close> and \<open>reset_token_works_twice\<close>.


  CONVENTIONS AND BOUNDS

  Strings and byte slices are byte sequences (\<open>string\<close>). Go's int and time.Duration are 64-bit: arithmetic that
  can overflow goes through \<open>int64\<close>, elsewhere the ranges are hypotheses or proved; addresses are words.
  No definition takes fuel: loops are recursion on the data or have a termination proof (the bisection by the
  width of its interval), and endless goroutines are step relations. Go maps are association lists
  behind \<open>go_map_laws\<close>; the DAV loops that range over one visit it in any order (\<open>range_order\<close>), the others in list
  order, and no theorem depends on that order beyond what it states.
  Hypotheses about libraries stand in the theorem that needs them; each has a witness on concrete functions.


  NOT MODELLED

  Parameters of the model, because their code is not in the repository: SQLite (beyond the statements' meaning
  on rows; its I/O errors appear only in migration, start-up and cleanup), go-webdav, go-ical, go-vcard, regexp,
  JSON, bcrypt, SHA-256, the OIDC client, the time zone database, net/http and net/smtp. \<^verbatim>\<open>url.Parse\<close>,
  \<^verbatim>\<open>time.Parse\<close> and the string functions in use are written out.
  A request and a notifier run are one step each, as are the DAV calls of one sync run; the cleanup's three
  deletes, the other steps of a sync run, scheduled or manual, and the scheduler's own actions interleave. Contexts and their deadlines, log levels, flag parsing and signals are
  left out, as are the web frontend (TypeScript) and the text of the SQL scripts.
  Left for later: every request as a sequence of database actions, as Races does for the password reset, so that
  two edits of the same feed interleave.
\<close>

end
